(* ===== verification/Relay_Prelude.thy ===== *)
theory Relay_Prelude
  imports Main "HOL-Library.Word" "HOL-Library.AList" "HOL-Library.Code_Target_Nat"
begin

text \<open>
  The conventions every component shares: machine integers, Rust strings and the
  operations of the standard library that the relay applies to them, errors and panics
  as values, and hash maps as association lists.

  A Rust \<open>String\<close> is modelled by its UTF-8 bytes, a list of 8-bit characters; so is a
  \<open>Vec<u8>\<close>. Rust's \<open>len\<close>, equality, \<open>starts_with\<close>, \<open>find\<close> and \<open>split\<close> on ASCII
  patterns are operations on bytes. A Rust \<open>char\<close> is modelled by the UTF-8 bytes that
  encode it, and \<open>chars\<close> cuts a string before every byte that is not a continuation
  byte. Facts about characters outside ASCII that come from the Unicode tables are not
  computed here: they are parameters (see the theory of the external code).
\<close>

named_theorems relay_defs "definitions unfolded by the component proofs"

section \<open>Machine integers\<close>

type_synonym u32 = "32 word"
type_synonym u64 = "64 word"
type_synonym usize = "64 word"

type_synonym bytes = string

section \<open>Results and panics\<close>

text \<open>\<open>Result<T, E>\<close> is \<open>'e + 'a\<close>; a computation that may panic returns an \<open>exec\<close>.\<close>

datatype 'a exec = Done 'a | Panic

fun exec_bind :: "'a exec \<Rightarrow> ('a \<Rightarrow> 'b exec) \<Rightarrow> 'b exec" where
  "exec_bind (Done x) f = f x"
| "exec_bind Panic f = Panic"

fun map_exec :: "('a \<Rightarrow> 'b) \<Rightarrow> 'a exec \<Rightarrow> 'b exec" where
  "map_exec f (Done x) = Done (f x)"
| "map_exec f Panic = Panic"

lemma exec_bind_eq_Done [simp]:
  "exec_bind m f = Done y \<longleftrightarrow> (\<exists>x. m = Done x \<and> f x = Done y)"
  by (cases m) auto

lemma exec_bind_eq_Panic [simp]:
  "exec_bind m f = Panic \<longleftrightarrow> m = Panic \<or> (\<exists>x. m = Done x \<and> f x = Panic)"
  by (cases m) auto

lemma map_exec_eq_Done [simp]: "map_exec f m = Done y \<longleftrightarrow> (\<exists>x. m = Done x \<and> y = f x)"
  by (cases m) auto

lemma map_exec_eq_Panic [simp]: "map_exec f m = Panic \<longleftrightarrow> m = Panic"
  by (cases m) auto

fun result_ok :: "'e + 'a \<Rightarrow> 'a option" where
  "result_ok (Inl e) = None"
| "result_ok (Inr x) = Some x"

fun ok_or :: "'a option \<Rightarrow> 'e \<Rightarrow> 'e + 'a" where
  "ok_or None e = Inl e"
| "ok_or (Some x) e = Inr x"

fun result_bind :: "'e + 'a \<Rightarrow> ('a \<Rightarrow> 'e + 'b) \<Rightarrow> 'e + 'b" where
  "result_bind (Inl e) f = Inl e"
| "result_bind (Inr x) f = f x"

fun all_ok :: "('e + 'a) list \<Rightarrow> 'e + 'a list" where
  "all_ok [] = Inr []"
| "all_ok (Inl e # xs) = Inl e"
| "all_ok (Inr x # xs) = result_bind (all_ok xs) (\<lambda>ys. Inr (x # ys))"

lemma result_bind_Inr [simp]: "result_bind r f = Inr y \<longleftrightarrow> (\<exists>x. r = Inr x \<and> f x = Inr y)"
  by (cases r) auto

lemma all_ok_Inr: "all_ok xs = Inr ys \<longleftrightarrow> xs = map Inr ys"
  by (induction xs arbitrary: ys rule: all_ok.induct) (auto simp: Cons_eq_map_conv)

lemma result_ok_Some [simp]: "result_ok r = Some x \<longleftrightarrow> r = Inr x"
  by (cases r) auto

lemma result_ok_None [simp]: "result_ok r = None \<longleftrightarrow> (\<exists>e. r = Inl e)"
  by (cases r) auto

lemma ok_or_Inr [simp]: "ok_or m e = Inr x \<longleftrightarrow> m = Some x"
  by (cases m) auto

section \<open>Characters\<close>

definition is_cont :: "char \<Rightarrow> bool" where
  "is_cont c \<longleftrightarrow> 128 \<le> (of_char c :: nat) \<and> (of_char c :: nat) < 192"

definition is_ascii :: "char \<Rightarrow> bool" where
  "is_ascii c \<longleftrightarrow> (of_char c :: nat) < 128"

definition is_ascii_digit :: "char \<Rightarrow> bool" where
  "is_ascii_digit c \<longleftrightarrow> 48 \<le> (of_char c :: nat) \<and> (of_char c :: nat) \<le> 57"

definition is_ascii_lowercase :: "char \<Rightarrow> bool" where
  "is_ascii_lowercase c \<longleftrightarrow> 97 \<le> (of_char c :: nat) \<and> (of_char c :: nat) \<le> 122"

definition is_ascii_uppercase :: "char \<Rightarrow> bool" where
  "is_ascii_uppercase c \<longleftrightarrow> 65 \<le> (of_char c :: nat) \<and> (of_char c :: nat) \<le> 90"

definition is_ascii_hexdigit :: "char \<Rightarrow> bool" where
  "is_ascii_hexdigit c \<longleftrightarrow> is_ascii_digit c
     \<or> 97 \<le> (of_char c :: nat) \<and> (of_char c :: nat) \<le> 102
     \<or> 65 \<le> (of_char c :: nat) \<and> (of_char c :: nat) \<le> 70"

lemma hexdigit_is_ascii: "is_ascii_hexdigit c \<Longrightarrow> is_ascii c"
  by (auto simp: is_ascii_hexdigit_def is_ascii_def is_ascii_digit_def)

lemma ascii_not_cont: "is_ascii c \<Longrightarrow> \<not> is_cont c"
  by (simp add: is_ascii_def is_cont_def)

function chars :: "string \<Rightarrow> string list" where
  "chars [] = []"
| "chars (c # cs) = (c # takeWhile is_cont cs) # chars (dropWhile is_cont cs)"
  by pat_completeness auto
termination
  by (relation "measure length") (auto simp: length_dropWhile_le le_imp_less_Suc)

lemma concat_chars [simp]: "concat (chars s) = s"
  by (induction s rule: chars.induct) auto

lemma chars_Nil_iff [simp]: "chars s = [] \<longleftrightarrow> s = []"
  by (cases s) auto

lemma chars_ascii: "list_all is_ascii s \<Longrightarrow> chars s = map (\<lambda>c. [c]) s"
proof (induction s)
  case (Cons c cs)
  then have "takeWhile is_cont cs = [] \<and> dropWhile is_cont cs = cs"
    by (cases cs) (auto simp: ascii_not_cont)
  with Cons show ?case by simp
qed simp

lemma length_chars_le: "length (chars s) \<le> length s"
proof (induction s rule: chars.induct)
  case (2 c cs)
  then show ?case using length_dropWhile_le [of is_cont cs] by simp
qed simp

text \<open>\<open>s.chars().all(p)\<close> for a predicate that only ASCII characters satisfy.\<close>

definition all_ascii :: "(char \<Rightarrow> bool) \<Rightarrow> string \<Rightarrow> bool" where
  "all_ascii p s \<longleftrightarrow> list_all (\<lambda>ch. case ch of [c] \<Rightarrow> p c | _ \<Rightarrow> False) (chars s)"

lemma all_asciiI: "list_all p s \<Longrightarrow> (\<And>c. p c \<Longrightarrow> is_ascii c) \<Longrightarrow> all_ascii p s"
  by (simp add: all_ascii_def chars_ascii list_all_iff)

lemma all_ascii_iff:
  assumes "\<And>c. p c \<Longrightarrow> is_ascii c"
  shows "all_ascii p s \<longleftrightarrow> list_all p s"
proof
  have "list_all (\<lambda>ch. case ch of [c] \<Rightarrow> p c | _ \<Rightarrow> False) (chars s) \<Longrightarrow> list_all p s"
  proof (induction s rule: chars.induct)
    case (2 c cs)
    then have "takeWhile is_cont cs = []" and "p c"
      by (auto split: list.splits)
    moreover from this have "dropWhile is_cont cs = cs"
      by (metis append_Nil takeWhile_dropWhile_id)
    ultimately show ?case using 2 by simp
  qed simp
  then show "all_ascii p s \<Longrightarrow> list_all p s" by (simp add: all_ascii_def)
qed (auto intro: all_asciiI assms)

section \<open>Substrings\<close>

definition starts_with :: "string \<Rightarrow> string \<Rightarrow> bool" where
  "starts_with s p \<longleftrightarrow> take (length p) s = p"

definition ends_with :: "string \<Rightarrow> string \<Rightarrow> bool" where
  "ends_with s p \<longleftrightarrow> length p \<le> length s \<and> drop (length s - length p) s = p"

definition strip_prefix :: "string \<Rightarrow> string \<Rightarrow> string option" where
  "strip_prefix s p = (if starts_with s p then Some (drop (length p) s) else None)"

text \<open>The text before and after the first occurrence of a pattern (\<open>find\<close> and two slices).\<close>

fun split_once :: "string \<Rightarrow> string \<Rightarrow> (string \<times> string) option" where
  "split_once p [] = (if p = [] then Some ([], []) else None)"
| "split_once p (c # cs) =
     (if starts_with (c # cs) p then Some ([], drop (length p) (c # cs))
      else map_option (\<lambda>(b, a). (c # b, a)) (split_once p cs))"

definition contains :: "string \<Rightarrow> string \<Rightarrow> bool" where
  "contains s p \<longleftrightarrow> split_once p s \<noteq> None"

lemma starts_with_append [simp]: "starts_with (p @ s) p"
  by (simp add: starts_with_def)

lemma starts_with_Nil [simp]: "starts_with s []"
  by (simp add: starts_with_def)

lemma starts_with_iff: "starts_with s p \<longleftrightarrow> (\<exists>r. s = p @ r)"
  unfolding starts_with_def by (metis append_eq_conv_conj append_take_drop_id)

lemma split_once_Some: "split_once p s = Some (b, a) \<Longrightarrow> s = b @ p @ a"
proof (induction s arbitrary: b a)
  case (Cons c cs)
  then show ?case
    by (auto split: if_splits) (metis append_eq_conv_conj starts_with_iff)
qed (auto split: if_splits)

lemma contains_iff: "contains s p \<longleftrightarrow> (\<exists>b a. s = b @ p @ a)"
proof
  assume "contains s p"
  then show "\<exists>b a. s = b @ p @ a"
    unfolding contains_def by (metis not_None_eq split_once_Some surj_pair)
next
  have "split_once p (b @ p @ a) \<noteq> None" for b a
  proof (induction b)
    case Nil
    show ?case
    proof (cases "p @ a")
      case Nil
      then show ?thesis by simp
    next
      case (Cons c cs)
      then have "starts_with (c # cs) p" by (metis starts_with_append)
      with Cons show ?thesis by simp
    qed
  next
    case (Cons x b)
    then show ?case by auto
  qed
  then show "\<exists>b a. s = b @ p @ a \<Longrightarrow> contains s p" unfolding contains_def by blast
qed

section \<open>Splitting\<close>

fun split_char :: "char \<Rightarrow> string \<Rightarrow> string list" where
  "split_char d [] = [[]]"
| "split_char d (c # cs) =
     (if c = d then [] # split_char d cs
      else (case split_char d cs of [] \<Rightarrow> [[c]] | p # ps \<Rightarrow> (c # p) # ps))"

definition split_terminator :: "char \<Rightarrow> string \<Rightarrow> string list" where
  "split_terminator d s =
     (let ps = split_char d s in if last ps = [] then butlast ps else ps)"

lemma split_char_ne [simp]: "split_char d s \<noteq> []"
  by (induction s) (auto split: list.splits)

lemma split_char_none: "d \<notin> set s \<Longrightarrow> split_char d s = [s]"
  by (induction s) auto

lemma split_char_append: "d \<notin> set p \<Longrightarrow> split_char d (p @ d # s) = p # split_char d s"
  by (induction p) auto

lemma split_char_pieces: "p \<in> set (split_char d s) \<Longrightarrow> d \<notin> set p"
  by (induction s arbitrary: p) (auto split: if_splits list.splits)

function replace_all :: "string \<Rightarrow> string \<Rightarrow> string \<Rightarrow> string" where
  "replace_all p by [] = []"
| "replace_all p by (c # cs) =
     (if p \<noteq> [] \<and> starts_with (c # cs) p
      then by @ replace_all p by (drop (length p) (c # cs))
      else c # replace_all p by cs)"
  by pat_completeness auto
termination
  by (relation "measure (\<lambda>(p, by, s). length s)") (auto simp: neq_Nil_conv)

lemma replace_all_absent: "\<not> contains s p \<Longrightarrow> replace_all p by s = s"
proof (induction s)
  case (Cons c cs)
  then have "\<not> starts_with (c # cs) p" and "\<not> contains cs p"
    by (auto simp: contains_def split: if_splits)
  with Cons show ?case by simp
qed simp

fun join_with :: "string \<Rightarrow> string list \<Rightarrow> string" where
  "join_with sep [] = []"
| "join_with sep [s] = s"
| "join_with sep (s # t # ss) = s @ sep @ join_with sep (t # ss)"

section \<open>Decimal numbers\<close>

definition digit_val :: "char \<Rightarrow> nat" where
  "digit_val c = of_char c - 48"

fun digits_val :: "nat \<Rightarrow> string \<Rightarrow> nat option" where
  "digits_val acc [] = Some acc"
| "digits_val acc (c # cs) =
     (if is_ascii_digit c then digits_val (10 * acc + digit_val c) cs else None)"

text \<open>
  \<open>str::parse\<close> for an unsigned type of \<open>w\<close> bits: an optional plus sign, at least one
  digit, only digits, and no overflow.
\<close>

definition parse_unsigned :: "nat \<Rightarrow> string \<Rightarrow> nat option" where
  "parse_unsigned w s =
     (let ds = (case s of [] \<Rightarrow> [] | c # cs \<Rightarrow> if c = CHR ''+'' then cs else s) in
      if ds = [] then None
      else (case digits_val 0 ds of
              None \<Rightarrow> None
            | Some n \<Rightarrow> if n < 2 ^ w then Some n else None))"

definition parse_u64 :: "string \<Rightarrow> u64 option" where
  "parse_u64 s = map_option of_nat (parse_unsigned 64 s)"

definition parse_u32 :: "string \<Rightarrow> u32 option" where
  "parse_u32 s = map_option of_nat (parse_unsigned 32 s)"

fun nat_to_dec :: "nat \<Rightarrow> string" where
  "nat_to_dec n =
     (if n < 10 then [char_of (48 + n)] else nat_to_dec (n div 10) @ [char_of (48 + n mod 10)])"

declare nat_to_dec.simps [simp del]

definition u64_to_string :: "u64 \<Rightarrow> string" where
  "u64_to_string n = nat_to_dec (unat n)"

lemma digit_char: "n < 10 \<Longrightarrow> is_ascii_digit (char_of (48 + n)) \<and> digit_val (char_of (48 + n)) = n"
  by (simp add: is_ascii_digit_def digit_val_def)

lemma digits_val_append:
  "digits_val acc (xs @ ys) = (case digits_val acc xs of None \<Rightarrow> None | Some a \<Rightarrow> digits_val a ys)"
  by (induction xs arbitrary: acc) auto

lemma digits_val_dec: "digits_val 0 (nat_to_dec n) = Some n"
proof (induction n rule: nat_to_dec.induct)
  case (1 n)
  show ?case
  proof (cases "n < 10")
    case True
    then show ?thesis by (simp add: nat_to_dec.simps [of n] digit_char)
  next
    case False
    moreover have "10 * (n div 10) + n mod 10 = n" by simp
    ultimately show ?thesis
      using 1 digit_char [of "n mod 10"] by (simp add: nat_to_dec.simps [of n] digits_val_append)
  qed
qed

lemma nat_to_dec_digits: "list_all is_ascii_digit (nat_to_dec n)"
proof (induction n rule: nat_to_dec.induct)
  case (1 n)
  then show ?case
    using digit_char [of n] digit_char [of "n mod 10"]
    by (simp add: nat_to_dec.simps [of n])
qed

lemma nat_to_dec_ne [simp]: "nat_to_dec n \<noteq> []"
  by (simp add: nat_to_dec.simps [of n])

lemma plus_not_digit: "\<not> is_ascii_digit (CHR ''+'')"
  by (simp add: is_ascii_digit_def)

lemma parse_unsigned_dec:
  assumes "n < 2 ^ w"
  shows "parse_unsigned w (nat_to_dec n) = Some n"
proof -
  obtain c cs where s: "nat_to_dec n = c # cs" by (cases "nat_to_dec n") auto
  then have "is_ascii_digit c" using nat_to_dec_digits [of n] by simp
  then have "c \<noteq> CHR ''+''" using plus_not_digit by auto
  with s assms digits_val_dec [of n] show ?thesis
    by (simp add: parse_unsigned_def Let_def)
qed

lemma parse_u64_to_string: "parse_u64 (u64_to_string n) = Some n"
proof -
  have "unat n < 2 ^ 64" using unsigned_less [of n, where ?'a = nat] by simp
  from parse_unsigned_dec [OF this] show ?thesis by (simp add: parse_u64_def u64_to_string_def)
qed

lemma parse_unsigned_bound: "parse_unsigned w s = Some n \<Longrightarrow> n < 2 ^ w"
  by (auto simp: parse_unsigned_def Let_def split: if_splits option.splits)

section \<open>Hash maps and hash sets\<close>

text \<open>
  A \<open>HashMap\<close> is an association list with distinct keys, in the order in which that map
  iterates (\<open>map_of\<close> reads it, \<open>AList.update\<close> and \<open>AList.delete\<close> change it); a
  \<open>HashSet\<close> is a list of its elements. Rust's equality of maps and sets ignores order.
\<close>

definition set_eq :: "'a list \<Rightarrow> 'a list \<Rightarrow> bool" where
  "set_eq xs ys \<longleftrightarrow> list_all (\<lambda>x. x \<in> set ys) xs \<and> list_all (\<lambda>y. y \<in> set xs) ys"

lemma set_eq_iff: "set_eq xs ys \<longleftrightarrow> set xs = set ys"
  by (auto simp: set_eq_def list_all_iff)

definition map_eq :: "('b \<Rightarrow> 'b \<Rightarrow> bool) \<Rightarrow> ('a \<times> 'b) list \<Rightarrow> ('a \<times> 'b) list \<Rightarrow> bool" where
  "map_eq eq m n \<longleftrightarrow> length m = length n
     \<and> list_all (\<lambda>(k, v). case map_of n k of None \<Rightarrow> False | Some w \<Rightarrow> eq v w) m"

lemma map_of_update_other: "k \<noteq> k' \<Longrightarrow> map_of (AList.update k' v m) k = map_of m k"
  by (simp add: update_conv')

end
