(* ===== verification/External.thy ===== *)
theory External
  imports Relay_Prelude
begin

text \<open>
  What the relay uses of code outside the repository, as data and parameters.

  \<open>serde_json\<close> values are a datatype, with the accessors the source calls; an object is
  the list of its entries in the order the crate keeps them (the build enables
  \<open>preserve_order\<close>), with distinct keys. Everything else (hex, SHA-256, Schnorr
  signatures, the JSON printer and parser, regular expressions, subprocesses, URLs,
  durations, Unicode tables) is a field of the record \<open>ext\<close>, passed to every definition
  whose code calls it. Facts about these functions that a theorem needs are named
  hypotheses of that theorem (\<open>hex_law\<close> below), and its witness instantiates the record.
\<close>

section \<open>JSON values\<close>

datatype jnumber = PosInt u64 | NegInt u64 | JFloat u64

datatype json =
    JNull
  | JBool bool
  | JNumber jnumber
  | JString string
  | JArray "json list"
  | JObject "(string \<times> json) list"

fun as_object :: "json \<Rightarrow> (string \<times> json) list option" where
  "as_object (JObject m) = Some m"
| "as_object _ = None"

fun as_array :: "json \<Rightarrow> json list option" where
  "as_array (JArray xs) = Some xs"
| "as_array _ = None"

fun as_str :: "json \<Rightarrow> string option" where
  "as_str (JString s) = Some s"
| "as_str _ = None"

fun as_bool :: "json \<Rightarrow> bool option" where
  "as_bool (JBool b) = Some b"
| "as_bool _ = None"

fun as_u64 :: "json \<Rightarrow> u64 option" where
  "as_u64 (JNumber (PosInt n)) = Some n"
| "as_u64 _ = None"

fun is_array :: "json \<Rightarrow> bool" where
  "is_array (JArray _) = True"
| "is_array _ = False"

text \<open>\<open>Value::get(key)\<close>: the entry of an object, nothing for any other value.\<close>

fun json_get :: "json \<Rightarrow> string \<Rightarrow> json option" where
  "json_get (JObject m) k = map_of m k"
| "json_get _ k = None"

text \<open>\<open>Deserialize\<close> for \<open>Vec<String>\<close>, \<open>Vec<u64>\<close> and \<open>u64\<close> from a value.\<close>

fun all_some :: "'a option list \<Rightarrow> 'a list option" where
  "all_some [] = Some []"
| "all_some (None # xs) = None"
| "all_some (Some x # xs) = map_option ((#) x) (all_some xs)"

definition de_strings :: "json \<Rightarrow> string list option" where
  "de_strings v = Option.bind (as_array v) (\<lambda>xs. all_some (map as_str xs))"

definition de_u64s :: "json \<Rightarrow> u64 list option" where
  "de_u64s v = Option.bind (as_array v) (\<lambda>xs. all_some (map as_u64 xs))"

lemma all_some_Some: "all_some xs = Some ys \<longleftrightarrow> xs = map Some ys"
  by (induction xs arbitrary: ys rule: all_some.induct) (auto simp: Cons_eq_map_conv)

lemma all_some_None: "all_some xs = None \<longleftrightarrow> None \<in> set xs"
  by (induction xs rule: all_some.induct) auto

section \<open>External functions\<close>

record ext =
  hex_decode :: "string \<Rightarrow> bytes option"            \<comment> \<open>\<open>hex::decode(s).ok()\<close>\<close>
  hex_encode :: "bytes \<Rightarrow> string"                   \<comment> \<open>\<open>hex::encode\<close>\<close>
  sha256 :: "bytes \<Rightarrow> bytes"                        \<comment> \<open>\<open>sha256::Hash::hash\<close>\<close>
  digest_hex :: "bytes \<Rightarrow> string"                   \<comment> \<open>\<open>format!("{digest:x}")\<close>\<close>
  sig_from_str :: "string \<Rightarrow> bytes option"          \<comment> \<open>\<open>schnorr::Signature::from_str\<close>\<close>
  msg_from_slice :: "bytes \<Rightarrow> bytes option"         \<comment> \<open>\<open>secp256k1::Message::from_slice\<close>\<close>
  xonly_from_str :: "string \<Rightarrow> bytes option"        \<comment> \<open>\<open>XOnlyPublicKey::from_str\<close>\<close>
  verify_schnorr :: "bytes \<Rightarrow> bytes \<Rightarrow> bytes \<Rightarrow> bool" \<comment> \<open>signature, message, key\<close>
  json_to_string :: "json \<Rightarrow> string option"         \<comment> \<open>\<open>serde_json::to_string\<close>\<close>
  json_from_str :: "string \<Rightarrow> json option"          \<comment> \<open>\<open>serde_json::from_str\<close>\<close>
  json_error :: "string \<Rightarrow> string"                \<comment> \<open>the text of its error\<close>
  regex_new :: "string \<Rightarrow> string + unit"            \<comment> \<open>\<open>Regex::new\<close>: the error's text\<close>
  is_match :: "string \<Rightarrow> string \<Rightarrow> bool"           \<comment> \<open>pattern, value\<close>
  run_script :: "string \<Rightarrow> string \<Rightarrow> string option \<Rightarrow> string + bool"
    \<comment> \<open>path, standard input, \<open>AUTH_PUBKEY\<close>: the error's text, or whether it exits with 0\<close>
  keys_from_pk :: "string \<Rightarrow> string option"         \<comment> \<open>\<open>Keys::from_pk_str\<close>: the public key as text\<close>
  uri_valid :: "string \<Rightarrow> bool"                    \<comment> \<open>\<open>parse::<http::Uri>()\<close> succeeds\<close>
  url_host :: "string \<Rightarrow> string option"             \<comment> \<open>\<open>Url::parse(..).host_str()\<close>\<close>
  parse_duration :: "string \<Rightarrow> u64 option"          \<comment> \<open>\<open>parse_duration::parse\<close>, in seconds\<close>
  uni_alphanumeric :: "string \<Rightarrow> bool"              \<comment> \<open>non-ASCII characters only\<close>
  uni_whitespace :: "string \<Rightarrow> bool"
  uni_lower :: "string \<Rightarrow> string"
  uni_upper :: "string \<Rightarrow> string"

text \<open>Decoding is defined on text of hexadecimal digits only, and ignores their case only.\<close>

definition ascii_lower_char :: "char \<Rightarrow> char" where
  "ascii_lower_char c = (if is_ascii_uppercase c then char_of (of_char c + 32 :: nat) else c)"

definition ascii_upper_char :: "char \<Rightarrow> char" where
  "ascii_upper_char c = (if is_ascii_lowercase c then char_of (of_char c - 32 :: nat) else c)"

definition hex_law :: "ext \<Rightarrow> bool" where
  "hex_law X \<longleftrightarrow>
     (\<forall>s. hex_decode X s \<noteq> None \<longleftrightarrow> even (length s) \<and> list_all is_ascii_hexdigit s) \<and>
     (\<forall>s t. hex_decode X s \<noteq> None \<longrightarrow> hex_decode X t \<noteq> None \<longrightarrow>
        (hex_decode X s = hex_decode X t \<longleftrightarrow> map ascii_lower_char s = map ascii_lower_char t))"

section \<open>Functions of the standard library that read the Unicode tables\<close>

definition is_alphanumeric :: "ext \<Rightarrow> string \<Rightarrow> bool" where
  "is_alphanumeric X ch =
     (case ch of
        [c] \<Rightarrow> if is_ascii c
              then is_ascii_digit c \<or> is_ascii_lowercase c \<or> is_ascii_uppercase c
              else uni_alphanumeric X ch
      | _ \<Rightarrow> uni_alphanumeric X ch)"

definition is_whitespace :: "ext \<Rightarrow> string \<Rightarrow> bool" where
  "is_whitespace X ch =
     (case ch of
        [c] \<Rightarrow> if is_ascii c then (of_char c :: nat) \<in> {9, 10, 11, 12, 13, 32}
              else uni_whitespace X ch
      | _ \<Rightarrow> uni_whitespace X ch)"

definition trim :: "ext \<Rightarrow> string \<Rightarrow> string" where
  "trim X s =
     concat (rev (dropWhile (is_whitespace X) (rev (dropWhile (is_whitespace X) (chars s)))))"

definition char_case :: "(char \<Rightarrow> char) \<Rightarrow> (string \<Rightarrow> string) \<Rightarrow> string \<Rightarrow> string" where
  "char_case asc uni ch =
     (case ch of [c] \<Rightarrow> if is_ascii c then [asc c] else uni ch | _ \<Rightarrow> uni ch)"

definition to_lowercase :: "ext \<Rightarrow> string \<Rightarrow> string" where
  "to_lowercase X s = concat (map (char_case ascii_lower_char (uni_lower X)) (chars s))"

definition to_uppercase :: "ext \<Rightarrow> string \<Rightarrow> string" where
  "to_uppercase X s = concat (map (char_case ascii_upper_char (uni_upper X)) (chars s))"

lemma hex_decode_Some_ascii: "hex_law X \<Longrightarrow> hex_decode X s = Some b \<Longrightarrow> list_all is_ascii_hexdigit s"
  unfolding hex_law_def by (metis option.distinct(1))

lemma hex_decode_inj_lower:
  assumes "hex_law X" and "hex_decode X s = Some b" and "hex_decode X t = Some b"
    and "map ascii_lower_char s = s" and "map ascii_lower_char t = t"
  shows "s = t"
  using assms unfolding hex_law_def by (metis option.distinct(1))

section \<open>A concrete instance, for the witnesses\<close>

definition hex_val :: "char \<Rightarrow> nat" where
  "hex_val c = (let n = of_char (ascii_lower_char c) in if n < 97 then n - 48 else n - 87)"

fun ref_hex_decode :: "string \<Rightarrow> bytes option" where
  "ref_hex_decode [] = Some []"
| "ref_hex_decode [c] = None"
| "ref_hex_decode (c # d # s) =
     (if is_ascii_hexdigit c \<and> is_ascii_hexdigit d
      then map_option ((#) (char_of (16 * hex_val c + hex_val d))) (ref_hex_decode s)
      else None)"

definition hex_char :: "nat \<Rightarrow> char" where
  "hex_char n = char_of (if n < 10 then 48 + n else 87 + n)"

definition ref_hex_encode :: "bytes \<Rightarrow> string" where
  "ref_hex_encode bs =
     concat (map (\<lambda>b. [hex_char (of_char b div 16), hex_char (of_char b mod 16)]) bs)"

definition ext0 :: ext where
  "ext0 = \<lparr>hex_decode = ref_hex_decode, hex_encode = ref_hex_encode,
     sha256 = (\<lambda>b. take 4 (b @ ''0000'')), digest_hex = ref_hex_encode,
     sig_from_str = (\<lambda>s. if s = [] then None else Some s),
     msg_from_slice = Some,
     xonly_from_str = (\<lambda>s. if s = [] then None else Some s),
     verify_schnorr = (\<lambda>s m k. s = k),
     json_to_string = (\<lambda>j. Some ''[json]''), json_from_str = (\<lambda>s. Some JNull),
     json_error = (\<lambda>s. ''expected value''),
     regex_new = (\<lambda>p. if p = ''['' then Inl ''unclosed'' else Inr ()),
     is_match = (\<lambda>p v. p = v),
     run_script = (\<lambda>p i a. Inr True),
     keys_from_pk = (\<lambda>s. if s = [] then None else Some s), uri_valid = (\<lambda>u. True), url_host = (\<lambda>u. if u = [] then None else Some u),
     parse_duration = (\<lambda>s. parse_u64 s),
     uni_alphanumeric = (\<lambda>c. False), uni_whitespace = (\<lambda>c. False),
     uni_lower = (\<lambda>c. c), uni_upper = (\<lambda>c. c)\<rparr>"

lemma lower_hexdigit:
  assumes "is_ascii_hexdigit c"
  shows "48 \<le> (of_char (ascii_lower_char c) :: nat) \<and> (of_char (ascii_lower_char c) :: nat) \<le> 57
     \<or> 97 \<le> (of_char (ascii_lower_char c) :: nat) \<and> (of_char (ascii_lower_char c) :: nat) \<le> 102"
  using assms
  by (auto simp: is_ascii_hexdigit_def is_ascii_digit_def ascii_lower_char_def is_ascii_uppercase_def)

lemma hex_val_bound: "is_ascii_hexdigit c \<Longrightarrow> hex_val c < 16"
  using lower_hexdigit [of c] by (auto simp: hex_val_def Let_def)

lemma hex_code_inj:
  fixes m n :: nat
  assumes "48 \<le> m \<and> m \<le> 57 \<or> 97 \<le> m \<and> m \<le> 102"
    and "48 \<le> n \<and> n \<le> 57 \<or> 97 \<le> n \<and> n \<le> 102"
  shows "(if m < 97 then m - 48 else m - 87) = (if n < 97 then n - 48 else n - 87) \<longleftrightarrow> m = n"
  using assms by (cases "m < 97"; cases "n < 97") auto

lemma hex_val_inj:
  assumes "is_ascii_hexdigit c" and "is_ascii_hexdigit d"
  shows "hex_val c = hex_val d \<longleftrightarrow> ascii_lower_char c = ascii_lower_char d"
  using hex_code_inj [OF lower_hexdigit [OF assms(1)] lower_hexdigit [OF assms(2)]]
  by (simp add: hex_val_def Let_def)

lemma nibbles_inj:
  fixes a b a' b' :: nat
  assumes "a < 16" "b < 16" "a' < 16" "b' < 16"
  shows "(16 * a + b) mod 256 = (16 * a' + b') mod 256 \<longleftrightarrow> a = a' \<and> b = b'"
proof -
  have "16 * a + b < 256" and "16 * a' + b' < 256" using assms by linarith+
  then have "(16 * a + b) mod 256 = (16 * a' + b') mod 256 \<longleftrightarrow> 16 * a + b = 16 * a' + b'"
    by (simp only: mod_less)
  also have "\<dots> \<longleftrightarrow> a = a' \<and> b = b'"
  proof
    assume eq: "16 * a + b = 16 * a' + b'"
    have "(16 * a + b) div 16 = a" and "(16 * a' + b') div 16 = a'" using assms by simp_all
    with eq have "a = a'" by simp
    with eq show "a = a' \<and> b = b'" by simp
  qed simp
  finally show ?thesis .
qed

lemma hex_pair_inj:
  assumes "is_ascii_hexdigit c" "is_ascii_hexdigit d" "is_ascii_hexdigit c'" "is_ascii_hexdigit d'"
  shows "(16 * hex_val c + hex_val d) mod 256 = (16 * hex_val c' + hex_val d') mod 256
     \<longleftrightarrow> ascii_lower_char c = ascii_lower_char c' \<and> ascii_lower_char d = ascii_lower_char d'"
  using assms by (simp add: nibbles_inj hex_val_bound hex_val_inj)

lemma ref_hex_decode_None:
  "ref_hex_decode s \<noteq> None \<longleftrightarrow> even (length s) \<and> list_all is_ascii_hexdigit s"
  by (induction s rule: ref_hex_decode.induct) auto

lemma ref_hex_decode_inj:
  "ref_hex_decode s = Some x \<Longrightarrow> ref_hex_decode t = Some y \<Longrightarrow>
   x = y \<longleftrightarrow> map ascii_lower_char s = map ascii_lower_char t"
proof (induction s arbitrary: t x y rule: ref_hex_decode.induct)
  case 1
  then show ?case by (cases t rule: ref_hex_decode.cases) (auto split: if_splits)
next
  case (3 c d s)
  then show ?case
    by (cases t rule: ref_hex_decode.cases)
      (auto simp: hex_pair_inj split: if_splits)
qed simp

lemma hex_law_ext0: "hex_law ext0"
proof -
  have "hex_decode ext0 = ref_hex_decode" by (simp add: ext0_def)
  moreover have "(ref_hex_decode s = ref_hex_decode t)
      = (map ascii_lower_char s = map ascii_lower_char t)"
    if "ref_hex_decode s \<noteq> None" and "ref_hex_decode t \<noteq> None" for s t
    using that ref_hex_decode_inj [of s _ t] by fastforce
  ultimately show ?thesis by (simp add: hex_law_def ref_hex_decode_None del: not_None_eq)
qed

end
