(* ===== verification/Notice.thy ===== *)
theory Notice
  imports Relay_Prelude
begin

text \<open>
  The relay's errors (\<open>src/src/error.rs\<close>) and the NIP-01 OK and NOTICE envelopes
  (\<open>src/src/notice.rs\<close>): the status of an event result, the machine-readable prefixes,
  and the constructors that add a prefix unless the text already has one. The main
  lemmas: every rejection carries exactly one known prefix, the status agrees with it,
  and adding a prefix is idempotent.
\<close>

section \<open>Errors\<close>

text \<open>Errors that wrap another library's error keep its text.\<close>

datatype error =
    ProtoParseError
  | ConnError
  | ConnWriteError
  | EventParseFailed
  | CloseParseFailed
  | EventInvalidSignature
  | EventInvalidId
  | EventMalformedPubkey
  | EventCouldNotCanonicalize
  | EventMaxLengthError nat
  | SubIdMaxLengthError
  | SubMaxExceededError
  | JsonParseFailed string
  | WebsocketError string
  | CommandUnknownError
  | SqlError string
  | ConfigError string
  | DatabaseDirError
  | DatabasePoolError string
  | SqlxError string
  | SqlxDatabasePoolError string
  | CustomError string
  | JoinError
  | HyperError string
  | HexError string
  | DelegationParseError
  | ChannelClosed
  | AuthzError
  | TonicError string
  | AuthFailure
  | IoError string
  | EventError string
  | NostrKeyError string
  | PaymentHash
  | URLParseError string
  | HTTPError string
  | UnknownError

text \<open>\<open>rusqlite::Error::QueryReturnedNoRows\<close> and \<open>sqlx::Error::RowNotFound\<close>.\<close>

definition query_returned_no_rows :: string where
  "query_returned_no_rows = ''Query returned no rows''"

definition row_not_found :: string where
  "row_not_found = ''RowNotFound''"

definition is_no_rows :: "error \<Rightarrow> bool" where
  "is_no_rows e \<longleftrightarrow> e = SqlError query_returned_no_rows \<or> e = SqlxError row_not_found"

text \<open>The \<open>Display\<close> text of an error, as \<open>thiserror\<close> derives it from the attributes.\<close>

fun error_text :: "error \<Rightarrow> string" where
  "error_text ProtoParseError = ''Protocol parse error''"
| "error_text ConnError = ''Connection error''"
| "error_text ConnWriteError = ''Client write error''"
| "error_text EventParseFailed = ''EVENT parse failed''"
| "error_text CloseParseFailed = ''CLOSE message parse failed''"
| "error_text EventInvalidSignature = ''Event invalid signature''"
| "error_text EventInvalidId = ''Event invalid id''"
| "error_text EventMalformedPubkey = ''Event malformed pubkey''"
| "error_text EventCouldNotCanonicalize = ''Event could not canonicalize''"
| "error_text (EventMaxLengthError n) = ''Event too large''"
| "error_text SubIdMaxLengthError = ''Subscription identifier max length exceeded''"
| "error_text SubMaxExceededError = ''Maximum concurrent subscription count reached''"
| "error_text (JsonParseFailed s) = ''JSON parsing failed''"
| "error_text (WebsocketError s) = ''WebSocket proto error''"
| "error_text CommandUnknownError = ''Command unknown''"
| "error_text (SqlError s) = ''SQL error''"
| "error_text (ConfigError s) = ''Config error : '' @ s"
| "error_text DatabaseDirError = ''Data directory does not exist''"
| "error_text (DatabasePoolError s) = ''Database Connection Pool Error''"
| "error_text (SqlxError s) = ''SQL error''"
| "error_text (SqlxDatabasePoolError s) = ''Database Connection Pool Error''"
| "error_text (CustomError s) = ''Custom Error : '' @ s"
| "error_text JoinError = ''Task join error''"
| "error_text (HyperError s) = ''Hyper Client error''"
| "error_text (HexError s) = ''Hex encoding error''"
| "error_text DelegationParseError = ''Delegation parse error''"
| "error_text ChannelClosed = ''Channel closed error''"
| "error_text AuthzError = ''Authz error''"
| "error_text (TonicError s) = ''Tonic GRPC error''"
| "error_text AuthFailure = ''Invalid AUTH message''"
| "error_text (IoError s) = ''I/O Error''"
| "error_text (EventError s) = ''Event builder error''"
| "error_text (NostrKeyError s) = ''Nostr key error''"
| "error_text PaymentHash = ''Payment hash mismatch''"
| "error_text (URLParseError s) = ''Error parsing url''"
| "error_text (HTTPError s) = ''HTTP error''"
| "error_text UnknownError = ''Unknown/Undocumented''"

section \<open>Event results\<close>

datatype event_result_status =
  Saved | Duplicate | Invalid | Blocked | RateLimited | Error | Restricted | AuthRequired

record event_result =
  er_id :: string
  er_msg :: string
  er_status :: event_result_status

datatype notice =
    Message string
  | EventResult event_result
  | AuthChallenge string

instantiation event_result_status :: enum
begin

definition enum_event_result_status :: "event_result_status list" where
  "enum_event_result_status =
     [Saved, Duplicate, Invalid, Blocked, RateLimited, Error, Restricted, AuthRequired]"

definition enum_all_event_result_status :: "(event_result_status \<Rightarrow> bool) \<Rightarrow> bool" where
  "enum_all_event_result_status P \<longleftrightarrow>
     P Saved \<and> P Duplicate \<and> P Invalid \<and> P Blocked \<and> P RateLimited \<and> P Error \<and> P Restricted
     \<and> P AuthRequired"

definition enum_ex_event_result_status :: "(event_result_status \<Rightarrow> bool) \<Rightarrow> bool" where
  "enum_ex_event_result_status P \<longleftrightarrow>
     P Saved \<or> P Duplicate \<or> P Invalid \<or> P Blocked \<or> P RateLimited \<or> P Error \<or> P Restricted
     \<or> P AuthRequired"

instance
proof
  have univ: "(UNIV :: event_result_status set) =
      {Saved, Duplicate, Invalid, Blocked, RateLimited, Error, Restricted, AuthRequired}"
    using event_result_status.exhaust by auto
  show "UNIV = set (enum_class.enum :: event_result_status list)"
    by (simp add: univ enum_event_result_status_def)
  show "distinct (enum_class.enum :: event_result_status list)"
    by (simp add: enum_event_result_status_def)
  show "enum_class.enum_all P \<longleftrightarrow> Ball UNIV P" for P :: "event_result_status \<Rightarrow> bool"
    by (simp add: univ enum_all_event_result_status_def)
  show "enum_class.enum_ex P \<longleftrightarrow> Bex UNIV P" for P :: "event_result_status \<Rightarrow> bool"
    by (simp add: univ enum_ex_event_result_status_def)
qed

end

fun to_bool :: "event_result_status \<Rightarrow> bool" where
  "to_bool Duplicate = True"
| "to_bool Saved = True"
| "to_bool Invalid = False"
| "to_bool Blocked = False"
| "to_bool RateLimited = False"
| "to_bool Error = False"
| "to_bool Restricted = False"
| "to_bool AuthRequired = False"

fun prefix_of :: "event_result_status \<Rightarrow> string" where
  "prefix_of Saved = ''saved''"
| "prefix_of Duplicate = ''duplicate''"
| "prefix_of Invalid = ''invalid''"
| "prefix_of Blocked = ''blocked''"
| "prefix_of RateLimited = ''rate-limited''"
| "prefix_of Error = ''error''"
| "prefix_of Restricted = ''restricted''"
| "prefix_of AuthRequired = ''auth-required''"

definition from_prefix :: "string \<Rightarrow> event_result_status option" where
  "from_prefix p =
     (if p = ''saved'' then Some Saved
      else if p = ''duplicate'' then Some Duplicate
      else if p = ''invalid'' then Some Invalid
      else if p = ''blocked'' then Some Blocked
      else if p = ''rate-limited'' then Some RateLimited
      else if p = ''error'' then Some Error
      else if p = ''restricted'' then Some Restricted
      else if p = ''auth-required'' then Some AuthRequired
      else if p = ''pow'' then Some Invalid
      else if p = ''unsupported'' then Some Error
      else None)"

definition known_prefixes :: "string list" where
  "known_prefixes =
     [''auth-required'', ''pow'', ''duplicate'', ''blocked'', ''rate-limited'', ''invalid'',
      ''error'', ''unsupported'', ''restricted'']"

text \<open>\<open>parse_reason\<close>: the prefix, the detail and whether a known prefix was found.\<close>

definition parse_reason :: "string \<Rightarrow> string option \<times> string \<times> bool" where
  "parse_reason msg =
     (case split_once '': '' msg of
        None \<Rightarrow> (None, msg, False)
      | Some (p, detail) \<Rightarrow>
          if p = [] then (None, msg, False)
          else if p \<in> set known_prefixes then (Some p, detail, True)
          else (None, msg, False))"

definition ensure_reason :: "string \<Rightarrow> event_result_status \<Rightarrow> string" where
  "ensure_reason msg fallback =
     (if msg = [] then prefix_of fallback @ '': rejected''
      else (case parse_reason msg of
              (_, _, True) \<Rightarrow> msg
            | _ \<Rightarrow> prefix_of fallback @ '': '' @ msg))"

definition prefixed :: "string \<Rightarrow> string \<Rightarrow> event_result_status \<Rightarrow> notice" where
  "prefixed i m status =
     (let msg = ensure_reason m status;
          st = (case parse_reason msg of
                  (Some p, _, True) \<Rightarrow> (case from_prefix p of Some s \<Rightarrow> s | None \<Rightarrow> status)
                | _ \<Rightarrow> status)
      in EventResult \<lparr>er_id = i, er_msg = msg, er_status = st\<rparr>)"

definition from_reason :: "string \<Rightarrow> string \<Rightarrow> notice" where
  "from_reason i m =
     (let msg = ensure_reason m Blocked;
          st = (case parse_reason msg of
                  (Some p, _, True) \<Rightarrow> (case from_prefix p of Some s \<Rightarrow> s | None \<Rightarrow> Blocked)
                | _ \<Rightarrow> Blocked)
      in EventResult \<lparr>er_id = i, er_msg = msg, er_status = st\<rparr>)"

definition notice_message :: "string \<Rightarrow> notice" where
  "notice_message msg = Message msg"

definition notice_invalid :: "string \<Rightarrow> string \<Rightarrow> notice" where
  "notice_invalid i m = prefixed i m Invalid"

definition notice_blocked :: "string \<Rightarrow> string \<Rightarrow> notice" where
  "notice_blocked i m = prefixed i m Blocked"

definition notice_rate_limited :: "string \<Rightarrow> string \<Rightarrow> notice" where
  "notice_rate_limited i m = prefixed i m RateLimited"

definition notice_auth_required :: "string \<Rightarrow> string \<Rightarrow> notice" where
  "notice_auth_required i m = prefixed i m AuthRequired"

definition notice_duplicate :: "string \<Rightarrow> notice" where
  "notice_duplicate i = prefixed i [] Duplicate"

definition notice_error :: "string \<Rightarrow> string \<Rightarrow> notice" where
  "notice_error i m = prefixed i m Error"

definition notice_restricted :: "string \<Rightarrow> string \<Rightarrow> notice" where
  "notice_restricted i m = prefixed i m Restricted"

definition notice_saved :: "string \<Rightarrow> notice" where
  "notice_saved i = EventResult \<lparr>er_id = i, er_msg = [], er_status = Saved\<rparr>"

section \<open>Properties\<close>

text \<open>A message is well formed if it starts with a known prefix, a colon and a space.\<close>

definition has_reason :: "string \<Rightarrow> bool" where
  "has_reason msg \<longleftrightarrow> (\<exists>p \<in> set known_prefixes. \<exists>d. msg = p @ '': '' @ d)"

lemma split_once_prefix:
  "CHR '':'' \<notin> set p \<Longrightarrow> split_once '': '' (p @ '': '' @ d) = Some (p, d)"
proof (induction p)
  case (Cons c p)
  then show ?case by (auto simp: starts_with_def)
qed (simp add: starts_with_def)

lemma known_prefix_no_colon: "p \<in> set known_prefixes \<Longrightarrow> CHR '':'' \<notin> set p \<and> p \<noteq> []"
  by (auto simp: known_prefixes_def)

lemma parse_reason_known:
  "p \<in> set known_prefixes \<Longrightarrow> parse_reason (p @ '': '' @ d) = (Some p, d, True)"
  using known_prefix_no_colon [of p] split_once_prefix [of p d] by (simp add: parse_reason_def)

lemma parse_reason_True:
  "parse_reason msg = (q, d, True) \<longleftrightarrow> (\<exists>p \<in> set known_prefixes. q = Some p \<and> msg = p @ '': '' @ d)"
proof
  assume "parse_reason msg = (q, d, True)"
  then show "\<exists>p \<in> set known_prefixes. q = Some p \<and> msg = p @ '': '' @ d"
    by (auto simp: parse_reason_def split: option.splits if_splits dest: split_once_Some)
next
  show "\<exists>p \<in> set known_prefixes. q = Some p \<and> msg = p @ '': '' @ d \<Longrightarrow> parse_reason msg = (q, d, True)"
    using parse_reason_known by auto
qed

lemma parse_reason_found_iff: "snd (snd (parse_reason msg)) \<longleftrightarrow> has_reason msg"
proof -
  obtain q d f where "parse_reason msg = (q, d, f)" by (cases "parse_reason msg")
  moreover have "has_reason msg \<longleftrightarrow> (\<exists>q d. parse_reason msg = (q, d, True))"
    by (auto simp: has_reason_def parse_reason_True)
  ultimately show ?thesis by auto
qed

lemma ensure_reason_keep: "has_reason msg \<Longrightarrow> ensure_reason msg s = msg"
proof -
  assume h: "has_reason msg"
  then have "msg \<noteq> []" by (auto simp: has_reason_def)
  with h show ?thesis
    using parse_reason_found_iff [of msg]
    by (auto simp: ensure_reason_def split: prod.splits bool.splits)
qed

lemma ensure_reason_add:
  "\<not> has_reason msg \<Longrightarrow> msg \<noteq> [] \<Longrightarrow> ensure_reason msg s = prefix_of s @ '': '' @ msg"
  using parse_reason_found_iff [of msg]
  by (auto simp: ensure_reason_def split: prod.splits bool.splits)

lemma prefix_known: "s \<noteq> Saved \<Longrightarrow> prefix_of s \<in> set known_prefixes"
  by (cases s) (auto simp: known_prefixes_def)

lemma ensure_reason_has: "s \<noteq> Saved \<Longrightarrow> has_reason (ensure_reason msg s)"
proof (cases "msg = []")
  case True
  then have "ensure_reason msg s = prefix_of s @ '': '' @ ''rejected''"
    by (simp add: ensure_reason_def)
  then show "s \<noteq> Saved \<Longrightarrow> ?thesis" unfolding has_reason_def using prefix_known by blast
next
  case False
  then show "s \<noteq> Saved \<Longrightarrow> ?thesis"
    using ensure_reason_keep [of msg s] ensure_reason_add [of msg s] prefix_known [of s]
    by (cases "has_reason msg") (auto simp: has_reason_def)
qed

lemma from_prefix_known: "p \<in> set known_prefixes \<Longrightarrow> \<exists>s. from_prefix p = Some s \<and> s \<noteq> Saved"
  by (auto simp: known_prefixes_def from_prefix_def)

lemma from_prefix_prefix_of: "from_prefix (prefix_of s) = Some s"
  by (cases s) (simp_all add: from_prefix_def)

lemma from_reason_prefixed: "from_reason i m = prefixed i m Blocked"
  by (simp add: from_reason_def prefixed_def)

lemma prefixed_cases:
  assumes "status \<noteq> Saved"
  obtains p d s where "p \<in> set known_prefixes" and "from_prefix p = Some s" and "s \<noteq> Saved"
    and "ensure_reason m status = p @ '': '' @ d"
    and "prefixed i m status = EventResult \<lparr>er_id = i, er_msg = p @ '': '' @ d, er_status = s\<rparr>"
proof -
  from ensure_reason_has [OF assms] obtain p d
    where p: "p \<in> set known_prefixes" and m: "ensure_reason m status = p @ '': '' @ d"
    unfolding has_reason_def by blast
  from from_prefix_known [OF p] obtain s where "from_prefix p = Some s" and "s \<noteq> Saved" by blast
  moreover from this have "prefixed i m status = EventResult \<lparr>er_id = i, er_msg = p @ '': '' @ d, er_status = s\<rparr>"
    unfolding prefixed_def Let_def m parse_reason_known [OF p] by simp
  ultimately show thesis using p m by (rule_tac that)
qed

end
