(* ===== verification/Event_Data.thy ===== *)
theory Event_Data
  imports External Notice
begin

text \<open>
  The event record and the operations on it that need no cryptography
  (\<open>src/src/event.rs\<close>), with the string predicates of \<open>src/src/utils.rs\<close>: kind classes,
  expiration, the distinct parameter of a parameterized replaceable event, the tag
  index and its lookup, and the canonical JSON form. The time of day, which the code
  reads with \<open>unix_time()\<close>, is the argument \<open>now\<close>.
\<close>

section \<open>String predicates\<close>

definition is_hex :: "string \<Rightarrow> bool" where
  "is_hex s \<longleftrightarrow> all_ascii is_ascii_hexdigit s"

definition is_lower_hex :: "string \<Rightarrow> bool" where
  "is_lower_hex s \<longleftrightarrow>
     all_ascii (\<lambda>x. (is_ascii_lowercase x \<or> is_ascii_digit x) \<and> is_ascii_hexdigit x) s"

definition is_nip19 :: "string \<Rightarrow> bool" where
  "is_nip19 s \<longleftrightarrow> starts_with s ''npub'' \<or> starts_with s ''note''"

definition host_str :: "ext \<Rightarrow> string \<Rightarrow> string option" where
  "host_str X url = url_host X url"

lemma is_hex_iff: "is_hex s \<longleftrightarrow> list_all is_ascii_hexdigit s"
  by (simp add: is_hex_def all_ascii_iff hexdigit_is_ascii)

lemma is_lower_hex_iff:
  "is_lower_hex s \<longleftrightarrow>
     list_all (\<lambda>x. (is_ascii_lowercase x \<or> is_ascii_digit x) \<and> is_ascii_hexdigit x) s"
  unfolding is_lower_hex_def by (rule all_ascii_iff) (simp add: hexdigit_is_ascii)

lemma is_lower_hex_is_hex: "is_lower_hex s \<Longrightarrow> is_hex s"
  by (auto simp: is_hex_iff is_lower_hex_iff list_all_iff)

lemma is_lower_hex_lower: "is_lower_hex s \<Longrightarrow> map ascii_lower_char s = s"
  by (induction s)
    (auto simp: is_lower_hex_iff ascii_lower_char_def is_ascii_lowercase_def is_ascii_uppercase_def
      is_ascii_digit_def)

section \<open>The event\<close>

type_synonym tag = "string list"

text \<open>\<open>HashMap<char, HashSet<String>>\<close>, keyed by one character.\<close>

type_synonym tag_map = "(string \<times> string list) list"

record event =
  e_id :: string
  e_pubkey :: string
  e_delegated_by :: "string option"
  e_created_at :: u64
  e_kind :: u64
  e_tags :: "tag list"
  e_content :: string
  e_sig :: string
  e_tagidx :: "tag_map option"

record event_cmd =
  cmd :: string
  cmd_event :: event

definition event_id :: "event_cmd \<Rightarrow> string" where
  "event_id ec = e_id (cmd_event ec)"

datatype event_wrapper = WrappedEvent event | WrappedAuth event

text \<open>The \<open>tags\<close> field of an event in JSON: \<open>null\<close> is read as no tags.\<close>

definition tag_from_string :: "json \<Rightarrow> tag list option" where
  "tag_from_string v =
     (case v of
        JNull \<Rightarrow> Some []
      | _ \<Rightarrow> Option.bind (as_array v) (\<lambda>xs. all_some (map de_strings xs)))"

definition single_char_tagname :: "string \<Rightarrow> string option" where
  "single_char_tagname tagname =
     (case chars tagname of [] \<Rightarrow> None | [ch] \<Rightarrow> Some ch | _ # _ # _ \<Rightarrow> None)"

section \<open>Kind classes\<close>

definition is_kind_metadata :: "event \<Rightarrow> bool" where
  "is_kind_metadata e \<longleftrightarrow> e_kind e = 0"

definition is_ephemeral :: "event \<Rightarrow> bool" where
  "is_ephemeral e \<longleftrightarrow> 20000 \<le> e_kind e \<and> e_kind e < 30000"

definition is_replaceable :: "event \<Rightarrow> bool" where
  "is_replaceable e \<longleftrightarrow>
     e_kind e = 0 \<or> e_kind e = 3 \<or> e_kind e = 41 \<or> 10000 \<le> e_kind e \<and> e_kind e < 20000"

definition is_param_replaceable :: "event \<Rightarrow> bool" where
  "is_param_replaceable e \<longleftrightarrow> 30000 \<le> e_kind e \<and> e_kind e < 40000"

section \<open>Tags\<close>

text \<open>The value of the first tag with the given name, the empty string if it has none.\<close>

definition first_tag_value :: "string \<Rightarrow> event \<Rightarrow> string option" where
  "first_tag_value name e =
     (case filter (\<lambda>t. t \<noteq> [] \<and> hd t = name) (e_tags e) of
        [] \<Rightarrow> None
      | t # _ \<Rightarrow> Some (if 1 < length t then t ! 1 else []))"

definition expiration :: "event \<Rightarrow> u64 option" where
  "expiration e = Option.bind (first_tag_value ''expiration'' e) parse_u64"

definition is_expired :: "u64 \<Rightarrow> event \<Rightarrow> bool" where
  "is_expired now e = (case expiration e of Some t \<Rightarrow> t \<le> now | None \<Rightarrow> False)"

definition distinct_param :: "event \<Rightarrow> string option" where
  "distinct_param e =
     (if is_param_replaceable e
      then (case first_tag_value ''d'' e of Some x \<Rightarrow> Some x | None \<Rightarrow> Some [])
      else None)"

definition tag_values_by_name :: "event \<Rightarrow> string \<Rightarrow> string list" where
  "tag_values_by_name e name =
     map (\<lambda>t. t ! 1) (filter (\<lambda>t. hd t = name) (filter (\<lambda>t. 1 < length t) (e_tags e)))"

definition idx_insert :: "string \<Rightarrow> string \<Rightarrow> tag_map \<Rightarrow> tag_map" where
  "idx_insert ch v idx =
     AList.update ch
       (List.insert v (case map_of idx ch of None \<Rightarrow> [] | Some vs \<Rightarrow> vs)) idx"

fun index_tags :: "tag list \<Rightarrow> tag_map \<Rightarrow> tag_map" where
  "index_tags [] idx = idx"
| "index_tags (t # ts) idx =
     (if 1 < length t
      then (case single_char_tagname (hd t) of
              None \<Rightarrow> index_tags ts idx
            | Some ch \<Rightarrow> index_tags ts (idx_insert ch (t ! 1) idx))
      else index_tags ts idx)"

definition build_index :: "event \<Rightarrow> event" where
  "build_index e =
     (if e_tags e = [] then e else e\<lparr>e_tagidx := Some (index_tags (e_tags e) [])\<rparr>)"

definition generic_tag_val_intersect :: "event \<Rightarrow> string \<Rightarrow> string list \<Rightarrow> bool" where
  "generic_tag_val_intersect e tagname check =
     (case e_tagidx e of
        None \<Rightarrow> False
      | Some idx \<Rightarrow>
          (case map_of idx tagname of
             None \<Rightarrow> False
           | Some valset \<Rightarrow> 0 < length (filter (\<lambda>v. v \<in> set check) valset)))"

definition get_event_id_prefix :: "event \<Rightarrow> string" where
  "get_event_id_prefix e = concat (take 8 (chars (e_id e)))"

definition get_author_prefix :: "event \<Rightarrow> string" where
  "get_author_prefix e = concat (take 8 (chars (e_pubkey e)))"

text \<open>Additions of 64-bit integers wrap (a release build).\<close>

definition is_valid_timestamp :: "u64 \<Rightarrow> event \<Rightarrow> usize option \<Rightarrow> bool" where
  "is_valid_timestamp now e reject_future =
     (case reject_future of
        None \<Rightarrow> True
      | Some allowable \<Rightarrow> \<not> (now + allowable < e_created_at e))"

section \<open>Canonical form\<close>

definition tags_to_canonical :: "event \<Rightarrow> json" where
  "tags_to_canonical e = JArray (map (\<lambda>t. JArray (map JString t)) (e_tags e))"

definition canonical_value :: "event \<Rightarrow> json" where
  "canonical_value e =
     JArray [JNumber (PosInt 0), JString (e_pubkey e), JNumber (PosInt (e_created_at e)),
             JNumber (PosInt (e_kind e)), tags_to_canonical e, JString (e_content e)]"

definition to_canonical :: "ext \<Rightarrow> event \<Rightarrow> string option" where
  "to_canonical X e = json_to_string X (canonical_value e)"

text \<open>The fields \<open>Serialize\<close> writes, in the order of the struct; two are skipped.\<close>

definition event_to_json :: "event \<Rightarrow> json" where
  "event_to_json e =
     JObject [(''id'', JString (e_id e)), (''pubkey'', JString (e_pubkey e)),
       (''created_at'', JNumber (PosInt (e_created_at e))), (''kind'', JNumber (PosInt (e_kind e))),
       (''tags'', tags_to_canonical e), (''content'', JString (e_content e)),
       (''sig'', JString (e_sig e))]"

text \<open>
  The derived \<open>Deserialize\<close>: from an object, where every field but the skipped ones must
  be there and others are ignored, or from an array of exactly these fields in order.
\<close>

definition event_of_fields ::
  "json \<Rightarrow> json \<Rightarrow> json \<Rightarrow> json \<Rightarrow> json \<Rightarrow> json \<Rightarrow> json \<Rightarrow> event option" where
  "event_of_fields ji jpk jca jk jts jc js =
     Option.bind (as_str ji) (\<lambda>i.
     Option.bind (as_str jpk) (\<lambda>pk.
     Option.bind (as_u64 jca) (\<lambda>ca.
     Option.bind (as_u64 jk) (\<lambda>k.
     Option.bind (tag_from_string jts) (\<lambda>ts.
     Option.bind (as_str jc) (\<lambda>c.
     Option.bind (as_str js) (\<lambda>s.
       Some \<lparr>e_id = i, e_pubkey = pk, e_delegated_by = None, e_created_at = ca, e_kind = k,
             e_tags = ts, e_content = c, e_sig = s, e_tagidx = None\<rparr>)))))))"

definition event_from_json :: "json \<Rightarrow> event option" where
  "event_from_json v =
     (case v of
        JObject m \<Rightarrow>
          (case (map_of m ''id'', map_of m ''pubkey'', map_of m ''created_at'', map_of m ''kind'',
                 map_of m ''tags'', map_of m ''content'', map_of m ''sig'') of
             (Some ji, Some jpk, Some jca, Some jk, Some jts, Some jc, Some js) \<Rightarrow>
               event_of_fields ji jpk jca jk jts jc js
           | _ \<Rightarrow> None)
      | JArray [ji, jpk, jca, jk, jts, jc, js] \<Rightarrow> event_of_fields ji jpk jca jk jts jc js
      | _ \<Rightarrow> None)"

text \<open>The same for the command: an array of the command and the event, or an object.\<close>

definition event_cmd_from_json :: "json \<Rightarrow> event_cmd option" where
  "event_cmd_from_json v =
     (let of_fields = (\<lambda>jc je. Option.bind (as_str jc) (\<lambda>c.
            Option.bind (event_from_json je) (\<lambda>e. Some \<lparr>cmd = c, cmd_event = e\<rparr>)))
      in (case v of
            JArray [jc, je] \<Rightarrow> of_fields jc je
          | JObject m \<Rightarrow>
              (case (map_of m ''cmd'', map_of m ''event'') of
                 (Some jc, Some je) \<Rightarrow> of_fields jc je
               | _ \<Rightarrow> None)
          | _ \<Rightarrow> None))"

section \<open>Lemmas on kinds\<close>

lemma kind_classes_disjoint:
  "\<not> (is_ephemeral e \<and> is_replaceable e)" "\<not> (is_ephemeral e \<and> is_param_replaceable e)"
  "\<not> (is_replaceable e \<and> is_param_replaceable e)"
proof -
  have mono: "x < b \<Longrightarrow> b \<le> c \<Longrightarrow> \<not> c \<le> x" for x b c :: u64 by (meson leD le_less_trans less_imp_le)
  have k: "(20000 :: u64) \<le> 20000" "(30000 :: u64) \<le> 30000" "(20000::u64) \<le> 30000" by simp_all
  show "\<not> (is_ephemeral e \<and> is_replaceable e)"
    using mono [of "e_kind e" 20000 20000] by (auto simp: is_ephemeral_def is_replaceable_def)
  show "\<not> (is_ephemeral e \<and> is_param_replaceable e)"
    using mono [of "e_kind e" 30000 30000] by (auto simp: is_ephemeral_def is_param_replaceable_def)
  show "\<not> (is_replaceable e \<and> is_param_replaceable e)"
    using mono [of "e_kind e" 20000 30000] k by (auto simp: is_replaceable_def is_param_replaceable_def)
qed

lemma distinct_param_eq: "distinct_param e = None \<longleftrightarrow> \<not> is_param_replaceable e"
  by (auto simp: distinct_param_def split: option.splits)

section \<open>Lemmas on the tag index\<close>

text \<open>The tags an index is about: a one-character name and a value.\<close>

definition indexed_tag :: "tag list \<Rightarrow> string \<Rightarrow> string \<Rightarrow> bool" where
  "indexed_tag ts ch v \<longleftrightarrow>
     (\<exists>t \<in> set ts. 1 < length t \<and> single_char_tagname (hd t) = Some ch \<and> t ! 1 = v)"

definition idx_values :: "tag_map \<Rightarrow> string \<Rightarrow> string set" where
  "idx_values idx ch = (case map_of idx ch of None \<Rightarrow> {} | Some vs \<Rightarrow> set vs)"

lemma single_char_tagname_Some: "single_char_tagname s = Some ch \<longleftrightarrow> chars s = [ch]"
  by (auto simp: single_char_tagname_def split: list.splits)

lemma single_char_tagname_eq: "single_char_tagname s = Some ch \<Longrightarrow> s = ch"
proof -
  assume "single_char_tagname s = Some ch"
  then have "concat (chars s) = ch" by (simp add: single_char_tagname_Some)
  then show "s = ch" by simp
qed

lemma indexed_tag_Nil [simp]: "\<not> indexed_tag [] ch v"
  by (simp add: indexed_tag_def)

lemma indexed_tag_Cons:
  "indexed_tag (t # ts) ch v \<longleftrightarrow>
     1 < length t \<and> single_char_tagname (hd t) = Some ch \<and> t ! 1 = v \<or> indexed_tag ts ch v"
  by (auto simp: indexed_tag_def)

lemma idx_values_insert:
  "idx_values (idx_insert ch v idx) c = idx_values idx c \<union> (if c = ch then {v} else {})"
  by (auto simp: idx_values_def idx_insert_def update_conv' split: option.splits)

lemma idx_values_index_tags:
  "idx_values (index_tags ts idx) ch = idx_values idx ch \<union> {v. indexed_tag ts ch v}"
proof (induction ts arbitrary: idx)
  case (Cons t ts)
  then show ?case
    by (auto simp: indexed_tag_Cons idx_values_insert split: option.splits)
qed auto

lemma generic_tag_val_intersect_idx:
  "generic_tag_val_intersect e ch vs \<longleftrightarrow>
     (case e_tagidx e of None \<Rightarrow> False | Some idx \<Rightarrow> idx_values idx ch \<inter> set vs \<noteq> {})"
  by (auto simp: generic_tag_val_intersect_def idx_values_def filter_empty_conv
      split: option.splits)

lemma build_index_tags [simp]:
  "e_tags (build_index e) = e_tags e" "e_id (build_index e) = e_id e"
  "e_pubkey (build_index e) = e_pubkey e" "e_kind (build_index e) = e_kind e"
  "e_created_at (build_index e) = e_created_at e" "e_content (build_index e) = e_content e"
  "e_sig (build_index e) = e_sig e" "e_delegated_by (build_index e) = e_delegated_by e"
  by (simp_all add: build_index_def)

lemma build_index_intersect:
  assumes "e_tagidx e = None"
  shows "generic_tag_val_intersect (build_index e) ch vs \<longleftrightarrow> (\<exists>v \<in> set vs. indexed_tag (e_tags e) ch v)"
proof (cases "e_tags e = []")
  case True
  with assms show ?thesis by (simp add: build_index_def generic_tag_val_intersect_def)
next
  case False
  have "idx_values [] ch = {}" by (simp add: idx_values_def)
  with False show ?thesis
    by (auto simp: build_index_def generic_tag_val_intersect_idx idx_values_index_tags)
qed

lemma tag_values_by_name_iff:
  "v \<in> set (tag_values_by_name e n) \<longleftrightarrow> (\<exists>t \<in> set (e_tags e). 1 < length t \<and> hd t = n \<and> t ! 1 = v)"
  by (auto simp: tag_values_by_name_def)

section \<open>Lemmas on JSON forms\<close>

lemma de_strings_strings [simp]: "de_strings (JArray (map JString t)) = Some t"
  by (simp add: de_strings_def all_some_Some comp_def)

lemma tag_from_string_canonical [simp]: "tag_from_string (tags_to_canonical e) = Some (e_tags e)"
  by (simp add: tag_from_string_def tags_to_canonical_def all_some_Some comp_def)

lemma event_json_roundtrip:
  "event_from_json (event_to_json e) = Some (e\<lparr>e_delegated_by := None, e_tagidx := None\<rparr>)"
  by (simp add: event_from_json_def event_of_fields_def event_to_json_def)

lemma canonical_value_inj:
  "canonical_value e = canonical_value f \<longleftrightarrow>
     e_pubkey e = e_pubkey f \<and> e_created_at e = e_created_at f \<and> e_kind e = e_kind f
     \<and> e_tags e = e_tags f \<and> e_content e = e_content f"
proof -
  have "map (\<lambda>t. JArray (map JString t)) xs = map (\<lambda>t. JArray (map JString t)) ys \<longleftrightarrow> xs = ys"
    for xs ys :: "tag list"
    by (rule inj_map_eq_map) (auto simp: inj_on_def)
  then show ?thesis by (auto simp: canonical_value_def tags_to_canonical_def)
qed

end
