(* ===== verification/Sqlite_Store.thy ===== *)
theory Sqlite_Store
  imports Event_Data
begin

text \<open>
  The SQLite store of events (\<open>src/src/repo/sqlite.rs\<close>): the tables and
  \<open>persist_event\<close>, \<open>write_event\<close> and \<open>delete_expired\<close>.

  A table is the list of its rows, and each SQL statement of the source is a function on
  the tables that says what the statement does: comparisons with \<open>NULL\<close> hold for no row,
  \<open>OR IGNORE\<close> drops a row that breaks a uniqueness or \<open>NOT NULL\<close> constraint, a deleted
  event takes its tags and verification records with it (the foreign keys cascade), and a
  new row gets the highest id plus one. A 64-bit unsigned value above the range of an SQL
  integer cannot be bound: the statement fails before it runs. Rows with equal sort keys
  are taken in table order. A transaction that ends early leaves the tables as they were.
\<close>

section \<open>Tables\<close>

record event_row =
  ev_id :: nat
  ev_hash :: bytes
  ev_first_seen :: int
  ev_created :: int
  ev_expires :: "int option"
  ev_author :: bytes
  ev_delegated :: "bytes option"
  ev_kind :: int
  ev_hidden :: bool
  ev_content :: string

record tag_row =
  tg_event :: nat
  tg_name :: string
  tg_value :: string
  tg_created :: int
  tg_kind :: int

record verification_row =
  vr_id :: nat
  vr_event :: nat
  vr_name :: string
  vr_verified_at :: "int option"
  vr_failed_at :: "int option"
  vr_failures :: int

record account_row =
  ac_pubkey :: string
  ac_admitted :: bool
  ac_balance :: int
  ac_tos :: "int option"

record invoice_row =
  iv_hash :: string
  iv_pubkey :: string
  iv_invoice :: string
  iv_amount :: int
  iv_status :: string
  iv_description :: string
  iv_created :: int
  iv_confirmed :: "int option"

record db =
  events :: "event_row list"
  tags :: "tag_row list"
  verifications :: "verification_row list"
  accounts :: "account_row list"
  invoices :: "invoice_row list"

definition empty_db :: db where
  "empty_db = \<lparr>events = [], tags = [], verifications = [], accounts = [], invoices = []\<rparr>"

definition sql_u64 :: "u64 \<Rightarrow> int option" where
  "sql_u64 n = (if uint n < 2 ^ 63 then Some (uint n) else None)"

definition sql_opt_u64 :: "u64 option \<Rightarrow> int option option" where
  "sql_opt_u64 v = (case v of None \<Rightarrow> Some None | Some n \<Rightarrow> map_option Some (sql_u64 n))"

definition out_of_range :: error where
  "out_of_range = SqlError ''out of range integral type conversion attempted''"

definition next_id :: "nat list \<Rightarrow> nat" where
  "next_id ids = Suc (foldr max ids 0)"

text \<open>\<open>DELETE FROM event\<close>, with the rows that reference a deleted event.\<close>

definition delete_events :: "(event_row \<Rightarrow> bool) \<Rightarrow> db \<Rightarrow> db" where
  "delete_events p db =
     (let gone = map ev_id (filter p (events db)) in
      db\<lparr>events := filter (\<lambda>r. \<not> p r) (events db),
         tags := filter (\<lambda>t. tg_event t \<notin> set gone) (tags db),
         verifications := filter (\<lambda>v. vr_event v \<notin> set gone) (verifications db)\<rparr>)"

definition order_desc :: "('a \<Rightarrow> int) \<Rightarrow> 'a list \<Rightarrow> 'a list" where
  "order_desc f xs = sort_key (\<lambda>x. - f x) xs"

section \<open>Persisting an event\<close>

text \<open>The first check: a stored event of this author and kind that is not older.\<close>

definition newer_replaceable :: "bytes option \<Rightarrow> event \<Rightarrow> db \<Rightarrow> bool" where
  "newer_replaceable pubkey_blob e db =
     (case (pubkey_blob, sql_u64 (e_kind e), sql_u64 (e_created_at e)) of
        (Some pk, Some k, Some t) \<Rightarrow>
          list_ex (\<lambda>r. ev_author r = pk \<and> ev_kind r = k \<and> t \<le> ev_created r) (events db)
      | _ \<Rightarrow> False)"

definition has_tag :: "db \<Rightarrow> event_row \<Rightarrow> string \<Rightarrow> string \<Rightarrow> bool" where
  "has_tag db r n v =
     list_ex (\<lambda>t. tg_event t = ev_id r \<and> tg_name t = n \<and> tg_value t = v) (tags db)"

definition newer_param_replaceable :: "bytes option \<Rightarrow> event \<Rightarrow> string \<Rightarrow> db \<Rightarrow> bool" where
  "newer_param_replaceable pubkey_blob e d_tag db =
     (case (pubkey_blob, sql_u64 (e_kind e), sql_u64 (e_created_at e)) of
        (Some pk, Some k, Some t) \<Rightarrow>
          list_ex (\<lambda>r. ev_author r = pk \<and> ev_kind r = k \<and> has_tag db r ''d'' d_tag \<and> t \<le> ev_created r)
            (events db)
      | _ \<Rightarrow> False)"

text \<open>\<open>INSERT OR IGNORE INTO event\<close>: the new row, or nothing when a constraint fails.\<close>

definition new_event_row :: "ext \<Rightarrow> u64 \<Rightarrow> event \<Rightarrow> db \<Rightarrow> error + event_row option" where
  "new_event_row X now e db =
     (case (sql_u64 (e_created_at e), sql_opt_u64 (expiration e), sql_u64 (e_kind e)) of
        (Some t, Some x, Some k) \<Rightarrow>
          (case (hex_decode X (e_id e), hex_decode X (e_pubkey e), json_to_string X (event_to_json e)) of
             (Some i, Some pk, Some s) \<Rightarrow>
               if list_ex (\<lambda>r. ev_hash r = i) (events db) then Inr None
               else Inr (Some
                 \<lparr>ev_id = next_id (map ev_id (events db)), ev_hash = i, ev_first_seen = uint now,
                  ev_created = t, ev_expires = x, ev_author = pk,
                  ev_delegated = Option.bind (e_delegated_by e) (hex_decode X), ev_kind = k,
                  ev_hidden = False, ev_content = s\<rparr>)
           | _ \<Rightarrow> Inr None)
      | _ \<Rightarrow> Inl out_of_range)"

text \<open>One row for every tag with a value and a name of one character.\<close>

definition new_tag_rows :: "event_row \<Rightarrow> event \<Rightarrow> tag_row list" where
  "new_tag_rows r e =
     List.map_filter
       (\<lambda>t. if 2 \<le> length t \<and> single_char_tagname (t ! 0) \<noteq> None
            then Some \<lparr>tg_event = ev_id r, tg_name = t ! 0, tg_value = t ! 1,
                       tg_created = ev_created r, tg_kind = ev_kind r\<rparr>
            else None)
       (e_tags e)"

definition insert_event :: "event_row \<Rightarrow> event \<Rightarrow> db \<Rightarrow> db" where
  "insert_event r e db = db\<lparr>events := events db @ [r], tags := tags db @ new_tag_rows r e\<rparr>"

text \<open>The backwards check of a replaceable event: only the latest row is kept.\<close>

definition remove_older_replaceable :: "bytes \<Rightarrow> int \<Rightarrow> db \<Rightarrow> db" where
  "remove_older_replaceable pk k db =
     (let same = (\<lambda>r. ev_kind r = k \<and> ev_author r = pk);
          keep = map ev_id (take 1 (order_desc ev_created (filter same (events db)))) in
      delete_events (\<lambda>r. same r \<and> ev_id r \<notin> set keep) db)"

text \<open>
  The same for a parameterized one. The subquery joins events with their tag rows: it has
  one row for every tag row with the value, and skips the first.
\<close>

definition param_join :: "bytes \<Rightarrow> int \<Rightarrow> string \<Rightarrow> db \<Rightarrow> (nat \<times> int) list" where
  "param_join pk k d_tag db =
     concat (map (\<lambda>r. map (\<lambda>t. (ev_id r, tg_created t))
         (filter (\<lambda>t. tg_event t = ev_id r \<and> tg_name t = ''d'' \<and> tg_value t = d_tag) (tags db)))
       (filter (\<lambda>r. ev_kind r = k \<and> ev_author r = pk) (events db)))"

definition remove_older_param :: "bytes \<Rightarrow> int \<Rightarrow> string \<Rightarrow> db \<Rightarrow> db" where
  "remove_older_param pk k d_tag db =
     (let ids = map fst (drop 1 (order_desc snd (param_join pk k d_tag db))) in
      delete_events (\<lambda>r. ev_kind r = k \<and> ev_author r = pk \<and> ev_id r \<in> set ids) db)"

text \<open>What a deletion event names, and the update that hides it.\<close>

definition deletion_targets :: "ext \<Rightarrow> event \<Rightarrow> bytes list" where
  "deletion_targets X e =
     List.map_filter (hex_decode X)
       (filter (\<lambda>x. is_hex x \<and> length x = 64) (tag_values_by_name e ''e''))"

definition hide_events :: "(event_row \<Rightarrow> bool) \<Rightarrow> db \<Rightarrow> db" where
  "hide_events p db =
     db\<lparr>events := map (\<lambda>r. if p r then r\<lparr>ev_hidden := True\<rparr> else r) (events db)\<rparr>"

definition hide_deleted :: "bytes \<Rightarrow> bytes list \<Rightarrow> db \<Rightarrow> db" where
  "hide_deleted pk targets db =
     hide_events (\<lambda>r. ev_kind r \<noteq> 5 \<and> ev_author r = pk \<and> ev_hash r \<in> set targets) db"

text \<open>Whether this author has already published a deletion of the event.\<close>

definition deletion_recorded :: "bytes \<Rightarrow> string \<Rightarrow> db \<Rightarrow> bool" where
  "deletion_recorded pk i db =
     list_ex (\<lambda>r. ev_author r = pk \<and>
         list_ex (\<lambda>t. tg_event t = ev_id r \<and> tg_name t = ''e'' \<and> tg_kind t = 5 \<and> tg_value t = i) (tags db))
       (events db)"

text \<open>The rest of the transaction, once the row \<open>r\<close> is in the table.\<close>

definition after_insert :: "ext \<Rightarrow> event \<Rightarrow> event_row \<Rightarrow> db \<Rightarrow> db \<times> (error + u64)" where
  "after_insert X e r db0 =
     (let db1 = (if is_replaceable e then remove_older_replaceable (ev_author r) (ev_kind r) db0 else db0);
          db2 = (case distinct_param e of
                   Some d_tag \<Rightarrow> remove_older_param (ev_author r) (ev_kind r) d_tag db1
                 | None \<Rightarrow> db1)
      in if e_kind e = 5 then
           (hide_deleted (ev_author r) (deletion_targets X e) db2, Inr 1)
         else if deletion_recorded (ev_author r) (e_id e) db2 then
           (hide_events (\<lambda>x. ev_id x = ev_id r) db2, Inr 0)
         else (db2, Inr 1))"

definition persist_event :: "ext \<Rightarrow> u64 \<Rightarrow> event \<Rightarrow> db \<Rightarrow> db \<times> (error + u64)" where
  "persist_event X now e db =
     (let pubkey_blob = hex_decode X (e_pubkey e) in
      if is_replaceable e \<and> newer_replaceable pubkey_blob e db then (db, Inr 0)
      else if (case distinct_param e of
                 Some d_tag \<Rightarrow> newer_param_replaceable pubkey_blob e d_tag db
               | None \<Rightarrow> False) then (db, Inr 0)
      else (case new_event_row X now e db of
              Inl err \<Rightarrow> (db, Inl err)
            | Inr None \<Rightarrow> (db, Inr 0)
            | Inr (Some r) \<Rightarrow> after_insert X e r (insert_event r e db)))"

section \<open>Writing with retries\<close>

text \<open>
  \<open>busy i\<close> says whether SQLite fails at attempt \<open>i\<close> (a locked database, for example), with
  the text of the failure; then the attempt changes nothing.
\<close>

definition sqlite_failure :: "string \<Rightarrow> error" where
  "sqlite_failure msg = SqlError (''SqliteFailure: '' @ msg)"

definition is_sqlite_failure :: "error + u64 \<Rightarrow> bool" where
  "is_sqlite_failure r =
     (case r of Inl (SqlError s) \<Rightarrow> starts_with s ''SqliteFailure: '' | _ \<Rightarrow> False)"

definition persist_attempt ::
  "ext \<Rightarrow> u64 \<Rightarrow> (nat \<Rightarrow> string option) \<Rightarrow> event \<Rightarrow> nat \<Rightarrow> db \<Rightarrow> db \<times> (error + u64)" where
  "persist_attempt X now busy e i db =
     (case busy i of Some msg \<Rightarrow> (db, Inl (sqlite_failure msg)) | None \<Rightarrow> persist_event X now e db)"

text \<open>The loop: \<open>left\<close> attempts may still follow attempt \<open>i\<close>.\<close>

fun write_attempts ::
  "ext \<Rightarrow> u64 \<Rightarrow> (nat \<Rightarrow> string option) \<Rightarrow> event \<Rightarrow> nat \<Rightarrow> nat \<Rightarrow> db \<Rightarrow> db \<times> (error + u64)" where
  "write_attempts X now busy e 0 i db = persist_attempt X now busy e i db"
| "write_attempts X now busy e (Suc left) i db =
     (let (db', wr) = persist_attempt X now busy e i db in
      if is_sqlite_failure wr then write_attempts X now busy e left (Suc i) db' else (db', wr))"

definition max_write_attempts :: nat where
  "max_write_attempts = 10"

definition write_event ::
  "ext \<Rightarrow> u64 \<Rightarrow> (nat \<Rightarrow> string option) \<Rightarrow> event \<Rightarrow> db \<Rightarrow> db \<times> (error + u64)" where
  "write_event X now busy e db = write_attempts X now busy e (max_write_attempts - 1) 1 db"

section \<open>Expired events\<close>

definition is_expired_row :: "u64 \<Rightarrow> event_row \<Rightarrow> bool" where
  "is_expired_row now r =
     (case (ev_expires r, sql_u64 now) of (Some x, Some n) \<Rightarrow> x \<le> n | _ \<Rightarrow> False)"

definition delete_expired :: "u64 \<Rightarrow> db \<Rightarrow> db \<times> (error + usize)" where
  "delete_expired now db =
     (if sql_u64 now = None then (db, Inl out_of_range)
      else (delete_events (is_expired_row now) db,
            Inr (of_nat (length (filter (is_expired_row now) (events db))))))"

end
