(* ===== verification/Sqlite_Props.thy ===== *)
theory Sqlite_Props
  imports Sqlite_Store
begin

text \<open>
  What the SQLite store keeps: the invariant of its tables (keys, foreign keys, one row per
  author and kind for replaceable events), what \<open>persist_event\<close> does with replaceable,
  parameterized and deletion events, that it never touches the events of another author,
  and the outcome of the retry loop of \<open>write_event\<close>.
\<close>

section \<open>Numbers\<close>

definition replaceable_kind :: "int \<Rightarrow> bool" where
  "replaceable_kind k \<longleftrightarrow> k = 0 \<or> k = 3 \<or> k = 41 \<or> 10000 \<le> k \<and> k < 20000"

lemma is_replaceable_uint: "is_replaceable e \<longleftrightarrow> replaceable_kind (uint (e_kind e))"
  by (simp add: is_replaceable_def replaceable_kind_def word_le_def word_less_def word_uint_eq_iff)

lemma sql_u64_Some: "sql_u64 n = Some i \<longleftrightarrow> i = uint n \<and> uint n < 2 ^ 63"
  by (auto simp: sql_u64_def)

lemma next_id_fresh: "i \<in> set ids \<Longrightarrow> i < next_id ids"
  by (induction ids) (auto simp: next_id_def)

lemma next_id_new: "next_id ids \<notin> set ids"
  using next_id_fresh by blast

section \<open>Sorted selections\<close>

lemma hd_order_desc:
  assumes "r \<in> set xs" and "\<And>x. x \<in> set xs \<Longrightarrow> x = r \<or> f x < f r"
  shows "take 1 (order_desc f xs) = [r]"
proof -
  let ?ys = "order_desc f xs"
  have set: "set ?ys = set xs" by (simp add: order_desc_def)
  with assms(1) obtain y ys where ys: "?ys = y # ys" by (cases ?ys) auto
  have "sorted (map (\<lambda>x. - f x) ?ys)" by (simp add: order_desc_def)
  with ys have "\<forall>z \<in> set ys. - f y \<le> - f z" by auto
  moreover have "r \<in> set (y # ys)" using assms(1) set ys by simp
  ultimately have "f r \<le> f y" by auto
  moreover have "y \<in> set xs" using set ys by auto
  ultimately have "y = r" using assms(2) [of y] by auto
  with ys show ?thesis by simp
qed

section \<open>The invariant\<close>

definition keys_ok :: "db \<Rightarrow> bool" where
  "keys_ok db \<longleftrightarrow> distinct (map ev_id (events db)) \<and> distinct (map ev_hash (events db))"

definition refs_ok :: "db \<Rightarrow> bool" where
  "refs_ok db \<longleftrightarrow>
     (\<forall>t \<in> set (tags db). \<exists>r \<in> set (events db).
        ev_id r = tg_event t \<and> tg_created t = ev_created r \<and> tg_kind t = ev_kind r)
     \<and> (\<forall>v \<in> set (verifications db). \<exists>r \<in> set (events db). ev_id r = vr_event v)"

definition replaceable_unique :: "db \<Rightarrow> bool" where
  "replaceable_unique db \<longleftrightarrow>
     (\<forall>r \<in> set (events db). \<forall>s \<in> set (events db).
        replaceable_kind (ev_kind r) \<and> ev_kind r = ev_kind s \<and> ev_author r = ev_author s \<longrightarrow> r = s)"

definition db_inv :: "db \<Rightarrow> bool" where
  "db_inv db \<longleftrightarrow> keys_ok db \<and> refs_ok db \<and> replaceable_unique db"

lemma db_inv_empty: "db_inv empty_db"
  by (simp add: db_inv_def keys_ok_def refs_ok_def replaceable_unique_def empty_db_def)

lemma delete_events_sel [simp]:
  "events (delete_events p db) = filter (\<lambda>r. \<not> p r) (events db)"
  "t \<in> set (tags (delete_events p db)) \<longleftrightarrow>
     t \<in> set (tags db) \<and> \<not> (\<exists>r \<in> set (events db). p r \<and> ev_id r = tg_event t)"
  "v \<in> set (verifications (delete_events p db)) \<longleftrightarrow>
     v \<in> set (verifications db) \<and> \<not> (\<exists>r \<in> set (events db). p r \<and> ev_id r = vr_event v)"
  "accounts (delete_events p db) = accounts db" "invoices (delete_events p db) = invoices db"
  by (auto simp: delete_events_def Let_def image_iff)

lemma hide_events_sel [simp]:
  "map ev_id (events (hide_events p db)) = map ev_id (events db)"
  "map ev_hash (events (hide_events p db)) = map ev_hash (events db)"
  "tags (hide_events p db) = tags db" "verifications (hide_events p db) = verifications db"
  "accounts (hide_events p db) = accounts db" "invoices (hide_events p db) = invoices db"
  by (simp_all add: hide_events_def comp_def if_distrib cong: if_cong)

lemma events_hide: "events (hide_events p db) = map (\<lambda>r. if p r then r\<lparr>ev_hidden := True\<rparr> else r) (events db)"
  by (simp add: hide_events_def)

lemma keys_ok_delete: "keys_ok db \<Longrightarrow> keys_ok (delete_events p db)"
  by (simp add: keys_ok_def distinct_map_filter)

lemma refs_ok_delete: "refs_ok db \<Longrightarrow> refs_ok (delete_events p db)"
proof -
  assume ok: "refs_ok db"
  have keep: "\<exists>r \<in> set (events (delete_events p db)). ev_id r = i \<and> Q r"
    if "\<exists>r \<in> set (events db). ev_id r = i \<and> Q r"
      and "\<not> (\<exists>r \<in> set (events db). p r \<and> ev_id r = i)" for i Q
    using that by auto
  show ?thesis
    unfolding refs_ok_def
  proof (intro conjI ballI)
    fix t
    assume t: "t \<in> set (tags (delete_events p db))"
    with ok have "\<exists>r \<in> set (events db). ev_id r = tg_event t \<and> tg_created t = ev_created r \<and> tg_kind t = ev_kind r"
      by (simp add: refs_ok_def)
    from keep [OF this] t show "\<exists>r \<in> set (events (delete_events p db)).
        ev_id r = tg_event t \<and> tg_created t = ev_created r \<and> tg_kind t = ev_kind r"
      by simp
  next
    fix v
    assume v: "v \<in> set (verifications (delete_events p db))"
    with ok have "\<exists>r \<in> set (events db). ev_id r = vr_event v \<and> True" by (simp add: refs_ok_def)
    from keep [OF this] v show "\<exists>r \<in> set (events (delete_events p db)). ev_id r = vr_event v" by simp
  qed
qed

lemma replaceable_unique_delete: "replaceable_unique db \<Longrightarrow> replaceable_unique (delete_events p db)"
  by (auto simp: replaceable_unique_def)

lemma db_inv_delete: "db_inv db \<Longrightarrow> db_inv (delete_events p db)"
  by (simp add: db_inv_def keys_ok_delete refs_ok_delete replaceable_unique_delete)

lemma keys_ok_hide: "keys_ok db \<Longrightarrow> keys_ok (hide_events p db)"
  by (simp add: keys_ok_def)

lemma hide_bex:
  assumes "\<And>r. Q (r\<lparr>ev_hidden := True\<rparr>) = Q r"
  shows "(\<exists>r \<in> set (events (hide_events p db)). Q r) \<longleftrightarrow> (\<exists>r \<in> set (events db). Q r)"
  using assms by (auto simp: events_hide)

lemma refs_ok_hide: "refs_ok db \<Longrightarrow> refs_ok (hide_events p db)"
proof -
  have t: "(\<exists>r \<in> set (events (hide_events p db)).
        ev_id r = tg_event t \<and> tg_created t = ev_created r \<and> tg_kind t = ev_kind r)
      = (\<exists>r \<in> set (events db). ev_id r = tg_event t \<and> tg_created t = ev_created r \<and> tg_kind t = ev_kind r)" for t
    by (rule hide_bex) simp
  have v: "(\<exists>r \<in> set (events (hide_events p db)). ev_id r = vr_event v)
      = (\<exists>r \<in> set (events db). ev_id r = vr_event v)" for v
    by (rule hide_bex) simp
  show "refs_ok db \<Longrightarrow> ?thesis" by (simp only: refs_ok_def hide_events_sel t v)
qed

lemma in_events_hide:
  assumes "r \<in> set (events (hide_events p db))"
  obtains s where "s \<in> set (events db)" and "r = (if p s then s\<lparr>ev_hidden := True\<rparr> else s)"
    and "ev_kind r = ev_kind s" and "ev_author r = ev_author s" and "ev_hash r = ev_hash s"
    and "ev_id r = ev_id s"
proof -
  from assms obtain s where s: "s \<in> set (events db)" "r = (if p s then s\<lparr>ev_hidden := True\<rparr> else s)"
    by (auto simp: events_hide)
  show thesis by (rule that [OF s]) (simp_all add: s(2))
qed

lemma replaceable_unique_hide:
  assumes "replaceable_unique db"
  shows "replaceable_unique (hide_events p db)"
  unfolding replaceable_unique_def
proof (intro ballI impI)
  fix r s
  assume "r \<in> set (events (hide_events p db))" and "s \<in> set (events (hide_events p db))"
    and h: "replaceable_kind (ev_kind r) \<and> ev_kind r = ev_kind s \<and> ev_author r = ev_author s"
  from this(1,2) obtain r0 s0 where r0: "r0 \<in> set (events db)" "r = (if p r0 then r0\<lparr>ev_hidden := True\<rparr> else r0)"
      "ev_kind r = ev_kind r0" "ev_author r = ev_author r0"
    and s0: "s0 \<in> set (events db)" "s = (if p s0 then s0\<lparr>ev_hidden := True\<rparr> else s0)"
      "ev_kind s = ev_kind s0" "ev_author s = ev_author s0"
    by (elim in_events_hide) blast
  from assms r0(1) s0(1) h have "r0 = s0"
    unfolding replaceable_unique_def r0(3,4) s0(3,4) by blast
  then show "r = s" by (simp only: r0(2) s0(2))
qed

lemma db_inv_hide: "db_inv db \<Longrightarrow> db_inv (hide_events p db)"
  by (simp add: db_inv_def keys_ok_hide refs_ok_hide replaceable_unique_hide)

section \<open>The new row\<close>

lemma new_event_row_Some:
  assumes "new_event_row X now e db = Inr (Some r)"
  shows "ev_id r = next_id (map ev_id (events db))" and "hex_decode X (e_id e) = Some (ev_hash r)"
    and "hex_decode X (e_pubkey e) = Some (ev_author r)" and "ev_kind r = uint (e_kind e)"
    and "ev_created r = uint (e_created_at e)" and "\<not> ev_hidden r"
    and "json_to_string X (event_to_json e) = Some (ev_content r)"
    and "ev_hash r \<notin> ev_hash ` set (events db)"
    and "ev_expires r = map_option uint (expiration e)"
    and "uint (e_kind e) < 2 ^ 63" and "uint (e_created_at e) < 2 ^ 63"
  using assms
  by (auto simp: new_event_row_def sql_u64_Some sql_opt_u64_def list_ex_iff
      split: option.splits if_splits)

lemma in_new_tag_rows:
  "t \<in> set (new_tag_rows r e) \<longleftrightarrow>
     (\<exists>g \<in> set (e_tags e). 2 \<le> length g \<and> single_char_tagname (g ! 0) \<noteq> None
        \<and> t = \<lparr>tg_event = ev_id r, tg_name = g ! 0, tg_value = g ! 1,
               tg_created = ev_created r, tg_kind = ev_kind r\<rparr>)"
  by (auto simp: new_tag_rows_def map_filter_def split: if_splits)

lemma insert_event_sel [simp]:
  "events (insert_event r e db) = events db @ [r]"
  "tags (insert_event r e db) = tags db @ new_tag_rows r e"
  "verifications (insert_event r e db) = verifications db"
  "accounts (insert_event r e db) = accounts db" "invoices (insert_event r e db) = invoices db"
  by (simp_all add: insert_event_def)

lemma keys_ok_insert:
  assumes "keys_ok db" and "new_event_row X now e db = Inr (Some r)"
  shows "keys_ok (insert_event r e db)"
  using assms(1) new_event_row_Some [OF assms(2)] next_id_new [of "map ev_id (events db)"]
  by (auto simp: keys_ok_def)

lemma refs_ok_insert: "refs_ok db \<Longrightarrow> refs_ok (insert_event r e db)"
  unfolding refs_ok_def by (auto simp: in_new_tag_rows)

section \<open>The transaction keeps the invariant\<close>

lemma remove_older_replaceable_unique:
  assumes "keys_ok db"
    and "\<forall>r \<in> set (events db). \<forall>s \<in> set (events db).
      replaceable_kind (ev_kind r) \<and> ev_kind r = ev_kind s \<and> ev_author r = ev_author s
      \<and> \<not> (ev_kind r = k \<and> ev_author r = pk) \<longrightarrow> r = s"
  shows "replaceable_unique (remove_older_replaceable pk k db)"
proof -
  define keep where "keep = map ev_id (take 1 (order_desc ev_created
    (filter (\<lambda>r. ev_kind r = k \<and> ev_author r = pk) (events db))))"
  have "r = s"
    if "r \<in> set (events db)" "s \<in> set (events db)" "ev_id r \<in> set keep" "ev_id s \<in> set keep" for r s
  proof -
    have "length keep \<le> 1" by (simp add: keep_def)
    then have "ev_id r = ev_id s" using that(3,4) by (cases keep) auto
    with that(1,2) assms(1) show ?thesis by (auto simp: keys_ok_def distinct_map dest: inj_onD)
  qed
  then show ?thesis
    using assms(2) unfolding replaceable_unique_def remove_older_replaceable_def Let_def keep_def [symmetric]
    by auto
qed

lemma after_insert_inv:
  assumes "db_inv db" and "new_event_row X now e db = Inr (Some r)"
  shows "db_inv (fst (after_insert X e r (insert_event r e db)))"
proof -
  let ?db = "insert_event r e db"
  define db1 where "db1 = (if is_replaceable e
    then remove_older_replaceable (ev_author r) (ev_kind r) ?db else ?db)"
  have k: "keys_ok ?db" using assms by (simp add: db_inv_def keys_ok_insert)
  have f: "refs_ok ?db" using assms by (simp add: db_inv_def refs_ok_insert)
  have u: "\<forall>s \<in> set (events db). \<forall>t \<in> set (events db).
      replaceable_kind (ev_kind s) \<and> ev_kind s = ev_kind t \<and> ev_author s = ev_author t \<longrightarrow> s = t"
    using assms(1) unfolding db_inv_def replaceable_unique_def by blast
  have "replaceable_unique db1"
  proof (cases "is_replaceable e")
    case True
    have "replaceable_unique (remove_older_replaceable (ev_author r) (ev_kind r) ?db)"
      using k u by (intro remove_older_replaceable_unique) auto
    with True show ?thesis by (simp add: db1_def)
  next
    case False
    then have "\<not> replaceable_kind (ev_kind r)"
      using new_event_row_Some(4) [OF assms(2)] by (simp add: is_replaceable_uint)
    with False u show ?thesis by (auto simp: db1_def replaceable_unique_def)
  qed
  moreover have "keys_ok db1 \<and> refs_ok db1"
    using k f by (simp add: db1_def remove_older_replaceable_def Let_def keys_ok_delete refs_ok_delete)
  ultimately have i1: "db_inv db1" by (simp add: db_inv_def)
  define db2 where "db2 = (case distinct_param e of
      Some d_tag \<Rightarrow> remove_older_param (ev_author r) (ev_kind r) d_tag db1 | None \<Rightarrow> db1)"
  from i1 have "db_inv db2"
    by (simp add: db2_def remove_older_param_def Let_def db_inv_delete split: option.split)
  then show ?thesis
    unfolding after_insert_def Let_def db1_def [symmetric] db2_def [symmetric]
    by (simp add: hide_deleted_def db_inv_hide)
qed

lemma persist_event_cases:
  obtains (skip) "fst (persist_event X now e db) = db" "snd (persist_event X now e db) = Inr 0"
  | (fail) err where "persist_event X now e db = (db, Inl err)"
  | (ins) r where "new_event_row X now e db = Inr (Some r)"
      "persist_event X now e db = after_insert X e r (insert_event r e db)"
      "\<not> (is_replaceable e \<and> newer_replaceable (hex_decode X (e_pubkey e)) e db)"
      "\<And>d. distinct_param e = Some d \<Longrightarrow> \<not> newer_param_replaceable (hex_decode X (e_pubkey e)) e d db"
proof -
  let ?pk = "hex_decode X (e_pubkey e)"
  consider (a) "is_replaceable e \<and> newer_replaceable ?pk e db"
    | (b) d where "distinct_param e = Some d" "newer_param_replaceable ?pk e d db"
    | (c) "\<not> (is_replaceable e \<and> newer_replaceable ?pk e db)"
        "\<And>d. distinct_param e = Some d \<Longrightarrow> \<not> newer_param_replaceable ?pk e d db"
    by blast
  then show thesis
  proof cases
    case a
    then have "persist_event X now e db = (db, Inr 0)" by (simp add: persist_event_def)
    with skip show thesis by simp
  next
    case b
    then have "persist_event X now e db = (db, Inr 0)" by (simp add: persist_event_def Let_def)
    with skip show thesis by simp
  next
    case c
    then have p: "persist_event X now e db =
        (case new_event_row X now e db of Inl err \<Rightarrow> (db, Inl err) | Inr None \<Rightarrow> (db, Inr 0)
         | Inr (Some r) \<Rightarrow> after_insert X e r (insert_event r e db))"
      by (cases "distinct_param e"; cases "is_replaceable e") (simp_all add: persist_event_def Let_def)
    show thesis
    proof (cases "new_event_row X now e db")
      case (Inl err)
      with p fail show thesis by simp
    next
      case (Inr m)
      with p skip ins [OF _ _ c] show thesis by (cases m) simp_all
    qed
  qed
qed

lemma persist_event_inv: "db_inv db \<Longrightarrow> db_inv (fst (persist_event X now e db))"
  by (cases X now e db rule: persist_event_cases) (auto simp: after_insert_inv)

lemma persist_event_error: "snd (persist_event X now e db) = Inl err \<Longrightarrow> fst (persist_event X now e db) = db"
  by (cases X now e db rule: persist_event_cases) (auto simp: after_insert_def Let_def split: if_splits)

lemma persist_event_count: "snd (persist_event X now e db) = Inr n \<Longrightarrow> n = 0 \<or> n = 1"
  by (cases X now e db rule: persist_event_cases) (auto simp: after_insert_def Let_def split: if_splits)

section \<open>Replaceable events\<close>

definition author_kind_rows :: "bytes \<Rightarrow> int \<Rightarrow> db \<Rightarrow> event_row list" where
  "author_kind_rows pk k db = filter (\<lambda>r. ev_kind r = k \<and> ev_author r = pk) (events db)"

lemma not_newer_replaceable:
  assumes "\<not> newer_replaceable (Some pk) e db" and "uint (e_kind e) < 2 ^ 63"
    and "uint (e_created_at e) < 2 ^ 63" and "s \<in> set (events db)" and "ev_author s = pk"
    and "ev_kind s = uint (e_kind e)"
  shows "ev_created s < uint (e_created_at e)"
  using assms by (force simp: newer_replaceable_def sql_u64_def list_ex_iff)

lemma after_insert_replaceable:
  assumes inv: "db_inv db" and n: "new_event_row X now e db = Inr (Some r)"
    and e: "is_replaceable e" and old: "\<not> newer_replaceable (hex_decode X (e_pubkey e)) e db"
  shows "remove_older_replaceable (ev_author r) (ev_kind r) (insert_event r e db)
    = delete_events (\<lambda>s. (ev_kind s = ev_kind r \<and> ev_author s = ev_author r) \<and> ev_id s \<noteq> ev_id r)
        (insert_event r e db)"
proof -
  let ?same = "\<lambda>s. ev_kind s = ev_kind r \<and> ev_author s = ev_author r"
  note f = new_event_row_Some [OF n]
  have "ev_created s < ev_created r" if "s \<in> set (events db)" "?same s" for s
    using not_newer_replaceable [OF old [unfolded f(3)] f(10,11) that(1)] that(2) f(4,5) by simp
  then have "take 1 (order_desc ev_created (filter ?same (events db @ [r]))) = [r]"
    by (intro hd_order_desc) auto
  then show ?thesis by (simp add: remove_older_replaceable_def Let_def)
qed

lemma new_id_absent:
  "new_event_row X now e db = Inr (Some r) \<Longrightarrow> s \<in> set (events db) \<Longrightarrow> ev_id s \<noteq> ev_id r"
  using new_event_row_Some(1) next_id_new by (metis image_eqI image_set)

lemma persist_replaceable:
  assumes inv: "db_inv db" and e: "is_replaceable e" and p: "persist_event X now e db = (db', Inr 1)"
    and pk: "hex_decode X (e_pubkey e) = Some pk"
  shows "\<exists>r. author_kind_rows pk (uint (e_kind e)) db' = [r] \<and> hex_decode X (e_id e) = Some (ev_hash r)
    \<and> json_to_string X (event_to_json e) = Some (ev_content r) \<and> \<not> ev_hidden r
    \<and> (\<forall>s \<in> set (author_kind_rows pk (uint (e_kind e)) db). ev_created s < ev_created r)"
proof (cases X now e db rule: persist_event_cases)
  case (ins r)
  note f = new_event_row_Some [OF ins(1)]
  have a: "ev_author r = pk" "ev_kind r = uint (e_kind e)" using f pk by simp_all
  have nn: "\<not> newer_replaceable (hex_decode X (e_pubkey e)) e db" using ins(3) e by simp
  have d: "distinct_param e = None" using e kind_classes_disjoint(3) [of e] by (simp add: distinct_param_eq)
  have "e_kind e \<noteq> 5" using e by (auto simp: is_replaceable_uint replaceable_kind_def)
  with p e d ins(2) have db': "db' = remove_older_replaceable (ev_author r) (ev_kind r) (insert_event r e db)"
    by (simp add: after_insert_def Let_def split: if_splits)
  have "filter (\<lambda>s. ev_id s = ev_id r \<and> ev_kind s = ev_kind r \<and> ev_author s = ev_author r) (events db) = []"
    using new_id_absent [OF ins(1)] by (auto simp: filter_empty_conv)
  then have "author_kind_rows pk (uint (e_kind e)) db' = [r]"
    unfolding db' after_insert_replaceable [OF inv ins(1) e nn] a [symmetric]
    by (simp add: author_kind_rows_def conj_commute cong: conj_cong)
  moreover have "\<forall>s \<in> set (author_kind_rows pk (uint (e_kind e)) db). ev_created s < ev_created r"
    using not_newer_replaceable [OF nn [unfolded f(3)] f(10,11)] f(5) a by (auto simp: author_kind_rows_def)
  ultimately show ?thesis using f(2,6,7) by blast
qed (use p in auto)

section \<open>Parameterized replaceable events\<close>

text \<open>The tags of an event that name the parameter.\<close>

definition d_tag_count :: "event \<Rightarrow> string \<Rightarrow> nat" where
  "d_tag_count e d = length (filter (\<lambda>g. 2 \<le> length g \<and> g ! 0 = ''d'' \<and> g ! 1 = d) (e_tags e))"

lemma single_char_d: "single_char_tagname ''d'' = Some ''d''"
  by (simp add: single_char_tagname_def)

lemma new_tag_rows_d:
  "map (\<lambda>t. (ev_id r, tg_created t))
     (filter (\<lambda>t. tg_event t = ev_id r \<and> tg_name t = ''d'' \<and> tg_value t = d) (new_tag_rows r e))
   = replicate (d_tag_count e d) (ev_id r, ev_created r)"
proof -
  have "map (\<lambda>t. (ev_id r, tg_created t))
      (filter (\<lambda>t. tg_event t = ev_id r \<and> tg_name t = ''d'' \<and> tg_value t = d)
        (List.map_filter (\<lambda>t. if 2 \<le> length t \<and> single_char_tagname (t ! 0) \<noteq> None
          then Some \<lparr>tg_event = ev_id r, tg_name = t ! 0, tg_value = t ! 1,
            tg_created = ev_created r, tg_kind = ev_kind r\<rparr> else None) gs))
    = replicate (length (filter (\<lambda>g. 2 \<le> length g \<and> g ! 0 = ''d'' \<and> g ! 1 = d) gs)) (ev_id r, ev_created r)"
    for gs
    by (induction gs) (auto simp: List.map_filter_simps single_char_d)
  then show ?thesis by (simp add: new_tag_rows_def d_tag_count_def)
qed

lemma insort_after_replicate:
  "f x < f y \<Longrightarrow> insort_key f y (replicate m x @ zs) = replicate m x @ insort_key f y zs"
  for f :: "'a \<Rightarrow> int"
  by (induction m) auto

lemma sort_replicate: "sort_key f (replicate m x) = replicate m x" for f :: "'a \<Rightarrow> int"
proof (induction m)
  case (Suc m)
  then show ?case by (cases m) simp_all
qed simp

lemma order_desc_latest:
  assumes "\<And>y. y \<in> set ys \<Longrightarrow> f y < f x"
  shows "order_desc f (ys @ replicate m x) = replicate m x @ order_desc f ys"
  using assms
  by (induction ys) (simp_all add: order_desc_def sort_replicate insort_after_replicate)

lemma param_join_insert:
  assumes inv: "db_inv db" and n: "new_event_row X now e db = Inr (Some r)"
  shows "param_join (ev_author r) (ev_kind r) d (insert_event r e db)
    = param_join (ev_author r) (ev_kind r) d db @ replicate (d_tag_count e d) (ev_id r, ev_created r)"
proof -
  have t: "filter (\<lambda>t. tg_event t = ev_id s \<and> tg_name t = ''d'' \<and> tg_value t = d) (new_tag_rows r e) = []"
    if "s \<in> set (events db)" for s
    using new_id_absent [OF n that] by (auto simp: filter_empty_conv in_new_tag_rows)
  have u: "filter (\<lambda>t. tg_event t = ev_id r \<and> tg_name t = ''d'' \<and> tg_value t = d) (tags db) = []"
    using inv new_id_absent [OF n] by (fastforce simp: db_inv_def refs_ok_def filter_empty_conv)
  define F where "F = (\<lambda>(ts :: tag_row list) (s :: event_row). map (\<lambda>t. (ev_id s, tg_created t))
    (filter (\<lambda>t. tg_event t = ev_id s \<and> tg_name t = ''d'' \<and> tg_value t = d) ts))"
  have J: "param_join (ev_author r) (ev_kind r) d x =
      concat (map (F (tags x)) (filter (\<lambda>s. ev_kind s = ev_kind r \<and> ev_author s = ev_author r) (events x)))" for x
    by (simp add: param_join_def F_def)
  have "F (tags db @ new_tag_rows r e) s = F (tags db) s" if "s \<in> set (events db)" for s
    by (simp add: F_def t [OF that])
  then have "map (F (tags db @ new_tag_rows r e)) (filter P (events db)) = map (F (tags db)) (filter P (events db))" for P
    by (intro map_cong) auto
  moreover have "F (tags db @ new_tag_rows r e) r = replicate (d_tag_count e d) (ev_id r, ev_created r)"
    by (simp add: F_def u new_tag_rows_d)
  ultimately show ?thesis by (simp only: J insert_event_sel filter_append map_append concat_append) simp
qed

lemma in_param_join:
  "(i, c) \<in> set (param_join pk k d db) \<longleftrightarrow>
     (\<exists>r \<in> set (events db). \<exists>t \<in> set (tags db). ev_kind r = k \<and> ev_author r = pk \<and> i = ev_id r
        \<and> tg_event t = ev_id r \<and> tg_name t = ''d'' \<and> tg_value t = d \<and> c = tg_created t)"
  by (auto simp: param_join_def)

lemma not_newer_param:
  assumes "\<not> newer_param_replaceable (Some pk) e d db" and "uint (e_kind e) < 2 ^ 63"
    and "uint (e_created_at e) < 2 ^ 63" and "s \<in> set (events db)" and "ev_author s = pk"
    and "ev_kind s = uint (e_kind e)" and "has_tag db s ''d'' d"
  shows "ev_created s < uint (e_created_at e)"
  using assms by (force simp: newer_param_replaceable_def sql_u64_def list_ex_iff)

text \<open>Which rows the backwards check of an inserted event removes.\<close>

lemma remove_older_param_insert:
  assumes inv: "db_inv db" and n: "new_event_row X now e db = Inr (Some r)"
    and old: "\<not> newer_param_replaceable (hex_decode X (e_pubkey e)) e d db" and c: "0 < d_tag_count e d"
  shows "events (remove_older_param (ev_author r) (ev_kind r) d (insert_event r e db))
    = filter (\<lambda>s. \<not> (ev_kind s = ev_kind r \<and> ev_author s = ev_author r \<and> has_tag db s ''d'' d)) (events db)
      @ (if d_tag_count e d = 1 then [r] else [])"
proof -
  note f = new_event_row_Some [OF n]
  let ?J = "param_join (ev_author r) (ev_kind r) d db"
  define m where "m = d_tag_count e d"
  have ids: "ev_id s = ev_id s' \<Longrightarrow> s' = s" if "s \<in> set (events db)" "s' \<in> set (events db)" for s s'
    using inv that by (auto simp: db_inv_def keys_ok_def distinct_map dest: inj_onD)
  have J: "i \<in> fst ` set ?J \<longleftrightarrow> (\<exists>s \<in> set (events db). i = ev_id s \<and> ev_kind s = ev_kind r
      \<and> ev_author s = ev_author r \<and> has_tag db s ''d'' d)" for i
  proof -
    have "i \<in> fst ` set ?J \<longleftrightarrow> (\<exists>c. (i, c) \<in> set ?J)" by force
    then show ?thesis unfolding in_param_join has_tag_def list_ex_iff by blast
  qed
  have "snd y < ev_created r" if "y \<in> set ?J" for y
  proof -
    obtain i c where y: "y = (i, c)" by fastforce
    with that obtain s t where s: "s \<in> set (events db)" "ev_kind s = ev_kind r" "ev_author s = ev_author r"
      and t: "t \<in> set (tags db)" "tg_event t = ev_id s" "tg_name t = ''d''" "tg_value t = d" "c = tg_created t"
      by (auto simp: in_param_join)
    from inv t obtain s' where "s' \<in> set (events db)" "ev_id s' = ev_id s" "c = ev_created s'"
      by (auto simp: db_inv_def refs_ok_def)
    moreover from this ids [OF s(1)] have "s' = s" by simp
    ultimately have "c = ev_created s" by simp
    moreover have "has_tag db s ''d'' d" using t by (auto simp: has_tag_def list_ex_iff)
    ultimately show ?thesis
      using not_newer_param [OF old [unfolded f(3)] f(10,11) s(1)] s f(4,5) y by simp
  qed
  then have o: "order_desc snd (param_join (ev_author r) (ev_kind r) d (insert_event r e db))
      = replicate m (ev_id r, ev_created r) @ order_desc snd ?J"
    unfolding param_join_insert [OF inv n] m_def [symmetric] by (intro order_desc_latest) auto
  define S where "S = set (map fst (drop 1 (order_desc snd
    (param_join (ev_author r) (ev_kind r) d (insert_event r e db)))))"
  have S: "S = (if m = 1 then {} else {ev_id r}) \<union> fst ` set ?J"
    unfolding S_def o using c by (cases m) (auto simp: m_def order_desc_def)
  let ?same = "\<lambda>s. ev_kind s = ev_kind r \<and> ev_author s = ev_author r"
  have "ev_id s \<in> S \<longleftrightarrow> has_tag db s ''d'' d" if "s \<in> set (events db)" "?same s" for s
  proof -
    have "ev_id s \<in> S \<longleftrightarrow> ev_id s \<in> fst ` set ?J" using new_id_absent [OF n that(1)] by (simp add: S)
    also have "\<dots> \<longleftrightarrow> has_tag db s ''d'' d" unfolding J using that ids [OF that(1)] by blast
    finally show ?thesis .
  qed
  then have 1: "filter (\<lambda>s. \<not> (?same s \<and> ev_id s \<in> S)) (events db)
      = filter (\<lambda>s. \<not> (ev_kind s = ev_kind r \<and> ev_author s = ev_author r \<and> has_tag db s ''d'' d)) (events db)"
    by (intro filter_cong) auto
  have "ev_id r \<notin> fst ` set ?J" unfolding J using new_id_absent [OF n] by fastforce
  then have 2: "filter (\<lambda>s. \<not> (?same s \<and> ev_id s \<in> S)) [r] = (if m = 1 then [r] else [])"
    by (simp add: S)
  have "events (remove_older_param (ev_author r) (ev_kind r) d (insert_event r e db))
      = filter (\<lambda>s. \<not> (?same s \<and> ev_id s \<in> S)) (events db @ [r])"
    by (simp add: remove_older_param_def Let_def S_def conj_ac)
  also have "\<dots> = filter (\<lambda>s. \<not> (ev_kind s = ev_kind r \<and> ev_author s = ev_author r \<and> has_tag db s ''d'' d)) (events db)
      @ (if m = 1 then [r] else [])"
    by (simp only: filter_append 1 2)
  finally show ?thesis by (simp only: m_def)
qed

end
