(* ===== verification/Sqlite_Repo.thy ===== *)
theory Sqlite_Repo
  imports Sqlite_Props
begin

text \<open>
  What the rest of the relay may rely on when it writes to the SQLite store: the outcome of
  parameterized replaceable events and of deletions, the rows of other authors, the retry
  loop, and the contract of an event repository as a locale, which \<open>write_event\<close> meets.
\<close>

section \<open>Steps of the transaction on the event rows\<close>

lemma events_remove_replaceable:
  "events (remove_older_replaceable pk k db) =
     filter (\<lambda>s. \<not> ((ev_kind s = k \<and> ev_author s = pk) \<and> ev_id s \<notin> set (map ev_id
       (take 1 (order_desc ev_created (filter (\<lambda>r. ev_kind r = k \<and> ev_author r = pk) (events db)))))))
     (events db)"
  by (simp add: remove_older_replaceable_def Let_def)

lemma events_remove_param:
  "events (remove_older_param pk k d db) =
     filter (\<lambda>s. \<not> (ev_kind s = k \<and> ev_author s = pk \<and>
       ev_id s \<in> set (map fst (drop 1 (order_desc snd (param_join pk k d db)))))) (events db)"
  by (simp add: remove_older_param_def Let_def)

text \<open>After the removals, the rows are some of those that were there.\<close>

definition after_removals :: "event \<Rightarrow> event_row \<Rightarrow> db \<Rightarrow> db" where
  "after_removals e r db0 =
     (let db1 = (if is_replaceable e then remove_older_replaceable (ev_author r) (ev_kind r) db0 else db0)
      in case distinct_param e of
           Some d_tag \<Rightarrow> remove_older_param (ev_author r) (ev_kind r) d_tag db1
         | None \<Rightarrow> db1)"

lemma after_insert_eq:
  "after_insert X e r db0 =
     (if e_kind e = 5 then (hide_deleted (ev_author r) (deletion_targets X e) (after_removals e r db0), Inr 1)
      else if deletion_recorded (ev_author r) (e_id e) (after_removals e r db0)
      then (hide_events (\<lambda>x. ev_id x = ev_id r) (after_removals e r db0), Inr 0)
      else (after_removals e r db0, Inr 1))"
  by (simp add: after_insert_def after_removals_def Let_def)

lemma after_removals_subset: "set (events (after_removals e r db)) \<subseteq> set (events db)"
  by (auto simp: after_removals_def events_remove_replaceable events_remove_param Let_def split: option.split)

lemma after_removals_others:
  "filter (\<lambda>s. ev_author s \<noteq> ev_author r) (events (after_removals e r db))
     = filter (\<lambda>s. ev_author s \<noteq> ev_author r) (events db)"
proof -
  have 1: "filter (\<lambda>s. ev_author s \<noteq> ev_author r) (events (remove_older_replaceable (ev_author r) k x))
      = filter (\<lambda>s. ev_author s \<noteq> ev_author r) (events x)" for k and x :: db
    unfolding events_remove_replaceable filter_filter by (rule filter_cong) auto
  have 2: "filter (\<lambda>s. ev_author s \<noteq> ev_author r) (events (remove_older_param (ev_author r) k d x))
      = filter (\<lambda>s. ev_author s \<noteq> ev_author r) (events x)" for k d and x :: db
    unfolding events_remove_param filter_filter by (rule filter_cong) auto
  show ?thesis by (simp add: after_removals_def Let_def 1 2 split: option.split)
qed

lemma after_removals_other_kind:
  "s \<in> set (events db) \<Longrightarrow> ev_kind s \<noteq> ev_kind r \<Longrightarrow> s \<in> set (events (after_removals e r db))"
  by (auto simp: after_removals_def events_remove_replaceable events_remove_param Let_def split: option.split)

lemma after_removals_tags:
  assumes "keys_ok db" and "t \<in> set (tags db)" and "tg_event t = ev_id s"
    and "s \<in> set (events (after_removals e r db))"
  shows "t \<in> set (tags (after_removals e r db))"
proof -
  have del: "t \<in> set (tags (delete_events p x)) \<and> keys_ok (delete_events p x)"
    if "keys_ok x" "t \<in> set (tags x)" "s \<in> set (events (delete_events p x))" for p and x :: db
    using that assms(3) by (auto simp: keys_ok_delete) (auto simp: keys_ok_def distinct_map dest: inj_onD)
  have step: "t \<in> set (tags y) \<and> keys_ok y"
    if "y = x \<or> (\<exists>p. y = delete_events p x)" "keys_ok x" "t \<in> set (tags x)" "s \<in> set (events y)" for x y :: db
    using that del by blast
  define db1 where "db1 = (if is_replaceable e
    then remove_older_replaceable (ev_author r) (ev_kind r) db else db)"
  have r: "after_removals e r db = (case distinct_param e of
      Some d \<Rightarrow> remove_older_param (ev_author r) (ev_kind r) d db1 | None \<Rightarrow> db1)"
    unfolding after_removals_def Let_def db1_def by (rule refl)
  have 1: "db1 = db \<or> (\<exists>p. db1 = delete_events p db)"
    unfolding db1_def remove_older_replaceable_def Let_def by (cases "is_replaceable e") auto
  have 2: "after_removals e r db = db1 \<or> (\<exists>p. after_removals e r db = delete_events p db1)"
    unfolding r remove_older_param_def Let_def by (cases "distinct_param e") auto
  from 2 assms(4) have "s \<in> set (events db1)" by auto
  from step [OF 1 assms(1,2) this] step [OF 2 _ _ assms(4)] show ?thesis by blast
qed

section \<open>Other authors\<close>

lemma hide_others:
  assumes "\<And>s. p s \<Longrightarrow> ev_author s = pk \<or> s \<notin> set (events db)"
  shows "filter (\<lambda>s. ev_author s \<noteq> pk) (events (hide_events p db))
    = filter (\<lambda>s. ev_author s \<noteq> pk) (events db)"
proof -
  have "filter (\<lambda>s. ev_author s \<noteq> pk) (map (\<lambda>r. if p r then r\<lparr>ev_hidden := True\<rparr> else r) rs)
      = filter (\<lambda>s. ev_author s \<noteq> pk) rs" if "set rs \<subseteq> set (events db)" for rs
    using that assms by (induction rs) auto
  then show ?thesis by (simp add: events_hide)
qed

lemma persist_event_other_authors:
  assumes "db_inv db" and "hex_decode X (e_pubkey e) = Some pk"
  shows "filter (\<lambda>s. ev_author s \<noteq> pk) (events (fst (persist_event X now e db)))
    = filter (\<lambda>s. ev_author s \<noteq> pk) (events db)"
proof (cases X now e db rule: persist_event_cases)
  case (ins r)
  let ?x = "after_removals e r (insert_event r e db)"
  have pk: "ev_author r = pk" using new_event_row_Some(3) [OF ins(1)] assms(2) by simp
  have x: "filter (\<lambda>s. ev_author s \<noteq> pk) (events ?x) = filter (\<lambda>s. ev_author s \<noteq> pk) (events db)"
    using after_removals_others [of r e "insert_event r e db"] pk by simp
  have "ev_id s = ev_id r \<Longrightarrow> ev_author s = pk \<or> s \<notin> set (events ?x)" for s
    using new_id_absent [OF ins(1)] after_removals_subset [of e r "insert_event r e db"] pk by auto
  then have "filter (\<lambda>s. ev_author s \<noteq> pk) (events (hide_events (\<lambda>s. ev_id s = ev_id r) ?x))
      = filter (\<lambda>s. ev_author s \<noteq> pk) (events ?x)" by (intro hide_others) blast
  moreover have "filter (\<lambda>s. ev_author s \<noteq> pk) (events (hide_deleted pk ts ?x))
      = filter (\<lambda>s. ev_author s \<noteq> pk) (events ?x)" for ts
    unfolding hide_deleted_def by (rule hide_others) blast
  ultimately show ?thesis using ins(2) x pk by (simp add: after_insert_eq)
qed simp_all

section \<open>Parameterized replaceable events\<close>

lemma param_not_other:
  assumes "distinct_param e = Some d"
  shows "\<not> is_replaceable e" and "e_kind e \<noteq> 5"
proof -
  have p: "is_param_replaceable e" using assms by (auto simp: distinct_param_def split: if_splits)
  then show "\<not> is_replaceable e" using kind_classes_disjoint(3) by blast
  from p show "e_kind e \<noteq> 5" by (auto simp: is_param_replaceable_def word_le_def)
qed

lemma persist_param_ins:
  assumes "distinct_param e = Some d" and "persist_event X now e db = (db', Inr 1)"
  obtains r where "new_event_row X now e db = Inr (Some r)"
    and "\<not> newer_param_replaceable (hex_decode X (e_pubkey e)) e d db"
    and "db' = remove_older_param (ev_author r) (ev_kind r) d (insert_event r e db)"
proof (cases X now e db rule: persist_event_cases)
  case (ins r)
  show thesis
  proof (rule that [OF ins(1) ins(4) [OF assms(1)]])
    show "db' = remove_older_param (ev_author r) (ev_kind r) d (insert_event r e db)"
      using assms ins(2) param_not_other [OF assms(1)]
      by (simp add: after_insert_eq after_removals_def split: if_splits)
  qed
qed (use assms in auto)

lemma d_tag_row:
  assumes "0 < d_tag_count e d"
  shows "\<lparr>tg_event = ev_id r, tg_name = ''d'', tg_value = d, tg_created = ev_created r, tg_kind = ev_kind r\<rparr>
    \<in> set (new_tag_rows r e)"
proof -
  from assms obtain g where "g \<in> set (e_tags e)" "2 \<le> length g" "g ! 0 = ''d''" "g ! 1 = d"
    by (auto simp: d_tag_count_def filter_empty_conv)
  then show ?thesis unfolding in_new_tag_rows by (intro bexI [of _ g]) (auto simp: single_char_d)
qed

lemma persist_param_once:
  assumes inv: "db_inv db" and d: "distinct_param e = Some d" and c: "d_tag_count e d = 1"
    and p: "persist_event X now e db = (db', Inr 1)" and pk: "hex_decode X (e_pubkey e) = Some pk"
  shows "\<exists>r. filter (\<lambda>s. has_tag db' s ''d'' d) (author_kind_rows pk (uint (e_kind e)) db') = [r]
    \<and> hex_decode X (e_id e) = Some (ev_hash r) \<and> \<not> ev_hidden r
    \<and> json_to_string X (event_to_json e) = Some (ev_content r)"
proof -
  from d p obtain r where n: "new_event_row X now e db = Inr (Some r)"
    and old: "\<not> newer_param_replaceable (hex_decode X (e_pubkey e)) e d db"
    and db': "db' = remove_older_param (ev_author r) (ev_kind r) d (insert_event r e db)"
    by (rule persist_param_ins)
  note f = new_event_row_Some [OF n]
  have a: "ev_author r = pk" "ev_kind r = uint (e_kind e)" using f pk by simp_all
  have ev: "events db' =
      filter (\<lambda>s. \<not> (ev_kind s = ev_kind r \<and> ev_author s = ev_author r \<and> has_tag db s ''d'' d)) (events db) @ [r]"
    using remove_older_param_insert [OF inv n old] c by (simp add: db')
  have keys: "keys_ok (insert_event r e db)" using inv n by (simp add: db_inv_def keys_ok_insert)
  have old_tags: "has_tag db s ''d'' d" if "s \<in> set (events db)" "has_tag db' s ''d'' d" for s
  proof -
    from that(2) obtain t where "t \<in> set (tags db')" and t: "tg_event t = ev_id s" "tg_name t = ''d''" "tg_value t = d"
      by (auto simp: has_tag_def list_ex_iff)
    then have "t \<in> set (tags db) \<or> t \<in> set (new_tag_rows r e)"
      by (auto simp: db' remove_older_param_def Let_def)
    moreover have "t \<notin> set (new_tag_rows r e)"
      using t new_id_absent [OF n that(1)] by (auto simp: in_new_tag_rows)
    ultimately show ?thesis using t by (auto simp: has_tag_def list_ex_iff)
  qed
  have rem: "after_removals e r (insert_event r e db) = db'"
    using d param_not_other [OF d] by (simp add: after_removals_def db')
  have new: "has_tag db' r ''d'' d"
  proof -
    let ?t = "\<lparr>tg_event = ev_id r, tg_name = ''d'', tg_value = d, tg_created = ev_created r, tg_kind = ev_kind r\<rparr>"
    have "?t \<in> set (tags (insert_event r e db))" using d_tag_row [of e d r] c by simp
    from after_removals_tags [OF keys this, of r e r] have "?t \<in> set (tags db')" by (simp add: rem ev)
    then show ?thesis unfolding has_tag_def list_ex_iff by (intro bexI [of _ ?t]) simp_all
  qed
  have "filter (\<lambda>s. has_tag db' s ''d'' d) (author_kind_rows pk (uint (e_kind e)) db') = [r]"
    using old_tags new by (auto simp: author_kind_rows_def ev a filter_empty_conv)
  then show ?thesis using f(2,6,7) by blast
qed

text \<open>An event whose parameter tag is repeated removes its own row.\<close>

lemma persist_param_repeated:
  assumes inv: "db_inv db" and d: "distinct_param e = Some d" and c: "2 \<le> d_tag_count e d"
    and p: "persist_event X now e db = (db', Inr 1)" and i: "hex_decode X (e_id e) = Some i"
  shows "i \<notin> ev_hash ` set (events db')"
proof -
  from d p obtain r where n: "new_event_row X now e db = Inr (Some r)"
    and old: "\<not> newer_param_replaceable (hex_decode X (e_pubkey e)) e d db"
    and db': "db' = remove_older_param (ev_author r) (ev_kind r) d (insert_event r e db)"
    by (rule persist_param_ins)
  have "set (events db') \<subseteq> set (events db)"
    using remove_older_param_insert [OF inv n old] c by (auto simp: db')
  moreover have "i \<notin> ev_hash ` set (events db)" using new_event_row_Some(2,8) [OF n] i by simp
  ultimately show ?thesis by blast
qed

section \<open>Deletions\<close>

definition visible :: "db \<Rightarrow> bytes \<Rightarrow> bool" where
  "visible db h \<longleftrightarrow> (\<exists>s \<in> set (events db). ev_hash s = h \<and> \<not> ev_hidden s)"

lemma visible_hide: "visible (hide_events p db) h \<Longrightarrow> \<exists>s \<in> set (events db). ev_hash s = h \<and> \<not> ev_hidden s \<and> \<not> p s"
  by (auto simp: visible_def events_hide split: if_splits)

lemma persist_deletion:
  assumes k: "e_kind e = 5" and p: "persist_event X now e db = (db', Inr 1)"
    and pk: "hex_decode X (e_pubkey e) = Some pk"
  shows "\<exists>r. events db' = map
      (\<lambda>s. if ev_kind s \<noteq> 5 \<and> ev_author s = pk \<and> ev_hash s \<in> set (deletion_targets X e)
           then s\<lparr>ev_hidden := True\<rparr> else s) (events db) @ [r]
    \<and> hex_decode X (e_id e) = Some (ev_hash r) \<and> \<not> ev_hidden r"
proof (cases X now e db rule: persist_event_cases)
  case (ins r)
  note f = new_event_row_Some [OF ins(1)]
  have a: "ev_author r = pk" "ev_kind r = 5" using f k pk by simp_all
  have "\<not> is_replaceable e" and "distinct_param e = None"
    using k by (auto simp: is_replaceable_uint replaceable_kind_def distinct_param_eq is_param_replaceable_def word_le_def)
  then have "after_removals e r (insert_event r e db) = insert_event r e db"
    by (simp add: after_removals_def)
  with p ins(2) k a have "db' = hide_deleted pk (deletion_targets X e) (insert_event r e db)"
    by (simp add: after_insert_eq)
  then show ?thesis using f(2,6) a by (auto simp: hide_deleted_def events_hide)
qed (use p in auto)

lemma deletion_recorded_iff:
  "deletion_recorded pk i db \<longleftrightarrow> (\<exists>r \<in> set (events db). ev_author r = pk \<and>
     (\<exists>t \<in> set (tags db). tg_event t = ev_id r \<and> tg_name t = ''e'' \<and> tg_kind t = 5 \<and> tg_value t = i))"
  by (auto simp: deletion_recorded_def list_ex_iff)

lemma deletion_survives:
  assumes inv: "db_inv db" and n: "new_event_row X now e db = Inr (Some r)" and k: "e_kind e \<noteq> 5"
    and del: "deletion_recorded pk i db"
  shows "deletion_recorded pk i (after_removals e r (insert_event r e db))"
proof -
  from del obtain s t where s: "s \<in> set (events db)" "ev_author s = pk"
    and t: "t \<in> set (tags db)" "tg_event t = ev_id s" "tg_name t = ''e''" "tg_kind t = 5" "tg_value t = i"
    by (auto simp: deletion_recorded_iff)
  from inv t obtain s' where "s' \<in> set (events db)" "ev_id s' = ev_id s" "ev_kind s' = 5"
    by (auto simp: db_inv_def refs_ok_def)
  moreover from this s(1) inv have "s' = s"
    by (auto simp: db_inv_def keys_ok_def distinct_map dest: inj_onD)
  moreover have "ev_kind r \<noteq> 5" using new_event_row_Some(4) [OF n] k by (simp add: word_uint_eq_iff)
  ultimately have keep: "s \<in> set (events (after_removals e r (insert_event r e db)))"
    using s(1) by (intro after_removals_other_kind) auto
  have "keys_ok (insert_event r e db)" using inv n by (simp add: db_inv_def keys_ok_insert)
  from after_removals_tags [OF this _ t(2) keep] t(1)
  have "t \<in> set (tags (after_removals e r (insert_event r e db)))" by simp
  with keep s t show ?thesis unfolding deletion_recorded_iff by blast
qed

lemma persist_deleted:
  assumes inv: "db_inv db" and k: "e_kind e \<noteq> 5" and pk: "hex_decode X (e_pubkey e) = Some pk"
    and del: "deletion_recorded pk (e_id e) db"
  shows "snd (persist_event X now e db) \<noteq> Inr 1"
proof (cases X now e db rule: persist_event_cases)
  case (ins r)
  have "ev_author r = pk" using new_event_row_Some(3) [OF ins(1)] pk by simp
  with deletion_survives [OF inv ins(1) k del] ins(2) k show ?thesis by (simp add: after_insert_eq)
qed simp_all

section \<open>What becomes visible\<close>

lemma persist_visible:
  assumes "visible (fst (persist_event X now e db)) h"
  shows "visible db h \<or> hex_decode X (e_id e) = Some h \<and> snd (persist_event X now e db) = Inr 1"
proof (cases X now e db rule: persist_event_cases)
  case (ins r)
  let ?x = "after_removals e r (insert_event r e db)"
  note f = new_event_row_Some [OF ins(1)]
  have sub: "s \<in> set (events db) \<or> s = r" if "s \<in> set (events ?x)" for s
    using after_removals_subset [of e r "insert_event r e db"] that by auto
  show ?thesis
  proof (cases "snd (persist_event X now e db) = Inr 1")
    case True
    have "\<exists>s \<in> set (events ?x). ev_hash s = h \<and> \<not> ev_hidden s"
      using assms True ins(2)
      by (auto simp: after_insert_eq hide_deleted_def visible_def events_hide split: if_splits)
    with sub True f(2) show ?thesis by (auto simp: visible_def)
  next
    case False
    then have "fst (persist_event X now e db) = hide_events (\<lambda>x. ev_id x = ev_id r) ?x"
      using ins(2) by (simp add: after_insert_eq split: if_splits)
    with assms have "visible (hide_events (\<lambda>x. ev_id x = ev_id r) ?x) h" by simp
    from visible_hide [OF this] obtain s
      where "s \<in> set (events ?x)" "ev_hash s = h" "\<not> ev_hidden s" "ev_id s \<noteq> ev_id r" by blast
    with sub show ?thesis by (auto simp: visible_def)
  qed
qed (use assms in auto)

section \<open>The retry loop\<close>

lemma persist_not_sqlite_failure: "\<not> is_sqlite_failure (snd (persist_event X now e db))"
proof (cases X now e db rule: persist_event_cases)
  case (fail err)
  then have "err = out_of_range"
    by (auto simp: persist_event_def Let_def new_event_row_def after_insert_def
        split: if_splits option.splits sum.splits)
  with fail show ?thesis by (simp add: is_sqlite_failure_def out_of_range_def starts_with_def)
qed (auto simp: is_sqlite_failure_def after_insert_def Let_def)

lemma sqlite_failure_is: "is_sqlite_failure (Inl (sqlite_failure msg))"
  by (simp add: is_sqlite_failure_def sqlite_failure_def starts_with_def)

text \<open>The first attempt that meets no failure decides; when all fail, nothing is written.\<close>

lemma write_attempts_cases:
  "write_attempts X now busy e n i db =
     (if \<exists>j \<le> n. busy (i + j) = None then persist_event X now e db
      else (db, Inl (sqlite_failure (the (busy (i + n))))))"
proof (induction n arbitrary: i)
  case 0
  then show ?case by (simp add: persist_attempt_def split: option.split)
next
  case (Suc n)
  have split: "(\<exists>j \<le> Suc n. busy (i + j) = None) \<longleftrightarrow> busy i = None \<or> (\<exists>j \<le> n. busy (Suc i + j) = None)"
    by (metis Suc_le_mono add_0_right add_Suc_right add_Suc_shift le0 not0_implies_Suc)
  show ?case
  proof (cases "busy i")
    case None
    then have "persist_attempt X now busy e i db = persist_event X now e db"
      by (simp add: persist_attempt_def)
    with None persist_not_sqlite_failure [of X now e db] show ?thesis
      unfolding split by (simp add: case_prod_beta)
  next
    case (Some msg)
    then have "write_attempts X now busy e (Suc n) i db = write_attempts X now busy e n (Suc i) db"
      by (simp add: persist_attempt_def sqlite_failure_is)
    with Some show ?thesis
      by (simp only: split Suc [of "Suc i"] add_Suc_right add_Suc option.distinct simp_thms)
  qed
qed

lemma write_event_cases:
  "write_event X now busy e db =
     (if \<exists>i. 1 \<le> i \<and> i \<le> 10 \<and> busy i = None then persist_event X now e db
      else (db, Inl (sqlite_failure (the (busy 10)))))"
proof -
  have "(\<exists>j \<le> 9. busy (1 + j) = None) \<longleftrightarrow> (\<exists>i. 1 \<le> i \<and> i \<le> 10 \<and> busy i = None)"
  proof
    assume "\<exists>i. 1 \<le> i \<and> i \<le> 10 \<and> busy i = None"
    then obtain i where "1 \<le> i" "i \<le> 10" "busy i = None" by blast
    then have "i - 1 \<le> 9 \<and> busy (1 + (i - 1)) = None" by simp
    then show "\<exists>j \<le> 9. busy (1 + j) = None" by blast
  next
    assume "\<exists>j \<le> 9. busy (1 + j) = None"
    then obtain j where "j \<le> 9" "busy (1 + j) = None" by blast
    then have "1 \<le> 1 + j \<and> 1 + j \<le> 10 \<and> busy (1 + j) = None" by simp
    then show "\<exists>i. 1 \<le> i \<and> i \<le> 10 \<and> busy i = None" by blast
  qed
  moreover have "max_write_attempts - 1 = 9" and "1 + 9 = (10 :: nat)"
    by (simp_all add: max_write_attempts_def)
  ultimately show ?thesis by (simp only: write_event_def write_attempts_cases)
qed

section \<open>The contract of an event repository\<close>

locale event_repo =
  fixes wr :: "event \<Rightarrow> 'db \<Rightarrow> 'db \<times> (error + u64)"
    and ok :: "'db \<Rightarrow> bool"
    and vis :: "'db \<Rightarrow> 'h \<Rightarrow> bool"
    and key :: "event \<Rightarrow> 'h option"
  assumes wr_ok: "ok db \<Longrightarrow> ok (fst (wr e db))"
    and wr_error: "snd (wr e db) = Inl err \<Longrightarrow> fst (wr e db) = db"
    and wr_count: "snd (wr e db) = Inr n \<Longrightarrow> n = 0 \<or> n = 1"
    and wr_vis: "vis (fst (wr e db)) h \<Longrightarrow> vis db h \<or> key e = Some h \<and> snd (wr e db) = Inr 1"
begin

text \<open>A sequence of writes, with the events the repository accepted.\<close>

fun writes :: "event list \<Rightarrow> 'db \<Rightarrow> 'db \<times> event list" where
  "writes [] db = (db, [])"
| "writes (e # es) db =
     (let (db', r) = wr e db; (db'', acc) = writes es db' in
      (db'', if r = Inr 1 then e # acc else acc))"

lemma writes_ok: "ok db \<Longrightarrow> ok (fst (writes es db))"
  by (induction es arbitrary: db) (auto simp: case_prod_beta Let_def wr_ok)

lemma writes_vis:
  "vis (fst (writes es db)) h \<Longrightarrow> vis db h \<or> (\<exists>e \<in> set (snd (writes es db)). key e = Some h)"
proof (induction es arbitrary: db)
  case (Cons e es)
  then have "vis (fst (writes es (fst (wr e db)))) h" by (simp add: case_prod_beta Let_def)
  from Cons.IH [OF this] consider "vis (fst (wr e db)) h"
    | "\<exists>x \<in> set (snd (writes es (fst (wr e db)))). key x = Some h" by blast
  then show ?case
  proof cases
    case 1
    with wr_vis [OF 1] show ?thesis by (auto simp: case_prod_beta Let_def)
  qed (auto simp: case_prod_beta Let_def)
qed simp

lemma rejected_not_vis:
  "snd (wr e db) \<noteq> Inr 1 \<Longrightarrow> vis (fst (wr e db)) h \<Longrightarrow> vis db h"
  using wr_vis by blast

end

interpretation sqlite: event_repo "write_event X now busy" db_inv visible "\<lambda>e. hex_decode X (e_id e)"
  for X now busy
proof
  show "db_inv db \<Longrightarrow> db_inv (fst (write_event X now busy e db))" for e db
    by (simp add: write_event_cases persist_event_inv)
  show "snd (write_event X now busy e db) = Inl err \<Longrightarrow> fst (write_event X now busy e db) = db" for e db err
    by (auto simp: write_event_cases persist_event_error split: if_splits)
  show "snd (write_event X now busy e db) = Inr n \<Longrightarrow> n = 0 \<or> n = 1" for e db n
    by (auto simp: write_event_cases persist_event_count split: if_splits)
  show "visible (fst (write_event X now busy e db)) h \<Longrightarrow>
      visible db h \<or> hex_decode X (e_id e) = Some h \<and> snd (write_event X now busy e db) = Inr 1" for e db h
    using persist_visible [of X now e db h] by (auto simp: write_event_cases split: if_splits)
qed

section \<open>Expired events\<close>

lemma delete_expired_inv: "db_inv db \<Longrightarrow> db_inv (fst (delete_expired now db))"
  by (simp add: delete_expired_def db_inv_delete)

lemma delete_expired_events:
  "uint now < 2 ^ 63 \<Longrightarrow> events (fst (delete_expired now db)) =
     filter (\<lambda>r. \<forall>x. ev_expires r = Some x \<longrightarrow> uint now < x) (events db)"
  by (auto simp: delete_expired_def sql_u64_def is_expired_row_def not_le intro!: filter_cong split: option.split)

end
