(* ===== verification/Config.thy ===== *)
theory Config
  imports External
begin

text \<open>
  The configuration (\<open>src/src/config.rs\<close>): the structures of the settings and their
  defaults, and the parser of the kind filters. A regular expression is its pattern, and a
  \<open>Duration\<close> is its whole seconds, the part that the code reads. The file system and the
  layered configuration of the \<open>config\<close> crate are arguments.
\<close>

section \<open>Access rules and tag requirements\<close>

datatype access_rule = AllowAll | DenyAll | Identifiers "string list"

definition access_rule_from_json :: "json \<Rightarrow> access_rule" where
  "access_rule_from_json v =
     (case v of
        JString s \<Rightarrow>
          if s = ''*'' \<or> s = ''all'' then AllowAll
          else if s = ''none'' then DenyAll
          else Identifiers [s]
      | JArray arr \<Rightarrow> Identifiers (List.map_filter as_str arr)
      | _ \<Rightarrow> DenyAll)"

datatype tag_requirement = TagNone | TagRequired | TagRequiredHex

definition tag_requirement_from_str :: "string \<Rightarrow> tag_requirement" where
  "tag_requirement_from_str s =
     (if s = ''none'' then TagNone else if s = ''hex'' then TagRequiredHex else TagRequired)"

section \<open>Rate limits\<close>

record rate_limit_config =
  events_per_minute :: u32

text \<open>The part before the first slash is the number; the unit after it is not read.\<close>

definition rate_limit_from_str :: "ext \<Rightarrow> string \<Rightarrow> rate_limit_config option" where
  "rate_limit_from_str X s =
     (if s = ''none'' then None
      else (case split_once ''/'' s of
              None \<Rightarrow> None
            | Some (num_str, _) \<Rightarrow>
                map_option (\<lambda>n. \<lparr>events_per_minute = n\<rparr>) (parse_u32 (trim X num_str))))"

datatype rate_window = Minute | Hour | Day

definition rate_window_from_str :: "ext \<Rightarrow> string \<Rightarrow> rate_window option" where
  "rate_window_from_str X s =
     (let t = to_lowercase X (trim X s) in
      if t \<in> {''min'', ''minute'', ''1m''} then Some Minute
      else if t \<in> {''hour'', ''h'', ''1h''} then Some Hour
      else if t \<in> {''day'', ''d'', ''1d''} then Some Day
      else None)"

fun window_secs :: "rate_window \<Rightarrow> u64" where
  "window_secs Minute = 60"
| "window_secs Hour = 3600"
| "window_secs Day = 86400"

datatype rate_scope = ScopeGlobal | ScopeNpub | ScopeIp

definition rate_scope_from_str :: "ext \<Rightarrow> string \<Rightarrow> rate_scope option" where
  "rate_scope_from_str X s =
     (let t = to_lowercase X (trim X s) in
      if t \<in> {''global'', ''any'', ''server''} then Some ScopeGlobal
      else if t \<in> {''npub'', ''pubkey'', ''author''} then Some ScopeNpub
      else if t \<in> {''ip'', ''remote_ip''} then Some ScopeIp
      else None)"

record rate_limit_rule =
  r_limit :: u32
  r_window :: rate_window
  r_scope :: rate_scope

definition rate_rule_from_json :: "ext \<Rightarrow> json \<Rightarrow> rate_limit_rule option" where
  "rate_rule_from_json X v =
     Option.bind (as_object v) (\<lambda>obj.
     Option.bind (Option.bind (map_of obj ''limit'') as_u64) (\<lambda>n.
     Option.bind (Option.bind (Option.bind (map_of obj ''window'') as_str) (rate_window_from_str X)) (\<lambda>w.
     Option.bind (Option.bind (Option.bind (map_of obj ''scope'') as_str) (rate_scope_from_str X)) (\<lambda>sc.
       Some \<lparr>r_limit = ucast n, r_window = w, r_scope = sc\<rparr>))))"

section \<open>Tag limits, expirations and sizes\<close>

record tag_limits =
  max_tags :: usize
  max_tag_name_chars :: usize
  max_tag_value_chars :: usize

definition tag_limits_from_json :: "json \<Rightarrow> tag_limits option" where
  "tag_limits_from_json v =
     map_option
       (\<lambda>obj. let get = (\<lambda>key. case Option.bind (map_of obj key) as_u64 of Some n \<Rightarrow> n | None \<Rightarrow> 0) in
          \<lparr>max_tags = get ''max_tags'', max_tag_name_chars = get ''max_tag_name_chars'',
           max_tag_value_chars = get ''max_tag_value_chars''\<rparr>)
       (as_object v)"

definition tag_limits_enabled :: "tag_limits \<Rightarrow> bool" where
  "tag_limits_enabled l \<longleftrightarrow> 0 < max_tags l \<or> 0 < max_tag_name_chars l \<or> 0 < max_tag_value_chars l"

record expiration_config =
  x_duration :: "u64 option"

definition expiration_from_str :: "ext \<Rightarrow> string \<Rightarrow> expiration_config" where
  "expiration_from_str X s =
     (if s = ''never'' then \<lparr>x_duration = None\<rparr> else \<lparr>x_duration = parse_duration X s\<rparr>)"

definition parse_usize :: "string \<Rightarrow> usize option" where
  "parse_usize s = parse_u64 s"

definition parse_size_string :: "ext \<Rightarrow> string \<Rightarrow> usize option" where
  "parse_size_string X s0 =
     (let s = to_uppercase X (trim X s0) in
      if ends_with s ''KB'' then map_option (\<lambda>n. n * 1024) (parse_usize (take (length s - 2) s))
      else if ends_with s ''MB'' then
        map_option (\<lambda>n. n * 1024 * 1024) (parse_usize (take (length s - 2) s))
      else if ends_with s ''GB'' then
        map_option (\<lambda>n. n * 1024 * 1024 * 1024) (parse_usize (take (length s - 2) s))
      else if ends_with s ''B'' then parse_usize (take (length s - 1) s)
      else parse_usize s)"

section \<open>Kind filters\<close>

record write_read_config =
  wr_script :: "string option"
  wr_allow :: access_rule
  wr_deny :: access_rule
  wr_privileged :: bool
  wr_error :: "string option"

record kind_filter_config =
  k_description :: "string option"
  k_write :: "write_read_config option"
  k_read :: "write_read_config option"
  k_max_size :: "usize option"
  k_rate_limit :: "rate_limit_config option"
  k_require_auth :: bool
  k_rate_limits :: "rate_limit_rule list"
  k_tag_limits :: "tag_limits option"
  k_expiration :: expiration_config
  k_max_expiration :: expiration_config
  k_d_tag :: tag_requirement
  k_p_tag :: tag_requirement
  k_required_tags :: "string list"
  k_tag_patterns :: "(string \<times> string) list"
  k_errors :: "(string \<times> string) list"

record kind_filters =
  kf_config_file :: "string option"
  kf_whitelist :: "u64 list option"
  kf_blacklist :: "u64 list option"
  kf_errors :: "(string \<times> string) list"
  kf_filters :: "(u64 \<times> kind_filter_config) list"

definition kind_filters_new :: kind_filters where
  "kind_filters_new = \<lparr>kf_config_file = None, kf_whitelist = None, kf_blacklist = None,
     kf_errors = [], kf_filters = []\<rparr>"

text \<open>The loop over the entries stops at the first value that is not a string.\<close>

fun errors_entries :: "(string \<times> json) list \<Rightarrow> (string \<times> string) list \<Rightarrow> string + (string \<times> string) list" where
  "errors_entries [] acc = Inr acc"
| "errors_entries ((k, v) # m) acc =
     (case as_str v of
        None \<Rightarrow> Inl (''errors.'' @ k @ '' must be a string'')
      | Some s \<Rightarrow> errors_entries m (AList.update k s acc))"

definition parse_errors_map :: "json \<Rightarrow> string + (string \<times> string) list" where
  "parse_errors_map v =
     result_bind (ok_or (as_object v) ''errors must be an object of string keys to string values'')
       (\<lambda>obj. errors_entries obj [])"

definition obj_str :: "(string \<times> json) list \<Rightarrow> string \<Rightarrow> string option" where
  "obj_str obj k = Option.bind (map_of obj k) as_str"

definition obj_bool :: "(string \<times> json) list \<Rightarrow> string \<Rightarrow> bool" where
  "obj_bool obj k = (case Option.bind (map_of obj k) as_bool of Some b \<Rightarrow> b | None \<Rightarrow> False)"

definition write_read_from_json :: "json \<Rightarrow> string + write_read_config" where
  "write_read_from_json v =
     result_bind (ok_or (as_object v) ''Write/read config must be an object'') (\<lambda>obj.
       Inr \<lparr>wr_script = obj_str obj ''script'',
            wr_allow = (case map_of obj ''allow'' of Some a \<Rightarrow> access_rule_from_json a | None \<Rightarrow> AllowAll),
            wr_deny = (case map_of obj ''deny'' of Some a \<Rightarrow> access_rule_from_json a | None \<Rightarrow> DenyAll),
            wr_privileged = obj_bool obj ''privileged'',
            wr_error = obj_str obj ''error''\<rparr>)"

text \<open>\<open>Option::map(f).transpose()?\<close> for the two access configurations.\<close>

definition opt_write_read :: "(string \<times> json) list \<Rightarrow> string \<Rightarrow> string + write_read_config option" where
  "opt_write_read obj k =
     (case map_of obj k of
        None \<Rightarrow> Inr None
      | Some v \<Rightarrow> result_bind (write_read_from_json v) (\<lambda>c. Inr (Some c)))"

definition parse_required_tags :: "json option \<Rightarrow> string + string list" where
  "parse_required_tags jv =
     (case jv of
        None \<Rightarrow> Inr []
      | Some v \<Rightarrow>
          ok_or (de_strings v) ''required_tags must be an array of strings'')"

fun pattern_entries ::
  "ext \<Rightarrow> (string \<times> json) list \<Rightarrow> (string \<times> string) list \<Rightarrow> string + (string \<times> string) list" where
  "pattern_entries X [] acc = Inr acc"
| "pattern_entries X ((name, v) # m) acc =
     (case as_str v of
        None \<Rightarrow> Inl (''tag_patterns.'' @ name @ '' must be a regex string'')
      | Some p \<Rightarrow>
          (case regex_new X p of
             Inl err \<Rightarrow> Inl (''invalid regex for tag_patterns.'' @ name @ '': '' @ err)
           | Inr _ \<Rightarrow> pattern_entries X m (AList.update name p acc)))"

definition parse_tag_patterns :: "ext \<Rightarrow> json option \<Rightarrow> string + (string \<times> string) list" where
  "parse_tag_patterns X jv =
     (case jv of
        None \<Rightarrow> Inr []
      | Some v \<Rightarrow>
          result_bind
            (ok_or (as_object v) ''tag_patterns must be an object of tag names to regex strings'')
            (\<lambda>m. pattern_entries X m []))"

definition obj_expiration :: "ext \<Rightarrow> (string \<times> json) list \<Rightarrow> string \<Rightarrow> expiration_config" where
  "obj_expiration X obj k =
     (case obj_str obj k of Some s \<Rightarrow> expiration_from_str X s | None \<Rightarrow> expiration_from_str X ''never'')"

definition obj_requirement :: "(string \<times> json) list \<Rightarrow> string \<Rightarrow> tag_requirement" where
  "obj_requirement obj k =
     (case obj_str obj k of Some s \<Rightarrow> tag_requirement_from_str s | None \<Rightarrow> TagNone)"

definition obj_rate_rules :: "ext \<Rightarrow> (string \<times> json) list \<Rightarrow> rate_limit_rule list" where
  "obj_rate_rules X obj =
     (case Option.bind (map_of obj ''rate_limits'') as_array of
        None \<Rightarrow> []
      | Some arr \<Rightarrow> List.map_filter (rate_rule_from_json X) arr)"

definition kind_filter_from_json :: "ext \<Rightarrow> json \<Rightarrow> string + kind_filter_config" where
  "kind_filter_from_json X v =
     result_bind (ok_or (as_object v) ''Kind filter config must be an object'') (\<lambda>obj.
     result_bind (opt_write_read obj ''write'') (\<lambda>w.
     result_bind (opt_write_read obj ''read'') (\<lambda>r.
     result_bind (parse_required_tags (map_of obj ''required_tags'')) (\<lambda>req.
     result_bind (parse_tag_patterns X (map_of obj ''tag_patterns'')) (\<lambda>pats.
     result_bind (case map_of obj ''errors'' of None \<Rightarrow> Inr [] | Some je \<Rightarrow> parse_errors_map je) (\<lambda>errs.
       Inr \<lparr>k_description = obj_str obj ''description'', k_write = w, k_read = r,
            k_max_size = Option.bind (obj_str obj ''max_size'') (parse_size_string X),
            k_rate_limit = Option.bind (obj_str obj ''rate_limit'') (rate_limit_from_str X),
            k_require_auth = obj_bool obj ''require_auth'',
            k_rate_limits = obj_rate_rules X obj,
            k_tag_limits = Option.bind (map_of obj ''tag_limits'') tag_limits_from_json,
            k_expiration = obj_expiration X obj ''expiration'',
            k_max_expiration = obj_expiration X obj ''max_expiration'',
            k_d_tag = obj_requirement obj ''d_tag'',
            k_p_tag = obj_requirement obj ''p_tag'',
            k_required_tags = req, k_tag_patterns = pats, k_errors = errs\<rparr>))))))"

text \<open>A list of kinds: strings that parse and numbers; other elements are dropped.\<close>

definition kind_of_json :: "json \<Rightarrow> u64 option" where
  "kind_of_json v = (case as_str v of Some s \<Rightarrow> parse_u64 s | None \<Rightarrow> as_u64 v)"

definition kind_list :: "(string \<times> json) list \<Rightarrow> string \<Rightarrow> u64 list option" where
  "kind_list obj k =
     map_option (List.map_filter kind_of_json) (Option.bind (map_of obj k) as_array)"

definition parse_kinds_object ::
  "json option \<Rightarrow> string + u64 list option \<times> u64 list option \<times> (string \<times> string) list" where
  "parse_kinds_object jv =
     (case jv of
        None \<Rightarrow> Inr (None, None, [])
      | Some v \<Rightarrow>
          result_bind (ok_or (as_object v) ''kinds must be an object with whitelist and/or blacklist'')
            (\<lambda>obj. result_bind
               (case map_of obj ''errors'' of None \<Rightarrow> Inr [] | Some je \<Rightarrow> parse_errors_map je)
               (\<lambda>errs. Inr (kind_list obj ''whitelist'', kind_list obj ''blacklist'', errs))))"

definition kind_numbers :: "json \<Rightarrow> (string \<times> u64) list" where
  "kind_numbers v =
     (case as_object v of
        None \<Rightarrow> []
      | Some obj \<Rightarrow>
          List.map_filter
            (\<lambda>(key, _). if key \<noteq> ''kinds'' then map_option (Pair key) (parse_u64 key) else None) obj)"

fun load_kinds ::
  "ext \<Rightarrow> json \<Rightarrow> (string \<times> u64) list \<Rightarrow> (u64 \<times> kind_filter_config) list
     \<Rightarrow> string + (u64 \<times> kind_filter_config) list" where
  "load_kinds X v [] acc = Inr acc"
| "load_kinds X v ((kind_str, kind) # ks) acc =
     (case json_get v kind_str of
        None \<Rightarrow> Inl (''Missing configuration for kind '' @ kind_str)
      | Some jc \<Rightarrow>
          (case kind_filter_from_json X jc of
             Inl err \<Rightarrow> Inl err
           | Inr c \<Rightarrow> load_kinds X v ks (AList.update kind c acc)))"

text \<open>\<open>read_file\<close> stands for the file system: the contents, or the text of an error.\<close>

definition load_from_file :: "ext \<Rightarrow> (string \<Rightarrow> string + string) \<Rightarrow> string \<Rightarrow> string + kind_filters" where
  "load_from_file X read_file file_path =
     (case read_file file_path of
        Inl err \<Rightarrow> Inl (''Failed to read kind filters file '' @ file_path @ '': '' @ err)
      | Inr contents \<Rightarrow>
          (case json_from_str X contents of
             None \<Rightarrow> Inl (''Failed to parse JSON: '' @ json_error X contents)
           | Some v \<Rightarrow>
               result_bind (parse_kinds_object (json_get v ''kinds'')) (\<lambda>(wl, bl, errs).
               result_bind (load_kinds X v (kind_numbers v) []) (\<lambda>fs.
                 Inr \<lparr>kf_config_file = Some file_path, kf_whitelist = wl, kf_blacklist = bl,
                      kf_errors = errs, kf_filters = fs\<rparr>))))"

section \<open>Settings\<close>

record info_settings =
  relay_url :: "string option"
  info_name :: "string option"
  info_description :: "string option"
  info_pubkey :: "string option"
  info_contact :: "string option"
  info_favicon :: "string option"
  info_relay_icon :: "string option"
  info_relay_page :: "string option"

record database_settings =
  data_directory :: string
  db_engine :: string
  in_memory :: bool
  min_conn :: u32
  max_conn :: u32
  db_connection :: string
  connection_write :: "string option"

record grpc_settings =
  event_admission_server :: "string option"
  restricts_write :: bool

record network_settings =
  net_port :: "16 word"
  net_address :: string
  remote_ip_header :: "string option"
  ping_interval_seconds :: u32

record retention_settings =
  max_events :: "usize option"
  max_bytes :: "usize option"
  persist_days :: "usize option"
  whitelist_addresses :: "string list option"

record limits_settings =
  messages_per_sec :: "u32 option"
  subscriptions_per_min :: "u32 option"
  db_conns_per_client :: "u32 option"
  max_blocking_threads :: usize
  max_event_bytes :: "usize option"
  max_ws_message_bytes :: "usize option"
  max_ws_frame_bytes :: "usize option"
  broadcast_buffer :: usize
  event_persist_buffer :: usize
  event_kind_blacklist :: "u64 list option"
  event_kind_allowlist :: "u64 list option"
  limit_scrapers :: bool

record authorization_settings =
  pubkey_whitelist :: "string list option"
  nip42_auth :: bool
  nip42_dms :: bool

datatype processor = LNBits | ClnRest

record pay_to_relay_settings =
  pay_enabled :: bool
  admission_cost :: u64
  cost_per_event :: u64
  node_url :: string
  api_secret :: string
  terms_message :: string
  sign_ups :: bool
  direct_message :: bool
  secret_key :: "string option"
  pay_processor :: processor
  rune_path :: "string option"

datatype verified_users_mode = VuEnabled | VuPassive | VuDisabled

record verified_users =
  vu_mode :: verified_users_mode
  domain_whitelist :: "string list option"
  domain_blacklist :: "string list option"
  verify_expiration :: "string option"
  verify_update_frequency :: "string option"
  verify_expiration_duration :: "u64 option"
  verify_update_frequency_duration :: "u64 option"
  max_consecutive_failures :: usize

definition vu_expiration :: "ext \<Rightarrow> verified_users \<Rightarrow> u64 option" where
  "vu_expiration X vu = Option.bind (verify_expiration vu) (parse_duration X)"

definition vu_update :: "ext \<Rightarrow> verified_users \<Rightarrow> u64 option" where
  "vu_update X vu = Option.bind (verify_update_frequency vu) (parse_duration X)"

definition vu_init :: "ext \<Rightarrow> verified_users \<Rightarrow> verified_users" where
  "vu_init X vu = vu\<lparr>verify_expiration_duration := vu_expiration X vu,
     verify_update_frequency_duration := vu_update X vu\<rparr>"

definition vu_is_enabled :: "verified_users \<Rightarrow> bool" where
  "vu_is_enabled vu \<longleftrightarrow> vu_mode vu = VuEnabled"

definition vu_is_active :: "verified_users \<Rightarrow> bool" where
  "vu_is_active vu \<longleftrightarrow> vu_mode vu = VuEnabled \<or> vu_mode vu = VuPassive"

definition vu_is_passive :: "verified_users \<Rightarrow> bool" where
  "vu_is_passive vu \<longleftrightarrow> vu_mode vu = VuPassive"

definition vu_is_valid :: "ext \<Rightarrow> verified_users \<Rightarrow> bool" where
  "vu_is_valid X vu \<longleftrightarrow> vu_expiration X vu \<noteq> None \<and> vu_update X vu \<noteq> None"

record settings =
  st_info :: info_settings
  st_diagnostics_tracing :: bool
  st_database :: database_settings
  st_grpc :: grpc_settings
  st_network :: network_settings
  st_limits :: limits_settings
  st_authorization :: authorization_settings
  st_pay_to_relay :: pay_to_relay_settings
  st_verified_users :: verified_users
  st_retention :: retention_settings
  st_reject_future_seconds :: "usize option"
  st_log_folder :: "string option"
  st_log_prefix :: "string option"
  st_kind_filters_file :: "string option"
  st_kind_filters :: kind_filters

definition default_settings :: settings where
  "default_settings = \<lparr>
     st_info = \<lparr>relay_url = None, info_name = Some ''Unnamed nostr-rs-relay'',
       info_description = None, info_pubkey = None, info_contact = None, info_favicon = None,
       info_relay_icon = None, info_relay_page = None\<rparr>,
     st_diagnostics_tracing = False,
     st_database = \<lparr>data_directory = ''.'', db_engine = ''sqlite'', in_memory = False, min_conn = 4,
       max_conn = 8, db_connection = [], connection_write = None\<rparr>,
     st_grpc = \<lparr>event_admission_server = None, restricts_write = False\<rparr>,
     st_network = \<lparr>net_port = 8080, net_address = ''0.0.0.0'', remote_ip_header = None,
       ping_interval_seconds = 300\<rparr>,
     st_limits = \<lparr>messages_per_sec = None, subscriptions_per_min = None,
       db_conns_per_client = None, max_blocking_threads = 16, max_event_bytes = Some 262144,
       max_ws_message_bytes = Some 262144, max_ws_frame_bytes = Some 262144,
       broadcast_buffer = 16384, event_persist_buffer = 4096, event_kind_blacklist = None,
       event_kind_allowlist = None, limit_scrapers = False\<rparr>,
     st_authorization = \<lparr>pubkey_whitelist = None, nip42_auth = False, nip42_dms = False\<rparr>,
     st_pay_to_relay = \<lparr>pay_enabled = False, admission_cost = 4200, cost_per_event = 0,
       node_url = [], api_secret = [], terms_message = [], sign_ups = False,
       direct_message = False, secret_key = None, pay_processor = LNBits, rune_path = None\<rparr>,
     st_verified_users = \<lparr>vu_mode = VuDisabled, domain_whitelist = None, domain_blacklist = None,
       verify_expiration = Some ''1 week'', verify_update_frequency = Some ''1 day'',
       verify_expiration_duration = None, verify_update_frequency_duration = None,
       max_consecutive_failures = 20\<rparr>,
     st_retention = \<lparr>max_events = None, max_bytes = None, persist_days = None,
       whitelist_addresses = None\<rparr>,
     st_reject_future_seconds = None, st_log_folder = None, st_log_prefix = None,
     st_kind_filters_file = None, st_kind_filters = kind_filters_new\<rparr>"

section \<open>Loading the settings\<close>

text \<open>
  \<open>Path::is_absolute\<close>, \<open>parent\<close> and \<open>join\<close> on Unix. A path ends in its last component
  after the slashes and the components \<open>.\<close> at its end are dropped.
\<close>

function path_trim :: "string \<Rightarrow> string" where
  "path_trim p =
     (if 1 < length p \<and> last p = CHR ''/'' then path_trim (butlast p)
      else if 1 < length p \<and> ends_with p ''/.'' then path_trim (butlast p)
      else p)"
  by pat_completeness auto
termination by (relation "measure length") auto

declare path_trim.simps [simp del]

definition path_parent :: "string \<Rightarrow> string option" where
  "path_parent p0 =
     (let p = path_trim p0 in
      if p = [] \<or> p = ''/'' then None
      else Some (path_trim (rev (dropWhile (\<lambda>c. c \<noteq> CHR ''/'') (rev p)))))"

definition path_join :: "string \<Rightarrow> string \<Rightarrow> string" where
  "path_join base p =
     (if starts_with p ''/'' then p
      else if base = [] \<or> last base = CHR ''/'' then base @ p
      else base @ ''/'' @ p)"

definition resolve_filters_path :: "string \<Rightarrow> string \<Rightarrow> string" where
  "resolve_filters_path config_path config_file =
     (if starts_with config_file ''/'' then config_file
      else path_join (case path_parent config_path of Some d \<Rightarrow> d | None \<Rightarrow> ''.'') config_file)"

definition with_kind_filters ::
  "ext \<Rightarrow> (string \<Rightarrow> string + string) \<Rightarrow> string \<Rightarrow> settings \<Rightarrow> settings" where
  "with_kind_filters X read_file config_path st =
     (case st_kind_filters_file st of
        None \<Rightarrow> st\<lparr>st_kind_filters := kind_filters_new\<rparr>
      | Some f \<Rightarrow>
          (case load_from_file X read_file (resolve_filters_path config_path f) of
             Inr kf \<Rightarrow> st\<lparr>st_kind_filters := kf\<rparr>
           | Inl _ \<Rightarrow> st\<lparr>st_kind_filters := kind_filters_new\<rparr>))"

text \<open>The assertions at the end; one that fails panics.\<close>

definition pay_settings_ok :: "pay_to_relay_settings \<Rightarrow> bool" where
  "pay_settings_ok p \<longleftrightarrow>
     \<not> pay_enabled p \<or>
       (case pay_processor p of
          ClnRest \<Rightarrow> (case rune_path p of None \<Rightarrow> False | Some f \<Rightarrow> f \<noteq> ''<rune path>'')
        | LNBits \<Rightarrow> api_secret p \<noteq> [])
       \<and> node_url p \<noteq> [] \<and> terms_message p \<noteq> []
       \<and> (direct_message p \<longrightarrow> (case secret_key p of None \<Rightarrow> False | Some k \<Rightarrow> k \<noteq> ''<nostr nsec>''))"

text \<open>\<open>build_config\<close> stands for the \<open>config\<close> crate: the defaults overridden by a file.\<close>

definition new_from_default ::
  "ext \<Rightarrow> (string \<Rightarrow> string + string) \<Rightarrow> (settings \<Rightarrow> string \<Rightarrow> string + settings) \<Rightarrow>
   settings \<Rightarrow> string option \<Rightarrow> (string + settings) exec" where
  "new_from_default X read_file build_config dflt config_file_name =
     (let path = (case config_file_name of Some f \<Rightarrow> f | None \<Rightarrow> ''config.toml'') in
      case build_config dflt path of
        Inl err \<Rightarrow> Done (Inl err)
      | Inr st0 \<Rightarrow>
          (let st = with_kind_filters X read_file path st0 in
           if max_conn (st_database st) < min_conn (st_database st) then Panic
           else if \<not> vu_is_valid X (st_verified_users st) then Panic
           else if \<not> pay_settings_ok (st_pay_to_relay st) then Panic
           else Done (Inr (st\<lparr>st_verified_users := vu_init X (st_verified_users st)\<rparr>))))"

definition settings_new ::
  "ext \<Rightarrow> (string \<Rightarrow> string + string) \<Rightarrow> (settings \<Rightarrow> string \<Rightarrow> string + settings) \<Rightarrow>
   string option \<Rightarrow> (string + settings) exec" where
  "settings_new X read_file build_config config_file_name =
     map_exec
       (\<lambda>r. case r of
          Inl err \<Rightarrow> if config_file_name \<noteq> None then Inl err else Inr default_settings
        | Inr st \<Rightarrow> Inr st)
       (new_from_default X read_file build_config default_settings config_file_name)"

section \<open>Lemmas\<close>

text \<open>What the settings satisfy once they are loaded from a file.\<close>

definition settings_ok :: "settings \<Rightarrow> bool" where
  "settings_ok st \<longleftrightarrow>
     min_conn (st_database st) \<le> max_conn (st_database st)
     \<and> verify_expiration_duration (st_verified_users st) \<noteq> None
     \<and> verify_update_frequency_duration (st_verified_users st) \<noteq> None
     \<and> pay_settings_ok (st_pay_to_relay st)"

lemma new_from_default_ok:
  assumes "new_from_default X rf build dflt f = Done (Inr st)"
  shows "settings_ok st"
proof -
  from assms obtain st1 where "\<not> max_conn (st_database st1) < min_conn (st_database st1)"
    and "vu_is_valid X (st_verified_users st1)" and "pay_settings_ok (st_pay_to_relay st1)"
    and "st = st1\<lparr>st_verified_users := vu_init X (st_verified_users st1)\<rparr>"
    by (auto simp: new_from_default_def Let_def split: sum.splits if_splits option.splits)
  then show ?thesis by (auto simp: settings_ok_def vu_is_valid_def vu_init_def)
qed

text \<open>A broken kind-filter file disables the filters: no kind is restricted.\<close>

lemma with_kind_filters_broken:
  assumes "st_kind_filters_file st = Some f"
    and "load_from_file X rf (resolve_filters_path p f) = Inl err"
  shows "st_kind_filters (with_kind_filters X rf p st) = kind_filters_new"
  using assms by (simp add: with_kind_filters_def)

end
