(* ===== verification/Nip05.thy ===== *)
theory Nip05
  imports Sqlite_Repo Config
begin

text \<open>
  The interface \<open>NostrRepo\<close> of \<open>src/src/repo/mod.rs\<close> as a record of functions on a store
  (what the writer, the verifier and the payment handler call), and the verification of
  users by internet addresses (\<open>src/src/nip05.rs\<close>): names, the check of a server's answer,
  the validity of a record, and the verifier's reaction to a metadata event and to its
  timer. The HTTP request is an argument (\<open>fetch\<close>).
\<close>

section \<open>Data\<close>

record nip05_name =
  n_local :: string
  n_domain :: string

record verification_record =
  v_rowid :: u64
  v_name :: nip05_name
  v_address :: string
  v_event :: string
  v_event_created :: u64
  v_last_success :: "u64 option"
  v_last_failure :: "u64 option"
  v_failure_count :: u64

datatype invoice_status = Unpaid | Paid | Expired

fun invoice_status_text :: "invoice_status \<Rightarrow> string" where
  "invoice_status_text Paid = ''Paid''"
| "invoice_status_text Unpaid = ''Unpaid''"
| "invoice_status_text Expired = ''Expired''"

record invoice_info =
  i_pubkey :: string
  i_payment_hash :: string
  i_bolt11 :: string
  i_amount :: u64
  i_status :: invoice_status
  i_memo :: string
  i_confirmed_at :: "u64 option"

datatype payment_message =
    NewAccount string
  | CheckAccount string
  | AccountAdmitted string
  | InvoiceMsg string invoice_info
  | InvoicePaid string

section \<open>The repository interface\<close>

text \<open>A key is its public key as text.\<close>

record 'db nostr_repo =
  rp_write_event :: "event \<Rightarrow> 'db \<Rightarrow> 'db \<times> (error + u64)"
  rp_create_verification :: "string \<Rightarrow> string \<Rightarrow> 'db \<Rightarrow> 'db \<times> (error + unit)"
  rp_update_verification :: "u64 \<Rightarrow> 'db \<Rightarrow> 'db \<times> (error + unit)"
  rp_fail_verification :: "u64 \<Rightarrow> 'db \<Rightarrow> 'db \<times> (error + unit)"
  rp_delete_verification :: "u64 \<Rightarrow> 'db \<Rightarrow> 'db \<times> (error + unit)"
  rp_latest_verification :: "string \<Rightarrow> 'db \<Rightarrow> error + verification_record"
  rp_oldest_verification :: "u64 \<Rightarrow> 'db \<Rightarrow> error + verification_record"
  rp_create_account :: "string \<Rightarrow> 'db \<Rightarrow> 'db \<times> (error + bool)"
  rp_admit_account :: "string \<Rightarrow> u64 \<Rightarrow> 'db \<Rightarrow> 'db \<times> (error + unit)"
  rp_account_balance :: "string \<Rightarrow> 'db \<Rightarrow> error + bool \<times> u64"
  rp_update_balance :: "string \<Rightarrow> bool \<Rightarrow> u64 \<Rightarrow> 'db \<Rightarrow> 'db \<times> (error + unit)"
  rp_create_invoice :: "string \<Rightarrow> invoice_info \<Rightarrow> 'db \<Rightarrow> 'db \<times> (error + unit)"
  rp_update_invoice :: "string \<Rightarrow> invoice_status \<Rightarrow> 'db \<Rightarrow> 'db \<times> (error + string)"
  rp_unpaid_invoice :: "string \<Rightarrow> 'db \<Rightarrow> error + invoice_info option"

text \<open>\<open>now_jitter\<close>: a time in the next seconds; \<open>jitter\<close> is the random amount.\<close>

definition now_jitter :: "u64 \<Rightarrow> u64 \<Rightarrow> u64" where
  "now_jitter jitter now = (if uint now + uint jitter < 2 ^ 64 then now + jitter else - 1)"

section \<open>Names\<close>

definition is_domain_only :: "nip05_name \<Rightarrow> bool" where
  "is_domain_only n \<longleftrightarrow> n_local n = ''_''"

definition to_url :: "ext \<Rightarrow> nip05_name \<Rightarrow> string option" where
  "to_url X n =
     (let u = ''https://'' @ n_domain n @ ''/.well-known/nostr.json?name='' @ n_local n in
      if uri_valid X u then Some u else None)"

definition nip05_from_str :: "ext \<Rightarrow> string \<Rightarrow> error + nip05_name" where
  "nip05_from_str X inet =
     (case split_char (CHR ''@'') inet of
        [local, domain] \<Rightarrow>
          if list_all (\<lambda>x. is_alphanumeric X x \<or> x = ''_'' \<or> x = ''-'' \<or> x = ''.'') (chars local) then
            (if list_all (\<lambda>x. is_alphanumeric X x \<or> x = ''-'' \<or> x = ''.'') (chars domain)
             then Inr \<lparr>n_local = local, n_domain = domain\<rparr>
             else Inl (CustomError ''invalid character in domain part''))
          else Inl (CustomError ''invalid character in local part'')
      | _ \<Rightarrow> Inl (CustomError ''too many/few components''))"

definition nip05_to_string :: "nip05_name \<Rightarrow> string" where
  "nip05_to_string n = n_local n @ ''@'' @ n_domain n"

text \<open>The \<open>nip05\<close> field of a metadata event.\<close>

definition get_nip05_addr :: "ext \<Rightarrow> event \<Rightarrow> nip05_name option" where
  "get_nip05_addr X e =
     (if is_kind_metadata e \<and> contains (e_content e) (CHR 0x22 # ''nip05'' @ [CHR 0x22]) then
        Option.bind (json_from_str X (e_content e)) (\<lambda>md.
        Option.bind (as_object md) (\<lambda>m.
        Option.bind (Option.bind (map_of m ''nip05'') as_str) (\<lambda>s.
          result_ok (nip05_from_str X s))))
      else None)"

definition body_contains_user :: "ext \<Rightarrow> string \<Rightarrow> string \<Rightarrow> bytes \<Rightarrow> error + bool" where
  "body_contains_user X username address body =
     (case json_from_str X body of
        None \<Rightarrow> Inl (JsonParseFailed (json_error X body))
      | Some v \<Rightarrow>
          (case Option.bind (Option.bind (as_object v) (\<lambda>m. map_of m ''names'')) as_object of
             None \<Rightarrow> Inl (CustomError ''not a map'')
           | Some names \<Rightarrow> Inr (Option.bind (map_of names username) as_str = Some address)))"

section \<open>Domains and validity\<close>

definition is_domain_allowed :: "string \<Rightarrow> string list option \<Rightarrow> string list option \<Rightarrow> bool" where
  "is_domain_allowed domain whitelist blacklist =
     (case whitelist of
        Some wl \<Rightarrow> list_ex (\<lambda>x. x = domain) wl
      | None \<Rightarrow> (case blacklist of Some bl \<Rightarrow> \<not> list_ex (\<lambda>x. x = domain) bl | None \<Rightarrow> True))"

text \<open>The time a duration ago, in seconds of the epoch; zero if that is before it.\<close>

definition seconds_ago :: "u64 \<Rightarrow> u64 \<Rightarrow> u64" where
  "seconds_ago now d = (if d \<le> now then now - d else 0)"

definition is_current :: "u64 \<Rightarrow> verification_record \<Rightarrow> u64 \<Rightarrow> bool" where
  "is_current now v d = (case v_last_success v of Some s \<Rightarrow> seconds_ago now d < s | None \<Rightarrow> False)"

definition record_is_valid :: "u64 \<Rightarrow> verification_record \<Rightarrow> verified_users \<Rightarrow> bool" where
  "record_is_valid now v vu =
     (if (case verify_expiration_duration vu of Some d \<Rightarrow> \<not> is_current now v d | None \<Rightarrow> False)
      then False
      else is_domain_allowed (n_domain (v_name v)) (domain_whitelist vu) (domain_blacklist vu))"

section \<open>Web verification\<close>

datatype web_status = Verified | DomainNotAllowed | WebUnknown | Unverified

text \<open>What comes of the request: status, announced length and body of a response.\<close>

datatype fetch_result =
    Timeout
  | RequestFailed string
  | Response nat "nat option" "bytes option"

definition max_response_size :: nat where
  "max_response_size = 1024 * 1024"

definition get_web_verification_res ::
  "ext \<Rightarrow> verified_users \<Rightarrow> (string \<Rightarrow> fetch_result) \<Rightarrow> nip05_name \<Rightarrow> string \<Rightarrow> error + web_status" where
  "get_web_verification_res X vu fetch nip pubkey =
     (if \<not> is_domain_allowed (n_domain nip) (domain_whitelist vu) (domain_blacklist vu)
      then Inr DomainNotAllowed
      else (case to_url X nip of
              None \<Rightarrow> Inl (CustomError ''invalid NIP-05 URL'')
            | Some url \<Rightarrow>
                (case fetch url of
                   Timeout \<Rightarrow> Inr WebUnknown
                 | RequestFailed s \<Rightarrow> Inl (HyperError s)
                 | Response status len body \<Rightarrow>
                     if \<not> (200 \<le> status \<and> status < 300) then Inr WebUnknown
                     else (case len of
                             None \<Rightarrow> Inr WebUnknown
                           | Some n \<Rightarrow>
                               if max_response_size < n then Inr WebUnknown
                               else if status \<noteq> 200 then Inr WebUnknown
                               else (case body of
                                       None \<Rightarrow> Inr WebUnknown
                                     | Some b \<Rightarrow>
                                         (case body_contains_user X (n_local nip) pubkey b of
                                            Inr True \<Rightarrow> Inr Verified
                                          | Inr False \<Rightarrow> Inr Unverified
                                          | Inl _ \<Rightarrow> Inr WebUnknown))))))"

definition get_web_verification ::
  "ext \<Rightarrow> verified_users \<Rightarrow> (string \<Rightarrow> fetch_result) \<Rightarrow> nip05_name \<Rightarrow> string \<Rightarrow> web_status" where
  "get_web_verification X vu fetch nip pubkey =
     (case get_web_verification_res X vu fetch nip pubkey of Inr s \<Rightarrow> s | Inl _ \<Rightarrow> WebUnknown)"

definition get_web_verification_from_event ::
  "ext \<Rightarrow> verified_users \<Rightarrow> (string \<Rightarrow> fetch_result) \<Rightarrow> event \<Rightarrow> web_status" where
  "get_web_verification_from_event X vu fetch e =
     (case get_nip05_addr X e of
        Some nip \<Rightarrow> get_web_verification X vu fetch nip (e_pubkey e)
      | None \<Rightarrow> WebUnknown)"

section \<open>The verifier\<close>

text \<open>The event is written if the mode is enabled and, when that is new, broadcast.\<close>

definition create_new_verified_user ::
  "'db nostr_repo \<Rightarrow> verified_users \<Rightarrow> string \<Rightarrow> event \<Rightarrow> 'db \<Rightarrow> 'db \<times> event list \<times> (error + unit)" where
  "create_new_verified_user R vu name e db =
     (let (db1, out) =
            (if vu_is_enabled vu then
               (case rp_write_event R e db of
                  (db', Inr updated) \<Rightarrow> (db', if updated \<noteq> 0 then [e] else [])
                | (db', Inl _) \<Rightarrow> (db', []))
             else (db, []));
          (db2, res) = rp_create_verification R (e_id e) name db1
      in (db2, out, res))"

text \<open>A metadata event from the writer. \<open>Done (Inr ())\<close> includes the events it ignores.\<close>

definition handle_metadata ::
  "ext \<Rightarrow> 'db nostr_repo \<Rightarrow> verified_users \<Rightarrow> (string \<Rightarrow> fetch_result) \<Rightarrow> event \<Rightarrow> 'db
     \<Rightarrow> 'db \<times> event list \<times> (error + unit)" where
  "handle_metadata X R vu fetch e db =
     (case get_nip05_addr X e of
        None \<Rightarrow> (db, [], Inr ())
      | Some naddr \<Rightarrow>
          if (case rp_latest_verification R (e_pubkey e) db of
                Inr prev \<Rightarrow> e_created_at e \<le> v_event_created prev
              | Inl _ \<Rightarrow> False)
          then (db, [], Inr ())
          else if get_web_verification_from_event X vu fetch e = Verified
          then create_new_verified_user R vu (nip05_to_string naddr) e db
          else (db, [], Inr ()))"

text \<open>The timer: the record that was checked the longest ago is checked again.\<close>

definition do_reverify ::
  "ext \<Rightarrow> 'db nostr_repo \<Rightarrow> verified_users \<Rightarrow> (string \<Rightarrow> fetch_result) \<Rightarrow> u64 \<Rightarrow> 'db
     \<Rightarrow> 'db \<times> (error + unit)" where
  "do_reverify X R vu fetch now db =
     (let dur = (case verify_update_frequency_duration vu of Some d \<Rightarrow> d | None \<Rightarrow> 60 * 60 * 6) in
      case rp_oldest_verification R (seconds_ago now dur) db of
        Inl _ \<Rightarrow> (db, Inr ())
      | Inr v \<Rightarrow>
          (case get_web_verification X vu fetch (v_name v) (v_address v) of
             Verified \<Rightarrow> rp_update_verification R (v_rowid v) db
           | Unverified \<Rightarrow> rp_delete_verification R (v_rowid v) db
           | _ \<Rightarrow>
               if max_consecutive_failures vu \<le> v_failure_count v
               then rp_delete_verification R (v_rowid v) db
               else rp_fail_verification R (v_rowid v) db))"

section \<open>Lemmas\<close>

lemma is_domain_allowed_iff:
  "is_domain_allowed d wl bl \<longleftrightarrow>
     (case wl of Some w \<Rightarrow> d \<in> set w | None \<Rightarrow> (\<forall>b. bl = Some b \<longrightarrow> d \<notin> set b))"
  by (auto simp: is_domain_allowed_def list_ex_iff split: option.split)

lemma nip05_from_str_Inr:
  assumes "nip05_from_str X s = Inr n"
  shows "nip05_to_string n = s" and "CHR ''@'' \<notin> set (n_local n)" and "CHR ''@'' \<notin> set (n_domain n)"
proof -
  from assms obtain l d where sp: "split_char (CHR ''@'') s = [l, d]" and n: "n = \<lparr>n_local = l, n_domain = d\<rparr>"
    by (auto simp: nip05_from_str_def split: list.splits if_splits)
  have join: "join_with ''@'' (split_char (CHR ''@'') s) = s" for s
  proof (induction s)
    case (Cons c s)
    obtain p ps where "split_char (CHR ''@'') s = p # ps"
      using split_char_ne [of "CHR ''@''" s] by (cases "split_char (CHR ''@'') s") auto
    with Cons show ?case by (cases ps) auto
  qed simp
  from join [of s] sp n show "nip05_to_string n = s" by (simp add: nip05_to_string_def)
  show "CHR ''@'' \<notin> set (n_local n)" and "CHR ''@'' \<notin> set (n_domain n)"
    using split_char_pieces [of _ "CHR ''@''" s] sp n by auto
qed

lemma get_web_verification_Verified:
  assumes "get_web_verification X vu fetch nip pk = Verified"
  shows "is_domain_allowed (n_domain nip) (domain_whitelist vu) (domain_blacklist vu)"
    and "\<exists>url n b. to_url X nip = Some url \<and> fetch url = Response 200 (Some n) (Some b)
      \<and> n \<le> 1024 * 1024 \<and> body_contains_user X (n_local nip) pk b = Inr True"
  using assms
  by (auto simp: get_web_verification_def get_web_verification_res_def max_response_size_def
      split: sum.splits if_splits option.splits fetch_result.splits bool.splits)

lemma handle_metadata_events:
  assumes "handle_metadata X R vu fetch e db = (db', out, res)" and "out \<noteq> []"
  shows "out = [e]" and "vu_is_enabled vu" and "get_web_verification_from_event X vu fetch e = Verified"
  using assms
  by (auto simp: handle_metadata_def create_new_verified_user_def case_prod_beta Let_def
      split: option.splits if_splits sum.splits)

end
