(* ===== verification/Sqlite_Accounts.thy ===== *)
theory Sqlite_Accounts
  imports Nip05 "HOL-Library.Option_ord" "HOL-Library.Product_Lexorder"
begin

text \<open>
  The remaining statements of the SQLite store (\<open>src/src/repo/sqlite.rs\<close>): verification
  records, accounts and invoices, and the store as an implementation of \<open>NostrRepo\<close>.
  The conventions are those of the event tables. In an order, \<open>NULL\<close> is smaller than any
  value; the first row in table order wins among equal ones.
\<close>

section \<open>Selecting one row\<close>

fun first_max :: "('a \<Rightarrow> 'b::linorder) \<Rightarrow> 'a list \<Rightarrow> 'a option" where
  "first_max f [] = None"
| "first_max f (x # xs) =
     (case first_max f xs of
        None \<Rightarrow> Some x
      | Some y \<Rightarrow> if f y \<le> f x then Some x else Some y)"

fun first_min :: "('a \<Rightarrow> 'b::linorder) \<Rightarrow> 'a list \<Rightarrow> 'a option" where
  "first_min f [] = None"
| "first_min f (x # xs) =
     (case first_min f xs of
        None \<Rightarrow> Some x
      | Some y \<Rightarrow> if f x \<le> f y then Some x else Some y)"

definition no_rows :: error where
  "no_rows = SqlError query_returned_no_rows"

section \<open>Verification records\<close>

definition create_verification_record ::
  "ext \<Rightarrow> u64 \<Rightarrow> string \<Rightarrow> string \<Rightarrow> db \<Rightarrow> db \<times> (error + unit)" where
  "create_verification_record X now ev name db =
     (case filter (\<lambda>r. hex_decode X ev = Some (ev_hash r)) (events db) of
        [] \<Rightarrow> (db, Inl (sqlite_failure ''NOT NULL constraint failed: user_verification.metadata_event''))
      | r # _ \<Rightarrow>
          (let v = \<lparr>vr_id = next_id (map vr_id (verifications db)), vr_event = ev_id r, vr_name = name,
                    vr_verified_at = Some (uint now), vr_failed_at = None, vr_failures = 0\<rparr> in
           (db\<lparr>verifications :=
                filter (\<lambda>x. \<not> (vr_name x = name \<and> vr_id x \<noteq> vr_id v)) (verifications db @ [v])\<rparr>,
            Inr ())))"

definition map_verification :: "u64 \<Rightarrow> (verification_row \<Rightarrow> verification_row) \<Rightarrow> db \<Rightarrow> db" where
  "map_verification i f db =
     db\<lparr>verifications := map (\<lambda>v. if int (vr_id v) = uint i then f v else v) (verifications db)\<rparr>"

definition update_verification_timestamp ::
  "u64 \<Rightarrow> u64 \<Rightarrow> u64 \<Rightarrow> db \<Rightarrow> db \<times> (error + unit)" where
  "update_verification_timestamp jitter now i db =
     (case (sql_u64 (now_jitter jitter now), sql_u64 i) of
        (Some t, Some _) \<Rightarrow>
          (map_verification i (\<lambda>v. v\<lparr>vr_verified_at := Some t, vr_failures := 0\<rparr>) db, Inr ())
      | _ \<Rightarrow> (db, Inl out_of_range))"

definition fail_verification :: "u64 \<Rightarrow> u64 \<Rightarrow> u64 \<Rightarrow> db \<Rightarrow> db \<times> (error + unit)" where
  "fail_verification jitter now i db =
     (case (sql_u64 (now_jitter jitter now), sql_u64 i) of
        (Some t, Some _) \<Rightarrow>
          (map_verification i (\<lambda>v. v\<lparr>vr_failed_at := Some t, vr_failures := vr_failures v + 1\<rparr>) db, Inr ())
      | _ \<Rightarrow> (db, Inl out_of_range))"

definition delete_verification :: "u64 \<Rightarrow> db \<Rightarrow> db \<times> (error + unit)" where
  "delete_verification i db =
     (case sql_u64 i of
        Some n \<Rightarrow> (db\<lparr>verifications := filter (\<lambda>v. int (vr_id v) \<noteq> n) (verifications db)\<rparr>, Inr ())
      | None \<Rightarrow> (db, Inl out_of_range))"

text \<open>The join of the records with their metadata events.\<close>

definition verification_join :: "db \<Rightarrow> (verification_row \<times> event_row) list" where
  "verification_join db =
     concat (map (\<lambda>v. map (Pair v) (filter (\<lambda>r. ev_id r = vr_event v) (events db))) (verifications db))"

definition to_verification_record ::
  "ext \<Rightarrow> string \<Rightarrow> verification_row \<times> event_row \<Rightarrow> error + verification_record" where
  "to_verification_record X address ve =
     (let (v, r) = ve in
      result_bind (nip05_from_str X (vr_name v)) (\<lambda>n.
        Inr \<lparr>v_rowid = of_nat (vr_id v), v_name = n, v_address = address,
             v_event = hex_encode X (ev_hash r), v_event_created = word_of_int (ev_created r),
             v_last_success = map_option word_of_int (vr_verified_at v),
             v_last_failure = map_option word_of_int (vr_failed_at v),
             v_failure_count = word_of_int (vr_failures v)\<rparr>))"

definition get_latest_user_verification :: "ext \<Rightarrow> string \<Rightarrow> db \<Rightarrow> error + verification_record" where
  "get_latest_user_verification X pub_key db =
     (case first_max (\<lambda>(v, r). (ev_created r, vr_verified_at v, vr_failed_at v))
             (filter (\<lambda>(v, r). hex_decode X pub_key = Some (ev_author r)) (verification_join db)) of
        None \<Rightarrow> Inl no_rows
      | Some ve \<Rightarrow> to_verification_record X pub_key ve)"

definition before_or_null :: "int option \<Rightarrow> int \<Rightarrow> bool" where
  "before_or_null t n = (case t of None \<Rightarrow> True | Some x \<Rightarrow> x < n)"

definition get_oldest_user_verification :: "ext \<Rightarrow> u64 \<Rightarrow> db \<Rightarrow> error + verification_record" where
  "get_oldest_user_verification X before db =
     (case sql_u64 before of
        None \<Rightarrow> Inl out_of_range
      | Some n \<Rightarrow>
          (case first_min (\<lambda>(v, r). (vr_verified_at v, vr_failed_at v))
                  (filter (\<lambda>(v, r). before_or_null (vr_verified_at v) n \<and> before_or_null (vr_failed_at v) n)
                    (verification_join db)) of
             None \<Rightarrow> Inl no_rows
           | Some ve \<Rightarrow> to_verification_record X (hex_encode X (ev_author (snd ve))) ve))"

section \<open>Accounts\<close>

definition create_account :: "string \<Rightarrow> db \<Rightarrow> db \<times> (error + bool)" where
  "create_account pub_key db =
     (if list_ex (\<lambda>a. ac_pubkey a = pub_key) (accounts db) then (db, Inr False)
      else (db\<lparr>accounts := accounts db @
              [\<lparr>ac_pubkey = pub_key, ac_admitted = False, ac_balance = 0, ac_tos = None\<rparr>]\<rparr>, Inr True))"

definition map_account :: "string \<Rightarrow> (account_row \<Rightarrow> account_row) \<Rightarrow> db \<Rightarrow> db" where
  "map_account pub_key f db =
     db\<lparr>accounts := map (\<lambda>a. if ac_pubkey a = pub_key then f a else a) (accounts db)\<rparr>"

definition admit_account :: "u64 \<Rightarrow> string \<Rightarrow> u64 \<Rightarrow> db \<Rightarrow> db \<times> (error + unit)" where
  "admit_account now pub_key cost db =
     (case sql_u64 cost of
        None \<Rightarrow> (db, Inl out_of_range)
      | Some n \<Rightarrow>
          (map_account pub_key
             (\<lambda>a. a\<lparr>ac_admitted := True, ac_tos := Some (uint now), ac_balance := ac_balance a - n\<rparr>) db,
           Inr ()))"

text \<open>A negative balance cannot be read as an unsigned number.\<close>

definition get_account_balance :: "string \<Rightarrow> db \<Rightarrow> error + bool \<times> u64" where
  "get_account_balance pub_key db =
     (case filter (\<lambda>a. ac_pubkey a = pub_key) (accounts db) of
        [] \<Rightarrow> Inl no_rows
      | a # _ \<Rightarrow>
          if ac_balance a < 0 then Inl (SqlError ''Integer out of range'')
          else Inr (ac_admitted a, word_of_int (ac_balance a)))"

definition update_account_balance :: "string \<Rightarrow> bool \<Rightarrow> u64 \<Rightarrow> db \<Rightarrow> db \<times> (error + unit)" where
  "update_account_balance pub_key positive new_balance db =
     (case sql_u64 new_balance of
        None \<Rightarrow> (db, Inl out_of_range)
      | Some n \<Rightarrow>
          (map_account pub_key
             (\<lambda>a. a\<lparr>ac_balance := (if positive then ac_balance a + n else ac_balance a - n)\<rparr>) db,
           Inr ()))"

section \<open>Invoices\<close>

definition create_invoice_record :: "u64 \<Rightarrow> string \<Rightarrow> invoice_info \<Rightarrow> db \<Rightarrow> db \<times> (error + unit)" where
  "create_invoice_record now pub_key info db =
     (case sql_u64 (i_amount info) of
        None \<Rightarrow> (db, Inl out_of_range)
      | Some n \<Rightarrow>
          if list_ex (\<lambda>v. iv_hash v = i_payment_hash info) (invoices db)
          then (db, Inl (sqlite_failure ''UNIQUE constraint failed: invoice.payment_hash''))
          else if \<not> list_ex (\<lambda>a. ac_pubkey a = pub_key) (accounts db)
          then (db, Inl (sqlite_failure ''FOREIGN KEY constraint failed''))
          else (db\<lparr>invoices := invoices db @
                 [\<lparr>iv_hash = i_payment_hash info, iv_pubkey = pub_key, iv_invoice = i_bolt11 info,
                   iv_amount = n, iv_status = invoice_status_text (i_status info),
                   iv_description = i_memo info, iv_created = uint now, iv_confirmed = None\<rparr>]\<rparr>,
                Inr ()))"

definition set_invoice_status :: "u64 \<Rightarrow> string \<Rightarrow> invoice_status \<Rightarrow> invoice_row \<Rightarrow> invoice_row" where
  "set_invoice_status now payment_hash status v =
     (if iv_hash v = payment_hash
      then (if status = Paid
            then v\<lparr>iv_status := invoice_status_text status, iv_confirmed := Some (uint now)\<rparr>
            else v\<lparr>iv_status := invoice_status_text status\<rparr>)
      else v)"

definition update_invoice :: "u64 \<Rightarrow> string \<Rightarrow> invoice_status \<Rightarrow> db \<Rightarrow> db \<times> (error + string)" where
  "update_invoice now payment_hash status db =
     (case filter (\<lambda>v. iv_hash v = payment_hash) (invoices db) of
        [] \<Rightarrow> (db, Inl no_rows)
      | ivr # _ \<Rightarrow>
          (let db1 = db\<lparr>invoices :=
                 map (set_invoice_status now payment_hash status) (invoices db)\<rparr>;
               db2 = (if iv_status ivr = ''Unpaid'' \<and> status = Paid
                      then map_account (iv_pubkey ivr) (\<lambda>a. a\<lparr>ac_balance := ac_balance a + iv_amount ivr\<rparr>) db1
                      else db1)
           in (db2, Inr (iv_pubkey ivr))))"

definition get_unpaid_invoice :: "string \<Rightarrow> db \<Rightarrow> error + invoice_info option" where
  "get_unpaid_invoice pub_key db =
     (case first_max iv_created (filter (\<lambda>v. iv_pubkey v = pub_key \<and> iv_status v = ''Unpaid'') (invoices db)) of
        None \<Rightarrow> Inl no_rows
      | Some v \<Rightarrow>
          Inr (Some \<lparr>i_pubkey = pub_key, i_payment_hash = iv_hash v, i_bolt11 = iv_invoice v,
                     i_amount = word_of_int (iv_amount v), i_status = Unpaid,
                     i_memo = iv_description v, i_confirmed_at = None\<rparr>))"

section \<open>The store as a repository\<close>

text \<open>
  Every call can fail before it has changed anything: there is no connection to be had, a
  statement or the commit fails (the transaction is rolled back), or the blocking task panics. An
  event is written after several attempts, each of which can meet a failure of SQLite.
\<close>

datatype store_call =
    SaveEvent
  | CreateVerification
  | UpdateVerification
  | FailVerification
  | DeleteVerification
  | LatestVerification
  | OldestVerification
  | CreateAccount
  | AdmitAccount
  | AccountBalance
  | UpdateBalance
  | CreateInvoice
  | UpdateInvoice
  | UnpaidInvoice

datatype db_failure = NoConnection string | StatementFails string | CallPanics

fun failure_error :: "db_failure \<Rightarrow> error" where
  "failure_error (NoConnection msg) = DatabasePoolError msg"
| "failure_error (StatementFails msg) = sqlite_failure msg"
| "failure_error CallPanics = JoinError"

record db_failures =
  fl_attempt :: "nat \<Rightarrow> string option"
  fl_call :: "store_call \<Rightarrow> db_failure option"

definition no_failures :: db_failures where
  "no_failures = \<lparr>fl_attempt = (\<lambda>i. None), fl_call = (\<lambda>c. None)\<rparr>"

definition guarded :: "db_failure option \<Rightarrow> ('db \<Rightarrow> 'db \<times> (error + 'a)) \<Rightarrow> 'db \<Rightarrow> 'db \<times> (error + 'a)" where
  "guarded f call db = (case f of Some x \<Rightarrow> (db, Inl (failure_error x)) | None \<Rightarrow> call db)"

definition guarded_read :: "db_failure option \<Rightarrow> error + 'a \<Rightarrow> error + 'a" where
  "guarded_read f r = (case f of Some x \<Rightarrow> Inl (failure_error x) | None \<Rightarrow> r)"

definition sqlite_repo :: "ext \<Rightarrow> u64 \<Rightarrow> u64 \<Rightarrow> db_failures \<Rightarrow> db nostr_repo" where
  "sqlite_repo X jitter now busy =
     (let f = fl_call busy in
      \<lparr>rp_write_event = (\<lambda>e. guarded (f SaveEvent) (write_event X now (fl_attempt busy) e)),
       rp_create_verification = (\<lambda>i n. guarded (f CreateVerification) (create_verification_record X now i n)),
       rp_update_verification = (\<lambda>k. guarded (f UpdateVerification) (update_verification_timestamp jitter now k)),
       rp_fail_verification = (\<lambda>k. guarded (f FailVerification) (fail_verification jitter now k)),
       rp_delete_verification = (\<lambda>k. guarded (f DeleteVerification) (delete_verification k)),
       rp_latest_verification = (\<lambda>pk db. guarded_read (f LatestVerification) (get_latest_user_verification X pk db)),
       rp_oldest_verification = (\<lambda>t db. guarded_read (f OldestVerification) (get_oldest_user_verification X t db)),
       rp_create_account = (\<lambda>pk. guarded (f CreateAccount) (create_account pk)),
       rp_admit_account = (\<lambda>pk c. guarded (f AdmitAccount) (admit_account now pk c)),
       rp_account_balance = (\<lambda>pk db. guarded_read (f AccountBalance) (get_account_balance pk db)),
       rp_update_balance = (\<lambda>pk p n. guarded (f UpdateBalance) (update_account_balance pk p n)),
       rp_create_invoice = (\<lambda>pk v. guarded (f CreateInvoice) (create_invoice_record now pk v)),
       rp_update_invoice = (\<lambda>h st. guarded (f UpdateInvoice) (update_invoice now h st)),
       rp_unpaid_invoice = (\<lambda>pk db. guarded_read (f UnpaidInvoice) (get_unpaid_invoice pk db))\<rparr>)"

text \<open>A call that fails changes nothing; a call that answers has done what it does.\<close>

lemma guarded_fst [simp]: "fst (guarded f call db) = (if f = None then fst (call db) else db)"
  by (simp add: guarded_def split: option.split)

lemma guarded_Inr [simp]: "guarded f call db = (db1, Inr x) \<longleftrightarrow> f = None \<and> call db = (db1, Inr x)"
  by (simp add: guarded_def split: option.split)

lemma guarded_read_Inr [simp]: "guarded_read f r = Inr x \<longleftrightarrow> f = None \<and> r = Inr x"
  by (simp add: guarded_read_def split: option.split)

lemma guarded_snd_Inr [simp]: "snd (guarded f call db) = Inr x \<longleftrightarrow> f = None \<and> snd (call db) = Inr x"
  by (simp add: guarded_def split: option.split)

lemma guarded_None [simp]: "guarded None call = call" "guarded_read None r = r"
  by (simp_all add: fun_eq_iff guarded_def guarded_read_def)

lemma no_failures_sel [simp]: "fl_attempt no_failures = (\<lambda>i. None)" "fl_call no_failures = (\<lambda>c. None)"
  by (simp_all add: no_failures_def)

section \<open>Lemmas\<close>

text \<open>The balance of an account, as the database keeps it.\<close>

definition balance_of :: "db \<Rightarrow> string \<Rightarrow> int option" where
  "balance_of db pk = map_option ac_balance (List.find (\<lambda>a. ac_pubkey a = pk) (accounts db))"

definition invoice_of :: "db \<Rightarrow> string \<Rightarrow> invoice_row option" where
  "invoice_of db h = List.find (\<lambda>v. iv_hash v = h) (invoices db)"

lemma filter_find: "(case filter P xs of [] \<Rightarrow> a | x # _ \<Rightarrow> f x) = (case List.find P xs of None \<Rightarrow> a | Some x \<Rightarrow> f x)"
  by (induction xs) auto

lemma find_map_same:
  "(\<And>x. P (g x) = P x) \<Longrightarrow> List.find P (map g xs) = map_option g (List.find P xs)"
  by (induction xs) auto

lemma balance_map_account:
  assumes "\<And>a. ac_pubkey (f a) = ac_pubkey a"
  shows "balance_of (map_account pk f db) q =
    (if q = pk then map_option (\<lambda>a. ac_balance (f a)) (List.find (\<lambda>a. ac_pubkey a = pk) (accounts db))
     else balance_of db q)"
proof -
  have "List.find (\<lambda>a. ac_pubkey a = q) (map (\<lambda>a. if ac_pubkey a = pk then f a else a) as)
      = map_option (\<lambda>a. if ac_pubkey a = pk then f a else a) (List.find (\<lambda>a. ac_pubkey a = q) as)" for as
    using assms by (intro find_map_same) auto
  moreover have "List.find (\<lambda>a. ac_pubkey a = q) as = Some a \<Longrightarrow> ac_pubkey a = q" for as and a :: account_row
    by (induction as) (auto split: if_splits)
  ultimately show ?thesis
    by (cases "List.find (\<lambda>a. ac_pubkey a = q) (accounts db)") (auto simp: balance_of_def map_account_def)
qed

lemma balance_add:
  "balance_of (map_account pk (\<lambda>a. a\<lparr>ac_balance := ac_balance a + n\<rparr>) db) q =
     (if q = pk then map_option (\<lambda>b. b + n) (balance_of db q) else balance_of db q)"
  by (subst balance_map_account) (simp_all add: balance_of_def option.map_comp comp_def)

lemma balance_invoices [simp]: "balance_of (db\<lparr>invoices := is\<rparr>) q = balance_of db q"
  by (simp add: balance_of_def)

lemma invoice_map_account [simp]: "invoice_of (map_account pk f db) h = invoice_of db h"
  by (simp add: invoice_of_def map_account_def)

lemma update_invoice_find:
  "update_invoice now h status db =
     (case invoice_of db h of
        None \<Rightarrow> (db, Inl no_rows)
      | Some ivr \<Rightarrow>
          (let db1 = db\<lparr>invoices :=
                 map (set_invoice_status now h status) (invoices db)\<rparr>;
               db2 = (if iv_status ivr = ''Unpaid'' \<and> status = Paid
                      then map_account (iv_pubkey ivr) (\<lambda>a. a\<lparr>ac_balance := ac_balance a + iv_amount ivr\<rparr>) db1
                      else db1)
           in (db2, Inr (iv_pubkey ivr))))"
  unfolding update_invoice_def invoice_of_def by (rule filter_find)

lemma update_invoice_balance:
  assumes "invoice_of db h = Some ivr"
  shows "balance_of (fst (update_invoice now h status db)) q =
    (if q = iv_pubkey ivr \<and> iv_status ivr = ''Unpaid'' \<and> status = Paid
     then map_option (\<lambda>b. b + iv_amount ivr) (balance_of db q) else balance_of db q)"
  using assms by (simp add: update_invoice_find Let_def balance_add)

lemma find_hash: "List.find (\<lambda>v. iv_hash v = h) xs = Some v \<Longrightarrow> iv_hash v = h"
  by (induction xs) (auto split: if_splits)

lemma update_invoice_status:
  assumes "invoice_of db h = Some ivr"
  shows "\<exists>ivr'. invoice_of (fst (update_invoice now h status db)) h = Some ivr'
    \<and> iv_status ivr' = invoice_status_text status \<and> iv_pubkey ivr' = iv_pubkey ivr
    \<and> iv_amount ivr' = iv_amount ivr"
proof -
  have "List.find (\<lambda>v. iv_hash v = h) (map (set_invoice_status now h status) xs)
      = map_option (set_invoice_status now h status) (List.find (\<lambda>v. iv_hash v = h) xs)" for xs
    by (rule find_map_same) (simp add: set_invoice_status_def)
  moreover have "iv_hash ivr = h" using assms find_hash by (simp add: invoice_of_def)
  moreover have "List.find (\<lambda>v. iv_hash v = h) (invoices db) = Some ivr"
    using assms by (simp add: invoice_of_def)
  moreover have "invoice_of (fst (update_invoice now h status db)) h
      = List.find (\<lambda>v. iv_hash v = h) (map (set_invoice_status now h status) (invoices db))"
    using assms by (simp add: update_invoice_find Let_def) (simp add: invoice_of_def)
  ultimately show ?thesis by (simp add: set_invoice_status_def)
qed

lemma get_account_balance_find:
  "get_account_balance pk db =
     (case List.find (\<lambda>a. ac_pubkey a = pk) (accounts db) of
        None \<Rightarrow> Inl no_rows
      | Some a \<Rightarrow> if ac_balance a < 0 then Inl (SqlError ''Integer out of range'')
                  else Inr (ac_admitted a, word_of_int (ac_balance a)))"
  unfolding get_account_balance_def by (rule filter_find)

text \<open>Verification records keep the invariant of the tables.\<close>

lemma create_verification_inv:
  assumes "db_inv db"
  shows "db_inv (fst (create_verification_record X now i n db))"
proof (cases "filter (\<lambda>r. hex_decode X i = Some (ev_hash r)) (events db)")
  case Nil
  with assms show ?thesis by (simp add: create_verification_record_def)
next
  case (Cons r rs)
  then have "r \<in> set (filter (\<lambda>r. hex_decode X i = Some (ev_hash r)) (events db))" by simp
  then have "r \<in> set (events db)" by simp
  with assms Cons show ?thesis
    by (auto simp: create_verification_record_def Let_def db_inv_def keys_ok_def refs_ok_def replaceable_unique_def)
qed

end
