(* ===== verification/Kind_Filters.thy ===== *)
theory Kind_Filters
  imports Config Event_Data
begin

text \<open>
  Evaluation of the kind filters (\<open>src/src/kind_filters.rs\<close>): access rules, required tags
  and patterns, the expiration window, the kind lists, and the texts of rejections. The
  lemmas give each check's meaning and the precedence of scripts, deny and allow rules.
\<close>

section \<open>Access\<close>

definition is_pubkey_hex :: "string \<Rightarrow> bool" where
  "is_pubkey_hex s \<longleftrightarrow> length s = 64 \<and> all_ascii is_ascii_hexdigit s"

definition evaluate_access_identifier ::
  "string \<Rightarrow> event \<Rightarrow> string option \<Rightarrow> string option \<Rightarrow> bool" where
  "evaluate_access_identifier identifier e auth_pk server_pk =
     (if is_pubkey_hex identifier then
        (if e_pubkey e = identifier then True
         else (case auth_pk of Some a \<Rightarrow> a = identifier | None \<Rightarrow> False))
      else if identifier = ''private_server_hex'' then
        (case (auth_pk, server_pk) of (Some a, Some s) \<Rightarrow> a = s | _ \<Rightarrow> False)
      else False)"

definition check_access_rule ::
  "access_rule \<Rightarrow> event \<Rightarrow> string option \<Rightarrow> string option \<Rightarrow> bool" where
  "check_access_rule rule e auth_pk server_pk =
     (case rule of
        AllowAll \<Rightarrow> True
      | DenyAll \<Rightarrow> False
      | Identifiers ids \<Rightarrow> list_ex (\<lambda>i. evaluate_access_identifier i e auth_pk server_pk) ids)"

definition check_privileged_read :: "event \<Rightarrow> string option \<Rightarrow> bool" where
  "check_privileged_read e auth_pk =
     (case auth_pk of
        None \<Rightarrow> False
      | Some a \<Rightarrow>
          if e_pubkey e = a then True else list_ex (\<lambda>p. p = a) (tag_values_by_name e ''p''))"

text \<open>The script gets the event on standard input; starting and waiting for it may fail.\<close>

definition execute_script :: "ext \<Rightarrow> string \<Rightarrow> event \<Rightarrow> string option \<Rightarrow> string + bool" where
  "execute_script X path e auth_pk =
     (case json_to_string X (event_to_json e) of
        None \<Rightarrow> Inl ''Failed to serialize event''
      | Some s \<Rightarrow> run_script X path s auth_pk)"

definition check_write_read_config ::
  "ext \<Rightarrow> write_read_config \<Rightarrow> event \<Rightarrow> string option \<Rightarrow> string option \<Rightarrow> bool \<Rightarrow> bool" where
  "check_write_read_config X c e auth_pk server_pk is_read =
     (let script_denies =
            (case wr_script c of
               None \<Rightarrow> False
             | Some path \<Rightarrow>
                 (case execute_script X path e auth_pk of Inr allowed \<Rightarrow> \<not> allowed | Inl _ \<Rightarrow> True))
      in
      if script_denies then False
      else if check_access_rule (wr_deny c) e auth_pk server_pk then False
      else (let allowed = check_access_rule (wr_allow c) e auth_pk server_pk in
            if is_read \<and> wr_privileged c then
              (if wr_allow c \<noteq> AllowAll \<and> allowed then True else check_privileged_read e auth_pk)
            else allowed))"

section \<open>Tags\<close>

definition validate_d_tag :: "event \<Rightarrow> tag_requirement \<Rightarrow> bool" where
  "validate_d_tag e r =
     (case r of
        TagNone \<Rightarrow> True
      | TagRequired \<Rightarrow> tag_values_by_name e ''d'' \<noteq> []
      | TagRequiredHex \<Rightarrow>
          tag_values_by_name e ''d'' \<noteq> [] \<and> list_ex is_pubkey_hex (tag_values_by_name e ''d''))"

definition validate_p_tag :: "event \<Rightarrow> tag_requirement \<Rightarrow> bool" where
  "validate_p_tag e r =
     (case r of
        TagNone \<Rightarrow> True
      | TagRequired \<Rightarrow> tag_values_by_name e ''p'' \<noteq> []
      | TagRequiredHex \<Rightarrow> list_ex is_pubkey_hex (tag_values_by_name e ''p''))"

fun validate_required_tags :: "event \<Rightarrow> string list \<Rightarrow> string + unit" where
  "validate_required_tags e [] = Inr ()"
| "validate_required_tags e (name # names) =
     (if tag_values_by_name e name = [] then Inl (''missing required tag: '' @ name)
      else validate_required_tags e names)"

fun validate_tag_patterns :: "ext \<Rightarrow> event \<Rightarrow> (string \<times> string) list \<Rightarrow> string + unit" where
  "validate_tag_patterns X e [] = Inr ()"
| "validate_tag_patterns X e ((name, pattern) # ps) =
     (let vs = tag_values_by_name e name in
      if vs = [] \<or> list_ex (\<lambda>v. \<not> is_match X pattern v) vs then Inl name
      else validate_tag_patterns X e ps)"

definition validate_expiration_window :: "u64 \<Rightarrow> event \<Rightarrow> u64 \<Rightarrow> string + unit" where
  "validate_expiration_window now e max_duration =
     (if \<not> list_ex (\<lambda>t. t \<noteq> [] \<and> hd t = ''expiration'') (e_tags e) then Inr ()
      else (case expiration e of
              None \<Rightarrow> Inl ''expiration tag is not a valid timestamp''
            | Some x \<Rightarrow>
                if now + max_duration < x then Inl ''expiration exceeds max_expiry_duration''
                else Inr ()))"

section \<open>Kind lists\<close>

datatype kind_deny_reason = NotInWhitelist | Blacklisted

definition check_kind_allowed :: "u64 \<Rightarrow> kind_filters \<Rightarrow> kind_deny_reason + unit" where
  "check_kind_allowed kind kf =
     (case kf_whitelist kf of
        Some wl \<Rightarrow> if kind \<in> set wl then Inr () else Inl NotInWhitelist
      | None \<Rightarrow>
          (case kf_blacklist kf of
             Some bl \<Rightarrow> if kind \<in> set bl then Inl Blacklisted else Inr ()
           | None \<Rightarrow> Inr ()))"

definition is_kind_allowed :: "u64 \<Rightarrow> kind_filters \<Rightarrow> bool" where
  "is_kind_allowed kind kf \<longleftrightarrow> result_ok (check_kind_allowed kind kf) \<noteq> None"

section \<open>Texts of rejections\<close>

record error_placeholders =
  ph_kind :: "u64 option"
  ph_tag :: "string option"
  ph_size :: "usize option"
  ph_limit :: "usize option"
  ph_detail :: "string option"

definition no_placeholders :: error_placeholders where
  "no_placeholders =
     \<lparr>ph_kind = None, ph_tag = None, ph_size = None, ph_limit = None, ph_detail = None\<rparr>"

definition replace_opt :: "string \<Rightarrow> string option \<Rightarrow> string \<Rightarrow> string" where
  "replace_opt p v s = (case v of None \<Rightarrow> s | Some x \<Rightarrow> replace_all p x s)"

definition substitute_placeholders :: "string \<Rightarrow> error_placeholders \<Rightarrow> string" where
  "substitute_placeholders template ph =
     replace_opt ''{detail}'' (ph_detail ph)
       (replace_opt ''{limit}'' (map_option u64_to_string (ph_limit ph))
         (replace_opt ''{size}'' (map_option u64_to_string (ph_size ph))
           (replace_opt ''{tag}'' (ph_tag ph)
             (replace_opt ''{kind}'' (map_option u64_to_string (ph_kind ph)) template))))"

definition resolve_error_message ::
  "string \<Rightarrow> string option \<Rightarrow> string option \<Rightarrow> error_placeholders \<Rightarrow> string" where
  "resolve_error_message dflt kind_override global_override ph =
     substitute_placeholders
       (case kind_override of
          Some t \<Rightarrow> t
        | None \<Rightarrow> (case global_override of Some t \<Rightarrow> t | None \<Rightarrow> dflt))
       ph"

section \<open>Lemmas\<close>

lemma is_pubkey_hex_iff: "is_pubkey_hex s \<longleftrightarrow> length s = 64 \<and> list_all is_ascii_hexdigit s"
  by (simp add: is_pubkey_hex_def all_ascii_iff hexdigit_is_ascii)

text \<open>Who a list of identifiers stands for.\<close>

definition identifier_names :: "string \<Rightarrow> event \<Rightarrow> string option \<Rightarrow> string option \<Rightarrow> bool" where
  "identifier_names i e auth_pk server_pk \<longleftrightarrow>
     is_pubkey_hex i \<and> (e_pubkey e = i \<or> auth_pk = Some i)
     \<or> i = ''private_server_hex'' \<and> auth_pk \<noteq> None \<and> auth_pk = server_pk"

lemma evaluate_access_identifier_iff:
  "evaluate_access_identifier i e a s \<longleftrightarrow> identifier_names i e a s"
proof -
  have "\<not> is_pubkey_hex ''private_server_hex''" by (simp add: is_pubkey_hex_def)
  then show ?thesis
    by (auto simp: evaluate_access_identifier_def identifier_names_def split: option.splits)
qed

lemma check_access_rule_iff:
  "check_access_rule r e a s \<longleftrightarrow>
     r = AllowAll \<or> (\<exists>ids. r = Identifiers ids \<and> (\<exists>i \<in> set ids. identifier_names i e a s))"
  by (cases r) (auto simp: check_access_rule_def list_ex_iff evaluate_access_identifier_iff)

lemma check_privileged_read_iff:
  "check_privileged_read e a \<longleftrightarrow>
     (\<exists>pk. a = Some pk \<and> (e_pubkey e = pk \<or> pk \<in> set (tag_values_by_name e ''p'')))"
  by (auto simp: check_privileged_read_def list_ex_iff split: option.split)

definition script_allows :: "ext \<Rightarrow> write_read_config \<Rightarrow> event \<Rightarrow> string option \<Rightarrow> bool" where
  "script_allows X c e a \<longleftrightarrow>
     (\<forall>path. wr_script c = Some path \<longrightarrow> execute_script X path e a = Inr True)"

lemma check_write_read_config_iff:
  "check_write_read_config X c e a s is_read \<longleftrightarrow>
     script_allows X c e a \<and> \<not> check_access_rule (wr_deny c) e a s
     \<and> (if is_read \<and> wr_privileged c
        then wr_allow c \<noteq> AllowAll \<and> check_access_rule (wr_allow c) e a s \<or> check_privileged_read e a
        else check_access_rule (wr_allow c) e a s)"
  by (auto simp: check_write_read_config_def script_allows_def Let_def split: option.splits sum.splits)

lemma validate_required_tags_iff:
  "validate_required_tags e names = Inr () \<longleftrightarrow>
     (\<forall>n \<in> set names. \<exists>t \<in> set (e_tags e). 1 < length t \<and> hd t = n)"
proof (induction names)
  case (Cons n names)
  have "tag_values_by_name e n = [] \<longleftrightarrow> \<not> (\<exists>t \<in> set (e_tags e). 1 < length t \<and> hd t = n)"
    by (auto simp: tag_values_by_name_def filter_empty_conv)
  with Cons show ?case by auto
qed simp

lemma validate_tag_patterns_iff:
  "validate_tag_patterns X e ps = Inr () \<longleftrightarrow>
     (\<forall>(n, p) \<in> set ps. tag_values_by_name e n \<noteq> [] \<and> (\<forall>v \<in> set (tag_values_by_name e n). is_match X p v))"
  by (induction ps) (auto simp: Let_def list_ex_iff split: if_splits)

lemma validate_tag_patterns_Inl:
  "validate_tag_patterns X e ps = Inl n \<Longrightarrow>
     \<exists>(m, p) \<in> set ps. m = n \<and>
       (tag_values_by_name e n = [] \<or> (\<exists>v \<in> set (tag_values_by_name e n). \<not> is_match X p v))"
proof (induction ps)
  case (Cons mp ps)
  obtain m p where "mp = (m, p)" by fastforce
  with Cons show ?case
    by (cases "tag_values_by_name e m = [] \<or> (\<exists>v \<in> set (tag_values_by_name e m). \<not> is_match X p v)")
      (auto simp: Let_def list_ex_iff)
qed simp

lemma first_tag_value_None:
  "first_tag_value n e = None \<longleftrightarrow> \<not> (\<exists>t \<in> set (e_tags e). t \<noteq> [] \<and> hd t = n)"
proof -
  have "filter (\<lambda>t. t \<noteq> [] \<and> hd t = n) (e_tags e) = [] \<longleftrightarrow> \<not> (\<exists>t \<in> set (e_tags e). t \<noteq> [] \<and> hd t = n)"
    by (auto simp: filter_empty_conv)
  then show ?thesis
    by (cases "filter (\<lambda>t. t \<noteq> [] \<and> hd t = n) (e_tags e)") (auto simp: first_tag_value_def)
qed

lemma validate_expiration_window_iff:
  "validate_expiration_window now e d = Inr () \<longleftrightarrow>
     first_tag_value ''expiration'' e = None \<or> (\<exists>x. expiration e = Some x \<and> x \<le> now + d)"
  by (cases "expiration e") (auto simp: validate_expiration_window_def first_tag_value_None list_ex_iff)

lemma check_kind_allowed_iff:
  "check_kind_allowed k kf = Inr () \<longleftrightarrow>
     (case kf_whitelist kf of
        Some wl \<Rightarrow> k \<in> set wl
      | None \<Rightarrow> (\<forall>bl. kf_blacklist kf = Some bl \<longrightarrow> k \<notin> set bl))"
  by (auto simp: check_kind_allowed_def split: option.split)

lemma is_kind_allowed_iff: "is_kind_allowed k kf \<longleftrightarrow> check_kind_allowed k kf = Inr ()"
  unfolding is_kind_allowed_def by (cases "check_kind_allowed k kf") auto

lemma kind_filters_new_allows: "is_kind_allowed k kind_filters_new"
  by (simp add: is_kind_allowed_iff check_kind_allowed_iff kind_filters_new_def)

end
