(* ===== verification/Rate_Limit.thy ===== *)
theory Rate_Limit
  imports Config Event_Data
begin

text \<open>
  The sliding-window rate limiter of \<open>src/src/db.rs\<close> and the rules of a kind bound to
  their limiters. An \<open>Instant\<close> is its number of nanoseconds, so that the difference of
  two instants is cut off at zero as \<open>duration_since\<close> does. The contract of a limiter is
  a locale; the code's limiter interprets it, and no window of its length ever holds more
  accepted requests of one key than the limit.
\<close>

section \<open>The limiter\<close>

record limiter =
  l_window_secs :: u64
  l_max_events :: u32
  l_buckets :: "(string \<times> nat list) list"

definition limiter_new :: "u64 \<Rightarrow> u32 \<Rightarrow> limiter" where
  "limiter_new w m = \<lparr>l_window_secs = w, l_max_events = m, l_buckets = []\<rparr>"

definition bucket :: "limiter \<Rightarrow> string \<Rightarrow> nat list" where
  "bucket l key = (case map_of (l_buckets l) key of None \<Rightarrow> [] | Some q \<Rightarrow> q)"

definition window_nanos :: "limiter \<Rightarrow> nat" where
  "window_nanos l = unat (l_window_secs l) * 1000000000"

definition limiter_check :: "nat \<Rightarrow> string \<Rightarrow> limiter \<Rightarrow> limiter \<times> bool" where
  "limiter_check now key l =
     (let q = dropWhile (\<lambda>t. window_nanos l \<le> now - t) (bucket l key) in
      if (of_nat (length q) :: u32) < l_max_events l
      then (l\<lparr>l_buckets := AList.update key (q @ [now]) (l_buckets l)\<rparr>, True)
      else (l\<lparr>l_buckets := AList.update key q (l_buckets l)\<rparr>, False))"

section \<open>The rules of a kind\<close>

record bound_rule =
  b_scope :: rate_scope
  b_limiter :: limiter

definition bind_rule :: "rate_limit_rule \<Rightarrow> bound_rule" where
  "bind_rule r =
     \<lparr>b_scope = r_scope r, b_limiter = limiter_new (window_secs (r_window r)) (r_limit r)\<rparr>"

definition sliding_limiters :: "kind_filters \<Rightarrow> (u64 \<times> bound_rule list) list" where
  "sliding_limiters kf =
     List.map_filter
       (\<lambda>(kind, c). if k_rate_limits c = [] then None
                    else Some (kind, map bind_rule (k_rate_limits c)))
       (kf_filters kf)"

fun rule_key :: "rate_scope \<Rightarrow> string \<Rightarrow> string \<Rightarrow> string" where
  "rule_key ScopeGlobal pubkey ip = []"
| "rule_key ScopeNpub pubkey ip = pubkey"
| "rule_key ScopeIp pubkey ip = ip"

text \<open>
  The loop over the rules: it stops at the first one that is exceeded, and the rules
  before it have recorded the event. Each check reads the clock (\<open>clk\<close>) anew.
\<close>

fun check_rules ::
  "(nat \<Rightarrow> nat) \<Rightarrow> nat \<Rightarrow> string \<Rightarrow> string \<Rightarrow> bound_rule list \<Rightarrow> bound_rule list \<times> bool" where
  "check_rules clk i pubkey ip [] = ([], True)"
| "check_rules clk i pubkey ip (r # rs) =
     (let (l, ok) = limiter_check (clk i) (rule_key (b_scope r) pubkey ip) (b_limiter r);
          r' = r\<lparr>b_limiter := l\<rparr> in
      if \<not> ok then (r' # rs, False)
      else (let (rs', b) = check_rules clk (Suc i) pubkey ip rs in (r' # rs', b)))"

section \<open>The contract of a window limiter\<close>

locale window_limiter =
  fixes admit :: "nat \<Rightarrow> 'k \<Rightarrow> 's \<Rightarrow> 's \<times> bool"
    and log :: "'s \<Rightarrow> 'k \<Rightarrow> nat list"
    and ok :: "nat \<Rightarrow> 's \<Rightarrow> bool"
    and w :: nat
    and mx :: nat
  assumes window_pos: "0 < w"
    and ok_admit: "ok now s \<Longrightarrow> ok now (fst (admit now k s))"
    and ok_later: "ok now s \<Longrightarrow> now \<le> now' \<Longrightarrow> ok now' s"
    and accept_log: "ok now s \<Longrightarrow> snd (admit now k s) \<Longrightarrow>
      log (fst (admit now k s)) k = filter (\<lambda>x. now - x < w) (log s k) @ [now]"
    and accept_room: "ok now s \<Longrightarrow> snd (admit now k s) \<Longrightarrow>
      length (filter (\<lambda>x. now - x < w) (log s k)) < mx"
    and reject_log: "ok now s \<Longrightarrow> \<not> snd (admit now k s) \<Longrightarrow>
      log (fst (admit now k s)) k = filter (\<lambda>x. now - x < w) (log s k)"
    and reject_full: "ok now s \<Longrightarrow> \<not> snd (admit now k s) \<Longrightarrow>
      mx \<le> length (filter (\<lambda>x. now - x < w) (log s k))"
    and other_log: "ok now s \<Longrightarrow> k' \<noteq> k \<Longrightarrow> log (fst (admit now k s)) k' = log s k'"
begin

text \<open>A run of requests; the accepted ones in order.\<close>

fun run :: "(nat \<times> 'k) list \<Rightarrow> 's \<Rightarrow> (nat \<times> 'k) list \<Rightarrow> 's \<times> (nat \<times> 'k) list" where
  "run [] s acc = (s, acc)"
| "run ((now, k) # reqs) s acc =
     run reqs (fst (admit now k s)) (if snd (admit now k s) then acc @ [(now, k)] else acc)"

definition times :: "'k \<Rightarrow> (nat \<times> 'k) list \<Rightarrow> nat list" where
  "times k acc = map fst (filter (\<lambda>r. snd r = k) acc)"

definition in_window :: "nat \<Rightarrow> nat list \<Rightarrow> nat list" where
  "in_window t xs = filter (\<lambda>x. t \<le> x \<and> x < t + w) xs"

definition good :: "nat \<Rightarrow> 's \<Rightarrow> (nat \<times> 'k) list \<Rightarrow> bool" where
  "good now s acc \<longleftrightarrow> ok now s \<and> (\<forall>r \<in> set acc. fst r \<le> now)
     \<and> (\<forall>k. \<exists>n \<le> now. log s k = filter (\<lambda>x. n - x < w) (times k acc))
     \<and> (\<forall>k t. length (in_window t (times k acc)) \<le> mx)"

lemma times_snoc: "times k (acc @ [(now, j)]) = times k acc @ (if j = k then [now] else [])"
  by (simp add: times_def)

lemma times_le: "\<forall>r \<in> set acc. fst r \<le> now \<Longrightarrow> \<forall>x \<in> set (times k acc). x \<le> now"
  by (auto simp: times_def)

lemma window_cut:
  assumes "n \<le> now"
  shows "filter (\<lambda>x. now - x < w) (filter (\<lambda>x. n - x < w) xs) = filter (\<lambda>x. now - x < w) xs"
proof -
  have "n - x < w" if "now - x < w" for x using that assms by linarith
  then show ?thesis by (simp add: filter_filter) (meson filter_cong)
qed

lemma in_window_log:
  assumes "\<forall>x \<in> set xs. x \<le> now" and "length (filter (\<lambda>x. now - x < w) xs) < mx"
    and "length (in_window t xs) \<le> mx"
  shows "length (in_window t (xs @ [now])) \<le> mx"
proof (cases "t \<le> now \<and> now < t + w")
  case True
  then have "in_window t xs = filter (\<lambda>x. t \<le> x) (filter (\<lambda>x. now - x < w) xs)"
    using assms(1) by (auto simp: in_window_def intro!: filter_cong)
  then have "length (in_window t xs) < mx"
    using assms(2) length_filter_le [of "\<lambda>x. t \<le> x" "filter (\<lambda>x. now - x < w) xs"] by simp
  with True show ?thesis by (simp add: in_window_def)
next
  case False
  with assms(3) show ?thesis by (auto simp: in_window_def)
qed

lemma good_step:
  assumes "good n0 s acc" and "n0 \<le> now"
  shows "good now (fst (admit now k s)) (if snd (admit now k s) then acc @ [(now, k)] else acc)"
proof -
  let ?s = "fst (admit now k s)"
  have ok: "ok now s" using assms ok_later unfolding good_def by blast
  have le: "\<forall>r \<in> set acc. fst r \<le> now" using assms le_trans unfolding good_def by blast
  have bound: "\<forall>k t. length (in_window t (times k acc)) \<le> mx" using assms unfolding good_def by blast
  have lg: "\<exists>n \<le> now. log s j = filter (\<lambda>x. n - x < w) (times j acc)" for j
  proof -
    from assms(1) obtain n where "n \<le> n0" and "log s j = filter (\<lambda>x. n - x < w) (times j acc)"
      unfolding good_def by blast
    with assms(2) le_trans show ?thesis by blast
  qed
  have cut: "filter (\<lambda>x. now - x < w) (log s k) = filter (\<lambda>x. now - x < w) (times k acc)"
  proof -
    from lg obtain n where "n \<le> now" and "log s k = filter (\<lambda>x. n - x < w) (times k acc)" by blast
    then show ?thesis by (simp only: window_cut)
  qed
  show ?thesis
  proof (cases "snd (admit now k s)")
    case True
    have "\<exists>n \<le> now. log ?s j = filter (\<lambda>x. n - x < w) (times j (acc @ [(now, k)]))" for j
    proof (cases "j = k")
      case True
      then show ?thesis
        using accept_log [OF ok \<open>snd (admit now k s)\<close>] cut window_pos
        by (intro exI [of _ now]) (simp add: times_snoc)
    next
      case False
      then show ?thesis using lg [of j] by (simp add: other_log [OF ok] times_snoc)
    qed
    moreover have "length (in_window t (times j (acc @ [(now, k)]))) \<le> mx" for j t
      using accept_room [OF ok True] bound in_window_log [OF times_le [OF le]]
      by (cases "j = k") (simp_all add: cut times_snoc)
    ultimately show ?thesis using True ok_admit [OF ok] le by (auto simp: good_def)
  next
    case False
    have "\<exists>n \<le> now. log ?s j = filter (\<lambda>x. n - x < w) (times j acc)" for j
      using lg [of j] reject_log [OF ok False] cut other_log [OF ok, of j k] by (cases "j = k") auto
    with False ok_admit [OF ok] le bound show ?thesis by (auto simp: good_def)
  qed
qed

lemma good_run:
  "good n0 s acc \<Longrightarrow> sorted (n0 # map fst reqs) \<Longrightarrow>
   \<exists>now. good now (fst (run reqs s acc)) (snd (run reqs s acc))"
proof (induction reqs arbitrary: n0 s acc)
  case (Cons r reqs)
  obtain now k where r: "r = (now, k)" by fastforce
  with Cons.prems have "good now (fst (admit now k s)) (if snd (admit now k s) then acc @ [(now, k)] else acc)"
    by (intro good_step) auto
  from Cons.IH [OF this] Cons.prems r show ?case by simp
qed auto

lemma run_bound:
  assumes "ok 0 s" and "\<And>k. log s k = []" and "sorted (map fst reqs)"
  shows "length (in_window t (times k (snd (run reqs s [])))) \<le> mx"
proof -
  have "good 0 s []" using assms(1,2) by (simp add: good_def times_def in_window_def)
  with good_run [of 0 s "[]" reqs] assms(3) show ?thesis by (auto simp: good_def)
qed

lemma admit_iff:
  "ok now s \<Longrightarrow> snd (admit now k s) \<longleftrightarrow> length (filter (\<lambda>x. now - x < w) (log s k)) < mx"
  using accept_room [of now s k] reject_full [of now s k] by linarith

end

section \<open>The code's limiter meets the contract\<close>

definition limiter_ok :: "u64 \<Rightarrow> u32 \<Rightarrow> nat \<Rightarrow> limiter \<Rightarrow> bool" where
  "limiter_ok ws m now l \<longleftrightarrow> l_window_secs l = ws \<and> l_max_events l = m
     \<and> (\<forall>k. sorted (bucket l k) \<and> (\<forall>x \<in> set (bucket l k). x \<le> now) \<and> length (bucket l k) \<le> unat m)"

lemma dropWhile_window:
  fixes xs :: "nat list"
  assumes "sorted xs"
  shows "dropWhile (\<lambda>t. w \<le> now - t) xs = filter (\<lambda>x. now - x < w) xs"
  using assms
proof (induction xs)
  case (Cons x xs)
  show ?case
  proof (cases "w \<le> now - x")
    case True
    with Cons show ?thesis by simp
  next
    case False
    with Cons.prems have "filter (\<lambda>x. now - x < w) xs = xs" by (auto simp: filter_id_conv)
    with False show ?thesis by simp
  qed
qed simp

lemma bucket_update: "bucket (l\<lparr>l_buckets := AList.update k q (l_buckets l)\<rparr>) j = (if j = k then q else bucket l j)"
  by (simp add: bucket_def update_conv')

lemma length_u32_less:
  assumes "n \<le> unat (m :: u32)"
  shows "(of_nat n :: u32) < m \<longleftrightarrow> n < unat m"
proof -
  have "n < 2 ^ 32" using assms unsigned_less [of m, where ?'a = nat] by simp
  then have "unat (of_nat n :: u32) = n" by (simp add: unsigned_of_nat take_bit_nat_eq_self)
  then show ?thesis by (simp add: word_less_nat_alt)
qed

lemma limiter_check_eq:
  fixes key :: string
  assumes "limiter_ok ws m now l"
  defines "q \<equiv> filter (\<lambda>x. now - x < unat ws * 1000000000) (bucket l key)"
  shows "limiter_check now key l =
    (if length q < unat m then (l\<lparr>l_buckets := AList.update key (q @ [now]) (l_buckets l)\<rparr>, True)
     else (l\<lparr>l_buckets := AList.update key q (l_buckets l)\<rparr>, False))"
proof -
  have d: "dropWhile (\<lambda>t. window_nanos l \<le> now - t) (bucket l key) = q"
    using assms by (simp add: limiter_ok_def window_nanos_def dropWhile_window)
  have "length q \<le> unat m"
    using assms length_filter_le [of _ "bucket l key"] unfolding limiter_ok_def q_def by (meson le_trans)
  with d assms show ?thesis
    by (simp add: limiter_check_def Let_def limiter_ok_def length_u32_less)
qed

lemma limiter_ok_new: "limiter_ok ws m now (limiter_new ws m)"
  by (simp add: limiter_ok_def limiter_new_def bucket_def)

lemma limiter_ok_check:
  assumes "limiter_ok ws m now l"
  shows "limiter_ok ws m now (fst (limiter_check now key l))"
proof -
  define q where "q = filter (\<lambda>x. now - x < unat ws * 1000000000) (bucket l key)"
  have "length q \<le> length (bucket l key)" by (simp add: q_def)
  also have "\<dots> \<le> unat m" using assms by (simp add: limiter_ok_def)
  finally have q: "sorted q" "\<forall>x \<in> set q. x \<le> now" "length q \<le> unat m"
    using assms by (auto simp: limiter_ok_def q_def intro: sorted_wrt_filter)
  have n: "sorted (q @ [now])" using q by (simp add: sorted_append)
  show ?thesis
    unfolding limiter_check_eq [OF assms] q_def [symmetric]
    using assms q n by (auto simp: limiter_ok_def bucket_update)
qed

lemma limiter_window:
  assumes "0 < unat ws"
  shows "window_limiter limiter_check bucket (limiter_ok ws m) (unat ws * 1000000000) (unat m)"
proof
  show "0 < unat ws * 1000000000" using assms by simp
  show "limiter_ok ws m now l \<Longrightarrow> now \<le> now' \<Longrightarrow> limiter_ok ws m now' l" for now now' l
    using le_trans unfolding limiter_ok_def by blast
  show "limiter_ok ws m now l \<Longrightarrow> limiter_ok ws m now (fst (limiter_check now k l))" for now k l
    by (rule limiter_ok_check)
qed (auto simp: limiter_check_eq bucket_update split: if_splits)

lemma window_secs_pos: "0 < unat (window_secs rw)"
  by (cases rw) simp_all

interpretation sliding: window_limiter limiter_check bucket "limiter_ok (window_secs rw) m"
  "unat (window_secs rw) * 1000000000" "unat m" for rw m
  by (rule limiter_window [OF window_secs_pos])

text \<open>A run of requests on the code's limiter; the accepted ones in order.\<close>

fun limiter_run :: "(nat \<times> string) list \<Rightarrow> limiter \<Rightarrow> (nat \<times> string) list \<Rightarrow> (nat \<times> string) list" where
  "limiter_run [] l acc = acc"
| "limiter_run ((now, k) # reqs) l acc =
     limiter_run reqs (fst (limiter_check now k l))
       (if snd (limiter_check now k l) then acc @ [(now, k)] else acc)"

lemma limiter_run_eq: "snd (sliding.run reqs l acc) = limiter_run reqs l acc"
  by (induction reqs arbitrary: l acc) auto

lemma limiter_run_bound:
  assumes "sorted (map fst reqs)"
  shows "length (filter (\<lambda>r. snd r = k \<and> t \<le> fst r \<and> fst r < t + unat (window_secs rw) * 1000000000)
     (limiter_run reqs (limiter_new (window_secs rw) m) [])) \<le> unat m"
  using sliding.run_bound [OF limiter_ok_new _ assms, of rw m t k]
  by (simp add: limiter_run_eq sliding.in_window_def sliding.times_def filter_map comp_def
      bucket_def limiter_new_def conj_commute)

lemma check_rules_scopes: "map b_scope (fst (check_rules clk i pk ip rs)) = map b_scope rs"
proof (induction rs arbitrary: i)
  case (Cons r rs)
  from Cons [of "Suc i"] show ?case by (auto simp: Let_def case_prod_beta)
qed simp

text \<open>The event is admitted iff every rule admits it.\<close>

lemma check_rules_iff:
  "snd (check_rules clk i pk ip rs) \<longleftrightarrow>
     (\<forall>j < length rs. snd (limiter_check (clk (i + j)) (rule_key (b_scope (rs ! j)) pk ip) (b_limiter (rs ! j))))"
proof (induction rs arbitrary: i)
  case (Cons r rs)
  show ?case
    using Cons [of "Suc i"]
    by (auto simp: Let_def less_Suc_eq_0_disj split: prod.splits)
qed simp

end
