(* ===== verification/Db_Writer.thy ===== *)
theory Db_Writer
  imports Sqlite_Accounts Kind_Filters Rate_Limit Notice
begin

text \<open>
  The database writer (\<open>db_writer\<close> of \<open>src/src/db.rs\<close>) and the admission service it asks
  (\<open>src/src/nauthz.rs\<close>). One turn of its loop is \<open>process_event\<close>: the checks in the order
  of the code, each an early return, then the broadcast of an ephemeral event or the write
  of another one, and the charge to the author's account. Messages to the client, the
  subscribers, the verifier and the payment handler are the list of outputs, in order. The
  repository is any \<open>nostr_repo\<close>. The limiter of the \<open>governor\<close> crate and the remote
  procedure call are arguments; the sleep that throttles all writes is left out.
\<close>

section \<open>Messages and state\<close>

record submitted_event =
  su_event :: event
  su_source_ip :: string
  su_origin :: "string option"
  su_user_agent :: "string option"
  su_auth_pubkey :: "bytes option"

datatype writer_output =
    Notify notice
  | Broadcast event
  | ToVerifier event
  | ToPayment payment_message

text \<open>A request to the admission service, and its reply: the decision and a message.\<close>

record grpc_request =
  g_id :: bytes
  g_pubkey :: bytes
  g_sig :: bytes
  g_created_at :: u64
  g_kind :: u64
  g_content :: string
  g_tags :: "tag list"
  g_ip_addr :: "string option"
  g_origin :: "string option"
  g_user_agent :: "string option"
  g_auth_pubkey :: "bytes option"
  g_nip05 :: "nip05_name option"

definition decision_permit :: int where
  "decision_permit = 1"

record ('db, 'g) writer_env =
  we_ext :: ext
  we_settings :: settings
  we_repo :: "u64 \<Rightarrow> 'db nostr_repo"
  we_quota :: "u32 \<Rightarrow> 'g"
  we_gov_check :: "'g \<Rightarrow> 'g \<times> bool"
  we_grpc_call :: "(grpc_request \<Rightarrow> string + int \<times> string option) option"

record ('db, 'g) writer =
  w_db :: 'db
  w_kind_limiters :: "(u64 \<times> 'g) list"
  w_sliding :: "(u64 \<times> bound_rule list) list"

section \<open>Start\<close>

text \<open>\<open>NonZeroU32::new(0).unwrap()\<close> panics; the product of the global rate wraps.\<close>

fun kind_limiters ::
  "(u32 \<Rightarrow> 'g) \<Rightarrow> (u64 \<times> kind_filter_config) list \<Rightarrow> (u64 \<times> 'g) list exec" where
  "kind_limiters quota [] = Done []"
| "kind_limiters quota ((kind, c) # fs) =
     (case k_rate_limit c of
        None \<Rightarrow> kind_limiters quota fs
      | Some rl \<Rightarrow>
          if events_per_minute rl = 0 then Panic
          else map_exec (\<lambda>ls. (kind, quota (events_per_minute rl)) # ls) (kind_limiters quota fs))"

definition global_quota_ok :: "settings \<Rightarrow> bool" where
  "global_quota_ok st =
     (case messages_per_sec (st_limits st) of
        None \<Rightarrow> True
      | Some rps \<Rightarrow> rps = 0 \<or> rps * 60 \<noteq> 0)"

definition writer_start :: "('db, 'g) writer_env \<Rightarrow> 'db \<Rightarrow> ('db, 'g) writer exec" where
  "writer_start env db =
     (if \<not> global_quota_ok (we_settings env) then Panic
      else map_exec
        (\<lambda>ls. \<lparr>w_db = db, w_kind_limiters = ls,
               w_sliding = sliding_limiters (st_kind_filters (we_settings env))\<rparr>)
        (kind_limiters (we_quota env) (kf_filters (st_kind_filters (we_settings env)))))"

section \<open>Checks before the kind filters\<close>

datatype 'a stage = Reject "writer_output list" | Proceed 'a

definition kind_lists_stage :: "limits_settings \<Rightarrow> event \<Rightarrow> unit stage" where
  "kind_lists_stage l e =
     (let blocked = Reject [Notify (notice_blocked (e_id e) ''event kind is blocked by relay'')] in
      if (case event_kind_blacklist l of Some bl \<Rightarrow> e_kind e \<in> set bl | None \<Rightarrow> False) then blocked
      else if (case event_kind_allowlist l of Some al \<Rightarrow> e_kind e \<notin> set al | None \<Rightarrow> False) then blocked
      else Proceed ())"

text \<open>The account of an author who is not on the whitelist; the balance if it may publish.\<close>

definition account_stage ::
  "('db, 'g) writer_env \<Rightarrow> u64 \<Rightarrow> event \<Rightarrow> 'db \<Rightarrow> u64 option stage exec" where
  "account_stage env now e db =
     (let st = we_settings env; pay = st_pay_to_relay st;
          whitelist = pubkey_whitelist (st_authorization st);
          blocked = (\<lambda>m. Notify (notice_blocked (e_id e) m)) in
      if \<not> pay_enabled pay then
        (case whitelist of
           Some allowed \<Rightarrow>
             if e_pubkey e \<notin> set allowed
             then Done (Reject [blocked ''pubkey is not allowed to publish to this relay''])
             else Done (Proceed None)
         | None \<Rightarrow> Done (Proceed None))
      else if (case whitelist of Some allowed \<Rightarrow> e_pubkey e \<in> set allowed | None \<Rightarrow> False)
      then Done (Proceed None)
      else (case keys_from_pk (we_ext env) (e_pubkey e) of
              None \<Rightarrow> Panic
            | Some key \<Rightarrow>
                Done (case rp_account_balance (we_repo env now) key db of
                   Inr (admitted, balance) \<Rightarrow>
                     if \<not> admitted
                     then Reject [ToPayment (CheckAccount (e_pubkey e)), blocked ''User is not admitted'']
                     else if balance < cost_per_event pay
                     then Reject [blocked ''Insufficient balance'']
                     else Proceed (Some balance)
                 | Inl err \<Rightarrow>
                     if is_no_rows err
                     then Reject ((if sign_ups pay \<and> direct_message pay
                                   then [ToPayment (NewAccount (e_pubkey e))] else [])
                                  @ [Notify (notice_error (e_id e) ''Pubkey not registered'')])
                     else Reject [Notify (notice_error (e_id e)
                            ''relay experienced an error checking your admission status'')])))"

definition nip05_validation ::
  "('db, 'g) writer_env \<Rightarrow> u64 \<Rightarrow> event \<Rightarrow> 'db \<Rightarrow> (error + verification_record) option" where
  "nip05_validation env now e db =
     (if vu_is_active (st_verified_users (we_settings env))
      then Some (rp_latest_verification (we_repo env now) (e_pubkey e) db) else None)"

text \<open>A failed lookup drops the event without a message.\<close>

definition nip05_stage ::
  "verified_users \<Rightarrow> u64 \<Rightarrow> event \<Rightarrow> (error + verification_record) option \<Rightarrow> unit stage" where
  "nip05_stage vu now e validation =
     (if \<not> vu_is_enabled vu then Proceed ()
      else (case validation of
              None \<Rightarrow> Proceed ()
            | Some (Inr uv) \<Rightarrow>
                if record_is_valid now uv vu then Proceed ()
                else Reject [Notify (notice_blocked (e_id e)
                       ''NIP-05 verification is no longer valid (expired/wrong domain)'')]
            | Some (Inl err) \<Rightarrow>
                if is_no_rows err
                then Reject [Notify (notice_blocked (e_id e)
                       ''NIP-05 verification needed to publish events'')]
                else Reject []))"

definition grpc_admit ::
  "('db, 'g) writer_env \<Rightarrow> submitted_event \<Rightarrow> nip05_name option \<Rightarrow> error + bool \<times> string option" where
  "grpc_admit env su nip05 =
     (let e = su_event su; dec = hex_decode (we_ext env) in
      case (dec (e_id e), dec (e_pubkey e), dec (e_sig e)) of
        (Some i, Some pk, Some sg) \<Rightarrow>
          (case we_grpc_call env of
             None \<Rightarrow> Inl AuthzError
           | Some call \<Rightarrow>
               (case call \<lparr>g_id = i, g_pubkey = pk, g_sig = sg, g_created_at = e_created_at e,
                      g_kind = e_kind e, g_content = e_content e, g_tags = e_tags e,
                      g_ip_addr = Some (su_source_ip su), g_origin = su_origin su,
                      g_user_agent = su_user_agent su, g_auth_pubkey = su_auth_pubkey su,
                      g_nip05 = nip05\<rparr> of
                  Inl s \<Rightarrow> Inl (TonicError s)
                | Inr (decision, msg) \<Rightarrow> Inr (decision = decision_permit, msg)))
      | _ \<Rightarrow> Inl (HexError ''invalid hex''))"

definition grpc_stage ::
  "('db, 'g) writer_env \<Rightarrow> submitted_event \<Rightarrow> nip05_name option \<Rightarrow> unit stage" where
  "grpc_stage env su nip05 =
     (if event_admission_server (st_grpc (we_settings env)) = None then Proceed ()
      else (case grpc_admit env su nip05 of
              Inl _ \<Rightarrow> Proceed ()
            | Inr (permitted, msg) \<Rightarrow>
                if permitted then Proceed ()
                else Reject [Notify (notice_blocked (e_id (su_event su))
                       (case msg of Some m \<Rightarrow> m | None \<Rightarrow> []))]))"

section \<open>Kind filters\<close>

definition kind_placeholder :: "event \<Rightarrow> error_placeholders" where
  "kind_placeholder e = no_placeholders\<lparr>ph_kind := Some (e_kind e)\<rparr>"

text \<open>The text of a rejection by the kind lists, if there is one.\<close>

definition kind_allowed_message :: "kind_filters \<Rightarrow> event \<Rightarrow> string option" where
  "kind_allowed_message kf e =
     (case check_kind_allowed (e_kind e) kf of
        Inr _ \<Rightarrow> None
      | Inl reason \<Rightarrow>
          (let (key, dflt) =
                 (case reason of
                    NotInWhitelist \<Rightarrow>
                      (''not_in_whitelist'', ''blocked: kind {kind} is not in the kind whitelist'')
                  | Blacklisted \<Rightarrow> (''blacklisted'', ''blocked: kind {kind} is blacklisted''))
           in Some (resolve_error_message dflt None (map_of (kf_errors kf) key) (kind_placeholder e))))"

definition kind_message ::
  "kind_filters \<Rightarrow> kind_filter_config \<Rightarrow> string \<Rightarrow> string \<Rightarrow> error_placeholders \<Rightarrow> string" where
  "kind_message kf c key dflt ph =
     resolve_error_message dflt (map_of (k_errors c) key) (map_of (kf_errors kf) key) ph"

definition write_message ::
  "ext \<Rightarrow> kind_filters \<Rightarrow> kind_filter_config \<Rightarrow> event \<Rightarrow> string option \<Rightarrow> string option \<Rightarrow> string option" where
  "write_message X kf c e auth_pk server_pk =
     (case k_write c of
        None \<Rightarrow> None
      | Some w \<Rightarrow>
          if check_write_read_config X w e auth_pk server_pk False then None
          else Some (resolve_error_message ''restricted: pubkey is not allowed to write this kind''
                 (case wr_error w of Some t \<Rightarrow> Some t | None \<Rightarrow> map_of (k_errors c) ''write'')
                 (map_of (kf_errors kf) ''write'') (kind_placeholder e)))"

definition auth_message :: "kind_filters \<Rightarrow> kind_filter_config \<Rightarrow> event \<Rightarrow> string option \<Rightarrow> string option" where
  "auth_message kf c e auth_pk =
     (if k_require_auth c \<and> auth_pk = None
      then Some (kind_message kf c ''auth_required''
             ''auth-required: authentication required to publish this kind'' (kind_placeholder e))
      else None)"

definition size_message :: "ext \<Rightarrow> kind_filters \<Rightarrow> kind_filter_config \<Rightarrow> event \<Rightarrow> string option" where
  "size_message X kf c e =
     (case k_max_size c of
        None \<Rightarrow> None
      | Some m \<Rightarrow>
          (let n = length (case json_to_string X (event_to_json e) of Some s \<Rightarrow> s | None \<Rightarrow> []) in
           if unat m < n
           then Some (kind_message kf c ''max_size'' ''blocked: event exceeds size limit ({size} > {limit})''
                  ((kind_placeholder e)\<lparr>ph_size := Some (of_nat n), ph_limit := Some m\<rparr>))
           else None))"

definition d_tag_message :: "kind_filters \<Rightarrow> kind_filter_config \<Rightarrow> event \<Rightarrow> string option" where
  "d_tag_message kf c e =
     (if validate_d_tag e (k_d_tag c) then None
      else Some (kind_message kf c ''d_tag'' ''invalid: missing d tag'' (kind_placeholder e)))"

definition p_tag_message :: "kind_filters \<Rightarrow> kind_filter_config \<Rightarrow> event \<Rightarrow> string option" where
  "p_tag_message kf c e =
     (if validate_p_tag e (k_p_tag c) then None
      else Some (kind_message kf c ''p_tag'' ''invalid: p tag requirement not met'' (kind_placeholder e)))"

definition required_message :: "kind_filters \<Rightarrow> kind_filter_config \<Rightarrow> event \<Rightarrow> string option" where
  "required_message kf c e =
     (case validate_required_tags e (k_required_tags c) of
        Inr _ \<Rightarrow> None
      | Inl detail \<Rightarrow>
          (let tag = (case strip_prefix detail ''missing required tag: '' of Some t \<Rightarrow> t | None \<Rightarrow> []) in
           Some (kind_message kf c ''missing_tag'' ''invalid: missing required tag: {tag}''
             ((kind_placeholder e)\<lparr>ph_tag := (if tag = [] then None else Some tag)\<rparr>))))"

definition pattern_message :: "ext \<Rightarrow> kind_filters \<Rightarrow> kind_filter_config \<Rightarrow> event \<Rightarrow> string option" where
  "pattern_message X kf c e =
     (case validate_tag_patterns X e (k_tag_patterns c) of
        Inr _ \<Rightarrow> None
      | Inl tag \<Rightarrow>
          Some (kind_message kf c ''tag_pattern''
            ''invalid: tag {tag} value does not match configured pattern''
            ((kind_placeholder e)\<lparr>ph_tag := Some tag\<rparr>)))"

text \<open>Lengths are counted in characters. The first tag that breaks a limit is reported.\<close>

definition tag_limit_error :: "tag_limits \<Rightarrow> tag \<Rightarrow> string option" where
  "tag_limit_error lim t =
     (if t \<noteq> [] \<and> 0 < max_tag_name_chars lim \<and> unat (max_tag_name_chars lim) < length (chars (hd t))
      then Some (''tag name exceeds '' @ u64_to_string (max_tag_name_chars lim) @ '' chars'')
      else if list_ex (\<lambda>v. 0 < max_tag_value_chars lim \<and> unat (max_tag_value_chars lim) < length (chars v)) (drop 1 t)
      then Some (''tag value exceeds '' @ u64_to_string (max_tag_value_chars lim) @ '' chars'')
      else None)"

fun first_some :: "'a option list \<Rightarrow> 'a option" where
  "first_some [] = None"
| "first_some (Some x # xs) = Some x"
| "first_some (None # xs) = first_some xs"

definition tag_limits_error :: "tag_limits \<Rightarrow> event \<Rightarrow> string option" where
  "tag_limits_error lim e =
     (if 0 < max_tags lim \<and> unat (max_tags lim) < length (e_tags e)
      then Some (''too many tags: '' @ nat_to_dec (length (e_tags e)) @ '' > '' @ u64_to_string (max_tags lim))
      else first_some (map (tag_limit_error lim) (e_tags e)))"

definition tag_limits_message :: "kind_filters \<Rightarrow> kind_filter_config \<Rightarrow> event \<Rightarrow> string option" where
  "tag_limits_message kf c e =
     (case k_tag_limits c of
        None \<Rightarrow> None
      | Some lim \<Rightarrow>
          map_option
            (\<lambda>detail. kind_message kf c ''tag_limits'' ''invalid: {detail}''
               ((kind_placeholder e)\<lparr>ph_detail := Some detail\<rparr>))
            (tag_limits_error lim e))"

text \<open>The sum of the creation time and the duration wraps.\<close>

definition expired_message :: "u64 \<Rightarrow> kind_filters \<Rightarrow> kind_filter_config \<Rightarrow> event \<Rightarrow> string option" where
  "expired_message now kf c e =
     (case x_duration (k_expiration c) of
        None \<Rightarrow> None
      | Some d \<Rightarrow>
          if e_created_at e + d < now
          then Some (kind_message kf c ''expired'' ''blocked: event has expired'' (kind_placeholder e))
          else None)"

definition max_expiration_message :: "u64 \<Rightarrow> kind_filters \<Rightarrow> kind_filter_config \<Rightarrow> event \<Rightarrow> string option" where
  "max_expiration_message now kf c e =
     (case x_duration (k_max_expiration c) of
        None \<Rightarrow> None
      | Some d \<Rightarrow>
          (case validate_expiration_window now e d of
             Inr _ \<Rightarrow> None
           | Inl detail \<Rightarrow>
               if contains detail ''valid timestamp''
               then Some (kind_message kf c ''expiration_invalid''
                      ''invalid: expiration tag is not a valid timestamp'' (kind_placeholder e))
               else Some (kind_message kf c ''expiration''
                      ''blocked: expiration exceeds max_expiry_duration'' (kind_placeholder e))))"

text \<open>The checks of a kind's configuration that keep no state, in order.\<close>

definition static_message ::
  "ext \<Rightarrow> u64 \<Rightarrow> kind_filters \<Rightarrow> kind_filter_config \<Rightarrow> event \<Rightarrow> string option \<Rightarrow> string option \<Rightarrow> string option" where
  "static_message X now kf c e auth_pk server_pk =
     first_some
       [write_message X kf c e auth_pk server_pk, auth_message kf c e auth_pk, size_message X kf c e,
        d_tag_message kf c e, p_tag_message kf c e, required_message kf c e, pattern_message X kf c e,
        tag_limits_message kf c e, expired_message now kf c e, max_expiration_message now kf c e]"

section \<open>Rate limits\<close>

definition kind_rate_stage ::
  "('db, 'g) writer_env \<Rightarrow> u64 \<Rightarrow> ('db, 'g) writer \<Rightarrow> ('db, 'g) writer \<times> bool" where
  "kind_rate_stage env kind w =
     (case map_of (w_kind_limiters w) kind of
        None \<Rightarrow> (w, True)
      | Some g \<Rightarrow>
          (let (g', ok) = we_gov_check env g in
           (w\<lparr>w_kind_limiters := AList.update kind g' (w_kind_limiters w)\<rparr>, ok)))"

definition sliding_stage ::
  "(nat \<Rightarrow> nat) \<Rightarrow> submitted_event \<Rightarrow> ('db, 'g) writer \<Rightarrow> ('db, 'g) writer \<times> bool" where
  "sliding_stage clk su w =
     (let kind = e_kind (su_event su) in
      case map_of (w_sliding w) kind of
        None \<Rightarrow> (w, True)
      | Some rs \<Rightarrow>
          (let (rs', ok) = check_rules clk 0 (e_pubkey (su_event su)) (su_source_ip su) rs in
           (w\<lparr>w_sliding := AList.update kind rs' (w_sliding w)\<rparr>, ok)))"

definition rate_limited_message :: "kind_filters \<Rightarrow> kind_filter_config \<Rightarrow> event \<Rightarrow> string" where
  "rate_limited_message kf c e =
     kind_message kf c ''rate_limited'' ''rate-limited: rate limit exceeded for this kind'' (kind_placeholder e)"

text \<open>All the checks of the kind filters: the text of a rejection, and the new limiters.\<close>

definition kind_filter_stage ::
  "('db, 'g) writer_env \<Rightarrow> u64 \<Rightarrow> (nat \<Rightarrow> nat) \<Rightarrow> submitted_event \<Rightarrow> ('db, 'g) writer
     \<Rightarrow> ('db, 'g) writer \<times> string option" where
  "kind_filter_stage env now clk su w =
     (let st = we_settings env; kf = st_kind_filters st; e = su_event su;
          auth_pk = map_option (hex_encode (we_ext env)) (su_auth_pubkey su) in
      case kind_allowed_message kf e of
        Some m \<Rightarrow> (w, Some m)
      | None \<Rightarrow>
          (case map_of (kf_filters kf) (e_kind e) of
             None \<Rightarrow> (w, None)
           | Some c \<Rightarrow>
               (case static_message (we_ext env) now kf c e auth_pk (info_pubkey (st_info st)) of
                  Some m \<Rightarrow> (w, Some m)
                | None \<Rightarrow>
                    (let (w1, ok1) = kind_rate_stage env (e_kind e) w in
                     if \<not> ok1 then (w1, Some (rate_limited_message kf c e))
                     else (let (w2, ok2) = sliding_stage clk su w1 in
                           if \<not> ok2 then (w2, Some (rate_limited_message kf c e)) else (w2, None))))))"

section \<open>Publishing\<close>

text \<open>The broadcast or the write; the flag says whether the event counts as written.\<close>

definition publish ::
  "'db nostr_repo \<Rightarrow> event \<Rightarrow> 'db \<Rightarrow> 'db \<times> writer_output list \<times> bool" where
  "publish R e db =
     (if is_ephemeral e then (db, [Broadcast e, Notify (notice_saved (e_id e))], True)
      else (case rp_write_event R e db of
              (db', Inr updated) \<Rightarrow>
                if updated = 0 then (db', [Notify (notice_duplicate (e_id e))], False)
                else (db', [Broadcast e, Notify (notice_saved (e_id e))], True)
            | (db', Inl _) \<Rightarrow>
                (db', [Notify (notice_error (e_id e)
                   ''relay experienced an error trying to publish the latest event'')], False)))"

definition charge ::
  "('db, 'g) writer_env \<Rightarrow> u64 \<Rightarrow> event \<Rightarrow> u64 option \<Rightarrow> 'db \<Rightarrow> 'db \<times> error option" where
  "charge env now e user_balance db =
     (let pay = st_pay_to_relay (we_settings env) in
      if pay_enabled pay \<and> 0 < cost_per_event pay \<and> user_balance \<noteq> None then
        (case keys_from_pk (we_ext env) (e_pubkey e) of
           None \<Rightarrow> (db, Some (NostrKeyError ''invalid public key''))
         | Some key \<Rightarrow>
             (case rp_update_balance (we_repo env now) key False (cost_per_event pay) db of
                (db', Inr _) \<Rightarrow> (db', None)
              | (db', Inl err) \<Rightarrow> (db', Some err)))
      else (db, None))"

section \<open>One turn of the loop\<close>

text \<open>An error ends the writer; it comes with what was done before it.\<close>

type_synonym ('db, 'g) turn = "('db, 'g) writer \<times> writer_output list \<times> error option"

definition admitted_event ::
  "('db, 'g) writer_env \<Rightarrow> u64 \<Rightarrow> event \<Rightarrow> u64 option \<Rightarrow> ('db, 'g) writer \<Rightarrow> ('db, 'g) turn" where
  "admitted_event env now e user_balance w =
     (let verifier = (if vu_is_active (st_verified_users (we_settings env)) \<and> is_kind_metadata e
                      then [ToVerifier e] else []);
          (db1, outs, written) = publish (we_repo env now) e (w_db w);
          (db2, err) = (if written then charge env now e user_balance db1 else (db1, None))
      in (w\<lparr>w_db := db2\<rparr>, verifier @ outs, err))"

definition process_event ::
  "('db, 'g) writer_env \<Rightarrow> u64 \<Rightarrow> (nat \<Rightarrow> nat) \<Rightarrow> submitted_event \<Rightarrow> ('db, 'g) writer
     \<Rightarrow> ('db, 'g) turn exec" where
  "process_event env now clk su w =
     (let e = su_event su; st = we_settings env in
      case kind_lists_stage (st_limits st) e of
        Reject outs \<Rightarrow> Done (w, outs, None)
      | Proceed _ \<Rightarrow>
          map_exec
            (\<lambda>acct. case acct of
               Reject outs \<Rightarrow> (w, outs, None)
             | Proceed user_balance \<Rightarrow>
                 (let validation = nip05_validation env now e (w_db w) in
                  case nip05_stage (st_verified_users st) now e validation of
                    Reject outs \<Rightarrow> (w, outs, None)
                  | Proceed _ \<Rightarrow>
                      (let nip05 = (case validation of Some (Inr uv) \<Rightarrow> Some (v_name uv) | _ \<Rightarrow> None) in
                       case grpc_stage env su nip05 of
                         Reject outs \<Rightarrow> (w, outs, None)
                       | Proceed _ \<Rightarrow>
                           (case kind_filter_stage env now clk su w of
                              (w1, Some m) \<Rightarrow> (w1, [Notify (from_reason (e_id e) m)], None)
                            | (w1, None) \<Rightarrow> admitted_event env now e user_balance w1))))
            (account_stage env now e (w_db w)))"

text \<open>The loop over the submitted events; each comes with the time and the clock.\<close>

fun db_writer ::
  "('db, 'g) writer_env \<Rightarrow> (u64 \<times> (nat \<Rightarrow> nat) \<times> submitted_event) list \<Rightarrow> ('db, 'g) writer
     \<Rightarrow> ('db, 'g) turn exec" where
  "db_writer env [] w = Done (w, [], None)"
| "db_writer env ((now, clk, su) # sus) w =
     exec_bind (process_event env now clk su w) (\<lambda>(w1, outs, err).
       case err of
         Some _ \<Rightarrow> Done (w1, outs, err)
       | None \<Rightarrow> map_exec (\<lambda>(w2, outs2, err2). (w2, outs @ outs2, err2)) (db_writer env sus w1))"

section \<open>When an event is admitted\<close>

text \<open>All that the checks ask for, in one condition.\<close>

definition admissible ::
  "('db, 'g) writer_env \<Rightarrow> u64 \<Rightarrow> (nat \<Rightarrow> nat) \<Rightarrow> submitted_event \<Rightarrow> ('db, 'g) writer \<Rightarrow> bool" where
  "admissible env now clk su w \<longleftrightarrow>
     (let e = su_event su; st = we_settings env in
      kind_lists_stage (st_limits st) e = Proceed ()
      \<and> (\<exists>b. account_stage env now e (w_db w) = Done (Proceed b))
      \<and> nip05_stage (st_verified_users st) now e (nip05_validation env now e (w_db w)) = Proceed ()
      \<and> grpc_stage env su (case nip05_validation env now e (w_db w) of
            Some (Inr uv) \<Rightarrow> Some (v_name uv) | _ \<Rightarrow> None) = Proceed ()
      \<and> snd (kind_filter_stage env now clk su w) = None)"

end
