(* ===== verification/Relay_Info.thy ===== *)
theory Relay_Info
  imports Db_Writer
begin

text \<open>
  The relay's information document, NIP-11 (\<open>src/src/info.rs\<close>): the conversion of the
  settings, and the JSON value that is served, in which absent fields are left out. The
  version comes from the build (\<open>CARGO_PKG_VERSION\<close>) and is an argument.
\<close>

record limitation =
  li_payment_required :: "bool option"
  li_restricted_writes :: "bool option"

record fee =
  fe_amount :: u64
  fe_unit :: string

record fees =
  fs_admission :: "fee list option"
  fs_publication :: "fee list option"

record relay_info =
  ri_id :: "string option"
  ri_name :: "string option"
  ri_description :: "string option"
  ri_pubkey :: "string option"
  ri_contact :: "string option"
  ri_icon :: "string option"
  ri_supported_nips :: "int list option"
  ri_software :: "string option"
  ri_version :: "string option"
  ri_limitation :: "limitation option"
  ri_payment_url :: "string option"
  ri_fees :: "fees option"

definition msats :: string where
  "msats = ''msats''"

text \<open>A price in thousandths; the product wraps.\<close>

definition fee_of :: "u64 \<Rightarrow> fee list option" where
  "fee_of cost = (if 0 < cost then Some [\<lparr>fe_amount = cost * 1000, fe_unit = msats\<rparr>] else None)"

definition supported_nips :: "settings \<Rightarrow> int list" where
  "supported_nips c =
     (let nips = [1, 2, 9, 11, 12, 15, 16, 20, 22, 33, 40] in
      if nip42_auth (st_authorization c) then sort (nips @ [42]) else nips)"

definition limitation_of :: "settings \<Rightarrow> limitation" where
  "limitation_of c =
     \<lparr>li_payment_required = Some (pay_enabled (st_pay_to_relay c)),
      li_restricted_writes =
        Some (pay_enabled (st_pay_to_relay c) \<or> vu_is_enabled (st_verified_users c)
          \<or> pubkey_whitelist (st_authorization c) \<noteq> None \<or> restricts_write (st_grpc c))\<rparr>"

definition payment_url_of :: "settings \<Rightarrow> string option" where
  "payment_url_of c =
     (if pay_enabled (st_pay_to_relay c)
      then map_option (\<lambda>u. replace_all ''ws'' ''http'' u @ ''join'') (relay_url (st_info c))
      else None)"

definition fees_of :: "settings \<Rightarrow> fees option" where
  "fees_of c =
     (let p = st_pay_to_relay c in
      if pay_enabled p
      then Some \<lparr>fs_admission = fee_of (admission_cost p), fs_publication = fee_of (cost_per_event p)\<rparr>
      else None)"

definition relay_info_of :: "string option \<Rightarrow> settings \<Rightarrow> relay_info" where
  "relay_info_of version c =
     (let i = st_info c in
      \<lparr>ri_id = relay_url i, ri_name = info_name i, ri_description = info_description i,
       ri_pubkey = info_pubkey i, ri_contact = info_contact i, ri_icon = info_relay_icon i,
       ri_supported_nips = Some (supported_nips c),
       ri_software = Some ''https://git.sr.ht/~gheartsfield/nostr-rs-relay'',
       ri_version = version, ri_limitation = Some (limitation_of c),
       ri_payment_url = payment_url_of c, ri_fees = fees_of c\<rparr>)"

section \<open>The JSON value\<close>

definition json_field :: "string \<Rightarrow> ('a \<Rightarrow> json) \<Rightarrow> 'a option \<Rightarrow> (string \<times> json) list" where
  "json_field k f v = (case v of None \<Rightarrow> [] | Some x \<Rightarrow> [(k, f x)])"

definition json_int :: "int \<Rightarrow> json" where
  "json_int n = JNumber (if 0 \<le> n then PosInt (word_of_int n) else NegInt (word_of_int n))"

definition limitation_to_json :: "limitation \<Rightarrow> json" where
  "limitation_to_json l =
     JObject (json_field ''payment_required'' JBool (li_payment_required l)
       @ json_field ''restricted_writes'' JBool (li_restricted_writes l))"

definition fee_to_json :: "fee \<Rightarrow> json" where
  "fee_to_json f = JObject [(''amount'', JNumber (PosInt (fe_amount f))), (''unit'', JString (fe_unit f))]"

definition fees_to_json :: "fees \<Rightarrow> json" where
  "fees_to_json f =
     JObject (json_field ''admission'' (\<lambda>fs. JArray (map fee_to_json fs)) (fs_admission f)
       @ json_field ''publication'' (\<lambda>fs. JArray (map fee_to_json fs)) (fs_publication f))"

definition relay_info_to_json :: "relay_info \<Rightarrow> json" where
  "relay_info_to_json r =
     JObject (json_field ''id'' JString (ri_id r) @ json_field ''name'' JString (ri_name r)
       @ json_field ''description'' JString (ri_description r)
       @ json_field ''pubkey'' JString (ri_pubkey r) @ json_field ''contact'' JString (ri_contact r)
       @ json_field ''icon'' JString (ri_icon r)
       @ json_field ''supported_nips'' (\<lambda>ns. JArray (map json_int ns)) (ri_supported_nips r)
       @ json_field ''software'' JString (ri_software r) @ json_field ''version'' JString (ri_version r)
       @ json_field ''limitation'' limitation_to_json (ri_limitation r)
       @ json_field ''payment_url'' JString (ri_payment_url r)
       @ json_field ''fees'' fees_to_json (ri_fees r))"

section \<open>Lemmas\<close>

text \<open>What a client reads from the document.\<close>

definition advertises :: "json \<Rightarrow> string \<Rightarrow> bool option" where
  "advertises doc k = Option.bind (Option.bind (json_get doc ''limitation'') (\<lambda>l. json_get l k)) as_bool"

lemma map_of_json_field:
  "map_of (json_field k f v @ rest) q =
     (if q = k \<and> v \<noteq> None then map_option f v else map_of rest q)"
  by (cases v) (auto simp: json_field_def)

lemma map_of_last_field:
  "map_of (json_field k f v) q = (if q = k then map_option f v else None)"
  by (cases v) (auto simp: json_field_def)

lemma advertised_limits:
  "advertises (relay_info_to_json (relay_info_of v c)) ''restricted_writes'' = li_restricted_writes (limitation_of c)"
  "advertises (relay_info_to_json (relay_info_of v c)) ''payment_required'' = li_payment_required (limitation_of c)"
  by (simp_all add: advertises_def relay_info_to_json_def map_of_json_field map_of_last_field
      relay_info_of_def Let_def limitation_to_json_def limitation_of_def del: map_of_append)

text \<open>A relay that does not advertise restrictions admits every author.\<close>

lemma unrestricted_authors:
  assumes "li_restricted_writes (limitation_of (we_settings env)) = Some False"
  shows "account_stage env now e db = Done (Proceed None)"
    and "nip05_stage (st_verified_users (we_settings env)) now e val = Proceed ()"
  using assms by (auto simp: limitation_of_def account_stage_def nip05_stage_def Let_def)

lemma fee_exact:
  assumes "unat cost * 1000 < 2 ^ 64" and "fee_of cost = Some fs"
  shows "fs = [\<lparr>fe_amount = cost * 1000, fe_unit = msats\<rparr>] \<and> unat (cost * 1000) = unat cost * 1000"
  using assms by (simp add: fee_of_def unat_mult_lem [of cost 1000, simplified, THEN iffD1] split: if_splits)

end
