(* ===== verification/Delegation.thy ===== *)
theory Delegation
  imports Event_Data
begin

text \<open>
  NIP-26 delegation (\<open>src/src/delegation.rs\<close>) and the event operations that use it
  (\<open>delegated_author\<close>, \<open>update_delegation\<close> and \<open>validate\<close> of \<open>src/src/event.rs\<close>, with
  the conversion of a network command to a validated event).

  The regular expression of \<open>str_to_condition\<close> is a literal of the source; its leftmost
  match is the function \<open>condition_captures\<close>. A malformed delegation signature makes the
  code panic (\<open>unwrap\<close>), so \<open>validate_delegation\<close> and its callers return \<open>exec\<close>.
\<close>

section \<open>Conditions\<close>

datatype field = Kind | CreatedAt

definition field_from_str :: "string \<Rightarrow> error + field" where
  "field_from_str value =
     (if value = ''kind'' then Inr Kind
      else if value = ''created_at'' then Inr CreatedAt
      else Inl DelegationParseError)"

datatype operator = LessThan | GreaterThan | Equals | NotEquals

definition operator_from_str :: "string \<Rightarrow> error + operator" where
  "operator_from_str value =
     (if value = ''<'' then Inr LessThan
      else if value = ''>'' then Inr GreaterThan
      else if value = ''='' then Inr Equals
      else if value = ''!'' then Inr NotEquals
      else Inl DelegationParseError)"

record condition =
  c_field :: field
  c_operator :: operator
  c_values :: "u64 list"

definition resolved_field :: "field \<Rightarrow> event \<Rightarrow> u64" where
  "resolved_field f e = (case f of Kind \<Rightarrow> e_kind e | CreatedAt \<Rightarrow> e_created_at e)"

definition condition_allows :: "condition \<Rightarrow> event \<Rightarrow> bool" where
  "condition_allows c e =
     (let r = resolved_field (c_field c) e; vs = c_values c in
      case c_operator c of
        LessThan \<Rightarrow> (case vs of [v] \<Rightarrow> r < v | _ \<Rightarrow> False)
      | GreaterThan \<Rightarrow> (case vs of [v] \<Rightarrow> v < r | _ \<Rightarrow> False)
      | Equals \<Rightarrow> list_ex (\<lambda>x. r = x) vs
      | NotEquals \<Rightarrow> list_all (\<lambda>x. r \<noteq> x) vs)"

fun query_allows :: "condition list \<Rightarrow> event \<Rightarrow> bool" where
  "query_allows [] e = True"
| "query_allows (c # cs) e = (if condition_allows c e then query_allows cs e else False)"

section \<open>Parsing\<close>

text \<open>The classes of \<open>([[:word:]]+)([<>=!]+)([,[[:digit:]]]*)\<close>.\<close>

definition is_word :: "char \<Rightarrow> bool" where
  "is_word c \<longleftrightarrow> is_ascii_digit c \<or> is_ascii_lowercase c \<or> is_ascii_uppercase c \<or> c = CHR ''_''"

definition is_op :: "char \<Rightarrow> bool" where
  "is_op c \<longleftrightarrow> c \<in> {CHR ''<'', CHR ''>'', CHR ''='', CHR ''!''}"

definition is_val :: "char \<Rightarrow> bool" where
  "is_val c \<longleftrightarrow> c = CHR '','' \<or> is_ascii_digit c"

text \<open>
  The leftmost match, not anchored at either end. The three classes of a match are greedy
  and the first two have no character in common, so each capture is a maximal run.
\<close>

fun condition_captures :: "string \<Rightarrow> (string \<times> string \<times> string) option" where
  "condition_captures [] = None"
| "condition_captures (c # cs) =
     (if is_word c
      then (let w = takeWhile is_word (c # cs); r = dropWhile is_word (c # cs) in
            case r of
              x # _ \<Rightarrow> if is_op x
                       then Some (w, takeWhile is_op r, takeWhile is_val (dropWhile is_op r))
                       else condition_captures cs
            | [] \<Rightarrow> condition_captures cs)
      else condition_captures cs)"

definition str_to_condition :: "string \<Rightarrow> condition option" where
  "str_to_condition cs =
     Option.bind (condition_captures cs) (\<lambda>(g1, g2, g3).
     Option.bind (result_ok (field_from_str g1)) (\<lambda>f.
     Option.bind (result_ok (operator_from_str g2)) (\<lambda>opr.
     Option.bind (all_some (map parse_u64 (split_terminator (CHR '','') g3))) (\<lambda>vs.
       Some \<lparr>c_field = f, c_operator = opr, c_values = vs\<rparr>))))"

fun conditions_from :: "string list \<Rightarrow> error + condition list" where
  "conditions_from [] = Inr []"
| "conditions_from (c # cs) =
     (case str_to_condition c of
        None \<Rightarrow> Inl DelegationParseError
      | Some x \<Rightarrow>
          (case conditions_from cs of Inl err \<Rightarrow> Inl err | Inr xs \<Rightarrow> Inr (x # xs)))"

definition query_from_str :: "string \<Rightarrow> error + condition list" where
  "query_from_str value = conditions_from (split_terminator (CHR ''&'') value)"

section \<open>Verification\<close>

definition delegation_token :: "string \<Rightarrow> string \<Rightarrow> string" where
  "delegation_token delegatee cond_query =
     ''nostr:delegation:'' @ delegatee @ '':'' @ cond_query"

definition validate_delegation ::
  "ext \<Rightarrow> string \<Rightarrow> string \<Rightarrow> string \<Rightarrow> string \<Rightarrow> condition list option exec" where
  "validate_delegation X delegator delegatee cond_query sigstr =
     (let digest = sha256 X (delegation_token delegatee cond_query) in
      case sig_from_str X sigstr of
        None \<Rightarrow> Panic
      | Some sg \<Rightarrow>
          Done (case msg_from_slice X digest of
                  None \<Rightarrow> None
                | Some msg \<Rightarrow>
                    (case xonly_from_str X delegator of
                       None \<Rightarrow> None
                     | Some pubkey \<Rightarrow>
                         if verify_schnorr X sg msg pubkey
                         then result_ok (query_from_str cond_query) else None)))"

definition delegation_tag :: "event \<Rightarrow> tag option" where
  "delegation_tag e =
     (case filter (\<lambda>t. hd t = ''delegation'') (filter (\<lambda>t. length t = 4) (e_tags e)) of
        [] \<Rightarrow> None
      | t # _ \<Rightarrow> Some t)"

definition delegated_author :: "ext \<Rightarrow> event \<Rightarrow> string option exec" where
  "delegated_author X e =
     (case delegation_tag e of
        None \<Rightarrow> Done None
      | Some t \<Rightarrow>
          map_exec
            (\<lambda>q. case q of
                   None \<Rightarrow> None
                 | Some cond_query \<Rightarrow> if query_allows cond_query e then Some (t ! 1) else None)
            (validate_delegation X (t ! 1) (e_pubkey e) (t ! 2) (t ! 3)))"

definition update_delegation :: "ext \<Rightarrow> event \<Rightarrow> event exec" where
  "update_delegation X e = map_exec (\<lambda>d. e\<lparr>e_delegated_by := d\<rparr>) (delegated_author X e)"

definition validate :: "ext \<Rightarrow> event \<Rightarrow> error + unit" where
  "validate X e =
     (case to_canonical X e of
        None \<Rightarrow> Inl EventCouldNotCanonicalize
      | Some c \<Rightarrow>
          (let digest = sha256 X c in
           if e_id e \<noteq> digest_hex X digest then Inl EventInvalidId
           else (case sig_from_str X (e_sig e) of
                   None \<Rightarrow> Inl EventInvalidSignature
                 | Some sg \<Rightarrow>
                     (case msg_from_slice X digest of
                        None \<Rightarrow> Inl EventInvalidSignature
                      | Some msg \<Rightarrow>
                          (case xonly_from_str X (e_pubkey e) of
                             None \<Rightarrow> Inl EventMalformedPubkey
                           | Some pubkey \<Rightarrow>
                               if verify_schnorr X sg msg pubkey then Inr ()
                               else Inl EventInvalidSignature)))))"

text \<open>\<open>From<EventCmd> for Result<EventWrapper>\<close>.\<close>

definition wrap_event_cmd :: "ext \<Rightarrow> event_cmd \<Rightarrow> (error + event_wrapper) exec" where
  "wrap_event_cmd X ec =
     (if cmd ec = ''EVENT'' then
        (case validate X (cmd_event ec) of
           Inl err \<Rightarrow> Done (Inl err)
         | Inr _ \<Rightarrow>
             map_exec (\<lambda>e. Inr (WrappedEvent e)) (update_delegation X (build_index (cmd_event ec))))
      else if cmd ec = ''AUTH'' then Done (Inr (WrappedAuth (cmd_event ec)))
      else Done (Inl CommandUnknownError))"

section \<open>Lemmas\<close>

lemma query_allows_iff: "query_allows cs e \<longleftrightarrow> (\<forall>c \<in> set cs. condition_allows c e)"
  by (induction cs) auto

lemma condition_allows_simps:
  "condition_allows \<lparr>c_field = f, c_operator = LessThan, c_values = vs\<rparr> e \<longleftrightarrow>
     (\<exists>v. vs = [v] \<and> resolved_field f e < v)"
  "condition_allows \<lparr>c_field = f, c_operator = GreaterThan, c_values = vs\<rparr> e \<longleftrightarrow>
     (\<exists>v. vs = [v] \<and> v < resolved_field f e)"
  "condition_allows \<lparr>c_field = f, c_operator = Equals, c_values = vs\<rparr> e \<longleftrightarrow>
     resolved_field f e \<in> set vs"
  "condition_allows \<lparr>c_field = f, c_operator = NotEquals, c_values = vs\<rparr> e \<longleftrightarrow>
     resolved_field f e \<notin> set vs"
  by (auto simp: condition_allows_def Let_def list_ex_iff list_all_iff split: list.splits)

lemma validate_Inr:
  "validate X e = Inr () \<longleftrightarrow>
     (\<exists>c sg msg pk. to_canonical X e = Some c \<and> e_id e = digest_hex X (sha256 X c)
        \<and> sig_from_str X (e_sig e) = Some sg \<and> msg_from_slice X (sha256 X c) = Some msg
        \<and> xonly_from_str X (e_pubkey e) = Some pk \<and> verify_schnorr X sg msg pk)"
  by (auto simp: validate_def Let_def split: option.splits)

lemma delegation_tag_Some:
  "delegation_tag e = Some t \<Longrightarrow> t \<in> set (e_tags e) \<and> length t = 4 \<and> hd t = ''delegation''"
proof -
  assume a: "delegation_tag e = Some t"
  let ?ts = "filter (\<lambda>t. hd t = ''delegation'') (filter (\<lambda>t. length t = 4) (e_tags e))"
  from a have "t \<in> set ?ts" by (cases ?ts) (simp_all add: delegation_tag_def del: filter_filter)
  then show ?thesis by simp
qed

lemma validate_delegation_Some:
  assumes "validate_delegation X delegator delegatee q s = Done (Some cs)"
  shows "\<exists>sg msg pk. sig_from_str X s = Some sg
    \<and> msg_from_slice X (sha256 X (delegation_token delegatee q)) = Some msg
    \<and> xonly_from_str X delegator = Some pk \<and> verify_schnorr X sg msg pk \<and> query_from_str q = Inr cs"
  using assms
  by (auto simp: validate_delegation_def Let_def split: option.splits if_splits)

lemma delegated_author_Some:
  assumes "delegated_author X e = Done (Some d)"
  obtains t cs where "delegation_tag e = Some t" and "d = t ! 1"
    and "validate_delegation X d (e_pubkey e) (t ! 2) (t ! 3) = Done (Some cs)"
    and "\<forall>c \<in> set cs. condition_allows c e"
proof -
  from assms obtain t q where t: "delegation_tag e = Some t"
    and v: "validate_delegation X (t ! 1) (e_pubkey e) (t ! 2) (t ! 3) = Done q"
    and q: "(case q of None \<Rightarrow> None
              | Some cond_query \<Rightarrow> if query_allows cond_query e then Some (t ! 1) else None) = Some d"
    by (auto simp: delegated_author_def split: option.splits)
  from q obtain cs where "q = Some cs" and "query_allows cs e" and "d = t ! 1"
    by (auto split: option.splits if_splits)
  with t v that show thesis by (auto simp: query_allows_iff)
qed

end
