(* ===== verification/Subscription.thy ===== *)
theory Subscription
  imports Event_Data
begin

text \<open>
  Subscriptions and their filters (\<open>src/src/subscription.rs\<close>) and the close command
  (\<open>src/src/close.rs\<close>): the JSON forms, and the matching of an event against a filter.
  The lemmas: parsing inverts printing, removing repeated filters keeps what a
  subscription matches, and matching through the tag index is matching on the tags.
\<close>

section \<open>Data\<close>

record req_filter =
  f_ids :: "string list option"
  f_kinds :: "u64 list option"
  f_since :: "u64 option"
  f_until :: "u64 option"
  f_authors :: "string list option"
  f_limit :: "u64 option"
  f_tags :: "tag_map option"
  force_no_match :: bool

record subscription =
  s_id :: string
  s_filters :: "req_filter list"

record close_cmd =
  cc_cmd :: string
  cc_id :: string

record close_req =
  close_id :: string

definition close_from_cmd :: "close_cmd \<Rightarrow> error + close_req" where
  "close_from_cmd cc =
     (if cc_cmd cc = ''CLOSE'' then Inr \<lparr>close_id = cc_id cc\<rparr> else Inl CommandUnknownError)"

text \<open>The derived \<open>Deserialize\<close> of the close command, from an array or from an object.\<close>

definition close_cmd_from_json :: "json \<Rightarrow> close_cmd option" where
  "close_cmd_from_json v =
     (let of_fields = (\<lambda>jc ji. Option.bind (as_str jc) (\<lambda>c.
            Option.bind (as_str ji) (\<lambda>i. Some \<lparr>cc_cmd = c, cc_id = i\<rparr>)))
      in (case v of
            JArray [jc, ji] \<Rightarrow> of_fields jc ji
          | JObject m \<Rightarrow>
              (case (map_of m ''cmd'', map_of m ''id'') of
                 (Some jc, Some ji) \<Rightarrow> of_fields jc ji
               | _ \<Rightarrow> None)
          | _ \<Rightarrow> None))"

section \<open>Printing a filter\<close>

definition opt_entry :: "string \<Rightarrow> ('a \<Rightarrow> json) \<Rightarrow> 'a option \<Rightarrow> (string \<times> json) list" where
  "opt_entry k enc v = (case v of None \<Rightarrow> [] | Some x \<Rightarrow> [(k, enc x)])"

definition json_strings :: "string list \<Rightarrow> json" where
  "json_strings ss = JArray (map JString ss)"

definition json_u64 :: "u64 \<Rightarrow> json" where
  "json_u64 n = JNumber (PosInt n)"

definition json_u64s :: "u64 list \<Rightarrow> json" where
  "json_u64s ns = JArray (map json_u64 ns)"

definition tag_entries :: "tag_map \<Rightarrow> (string \<times> json) list" where
  "tag_entries m = map (\<lambda>(k, v). (''#'' @ k, json_strings v)) m"

definition filter_to_json :: "req_filter \<Rightarrow> json" where
  "filter_to_json f =
     JObject (opt_entry ''ids'' json_strings (f_ids f)
       @ opt_entry ''kinds'' json_u64s (f_kinds f)
       @ opt_entry ''until'' json_u64 (f_until f)
       @ opt_entry ''since'' json_u64 (f_since f)
       @ opt_entry ''limit'' json_u64 (f_limit f)
       @ opt_entry ''authors'' json_strings (f_authors f)
       @ (case f_tags f of None \<Rightarrow> [] | Some m \<Rightarrow> tag_entries m))"

section \<open>Parsing a filter\<close>

definition tag_search_char_from_filter :: "string \<Rightarrow> string option" where
  "tag_search_char_from_filter tagname =
     (case chars (drop 1 tagname) of [] \<Rightarrow> None | [ch] \<Rightarrow> Some ch | _ # _ # _ \<Rightarrow> None)"

definition has_empty_string :: "string list option \<Rightarrow> bool" where
  "has_empty_string r = (case r of None \<Rightarrow> False | Some a \<Rightarrow> [] \<in> set a)"

definition empty_filter :: req_filter where
  "empty_filter = \<lparr>f_ids = None, f_kinds = None, f_since = None, f_until = None,
     f_authors = None, f_limit = None, f_tags = None, force_no_match = False\<rparr>"

text \<open>The loop over the entries of the object; \<open>ts\<close> is the map of tag searches so far.\<close>

fun filter_fields :: "(string \<times> json) list \<Rightarrow> req_filter \<Rightarrow> tag_map option \<Rightarrow> req_filter option" where
  "filter_fields [] rf ts = Some (rf\<lparr>f_tags := ts\<rparr>)"
| "filter_fields ((key, val) # m) rf ts =
     (if key = ''ids'' then
        (if has_empty_string (de_strings val) then None
         else filter_fields m (rf\<lparr>f_ids := de_strings val\<rparr>) ts)
      else if key = ''kinds'' then filter_fields m (rf\<lparr>f_kinds := de_u64s val\<rparr>) ts
      else if key = ''since'' then filter_fields m (rf\<lparr>f_since := as_u64 val\<rparr>) ts
      else if key = ''until'' then filter_fields m (rf\<lparr>f_until := as_u64 val\<rparr>) ts
      else if key = ''limit'' then filter_fields m (rf\<lparr>f_limit := as_u64 val\<rparr>) ts
      else if key = ''authors'' then
        (if has_empty_string (de_strings val) then None
         else filter_fields m (rf\<lparr>f_authors := de_strings val\<rparr>) ts)
      else if starts_with key ''#'' \<and> 1 < length key \<and> is_array val then
        (case tag_search_char_from_filter key of
           Some ch \<Rightarrow>
             (let t = (case ts of None \<Rightarrow> [] | Some t \<Rightarrow> t) in
              filter_fields m rf
                (Some (case de_strings val of
                         Some v \<Rightarrow> AList.update ch (remdups v) t
                       | None \<Rightarrow> t)))
         | None \<Rightarrow> filter_fields m (rf\<lparr>force_no_match := True\<rparr>) ts)
      else filter_fields m rf ts)"

definition filter_from_json :: "json \<Rightarrow> req_filter option" where
  "filter_from_json v = Option.bind (as_object v) (\<lambda>m. filter_fields m empty_filter None)"

section \<open>Parsing a subscription\<close>

text \<open>The derived equality of filters: maps and sets are compared without order.\<close>

definition filter_eq :: "req_filter \<Rightarrow> req_filter \<Rightarrow> bool" where
  "filter_eq f g \<longleftrightarrow>
     f_ids f = f_ids g \<and> f_kinds f = f_kinds g \<and> f_since f = f_since g \<and> f_until f = f_until g
     \<and> f_authors f = f_authors g \<and> f_limit f = f_limit g
     \<and> (case (f_tags f, f_tags g) of
          (None, None) \<Rightarrow> True
        | (Some m, Some n) \<Rightarrow> map_eq set_eq m n
        | _ \<Rightarrow> False)
     \<and> force_no_match f = force_no_match g"

text \<open>\<open>Vec::dedup\<close>: an element equal to the last one kept is dropped.\<close>

fun dedup_after :: "('a \<Rightarrow> 'a \<Rightarrow> bool) \<Rightarrow> 'a \<Rightarrow> 'a list \<Rightarrow> 'a list" where
  "dedup_after eq prev [] = []"
| "dedup_after eq prev (x # xs) =
     (if eq x prev then dedup_after eq prev xs else x # dedup_after eq x xs)"

fun dedup :: "('a \<Rightarrow> 'a \<Rightarrow> bool) \<Rightarrow> 'a list \<Rightarrow> 'a list" where
  "dedup eq [] = []"
| "dedup eq (x # xs) = x # dedup_after eq x xs"

definition subscription_from_json :: "json \<Rightarrow> subscription option" where
  "subscription_from_json v =
     Option.bind (as_array v) (\<lambda>va.
       (case va of
          jreq # jid # f0 # fs \<Rightarrow>
            Option.bind (as_str jreq) (\<lambda>req.
              if req \<noteq> ''REQ'' then None
              else Option.bind (as_str jid) (\<lambda>sub_id.
                   Option.bind (all_some (map filter_from_json (f0 # fs))) (\<lambda>filters.
                     Some \<lparr>s_id = sub_id, s_filters = dedup filter_eq filters\<rparr>)))
        | _ \<Rightarrow> None))"

section \<open>Matching\<close>

definition needs_historical_events :: "subscription \<Rightarrow> bool" where
  "needs_historical_events s \<longleftrightarrow> list_ex (\<lambda>f. f_limit f \<noteq> Some 0) (s_filters s)"

fun prefix_match :: "string list \<Rightarrow> string \<Rightarrow> bool" where
  "prefix_match [] target = False"
| "prefix_match (p # ps) target = (if starts_with target p then True else prefix_match ps target)"

definition ids_match :: "req_filter \<Rightarrow> event \<Rightarrow> bool" where
  "ids_match f e = (case f_ids f of None \<Rightarrow> True | Some vs \<Rightarrow> prefix_match vs (e_id e))"

definition authors_match :: "req_filter \<Rightarrow> event \<Rightarrow> bool" where
  "authors_match f e = (case f_authors f of None \<Rightarrow> True | Some vs \<Rightarrow> prefix_match vs (e_pubkey e))"

definition delegated_authors_match :: "req_filter \<Rightarrow> event \<Rightarrow> bool" where
  "delegated_authors_match f e =
     (case e_delegated_by e of
        None \<Rightarrow> False
      | Some d \<Rightarrow> (case f_authors f of None \<Rightarrow> True | Some vs \<Rightarrow> prefix_match vs d))"

fun tags_match_all :: "tag_map \<Rightarrow> event \<Rightarrow> bool" where
  "tags_match_all [] e = True"
| "tags_match_all ((key, vs) # m) e =
     (if \<not> generic_tag_val_intersect e key vs then False else tags_match_all m e)"

definition tag_match :: "req_filter \<Rightarrow> event \<Rightarrow> bool" where
  "tag_match f e = (case f_tags f of None \<Rightarrow> True | Some m \<Rightarrow> tags_match_all m e)"

definition kind_match :: "req_filter \<Rightarrow> u64 \<Rightarrow> bool" where
  "kind_match f k = (case f_kinds f of None \<Rightarrow> True | Some ks \<Rightarrow> k \<in> set ks)"

definition filter_interested :: "req_filter \<Rightarrow> event \<Rightarrow> bool" where
  "filter_interested f e \<longleftrightarrow>
     ids_match f e
     \<and> (case f_since f of None \<Rightarrow> True | Some t \<Rightarrow> t \<le> e_created_at e)
     \<and> (case f_until f of None \<Rightarrow> True | Some t \<Rightarrow> e_created_at e \<le> t)
     \<and> kind_match f (e_kind e)
     \<and> (authors_match f e \<or> delegated_authors_match f e)
     \<and> tag_match f e
     \<and> \<not> force_no_match f"

fun any_interested :: "req_filter list \<Rightarrow> event \<Rightarrow> bool" where
  "any_interested [] e = False"
| "any_interested (f # fs) e = (if filter_interested f e then True else any_interested fs e)"

definition interested_in_event :: "subscription \<Rightarrow> event \<Rightarrow> bool" where
  "interested_in_event s e = any_interested (s_filters s) e"

definition precision :: "req_filter \<Rightarrow> nat" where
  "precision f =
     (if f_ids f \<noteq> None then 2 else 0) + (if f_authors f \<noteq> None then 1 else 0)
     + (if f_kinds f \<noteq> None then 1 else 0) + (if f_tags f \<noteq> None then 1 else 0)"

definition is_scraper :: "subscription \<Rightarrow> bool" where
  "is_scraper s \<longleftrightarrow> list_ex (\<lambda>f. precision f < 2) (s_filters s)"

section \<open>Lemmas on matching\<close>

lemma prefix_match_iff: "prefix_match ps t \<longleftrightarrow> (\<exists>p \<in> set ps. starts_with t p)"
  by (induction ps) auto

lemma tags_match_all_iff:
  "tags_match_all m e \<longleftrightarrow> (\<forall>(k, vs) \<in> set m. generic_tag_val_intersect e k vs)"
  by (induction m) (auto split: if_splits)

lemma any_interested_iff: "any_interested fs e \<longleftrightarrow> (\<exists>f \<in> set fs. filter_interested f e)"
  by (induction fs) auto

lemma generic_tag_val_intersect_set:
  "set vs = set ws \<Longrightarrow> generic_tag_val_intersect e k vs = generic_tag_val_intersect e k ws"
  by (simp add: generic_tag_val_intersect_idx split: option.split)

text \<open>
  The contract of a tag index: on an event that was indexed, a lookup finds whether one of
  the values occurs under the name. Matching relies on it, whatever the index is.
\<close>

locale tag_index =
  fixes lookup :: "'e \<Rightarrow> string \<Rightarrow> string list \<Rightarrow> bool"
    and indexed :: "'e \<Rightarrow> bool"
    and carries :: "'e \<Rightarrow> string \<Rightarrow> string \<Rightarrow> bool"
  assumes lookup_iff: "indexed e \<Longrightarrow> lookup e ch vs \<longleftrightarrow> (\<exists>v \<in> set vs. carries e ch v)"
begin

lemma lookup_cong: "indexed e \<Longrightarrow> set vs = set ws \<Longrightarrow> lookup e ch vs = lookup e ch ws"
  by (simp add: lookup_iff)

lemma lookup_mono: "indexed e \<Longrightarrow> set vs \<subseteq> set ws \<Longrightarrow> lookup e ch vs \<Longrightarrow> lookup e ch ws"
  by (auto simp: lookup_iff)

lemma lookup_all:
  "indexed e \<Longrightarrow> (\<forall>(k, vs) \<in> set m. lookup e k vs) \<longleftrightarrow>
     (\<forall>(k, vs) \<in> set m. \<exists>v \<in> set vs. carries e k v)"
  by (simp add: lookup_iff)

end

definition is_indexed :: "event \<Rightarrow> bool" where
  "is_indexed e \<longleftrightarrow>
     (case e_tagidx e of
        None \<Rightarrow> e_tags e = []
      | Some idx \<Rightarrow> e_tags e \<noteq> [] \<and> idx = index_tags (e_tags e) [])"

lemma is_indexed_build: "e_tagidx e = None \<Longrightarrow> is_indexed (build_index e)"
  by (simp add: is_indexed_def build_index_def)

interpretation event_index: tag_index generic_tag_val_intersect is_indexed
  "\<lambda>e. indexed_tag (e_tags e)"
proof
  fix e ch vs
  assume "is_indexed e"
  moreover have "idx_values [] ch = {}" by (simp add: idx_values_def)
  ultimately show "generic_tag_val_intersect e ch vs \<longleftrightarrow> (\<exists>v \<in> set vs. indexed_tag (e_tags e) ch v)"
    by (auto simp: is_indexed_def generic_tag_val_intersect_idx idx_values_index_tags
        split: option.splits)
qed

text \<open>What a filter means, on the tags themselves.\<close>

definition filter_spec :: "req_filter \<Rightarrow> event \<Rightarrow> bool" where
  "filter_spec f e \<longleftrightarrow>
     (\<forall>ids. f_ids f = Some ids \<longrightarrow> (\<exists>p \<in> set ids. \<exists>r. e_id e = p @ r))
     \<and> (\<forall>ks. f_kinds f = Some ks \<longrightarrow> e_kind e \<in> set ks)
     \<and> (\<forall>t. f_since f = Some t \<longrightarrow> t \<le> e_created_at e)
     \<and> (\<forall>t. f_until f = Some t \<longrightarrow> e_created_at e \<le> t)
     \<and> (\<forall>as. f_authors f = Some as \<longrightarrow> (\<exists>p \<in> set as. \<exists>r. e_pubkey e = p @ r \<or> e_delegated_by e = Some (p @ r)))
     \<and> (\<forall>m. f_tags f = Some m \<longrightarrow> (\<forall>(k, vs) \<in> set m. \<exists>v \<in> set vs. indexed_tag (e_tags e) k v))
     \<and> \<not> force_no_match f"

lemma authors_spec:
  "authors_match f e \<or> delegated_authors_match f e \<longleftrightarrow>
     (\<forall>as. f_authors f = Some as \<longrightarrow> (\<exists>p \<in> set as. \<exists>r. e_pubkey e = p @ r \<or> e_delegated_by e = Some (p @ r)))"
  by (auto simp: authors_match_def delegated_authors_match_def prefix_match_iff starts_with_iff
      split: option.splits)

lemma filter_interested_spec:
  assumes "is_indexed e"
  shows "filter_interested f e \<longleftrightarrow> filter_spec f e"
proof -
  have t: "tag_match f e \<longleftrightarrow>
      (\<forall>m. f_tags f = Some m \<longrightarrow> (\<forall>(k, vs) \<in> set m. \<exists>v \<in> set vs. indexed_tag (e_tags e) k v))"
    by (simp add: tag_match_def tags_match_all_iff event_index.lookup_all [OF assms] split: option.split)
  show ?thesis
    unfolding filter_interested_def filter_spec_def authors_spec t
    by (auto simp: ids_match_def kind_match_def prefix_match_iff starts_with_iff split: option.splits)
qed

section \<open>Lemmas on repeated filters\<close>

lemma filter_eq_refl_map: "distinct (map fst m) \<Longrightarrow> map_eq set_eq m m"
  by (auto simp: map_eq_def list_all_iff set_eq_iff)

lemma map_eq_lookup:
  assumes "map_eq set_eq m n" and "(k, vs) \<in> set m"
  shows "\<exists>ws. (k, ws) \<in> set n \<and> set vs = set ws"
proof -
  from assms obtain ws where "map_of n k = Some ws" and "set_eq vs ws"
    by (fastforce simp: map_eq_def list_all_iff split: option.splits)
  then show ?thesis by (auto simp: set_eq_iff dest: map_of_SomeD)
qed

definition tags_distinct :: "req_filter \<Rightarrow> bool" where
  "tags_distinct f \<longleftrightarrow> (\<forall>m. f_tags f = Some m \<longrightarrow> distinct (map fst m))"

lemma map_eq_sym:
  assumes "distinct (map fst m)" and "distinct (map fst n)" and "map_eq set_eq m n"
    and "(k, ws) \<in> set n"
  shows "\<exists>vs. (k, vs) \<in> set m \<and> set vs = set ws"
proof -
  have "fst ` set m \<subseteq> fst ` set n" using map_eq_lookup [OF assms(3)] by force
  moreover have "card (fst ` set m) = card (fst ` set n)"
    using assms(1-3) distinct_card [of "map fst m"] distinct_card [of "map fst n"]
    by (simp add: map_eq_def)
  ultimately have "fst ` set m = fst ` set n" by (simp add: card_subset_eq)
  with assms(4) obtain vs where vs: "(k, vs) \<in> set m" by force
  from map_eq_lookup [OF assms(3) vs] obtain ws' where "(k, ws') \<in> set n" and "set vs = set ws'"
    by blast
  with assms(2,4) have "set vs = set ws" by (metis eq_key_imp_eq_value)
  with vs show ?thesis by blast
qed

lemma filter_eq_tag_match:
  assumes "filter_eq f g" and "tags_distinct f" and "tags_distinct g"
  shows "tag_match f e = tag_match g e"
proof (cases "f_tags f")
  case None
  with assms(1) show ?thesis by (auto simp: filter_eq_def tag_match_def split: option.splits)
next
  case (Some m)
  with assms(1) obtain n where n: "f_tags g = Some n" and mn: "map_eq set_eq m n"
    by (auto simp: filter_eq_def split: option.splits)
  have d: "distinct (map fst m)" "distinct (map fst n)"
    using assms(2,3) Some n by (auto simp: tags_distinct_def)
  have "tags_match_all m e \<longleftrightarrow> tags_match_all n e"
    unfolding tags_match_all_iff
    using map_eq_lookup [OF mn] map_eq_sym [OF d mn] generic_tag_val_intersect_set [of _ _ e]
    by (smt (verit, del_insts) case_prodE case_prodI2 case_prod_conv)
  with Some n show ?thesis by (simp add: tag_match_def)
qed

lemma filter_eq_interested:
  assumes "filter_eq f g" and "tags_distinct f" and "tags_distinct g"
  shows "filter_interested f e = filter_interested g e"
  using filter_eq_tag_match [OF assms, of e] assms(1)
  by (simp add: filter_interested_def filter_eq_def ids_match_def kind_match_def authors_match_def
      delegated_authors_match_def cong: option.case_cong)

lemma dedup_after_interested:
  assumes "tags_distinct f" and "list_all tags_distinct fs"
  shows "filter_interested f e \<or> any_interested (dedup_after filter_eq f fs) e
    \<longleftrightarrow> filter_interested f e \<or> any_interested fs e"
  using assms
proof (induction fs arbitrary: f)
  case (Cons g fs)
  then show ?case using filter_eq_interested [of g f e] by (cases "filter_eq g f") auto
qed simp

lemma dedup_interested:
  "list_all tags_distinct fs \<Longrightarrow> any_interested (dedup filter_eq fs) e = any_interested fs e"
proof (cases fs)
  case (Cons f gs)
  then show "list_all tags_distinct fs \<Longrightarrow> ?thesis"
    using dedup_after_interested [of f gs e] by auto
qed simp

section \<open>Lemmas on parsing\<close>

text \<open>Invariants of every parsed filter.\<close>

definition filter_parsed :: "req_filter \<Rightarrow> bool" where
  "filter_parsed f \<longleftrightarrow>
     \<not> has_empty_string (f_ids f) \<and> \<not> has_empty_string (f_authors f)
     \<and> (\<forall>m. f_tags f = Some m \<longrightarrow> distinct (map fst m)
          \<and> (\<forall>(k, vs) \<in> set m. chars k = [k] \<and> distinct vs))"

lemma tag_search_char_Some:
  "tag_search_char_from_filter k = Some ch \<longleftrightarrow> chars (drop 1 k) = [ch]"
  by (auto simp: tag_search_char_from_filter_def split: list.splits)

lemma chars_single: "chars s = [ch] \<Longrightarrow> s = ch"
  using concat_chars [of s] by simp

lemma chars_singleton_self: "chars s = [ch] \<Longrightarrow> chars ch = [ch]"
  using chars_single [of s ch] by simp

definition tags_ok :: "tag_map option \<Rightarrow> bool" where
  "tags_ok ts \<longleftrightarrow> (\<forall>m. ts = Some m \<longrightarrow> distinct (map fst m)
     \<and> (\<forall>(k, vs) \<in> set m. chars k = [k] \<and> distinct vs))"

lemma tags_ok_update:
  assumes "tags_ok ts" and "chars ch = [ch]" and "distinct v"
  shows "tags_ok (Some (AList.update ch v (case ts of None \<Rightarrow> [] | Some t \<Rightarrow> t)))"
proof -
  have "set (AList.update k v m) \<subseteq> insert (k, v) (set m)" for k :: string and v :: "string list" and m
    by (induction m) auto
  with assms show ?thesis
    by (fastforce simp: tags_ok_def distinct_update split: option.splits)
qed

lemma filter_fields_parsed:
  assumes "filter_fields m rf ts = Some f" and "filter_parsed (rf\<lparr>f_tags := None\<rparr>)" and "tags_ok ts"
  shows "filter_parsed f"
  using assms
proof (induction m rf ts arbitrary: f rule: filter_fields.induct)
  case (1 rf ts)
  then show ?case by (auto simp: filter_parsed_def tags_ok_def)
next
  case (2 key val m rf ts)
  note ok = "2.prems"(3)
  let ?t = "case ts of None \<Rightarrow> [] | Some t \<Rightarrow> t"
  have upd: "tags_ok (Some (case de_strings val of
      Some v \<Rightarrow> AList.update ch (remdups v) ?t | None \<Rightarrow> ?t))"
    if "tag_search_char_from_filter key = Some ch" for ch
  proof (cases "de_strings val")
    case None
    then show ?thesis using ok by (cases ts) (simp_all add: tags_ok_def)
  next
    case (Some v)
    from that have "chars ch = [ch]"
      using chars_singleton_self [of "drop 1 key" ch] by (simp add: tag_search_char_Some)
    from tags_ok_update [OF ok this, of "remdups v"] Some show ?thesis by simp
  qed
  consider (ids) "key = ''ids''" | (authors) "key = ''authors''"
    | (other) "key \<in> {''kinds'', ''since'', ''until'', ''limit''}"
    | (tag) ch where "key \<notin> {''ids'', ''kinds'', ''since'', ''until'', ''limit'', ''authors''}"
        "starts_with key ''#'' \<and> 1 < length key \<and> is_array val" "tag_search_char_from_filter key = Some ch"
    | (rest) "key \<notin> {''ids'', ''kinds'', ''since'', ''until'', ''limit'', ''authors''}"
        "\<not> (starts_with key ''#'' \<and> 1 < length key \<and> is_array val) \<or> tag_search_char_from_filter key = None"
    by (cases "tag_search_char_from_filter key") auto
  then show ?case
  proof cases
    case ids
    with "2.prems" "2.IH"(1) show ?thesis by (simp add: filter_parsed_def split: if_splits)
  next
    case authors
    with "2.prems" "2.IH"(6) show ?thesis by (simp add: filter_parsed_def split: if_splits)
  next
    case other
    with "2.prems" "2.IH"(2-5) show ?thesis by (auto simp: filter_parsed_def)
  next
    case tag
    from "2.IH"(8) [OF _ _ _ _ _ _ tag(2,3) refl] tag "2.prems" upd [OF tag(3)]
    show ?thesis by (simp add: Let_def)
  next
    case rest
    then have ne: "key \<noteq> ''ids''" "key \<noteq> ''kinds''" "key \<noteq> ''since''" "key \<noteq> ''until''"
      "key \<noteq> ''limit''" "key \<noteq> ''authors''" by simp_all
    show ?thesis
    proof (cases "starts_with key ''#'' \<and> 1 < length key \<and> is_array val")
      case True
      with rest(2) have none: "tag_search_char_from_filter key = None" by blast
      have "filter_parsed (rf\<lparr>force_no_match := True, f_tags := None\<rparr>)"
        using "2.prems"(2) by (simp add: filter_parsed_def)
      moreover have "filter_fields m (rf\<lparr>force_no_match := True\<rparr>) ts = Some f"
        using "2.prems"(1) by (simp only: filter_fields.simps ne if_False if_True True simp_thms none option.case)
      ultimately show ?thesis using "2.IH"(7) [OF ne True none _ _ ok] by blast
    next
      case False
      have "filter_fields m rf ts = Some f"
        using "2.prems"(1) by (simp only: filter_fields.simps ne if_False False)
      then show ?thesis using "2.IH"(9) [OF ne False _ "2.prems"(2) ok] by blast
    qed
  qed
qed

lemma filter_from_json_parsed: "filter_from_json v = Some f \<Longrightarrow> filter_parsed f"
proof -
  assume "filter_from_json v = Some f"
  then obtain m where "filter_fields m empty_filter None = Some f"
    by (cases "as_object v") (auto simp: filter_from_json_def)
  then show ?thesis
    by (rule filter_fields_parsed)
      (simp_all add: filter_parsed_def empty_filter_def has_empty_string_def tags_ok_def)
qed

lemma filter_parsed_distinct: "filter_parsed f \<Longrightarrow> tags_distinct f"
  by (simp add: filter_parsed_def tags_distinct_def)

lemma subscription_from_json_filters:
  assumes "subscription_from_json v = Some s"
  obtains jreq jid fs where "v = JArray (jreq # jid # fs)" and "fs \<noteq> []"
    and "as_str jreq = Some ''REQ''" and "as_str jid = Some (s_id s)"
    and "s_filters s = dedup filter_eq (map (the \<circ> filter_from_json) fs)"
    and "\<forall>j \<in> set fs. \<exists>f. filter_from_json j = Some f"
proof -
  from assms obtain jreq jid f0 fs filters where v: "v = JArray (jreq # jid # f0 # fs)"
    and r: "as_str jreq = Some ''REQ''" and i: "as_str jid = Some (s_id s)"
    and f: "all_some (map filter_from_json (f0 # fs)) = Some filters"
    and s: "s_filters s = dedup filter_eq filters"
    by (cases v) (auto simp: subscription_from_json_def bind_eq_Some_conv split: list.splits if_splits)
  from f have m: "map filter_from_json (f0 # fs) = map Some filters" by (simp only: all_some_Some)
  then have "map the (map filter_from_json (f0 # fs)) = map the (map Some filters)" by simp
  then have "filters = map (the \<circ> filter_from_json) (f0 # fs)"
    by (simp only: list.map_comp) (simp add: comp_def)
  moreover have "\<forall>j \<in> set (f0 # fs). \<exists>f. filter_from_json j = Some f"
  proof
    fix j
    assume "j \<in> set (f0 # fs)"
    then have "filter_from_json j \<in> set (map Some filters)" unfolding m [symmetric] by (simp only: set_map imageI)
    then show "\<exists>f. filter_from_json j = Some f" by auto
  qed
  ultimately show thesis using that v r i s by blast
qed

section \<open>Lemmas on printing\<close>

lemma de_json_strings [simp]: "de_strings (json_strings ss) = Some ss"
  by (simp add: json_strings_def)

lemma de_json_u64s [simp]: "de_u64s (json_u64s ns) = Some ns"
  by (simp add: json_u64s_def de_u64s_def all_some_Some comp_def json_u64_def)

lemma is_array_json_strings [simp]: "is_array (json_strings ss)"
  by (simp add: json_strings_def)

lemma as_json_u64 [simp]: "as_u64 (json_u64 n) = Some n"
  by (simp add: json_u64_def)

lemma filter_fields_tags:
  assumes "\<forall>(k, vs) \<in> set n. chars k = [k] \<and> distinct vs" and "distinct (map fst (m @ n))"
  shows "filter_fields (tag_entries n) rf (Some m) = Some (rf\<lparr>f_tags := Some (m @ n)\<rparr>)"
  using assms
proof (induction n arbitrary: m)
  case (Cons kv n)
  obtain k vs where kv: "kv = (k, vs)" by fastforce
  with Cons.prems have k: "chars k = [k]" "distinct vs" "k \<noteq> []" by auto
  have "AList.update k vs m = m @ [(k, vs)]"
    using Cons.prems(2) kv by (induction m) auto
  moreover have "tag_search_char_from_filter (CHR ''#'' # k) = Some k"
    using k by (simp add: tag_search_char_Some)
  ultimately show ?case
    using Cons.IH [of "m @ [(k, vs)]"] Cons.prems kv k
    by (simp add: tag_entries_def starts_with_def distinct_remdups_id)
qed (simp add: tag_entries_def)

lemma filter_fields_all_tags:
  assumes "\<forall>(k, vs) \<in> set n. chars k = [k] \<and> distinct vs" and "distinct (map fst n)" and "n \<noteq> []"
  shows "filter_fields (tag_entries n) rf None = Some (rf\<lparr>f_tags := Some n\<rparr>)"
proof -
  have "filter_fields (tag_entries n) rf None = filter_fields (tag_entries n) rf (Some [])"
  proof (cases n)
    case (Cons kv n')
    obtain k vs where kv: "kv = (k, vs)" by fastforce
    with Cons assms(1) have k: "chars k = [k]" "k \<noteq> []" by auto
    then have "tag_search_char_from_filter (CHR ''#'' # k) = Some k"
      by (simp add: tag_search_char_Some)
    with Cons kv k show ?thesis by (simp add: tag_entries_def starts_with_def)
  qed (simp add: assms(3))
  with filter_fields_tags [of n "[]" rf] assms show ?thesis by simp
qed

lemma filter_fields_entries [simp]:
  "\<not> has_empty_string v \<Longrightarrow> f_ids rf = None \<Longrightarrow>
    filter_fields (opt_entry ''ids'' json_strings v @ m) rf ts = filter_fields m (rf\<lparr>f_ids := v\<rparr>) ts"
  "f_kinds rf = None \<Longrightarrow>
    filter_fields (opt_entry ''kinds'' json_u64s k @ m) rf ts = filter_fields m (rf\<lparr>f_kinds := k\<rparr>) ts"
  "f_until rf = None \<Longrightarrow>
    filter_fields (opt_entry ''until'' json_u64 n @ m) rf ts = filter_fields m (rf\<lparr>f_until := n\<rparr>) ts"
  "f_since rf = None \<Longrightarrow>
    filter_fields (opt_entry ''since'' json_u64 n @ m) rf ts = filter_fields m (rf\<lparr>f_since := n\<rparr>) ts"
  "f_limit rf = None \<Longrightarrow>
    filter_fields (opt_entry ''limit'' json_u64 n @ m) rf ts = filter_fields m (rf\<lparr>f_limit := n\<rparr>) ts"
  "\<not> has_empty_string v \<Longrightarrow> f_authors rf = None \<Longrightarrow>
    filter_fields (opt_entry ''authors'' json_strings v @ m) rf ts = filter_fields m (rf\<lparr>f_authors := v\<rparr>) ts"
  by (cases rf, force simp: opt_entry_def split: option.split)+

text \<open>
  What is left of a filter when it is printed and read again: the mark of a search for a tag with a
  longer name is lost, and so is a search for no tags at all.
\<close>

lemma filter_json_roundtrip:
  assumes "filter_parsed f"
  shows "filter_from_json (filter_to_json f)
    = Some (f\<lparr>force_no_match := False, f_tags := (if f_tags f = Some [] then None else f_tags f)\<rparr>)"
proof -
  let ?g = "f\<lparr>f_tags := None, force_no_match := False\<rparr>"
  have w: "\<not> has_empty_string (f_ids f)" "\<not> has_empty_string (f_authors f)"
    using assms by (auto simp: filter_parsed_def)
  have "filter_from_json (filter_to_json f) =
      filter_fields (case f_tags f of None \<Rightarrow> [] | Some m \<Rightarrow> tag_entries m) ?g None"
    using w by (cases f) (simp add: filter_from_json_def filter_to_json_def empty_filter_def)
  also have "\<dots> = Some (f\<lparr>force_no_match := False, f_tags := (if f_tags f = Some [] then None else f_tags f)\<rparr>)"
  proof (cases "f_tags f = None \<or> f_tags f = Some []")
    case True
    then show ?thesis by (cases f) (auto simp: tag_entries_def)
  next
    case False
    then obtain m where m: "f_tags f = Some m" "m \<noteq> []" by auto
    with assms have "filter_fields (tag_entries m) ?g None = Some (?g\<lparr>f_tags := Some m\<rparr>)"
      by (intro filter_fields_all_tags) (auto simp: filter_parsed_def)
    with m show ?thesis by (cases f) simp
  qed
  finally show ?thesis .
qed

lemma filter_reread_interested:
  assumes "\<not> force_no_match f"
  shows "filter_interested (f\<lparr>force_no_match := False, f_tags := (if f_tags f = Some [] then None else f_tags f)\<rparr>) e
    = filter_interested f e"
  using assms
  by (simp add: filter_interested_def ids_match_def kind_match_def authors_match_def delegated_authors_match_def
      tag_match_def split: option.split)

end
