(* ===== verification/Conn.thy ===== *)
theory Conn
  imports Delegation Subscription
begin

text \<open>
  The state of a client connection (\<open>src/src/conn.rs\<close>): its subscriptions and the NIP-42
  authentication. Random identifiers (\<open>Uuid::new_v4\<close>) and the time of day are arguments.
  A method that changes the state and returns a result is a function to the pair of both.
  The step relation \<open>conn_trace\<close> runs the methods in any order; the lemmas show the
  invariant of the subscription table and what an authenticated connection has received.
\<close>

section \<open>State\<close>

definition max_subscription_id_len :: usize where
  "max_subscription_id_len = 256"

datatype auth_state = NoAuth | Challenge string | AuthPubkey string

record client_conn =
  client_ip_addr :: string
  client_id :: string
  subscriptions :: "(string \<times> subscription) list"
  max_subs :: usize
  auth :: auth_state

definition new_conn :: "string \<Rightarrow> string \<Rightarrow> client_conn" where
  "new_conn uuid ip =
     \<lparr>client_ip_addr = ip, client_id = uuid, subscriptions = [], max_subs = 32, auth = NoAuth\<rparr>"

definition subscription_eq :: "subscription \<Rightarrow> subscription \<Rightarrow> bool" where
  "subscription_eq s t \<longleftrightarrow> s_id s = s_id t \<and> list_all2 filter_eq (s_filters s) (s_filters t)"

definition has_subscription :: "client_conn \<Rightarrow> subscription \<Rightarrow> bool" where
  "has_subscription c sub \<longleftrightarrow> list_ex (\<lambda>(k, x). subscription_eq x sub) (subscriptions c)"

definition get_client_prefix :: "client_conn \<Rightarrow> string" where
  "get_client_prefix c = concat (take 8 (chars (client_id c)))"

definition auth_pubkey :: "client_conn \<Rightarrow> string option" where
  "auth_pubkey c = (case auth c of AuthPubkey pk \<Rightarrow> Some pk | _ \<Rightarrow> None)"

definition auth_challenge :: "client_conn \<Rightarrow> string option" where
  "auth_challenge c = (case auth c of Challenge ch \<Rightarrow> Some ch | _ \<Rightarrow> None)"

section \<open>Subscriptions\<close>

text \<open>Lengths of strings and maps are \<open>usize\<close>; they fit, so they are compared as numbers.\<close>

definition subscribe :: "subscription \<Rightarrow> client_conn \<Rightarrow> client_conn \<times> (error + unit)" where
  "subscribe s c =
     (let k = s_id s in
      if unat max_subscription_id_len < length k then (c, Inl SubIdMaxLengthError)
      else if map_of (subscriptions c) k \<noteq> None then
        (c\<lparr>subscriptions := AList.update k s (AList.delete k (subscriptions c))\<rparr>, Inr ())
      else if unat (max_subs c) \<le> length (subscriptions c) then (c, Inl SubMaxExceededError)
      else (c\<lparr>subscriptions := AList.update k s (subscriptions c)\<rparr>, Inr ()))"

definition unsubscribe :: "close_req \<Rightarrow> client_conn \<Rightarrow> client_conn" where
  "unsubscribe cl c = c\<lparr>subscriptions := AList.delete (close_id cl) (subscriptions c)\<rparr>"

section \<open>Authentication\<close>

definition generate_auth_challenge :: "string \<Rightarrow> client_conn \<Rightarrow> client_conn" where
  "generate_auth_challenge uuid c = c\<lparr>auth := Challenge uuid\<rparr>"

text \<open>The loop over the tags: the last challenge and the last relay win.\<close>

fun auth_tags :: "tag list \<Rightarrow> string option \<Rightarrow> string option \<Rightarrow> string option \<times> string option" where
  "auth_tags [] ch rl = (ch, rl)"
| "auth_tags (t # ts) ch rl =
     auth_tags ts
       (if length t = 2 \<and> hd t = ''challenge'' then Some (t ! 1) else ch)
       (if length t = 2 \<and> hd t = ''relay'' then Some (t ! 1) else rl)"

definition auth_window :: "u64 \<Rightarrow> event \<Rightarrow> bool" where
  "auth_window now e \<longleftrightarrow> \<not> (e_created_at e < now - 600 \<or> now + 600 < e_created_at e)"

definition authenticate ::
  "ext \<Rightarrow> u64 \<Rightarrow> event \<Rightarrow> string \<Rightarrow> client_conn \<Rightarrow> client_conn \<times> (error + unit)" where
  "authenticate X now e relay_url c =
     (case auth c of
        AuthPubkey _ \<Rightarrow> (c, Inr ())
      | NoAuth \<Rightarrow> (c, Inl AuthFailure)
      | Challenge sent \<Rightarrow>
          (case validate X e of
             Inl _ \<Rightarrow> (c, Inl AuthFailure)
           | Inr _ \<Rightarrow>
               if e_kind e \<noteq> 22242 then (c, Inl AuthFailure)
               else if \<not> auth_window now e then (c, Inl AuthFailure)
               else (case auth_tags (e_tags e) None None of
                       (None, _) \<Rightarrow> (c, Inl AuthFailure)
                     | (Some received, relay) \<Rightarrow>
                         if received \<noteq> sent then (c, Inl AuthFailure)
                         else (case (Option.bind relay (host_str X), host_str X relay_url) of
                                 (Some theirs, Some ours) \<Rightarrow>
                                   if theirs \<noteq> ours then (c, Inl AuthFailure)
                                   else (c\<lparr>auth := AuthPubkey (e_pubkey e)\<rparr>, Inr ())
                               | _ \<Rightarrow> (c, Inl AuthFailure)))))"

section \<open>Runs of a connection\<close>

datatype conn_action =
    DoSubscribe subscription
  | DoUnsubscribe close_req
  | DoChallenge string
  | DoAuthenticate u64 event

fun conn_apply :: "ext \<Rightarrow> string \<Rightarrow> conn_action \<Rightarrow> client_conn \<Rightarrow> client_conn" where
  "conn_apply X url (DoSubscribe s) c = fst (subscribe s c)"
| "conn_apply X url (DoUnsubscribe cl) c = unsubscribe cl c"
| "conn_apply X url (DoChallenge u) c = generate_auth_challenge u c"
| "conn_apply X url (DoAuthenticate now e) c = fst (authenticate X now e url c)"

inductive conn_trace :: "ext \<Rightarrow> string \<Rightarrow> conn_action list \<Rightarrow> client_conn \<Rightarrow> bool" where
  start: "conn_trace X url [] (new_conn uuid ip)"
| step: "conn_trace X url as c \<Longrightarrow> conn_trace X url (as @ [a]) (conn_apply X url a c)"

section \<open>The subscription table\<close>

definition conn_inv :: "client_conn \<Rightarrow> bool" where
  "conn_inv c \<longleftrightarrow>
     distinct (map fst (subscriptions c))
     \<and> (\<forall>(k, s) \<in> set (subscriptions c). s_id s = k \<and> length k \<le> 256)
     \<and> length (subscriptions c) \<le> unat (max_subs c)"

lemma set_update_subset: "set (AList.update k v m) \<subseteq> insert (k, v) (set m)"
  by (induction m) auto

lemma length_update_new: "map_of m k = None \<Longrightarrow> length (AList.update k v m) = Suc (length m)"
  by (induction m) (auto split: if_splits)

lemma length_delete_old:
  "distinct (map fst m) \<Longrightarrow> map_of m k \<noteq> None \<Longrightarrow> Suc (length (AList.delete k m)) = length m"
proof (induction m)
  case (Cons kv m)
  have "k \<notin> fst ` set m \<Longrightarrow> AList.delete k m = m" by (simp add: delete_id)
  with Cons show ?case by (cases "fst kv = k") (auto split: if_splits simp: delete_id)
qed simp

lemma in_set_delete: "kv \<in> set (AList.delete k m) \<Longrightarrow> kv \<in> set m"
  by (induction m) (auto split: if_splits)

lemma conn_inv_new: "conn_inv (new_conn uuid ip)"
  by (simp add: conn_inv_def new_conn_def)

lemma conn_inv_unsubscribe: "conn_inv c \<Longrightarrow> conn_inv (unsubscribe cl c)"
  using length_delete_le [of "close_id cl" "subscriptions c"]
  by (auto simp: conn_inv_def unsubscribe_def distinct_delete dest: in_set_delete)

lemma conn_inv_subscribe: "conn_inv c \<Longrightarrow> conn_inv (fst (subscribe s c))"
proof -
  assume inv: "conn_inv c"
  let ?k = "s_id s"
  let ?m = "subscriptions c"
  have d: "distinct (map fst (AList.update ?k s m))" if "distinct (map fst m)" for m
    using that by (simp add: distinct_update)
  have e: "\<forall>(k, t) \<in> set (AList.update ?k s m). s_id t = k \<and> length k \<le> 256"
    if "\<forall>(k, t) \<in> set m. s_id t = k \<and> length k \<le> 256" and "length ?k \<le> 256" for m
    using set_update_subset [of ?k s m] that by fastforce
  show ?thesis
  proof (cases "256 < length ?k")
    case True
    with inv show ?thesis by (simp add: subscribe_def Let_def max_subscription_id_len_def)
  next
    case False
    then have k: "length ?k \<le> 256" by simp
    show ?thesis
    proof (cases "map_of ?m ?k")
      case None
      with inv k d [of ?m] e [of ?m] show ?thesis
        by (auto simp: subscribe_def Let_def max_subscription_id_len_def conn_inv_def length_update_new)
    next
      case (Some t)
      let ?n = "AList.delete ?k ?m"
      have "distinct (map fst ?n)" using inv by (simp add: conn_inv_def distinct_delete)
      moreover have "\<forall>(k, t) \<in> set ?n. s_id t = k \<and> length k \<le> 256"
        using inv by (auto simp: conn_inv_def dest: in_set_delete)
      moreover have "length (AList.update ?k s ?n) = length ?m"
        using inv Some length_delete_old [of ?m ?k]
        by (simp add: conn_inv_def length_update_new delete_conv')
      ultimately show ?thesis
        using inv Some k d [of ?n] e [of ?n]
        by (simp add: subscribe_def Let_def max_subscription_id_len_def conn_inv_def)
    qed
  qed
qed

lemma authenticate_subscriptions:
  "subscriptions (fst (authenticate X now e url c)) = subscriptions c"
  "max_subs (fst (authenticate X now e url c)) = max_subs c"
  by (simp_all add: authenticate_def split: auth_state.split sum.split prod.split option.split)

lemma subscribe_auth: "auth (fst (subscribe s c)) = auth c"
  by (simp add: subscribe_def Let_def)

lemma conn_inv_apply: "conn_inv c \<Longrightarrow> conn_inv (conn_apply X url a c)"
proof (cases a)
  case (DoAuthenticate now e)
  then show "conn_inv c \<Longrightarrow> ?thesis" by (simp add: conn_inv_def authenticate_subscriptions)
qed (auto simp: conn_inv_subscribe conn_inv_unsubscribe, simp add: conn_inv_def generate_auth_challenge_def)

lemma conn_trace_inv: "conn_trace X url as c \<Longrightarrow> conn_inv c"
  by (induction rule: conn_trace.induct) (auto simp: conn_inv_new conn_inv_apply)

lemma subscribe_result:
  "snd (subscribe s c) =
     (if 256 < length (s_id s) then Inl SubIdMaxLengthError
      else if s_id s \<notin> fst ` set (subscriptions c) \<and> unat (max_subs c) \<le> length (subscriptions c)
      then Inl SubMaxExceededError else Inr ())"
  by (auto simp: subscribe_def Let_def max_subscription_id_len_def map_of_eq_None_iff)

lemma subscribe_lookup:
  assumes "snd (subscribe s c) = Inr ()"
  shows "map_of (subscriptions (fst (subscribe s c))) = (map_of (subscriptions c))(s_id s \<mapsto> s)"
  using assms
  by (auto simp: subscribe_def Let_def update_conv' delete_conv' split: if_splits)

lemma subscribe_error_state: "snd (subscribe s c) = Inl err \<Longrightarrow> fst (subscribe s c) = c"
  by (auto simp: subscribe_def Let_def split: if_splits)

section \<open>Authenticated connections\<close>

lemma auth_tags_fst:
  "fst (auth_tags ts ch rl) =
     (case rev (filter (\<lambda>t. length t = 2 \<and> hd t = ''challenge'') ts) of [] \<Rightarrow> ch | t # _ \<Rightarrow> Some (t ! 1))"
  by (induction ts arbitrary: ch rl) (auto split: list.splits)

lemma auth_tags_snd:
  "snd (auth_tags ts ch rl) =
     (case rev (filter (\<lambda>t. length t = 2 \<and> hd t = ''relay'') ts) of [] \<Rightarrow> rl | t # _ \<Rightarrow> Some (t ! 1))"
  by (induction ts arbitrary: ch rl) (auto split: list.splits)

text \<open>When an event answers a challenge.\<close>

definition auth_answer :: "ext \<Rightarrow> u64 \<Rightarrow> event \<Rightarrow> string \<Rightarrow> string \<Rightarrow> bool" where
  "auth_answer X now e relay_url sent \<longleftrightarrow>
     validate X e = Inr () \<and> e_kind e = 22242 \<and> auth_window now e
     \<and> fst (auth_tags (e_tags e) None None) = Some sent
     \<and> (\<exists>host. Option.bind (snd (auth_tags (e_tags e) None None)) (host_str X) = Some host
          \<and> host_str X relay_url = Some host)"

lemma authenticate_challenge:
  assumes "auth c = Challenge sent"
  shows "authenticate X now e url c =
    (if auth_answer X now e url sent then (c\<lparr>auth := AuthPubkey (e_pubkey e)\<rparr>, Inr ())
     else (c, Inl AuthFailure))"
  using assms
  by (auto simp: authenticate_def auth_answer_def split: sum.split prod.split option.split)

lemma authenticate_other:
  "auth c = NoAuth \<Longrightarrow> authenticate X now e url c = (c, Inl AuthFailure)"
  "auth c = AuthPubkey pk \<Longrightarrow> authenticate X now e url c = (c, Inr ())"
  by (simp_all add: authenticate_def)

text \<open>What the trace must contain for the authentication state.\<close>

definition auth_justified :: "ext \<Rightarrow> string \<Rightarrow> conn_action list \<Rightarrow> auth_state \<Rightarrow> bool" where
  "auth_justified X url as st =
     (case st of
        NoAuth \<Rightarrow> True
      | Challenge u \<Rightarrow> DoChallenge u \<in> set as
      | AuthPubkey pk \<Rightarrow>
          (\<exists>as1 as2 now e u. as = as1 @ DoAuthenticate now e # as2 \<and> DoChallenge u \<in> set as1
             \<and> auth_answer X now e url u \<and> e_pubkey e = pk))"

lemma auth_justified_more: "auth_justified X url as st \<Longrightarrow> auth_justified X url (as @ [a]) st"
  by (cases st) (auto simp: auth_justified_def, metis append.assoc append_Cons)

lemma conn_trace_justified: "conn_trace X url as c \<Longrightarrow> auth_justified X url as (auth c)"
proof (induction rule: conn_trace.induct)
  case (start X url uuid ip)
  then show ?case by (simp add: new_conn_def auth_justified_def)
next
  case (step X url as c a)
  show ?case
  proof (cases a)
    case (DoAuthenticate now e)
    then show ?thesis
    proof (cases "auth c")
      case (Challenge u)
      with step.IH have "DoChallenge u \<in> set as" by (simp add: auth_justified_def)
      have "auth_justified X url (as @ [a]) (AuthPubkey (e_pubkey e))" if "auth_answer X now e url u"
        unfolding auth_justified_def auth_state.case DoAuthenticate
        using that \<open>DoChallenge u \<in> set as\<close> by (intro exI [of _ as] exI [of _ "[]"]) auto
      with DoAuthenticate Challenge step.IH auth_justified_more [OF step.IH, of a] show ?thesis
        by (simp add: authenticate_challenge)
    qed (use DoAuthenticate step.IH auth_justified_more in \<open>auto simp: authenticate_other\<close>)
  qed (use step.IH auth_justified_more in
      \<open>auto simp: subscribe_auth unsubscribe_def generate_auth_challenge_def auth_justified_def\<close>)
qed

lemma conn_apply_max: "max_subs (conn_apply X url a c) = max_subs c"
  by (cases a) (simp_all add: subscribe_def unsubscribe_def generate_auth_challenge_def
      authenticate_subscriptions Let_def)

lemma conn_trace_max: "conn_trace X url as c \<Longrightarrow> max_subs c = 32"
  by (induction rule: conn_trace.induct) (simp_all add: new_conn_def conn_apply_max)

end
