(* ===== verification/Server.thy ===== *)
theory Server
  imports Db_Writer Conn
begin

text \<open>
  The event loop of a client connection (\<open>src/src/server.rs\<close>): the parsing of client
  messages, the form of the relay's messages, the decision whether a client may see an
  event, and the reaction to each thing that the loop waits for. A turn of the loop is
  \<open>client_turn\<close>; its outputs, in order, are messages to the client, events for the
  writer, queries for the repository and cancellations of queries. A query is named by a
  number. Limits on the rate of subscriptions only delay and are left out.
\<close>

section \<open>Messages\<close>

datatype nostr_message = EventMsg event_cmd | SubMsg subscription | CloseMsg close_cmd

text \<open>The untagged enumeration: the first variant that parses.\<close>

definition nostr_message_from_json :: "json \<Rightarrow> nostr_message option" where
  "nostr_message_from_json v =
     (case event_cmd_from_json v of
        Some ec \<Rightarrow> Some (EventMsg ec)
      | None \<Rightarrow>
          (case subscription_from_json v of
             Some s \<Rightarrow> Some (SubMsg s)
           | None \<Rightarrow> map_option CloseMsg (close_cmd_from_json v)))"

definition convert_to_msg :: "ext \<Rightarrow> string \<Rightarrow> usize option \<Rightarrow> error + nostr_message" where
  "convert_to_msg X msg byte_limit =
     (case Option.bind (json_from_str X msg) nostr_message_from_json of
        None \<Rightarrow> Inl ProtoParseError
      | Some (EventMsg ec) \<Rightarrow>
          (case byte_limit of
             Some max_size \<Rightarrow>
               if unat max_size < length msg \<and> 0 < max_size then Inl (EventMaxLengthError (length msg))
               else Inr (EventMsg ec)
           | None \<Rightarrow> Inr (EventMsg ec))
      | Some m \<Rightarrow> Inr m)"

text \<open>The value whose text is sent.\<close>

definition make_notice_message :: "notice \<Rightarrow> json" where
  "make_notice_message n =
     (case n of
        Message msg \<Rightarrow> JArray [JString ''NOTICE'', JString msg]
      | EventResult r \<Rightarrow>
          JArray [JString ''OK'', JString (er_id r), JBool (to_bool (er_status r)), JString (er_msg r)]
      | AuthChallenge ch \<Rightarrow> JArray [JString ''AUTH'', JString ch])"

section \<open>Who may see an event\<close>

definition dm_allowed :: "event \<Rightarrow> client_conn \<Rightarrow> settings \<Rightarrow> bool" where
  "dm_allowed e c st =
     (if nip42_dms (st_authorization st) then
        (if e_kind e = 4 \<or> e_kind e = 44 \<or> e_kind e = 1059 then
           (case (auth_pubkey c, tag_values_by_name e ''p'') of
              (Some a, recipient # _) \<Rightarrow> recipient = a \<or> e_pubkey e = a
            | _ \<Rightarrow> False)
         else True)
      else True)"

text \<open>The part of the filter of the event's kind; the sum of the time wraps.\<close>

definition kind_read_allowed ::
  "ext \<Rightarrow> u64 \<Rightarrow> event \<Rightarrow> client_conn \<Rightarrow> settings \<Rightarrow> bool" where
  "kind_read_allowed X now e c st =
     (case map_of (kf_filters (st_kind_filters st)) (e_kind e) of
        None \<Rightarrow> True
      | Some k \<Rightarrow>
          if k_require_auth k \<and> auth_pubkey c = None then False
          else if (case k_read k of
                     None \<Rightarrow> False
                   | Some r \<Rightarrow> \<not> check_write_read_config X r e (auth_pubkey c) (info_pubkey (st_info st)) True)
          then False
          else (case x_duration (k_expiration k) of
                  Some d \<Rightarrow> \<not> e_created_at e + d < now
                | None \<Rightarrow> True))"

definition allowed_to_send ::
  "ext \<Rightarrow> u64 \<Rightarrow> string \<Rightarrow> client_conn \<Rightarrow> settings \<Rightarrow> bool" where
  "allowed_to_send X now event_str c st =
     (case Option.bind (json_from_str X event_str) event_from_json of
        None \<Rightarrow> False
      | Some e \<Rightarrow>
          if \<not> is_kind_allowed (e_kind e) (st_kind_filters st) then False
          else if is_expired now e then False
          else if \<not> kind_read_allowed X now e c st then False
          else dm_allowed e c st)"

section \<open>The state and the outputs of the loop\<close>

record client_info =
  ci_remote_ip :: string
  ci_user_agent :: "string option"
  ci_origin :: "string option"

record client =
  cl_conn :: client_conn
  cl_running :: "(string \<times> nat) list"
  cl_next_query :: nat

datatype client_output =
    SendJson json
  | SendText string
  | SendPing
  | Submit submitted_event
  | StartQuery nat subscription
  | Cancel nat

datatype ws_input =
    WsText string
  | WsBinary
  | WsPingPong
  | WsTooLarge nat nat
  | WsClosed
  | WsFailed

datatype client_input =
    Shutdown
  | PingTick bool          \<comment> \<open>whether the client has been quiet for too long\<close>
  | NoticeIn notice
  | QueryRow string string \<comment> \<open>subscription, event\<close>
  | GlobalEvent event
  | FromClient ws_input

definition quote :: string where
  "quote = [CHR 0x22]"

definition eose_text :: "string \<Rightarrow> string" where
  "eose_text sub = ''['' @ quote @ ''EOSE'' @ quote @ '','' @ quote @ sub @ quote @ '']''"

definition event_text :: "string \<Rightarrow> string \<Rightarrow> string" where
  "event_text sub ev = ''['' @ quote @ ''EVENT'' @ quote @ '','' @ quote @ sub @ quote @ '','' @ ev @ '']''"

definition strip_quotes :: "string \<Rightarrow> string" where
  "strip_quotes s = replace_all quote [] s"

section \<open>Start of a connection\<close>

definition start_client ::
  "string \<Rightarrow> string \<Rightarrow> client_info \<Rightarrow> settings \<Rightarrow> client \<times> client_output list" where
  "start_client uuid challenge info st =
     (let c = new_conn uuid (ci_remote_ip info) in
      if nip42_auth (st_authorization st)
      then (\<lparr>cl_conn = generate_auth_challenge challenge c, cl_running = [], cl_next_query = 0\<rparr>,
            [SendJson (make_notice_message (AuthChallenge challenge))])
      else (\<lparr>cl_conn = c, cl_running = [], cl_next_query = 0\<rparr>, []))"

section \<open>Client messages\<close>

definition on_event ::
  "ext \<Rightarrow> settings \<Rightarrow> client_info \<Rightarrow> u64 \<Rightarrow> event \<Rightarrow> client \<Rightarrow> client_output list" where
  "on_event X st info now e cl =
     (if is_expired now e
      then [SendJson (make_notice_message (notice_invalid (e_id e) ''The event has already expired''))]
      else if is_valid_timestamp now e (st_reject_future_seconds st)
      then [Submit \<lparr>su_event = e, su_source_ip = client_ip_addr (cl_conn cl), su_origin = ci_origin info,
              su_user_agent = ci_user_agent info,
              su_auth_pubkey = Option.bind (auth_pubkey (cl_conn cl)) (hex_decode X)\<rparr>]
      else (case st_reject_future_seconds st of
              None \<Rightarrow> []
            | Some n \<Rightarrow>
                [SendJson (make_notice_message (notice_invalid (e_id e)
                   (''The event created_at field is out of the acceptable range (+'' @ u64_to_string n
                    @ ''sec) for this relay.'')))]))"

definition on_auth ::
  "ext \<Rightarrow> settings \<Rightarrow> u64 \<Rightarrow> string \<Rightarrow> event \<Rightarrow> client \<Rightarrow> client \<times> client_output list" where
  "on_auth X st now evid e cl =
     (if nip42_auth (st_authorization st) then
        (case relay_url (st_info st) of
           None \<Rightarrow> (cl, [])
         | Some relay \<Rightarrow>
             (case authenticate X now e relay (cl_conn cl) of
                (c, Inr _) \<Rightarrow> (cl\<lparr>cl_conn := c\<rparr>, [SendJson (make_notice_message (notice_saved (e_id e)))])
              | (c, Inl err) \<Rightarrow>
                  (cl\<lparr>cl_conn := c\<rparr>,
                   [SendJson (make_notice_message (notice_restricted (e_id e)
                      (''authentication error: '' @ error_text err)))])))
      else (cl, [SendJson (make_notice_message (notice_invalid evid (error_text CommandUnknownError)))]))"

definition on_event_msg ::
  "ext \<Rightarrow> settings \<Rightarrow> client_info \<Rightarrow> u64 \<Rightarrow> event_cmd \<Rightarrow> client \<Rightarrow> (client \<times> client_output list) exec" where
  "on_event_msg X st info now ec cl =
     map_exec
       (\<lambda>r. case r of
          Inr (WrappedEvent e) \<Rightarrow> (cl, on_event X st info now e cl)
        | Inr (WrappedAuth e) \<Rightarrow> on_auth X st now (event_id ec) e cl
        | Inl err \<Rightarrow> (cl, [SendJson (make_notice_message (notice_invalid (event_id ec) (error_text err)))]))
       (wrap_event_cmd X ec)"

text \<open>A query with the same name that is still running is cancelled.\<close>

definition on_sub_msg :: "settings \<Rightarrow> subscription \<Rightarrow> client \<Rightarrow> client \<times> client_output list" where
  "on_sub_msg st s cl =
     (if has_subscription (cl_conn cl) s then (cl, [])
      else if limit_scrapers (st_limits st) \<and> is_scraper s then (cl, [SendText (eose_text (s_id s))])
      else (case subscribe s (cl_conn cl) of
              (c, Inl err) \<Rightarrow>
                (cl\<lparr>cl_conn := c\<rparr>,
                 [SendJson (make_notice_message (notice_message (''Subscription error: '' @ error_text err)))])
            | (c, Inr _) \<Rightarrow>
                (let n = cl_next_query cl in
                 (cl\<lparr>cl_conn := c, cl_running := AList.update (s_id s) n (cl_running cl),
                     cl_next_query := Suc n\<rparr>,
                  (case map_of (cl_running cl) (s_id s) of Some q \<Rightarrow> [Cancel q] | None \<Rightarrow> [])
                  @ (if needs_historical_events s then [StartQuery n s] else [])))))"

definition on_close_msg :: "close_cmd \<Rightarrow> client \<Rightarrow> client \<times> client_output list" where
  "on_close_msg cc cl =
     (case close_from_cmd cc of
        Inr c \<Rightarrow>
          (cl\<lparr>cl_conn := unsubscribe c (cl_conn cl), cl_running := AList.delete (close_id c) (cl_running cl)\<rparr>,
           (case map_of (cl_running cl) (close_id c) of Some q \<Rightarrow> [Cancel q] | None \<Rightarrow> []))
      | Inl _ \<Rightarrow>
          (cl, [SendJson (make_notice_message (notice_message ''could not parse command''))]))"

definition on_text ::
  "ext \<Rightarrow> settings \<Rightarrow> client_info \<Rightarrow> u64 \<Rightarrow> string \<Rightarrow> client \<Rightarrow> (client \<times> client_output list) exec" where
  "on_text X st info now m cl =
     (case convert_to_msg X m (max_event_bytes (st_limits st)) of
        Inr (EventMsg ec) \<Rightarrow> on_event_msg X st info now ec cl
      | Inr (SubMsg s) \<Rightarrow> Done (on_sub_msg st s cl)
      | Inr (CloseMsg cc) \<Rightarrow> Done (on_close_msg cc cl)
      | Inl (EventMaxLengthError n) \<Rightarrow>
          Done (cl, [SendJson (make_notice_message (notice_message ''event exceeded max size''))])
      | Inl ProtoParseError \<Rightarrow>
          Done (cl, [SendJson (make_notice_message (notice_message ''could not parse command''))])
      | Inl _ \<Rightarrow> Done (cl, []))"

section \<open>One turn of the loop\<close>

definition on_query_row ::
  "ext \<Rightarrow> settings \<Rightarrow> u64 \<Rightarrow> string \<Rightarrow> string \<Rightarrow> client \<Rightarrow> client_output list" where
  "on_query_row X st now sub ev cl =
     (if ev = ''EOSE'' then [SendText (eose_text (strip_quotes sub))]
      else if allowed_to_send X now ev (cl_conn cl) st then [SendText (event_text (strip_quotes sub) ev)]
      else [])"

definition on_global_event ::
  "ext \<Rightarrow> settings \<Rightarrow> u64 \<Rightarrow> event \<Rightarrow> client \<Rightarrow> client_output list" where
  "on_global_event X st now e cl =
     concat (map (\<lambda>(k, sub).
       if \<not> interested_in_event sub e then []
       else (case json_to_string X (event_to_json e) of
               None \<Rightarrow> []
             | Some s \<Rightarrow>
                 if allowed_to_send X now s (cl_conn cl) st
                 then [SendText (event_text (strip_quotes k) s)] else []))
       (subscriptions (cl_conn cl)))"

text \<open>The flag says whether the loop goes on; when it ends, all queries are cancelled.\<close>

definition client_turn ::
  "ext \<Rightarrow> settings \<Rightarrow> client_info \<Rightarrow> u64 \<Rightarrow> client_input \<Rightarrow> client
     \<Rightarrow> (client \<times> client_output list \<times> bool) exec" where
  "client_turn X st info now inp cl =
     (let go = (\<lambda>outs. Done (cl, outs, True)); stop = Done (cl, map (\<lambda>(_, q). Cancel q) (cl_running cl), False) in
      case inp of
        Shutdown \<Rightarrow> stop
      | PingTick quiet \<Rightarrow> if quiet then stop else go [SendPing]
      | NoticeIn n \<Rightarrow> go [SendJson (make_notice_message n)]
      | QueryRow sub ev \<Rightarrow> go (on_query_row X st now sub ev cl)
      | GlobalEvent e \<Rightarrow> go (on_global_event X st now e cl)
      | FromClient w \<Rightarrow>
          (case w of
             WsText m \<Rightarrow> map_exec (\<lambda>(cl', outs). (cl', outs, True)) (on_text X st info now m cl)
           | WsBinary \<Rightarrow>
               go [SendJson (make_notice_message (notice_message ''binary messages are not accepted''))]
           | WsPingPong \<Rightarrow> go []
           | WsTooLarge sz mx \<Rightarrow>
               go [SendJson (make_notice_message (notice_message
                     (''message too large ('' @ nat_to_dec sz @ '' > '' @ nat_to_dec mx @ '')'')))]
           | WsClosed \<Rightarrow> stop
           | WsFailed \<Rightarrow> stop))"

text \<open>A run of the loop: the inputs with the time at which each is handled.\<close>

inductive client_run ::
  "ext \<Rightarrow> settings \<Rightarrow> client_info \<Rightarrow> (u64 \<times> client_input) list \<Rightarrow> client \<Rightarrow> client_output list \<Rightarrow> bool"
  for X st info
  where
    begin_run: "start_client uuid challenge info st = (cl, outs) \<Longrightarrow> client_run X st info [] cl outs"
  | turn: "client_run X st info ins cl outs \<Longrightarrow> client_turn X st info now inp cl = Done (cl', outs', True)
      \<Longrightarrow> client_run X st info (ins @ [(now, inp)]) cl' (outs @ outs')"

section \<open>Lemmas\<close>

lemma kind_read_allowed_iff:
  "kind_read_allowed X now e c st \<longleftrightarrow>
     (\<forall>k. map_of (kf_filters (st_kind_filters st)) (e_kind e) = Some k \<longrightarrow>
        (k_require_auth k \<longrightarrow> auth_pubkey c \<noteq> None)
        \<and> (\<forall>r. k_read k = Some r \<longrightarrow>
             check_write_read_config X r e (auth_pubkey c) (info_pubkey (st_info st)) True)
        \<and> (\<forall>d. x_duration (k_expiration k) = Some d \<longrightarrow> now \<le> e_created_at e + d))"
  by (auto simp: kind_read_allowed_def not_less split: option.splits if_splits)

lemma dm_allowed_iff:
  "dm_allowed e c st \<longleftrightarrow>
     (nip42_dms (st_authorization st) \<and> e_kind e \<in> {4, 44, 1059} \<longrightarrow>
       (\<exists>a p ps. auth_pubkey c = Some a \<and> tag_values_by_name e ''p'' = p # ps \<and> (p = a \<or> e_pubkey e = a)))"
  by (auto simp: dm_allowed_def split: option.splits list.splits)

lemma allowed_to_send_iff:
  "allowed_to_send X now s c st \<longleftrightarrow>
     (\<exists>v e. json_from_str X s = Some v \<and> event_from_json v = Some e
        \<and> is_kind_allowed (e_kind e) (st_kind_filters st) \<and> \<not> is_expired now e
        \<and> kind_read_allowed X now e c st \<and> dm_allowed e c st)"
  by (auto simp: allowed_to_send_def bind_eq_Some_conv split: option.splits)

lemma on_event_submit:
  assumes "Submit su \<in> set (on_event X st info now e cl)"
  shows "su_event su = e" and "\<not> is_expired now e"
    and "is_valid_timestamp now e (st_reject_future_seconds st)"
    and "su_auth_pubkey su = Option.bind (auth_pubkey (cl_conn cl)) (hex_decode X)"
  using assms by (auto simp: on_event_def split: if_splits option.splits)

lemma wrap_event_cmd_event:
  assumes "wrap_event_cmd X ec = Done (Inr (WrappedEvent e))"
  shows "cmd ec = ''EVENT''" and "validate X (cmd_event ec) = Inr ()"
    and "update_delegation X (build_index (cmd_event ec)) = Done e"
  using assms by (auto simp: wrap_event_cmd_def split: if_splits sum.splits)

text \<open>Only an event that arrived, is valid and is not expired reaches the writer.\<close>

lemma client_turn_submit:
  assumes "client_turn X st info now inp cl = Done (cl', outs, go)" and "Submit su \<in> set outs"
  obtains m ec where "inp = FromClient (WsText m)"
    and "convert_to_msg X m (max_event_bytes (st_limits st)) = Inr (EventMsg ec)"
    and "wrap_event_cmd X ec = Done (Inr (WrappedEvent (su_event su)))"
    and "Submit su \<in> set (on_event X st info now (su_event su) cl)"
proof -
  have g: "Submit su \<notin> set (on_global_event X st now e cl)" for e
    by (auto simp: on_global_event_def split: if_splits option.splits)
  have q: "Submit su \<notin> set (on_query_row X st now s v cl)" for s v
    by (simp add: on_query_row_def)
  have sub: "Submit su \<notin> set (snd (on_sub_msg st s cl))" for s
    by (auto simp: on_sub_msg_def Let_def split: prod.splits sum.splits option.splits if_splits)
  have cls: "Submit su \<notin> set (snd (on_close_msg cc cl))" for cc
    by (auto simp: on_close_msg_def split: sum.splits option.splits)
  have au: "Submit su \<notin> set (snd (on_auth X st now i e cl))" for i e
    by (auto simp: on_auth_def split: prod.splits sum.splits option.splits)
  from assms g q obtain m where m: "inp = FromClient (WsText m)" and t: "on_text X st info now m cl = Done (cl', outs)"
    by (auto simp: client_turn_def Let_def split: client_input.splits ws_input.splits if_splits)
  from t assms(2) sub cls obtain ec where c: "convert_to_msg X m (max_event_bytes (st_limits st)) = Inr (EventMsg ec)"
    and ev: "on_event_msg X st info now ec cl = Done (cl', outs)"
    by (auto simp: on_text_def split: sum.splits nostr_message.splits error.splits) (metis snd_conv)+
  from ev obtain r where r: "wrap_event_cmd X ec = Done r"
    and o: "(cl', outs) = (case r of
       Inr (WrappedEvent e) \<Rightarrow> (cl, on_event X st info now e cl)
     | Inr (WrappedAuth e) \<Rightarrow> on_auth X st now (event_id ec) e cl
     | Inl err \<Rightarrow> (cl, [SendJson (make_notice_message (notice_invalid (event_id ec) (error_text err)))]))"
    unfolding on_event_msg_def map_exec_eq_Done by blast
  obtain e where w: "wrap_event_cmd X ec = Done (Inr (WrappedEvent e))"
    and s: "Submit su \<in> set (on_event X st info now e cl)"
  proof (cases r)
    case (Inr we)
    show thesis
    proof (cases we)
      case (WrappedEvent e)
      with Inr r o assms(2) show thesis by (intro that [of e]) simp_all
    next
      case (WrappedAuth e)
      with Inr o have "outs = snd (on_auth X st now (event_id ec) e cl)" by (metis event_wrapper.simps(6) snd_conv sum.simps(6))
      with au assms(2) show thesis by simp
    qed
  qed (use o assms(2) in simp)
  from on_event_submit(1) [OF s] w s m c that show thesis by blast
qed

end
