(* ===== verification/Web.thy ===== *)
theory Web
  imports Relay_Info Server
begin

text \<open>
  The HTTP side of the relay (\<open>handle_web_request\<close> and \<open>get_pubkey\<close> of \<open>src/src/server.rs\<close>):
  the route of each path, what it reads from the repository and sends to the payment
  handler, and the response. The fixed HTML of a page is named by a constructor with the
  values that are put into it. The body of the request, the check of the handshake and the
  files are arguments, and so are the messages that arrive on the payment channel while the
  invoice page waits.
\<close>

section \<open>Requests and responses\<close>

text \<open>Names of headers are in lower case; a value that is not text is \<open>None\<close>; a query is what follows \<open>?\<close> in the URI.\<close>

record web_request =
  rq_path :: string
  rq_headers :: "(string \<times> string option) list"
  rq_query :: "string option"
  rq_body :: "bytes option"

datatype page =
    NoPage
  | TextPage string
  | FilePage bytes
  | InfoPage json
  | MetricsPage
  | JoinPage
  | InvoicePage u64 string string       \<comment> \<open>cost, invoice, key\<close>
  | AccountPage string string           \<comment> \<open>key, text\<close>

record web_response =
  rs_status :: nat
  rs_headers :: "(string \<times> string) list"
  rs_body :: page

text \<open>
  The outcome: an answer, a connection handed to the client loop after the answer to its
  handshake, or no answer as long as the invoice page waits.
\<close>

datatype web_outcome =
    Respond web_response
  | Upgrade client_info
  | Waiting

definition response :: "nat \<Rightarrow> (string \<times> string) list \<Rightarrow> page \<Rightarrow> web_response" where
  "response status hs b = \<lparr>rs_status = status, rs_headers = hs, rs_body = b\<rparr>"

definition plain_text :: "(string \<times> string) list" where
  "plain_text = [(''Content-Type'', ''text/plain'')]"

text \<open>The lookup ignores the case of the name.\<close>

definition get_header_string :: "string \<Rightarrow> (string \<times> string option) list \<Rightarrow> string option" where
  "get_header_string h hs = Option.bind (map_of hs (map ascii_lower_char h)) (\<lambda>v. v)"

section \<open>The key in the query\<close>

text \<open>\<open>splitn(2, '=')\<close>: the name, and the value if there is an equals sign.\<close>

fun split_pair :: "string \<Rightarrow> string \<times> string option" where
  "split_pair [] = ([], None)"
| "split_pair (c # s) =
     (if c = CHR ''='' then ([], Some s) else (let (k, v) = split_pair s in (c # k, v)))"

definition get_pubkey :: "string option \<Rightarrow> string option" where
  "get_pubkey query =
     foldl (\<lambda>acc pair. (let (k, v) = split_pair pair in if k = ''pubkey'' then v else acc)) None
       (split_char (CHR ''&'') (case query of Some q \<Rightarrow> q | None \<Rightarrow> []))"

section \<open>The callback of LNBits\<close>

definition callback_fields :: "string list" where
  "callback_fields = [''checking_id'', ''pending'', ''amount'', ''memo'', ''time'', ''bolt11'',
     ''preimage'', ''payment_hash'', ''wallet_id'', ''webhook'', ''webhook_status'']"

text \<open>The fields in order; the last may be null or, in an object, absent.\<close>

definition callback_of_fields :: "json list \<Rightarrow> string option" where
  "callback_of_fields vs =
     (case vs of
        [ci, pe, am, me, ti, bo, pr, ph, wa, we, ws] \<Rightarrow>
          if list_all (\<lambda>v. as_str v \<noteq> None) [ci, me, bo, pr, ph, wa, we] \<and> as_bool pe \<noteq> None
             \<and> as_u64 am \<noteq> None \<and> as_u64 ti \<noteq> None \<and> (ws = JNull \<or> as_str ws \<noteq> None)
          then as_str ph else None
      | _ \<Rightarrow> None)"

definition callback_hash :: "json \<Rightarrow> string option" where
  "callback_hash v =
     (case v of
        JArray vs \<Rightarrow> callback_of_fields vs
      | JObject m \<Rightarrow>
          Option.bind (all_some (map (map_of m) (butlast callback_fields))) (\<lambda>vs.
            callback_of_fields (vs @ [case map_of m ''webhook_status'' of Some w \<Rightarrow> w | None \<Rightarrow> JNull]))
      | _ \<Rightarrow> None)"

section \<open>Waiting for an invoice\<close>

datatype wait_result = GotInvoice invoice_info | NowAdmitted | ChannelFailed | StillWaiting

text \<open>A message, or \<open>None\<close> when the receiver fails.\<close>

fun wait_for_invoice :: "string \<Rightarrow> payment_message option list \<Rightarrow> wait_result" where
  "wait_for_invoice pk [] = StillWaiting"
| "wait_for_invoice pk (None # ms) = ChannelFailed"
| "wait_for_invoice pk (Some (InvoiceMsg p i) # ms) = (if p = pk then GotInvoice i else wait_for_invoice pk ms)"
| "wait_for_invoice pk (Some (AccountAdmitted p) # ms) = (if p = pk then NowAdmitted else wait_for_invoice pk ms)"
| "wait_for_invoice pk (Some _ # ms) = wait_for_invoice pk ms"

section \<open>Routes\<close>

record 'db web_env =
  wb_ext :: ext
  wb_settings :: settings
  wb_balance :: "string \<Rightarrow> 'db \<Rightarrow> error + bool \<times> u64"   \<comment> \<open>\<open>repo.get_account_balance\<close>\<close>
  wb_version :: "string option"
  wb_favicon :: "bytes option"
  wb_read_file :: "string \<Rightarrow> string + bytes"
  wb_handshake :: "web_request \<Rightarrow> string + unit"
  wb_remote_addr :: string
  wb_send_ok :: bool                                     \<comment> \<open>the payment channel has a receiver\<close>

type_synonym web_result = "(payment_message list \<times> web_outcome) exec"

definition answer :: "web_response \<Rightarrow> web_result" where
  "answer r = Done ([], Respond r)"

definition client_info_of :: "'db web_env \<Rightarrow> web_request \<Rightarrow> client_info" where
  "client_info_of env rq =
     \<lparr>ci_remote_ip =
        (case Option.bind (remote_ip_header (st_network (wb_settings env)))
                (\<lambda>h. get_header_string h (rq_headers rq)) of
           Some ip \<Rightarrow> ip | None \<Rightarrow> wb_remote_addr env),
      ci_user_agent = get_header_string ''user-agent'' (rq_headers rq),
      ci_origin = get_header_string ''origin'' (rq_headers rq)\<rparr>"

definition route_websocket :: "'db web_env \<Rightarrow> web_request \<Rightarrow> web_result" where
  "route_websocket env rq =
     (case wb_handshake env rq of
        Inr _ \<Rightarrow> Done ([], Upgrade (client_info_of env rq))
      | Inl err \<Rightarrow> answer (response 400 [] (TextPage (''Failed to create websocket: '' @ err))))"

definition route_root :: "'db web_env \<Rightarrow> web_request \<Rightarrow> web_result" where
  "route_root env rq =
     (let st = wb_settings env;
          dflt = response 200 plain_text (TextPage ''Please use a Nostr client to connect.'') in
      answer
        (if (case get_header_string ''accept'' (rq_headers rq) of
               Some mt \<Rightarrow> contains mt ''application/nostr+json'' | None \<Rightarrow> False)
         then response 200 [(''Content-Type'', ''application/nostr+json''), (''Access-Control-Allow-Origin'', ''*'')]
                (InfoPage (relay_info_to_json (relay_info_of (wb_version env) st)))
         else if pay_enabled (st_pay_to_relay st) then response 307 [(''location'', ''/join'')] NoPage
         else (case info_relay_page (st_info st) of
                 None \<Rightarrow> dflt
               | Some path \<Rightarrow>
                   (case wb_read_file env path of
                      Inr content \<Rightarrow> response 200 [(''Content-Type'', ''text/html; charset=UTF-8'')] (FilePage content)
                    | Inl _ \<Rightarrow> dflt))))"

definition route_favicon :: "'db web_env \<Rightarrow> web_result" where
  "route_favicon env =
     answer (case wb_favicon env of
        Some b \<Rightarrow> response 200 [(''Content-Type'', ''image/x-icon''), (''Cache-Control'', ''public, max-age=2419200'')]
                    (FilePage b)
      | None \<Rightarrow> response 404 [] (TextPage []))"

text \<open>Both unwraps: an unreadable body and a body that is not a callback panic.\<close>

definition route_lnbits :: "'db web_env \<Rightarrow> web_request \<Rightarrow> web_result" where
  "route_lnbits env rq =
     (case Option.bind (rq_body rq) (\<lambda>b. Option.bind (json_from_str (wb_ext env) b) callback_hash) of
        None \<Rightarrow> Panic
      | Some h \<Rightarrow>
          if wb_send_ok env then Done ([InvoicePaid h], Respond (response 200 [] (TextPage ''ok'')))
          else answer (response 500 [] (TextPage ''Error processing callback'')))"

definition no_joining :: web_response where
  "no_joining = response 401 plain_text (TextPage ''Sorry, joining is not allowed at the moment'')"

definition already_admitted :: web_response where
  "already_admitted = response 200 [] (TextPage ''Already admitted'')"

text \<open>The key of the query, with the two answers when there is none or it is malformed.\<close>

definition with_key :: "'db web_env \<Rightarrow> web_request \<Rightarrow> (string \<Rightarrow> string \<Rightarrow> web_result) \<Rightarrow> web_result" where
  "with_key env rq f =
     (case get_pubkey (rq_query rq) of
        None \<Rightarrow> answer (response 404 [(''location'', ''/join'')] NoPage)
      | Some pubkey \<Rightarrow>
          (case keys_from_pk (wb_ext env) pubkey of
             None \<Rightarrow> answer (response 401 plain_text (TextPage ''Looks like your key is invalid''))
           | Some key \<Rightarrow> f pubkey key))"

definition route_join :: "'db web_env \<Rightarrow> web_result" where
  "route_join env =
     answer (if sign_ups (st_pay_to_relay (wb_settings env)) then response 200 [] JoinPage else no_joining)"

definition route_invoice ::
  "'db web_env \<Rightarrow> payment_message option list \<Rightarrow> web_request \<Rightarrow> 'db \<Rightarrow> web_result" where
  "route_invoice env inbox rq db =
     (let pay = st_pay_to_relay (wb_settings env) in
      if \<not> sign_ups pay then answer no_joining
      else with_key env rq (\<lambda>pubkey key.
        (let ask = (\<lambda>m.
           if \<not> wb_send_ok env then answer (response 501 plain_text (TextPage ''Sorry, something went wrong''))
           else Done ([m],
             (case wait_for_invoice pubkey inbox of
                GotInvoice i \<Rightarrow>
                  Respond (response 200 [] (InvoicePage (admission_cost pay) (i_bolt11 i) pubkey))
              | NowAdmitted \<Rightarrow> Respond already_admitted
              | ChannelFailed \<Rightarrow> Respond (response 500 [] (TextPage ''Sorry, could not get invoice''))
              | StillWaiting \<Rightarrow> Waiting)))
         in case wb_balance env key db of
              Inr (True, _) \<Rightarrow> answer already_admitted
            | Inr (False, _) \<Rightarrow> ask (CheckAccount pubkey)
            | Inl _ \<Rightarrow> ask (NewAccount pubkey))))"

definition route_account :: "'db web_env \<Rightarrow> web_request \<Rightarrow> 'db \<Rightarrow> web_result" where
  "route_account env rq db =
     (if \<not> pay_enabled (st_pay_to_relay (wb_settings env))
      then answer (response 401 plain_text (TextPage ''This relay is not paid''))
      else with_key env rq (\<lambda>pubkey key.
        Done (if wb_send_ok env then [CheckAccount pubkey] else [],
          Respond (response 200 [] (AccountPage pubkey
            (case wb_balance env key db of
               Inr (True, _) \<Rightarrow> ''<span style='' @ quote @ ''color: green;'' @ quote @ ''>is</span>''
             | Inr (False, _) \<Rightarrow> ''<span style='' @ quote @ ''color: red;'' @ quote @ ''>is not</span>''
             | Inl _ \<Rightarrow> ''Could not get admission status''))))))"

definition handle_web_request ::
  "'db web_env \<Rightarrow> payment_message option list \<Rightarrow> web_request \<Rightarrow> 'db \<Rightarrow> web_result" where
  "handle_web_request env inbox rq db =
     (let upgrade = map_of (rq_headers rq) ''upgrade'' \<noteq> None; path = rq_path rq in
      if path = ''/'' \<and> upgrade then route_websocket env rq
      else if upgrade then answer (response 404 [] (TextPage ''Nothing here.''))
      else if path = ''/'' then route_root env rq
      else if path = ''/metrics'' then answer (response 200 plain_text MetricsPage)
      else if path = ''/favicon.ico'' then route_favicon env
      else if path = ''/lnbits'' then route_lnbits env rq
      else if path = ''/terms'' then
        answer (response 200 plain_text (TextPage (terms_message (st_pay_to_relay (wb_settings env)))))
      else if path = ''/join'' then route_join env
      else if path = ''/invoice'' then route_invoice env inbox rq db
      else if path = ''/account'' then route_account env rq db
      else answer (response 404 [] (TextPage ''Nothing here.'')))"

section \<open>Lemmas\<close>

lemma split_pair_name: "CHR ''='' \<notin> set k \<Longrightarrow> split_pair (k @ CHR ''='' # v) = (k, Some v)"
  by (induction k) auto

lemma wait_for_invoice_GotInvoice:
  "wait_for_invoice pk ms = GotInvoice i \<Longrightarrow> Some (InvoiceMsg pk i) \<in> set ms"
  by (induction pk ms rule: wait_for_invoice.induct) (auto split: if_splits)

text \<open>The only request that panics.\<close>

lemma with_key_Panic: "with_key env rq f = Panic \<Longrightarrow> \<exists>p k. f p k = Panic"
  by (auto simp: with_key_def answer_def split: option.splits)

lemma web_Panic:
  "handle_web_request env inbox rq db = Panic \<longleftrightarrow>
     rq_path rq = ''/lnbits'' \<and> map_of (rq_headers rq) ''upgrade'' = None
     \<and> Option.bind (rq_body rq) (\<lambda>b. Option.bind (json_from_str (wb_ext env) b) callback_hash) = None"
proof -
  have "route_invoice env inbox rq db \<noteq> Panic"
    by (auto simp: route_invoice_def Let_def answer_def split: if_splits sum.splits bool.splits dest!: with_key_Panic)
  moreover have "route_account env rq db \<noteq> Panic"
    by (auto simp: route_account_def answer_def split: if_splits dest!: with_key_Panic)
  ultimately show ?thesis
    by (auto simp: handle_web_request_def Let_def route_websocket_def answer_def route_root_def route_favicon_def
        route_lnbits_def route_join_def split: sum.splits option.splits if_splits)
qed

text \<open>What reaches the payment handler.\<close>

lemma web_messages:
  assumes "handle_web_request env inbox rq db = Done (ms, out)"
  shows "ms = [] \<or> (\<exists>h. ms = [InvoicePaid h] \<and> rq_path rq = ''/lnbits'')
    \<or> (\<exists>pk key. get_pubkey (rq_query rq) = Some pk \<and> keys_from_pk (wb_ext env) pk = Some key
        \<and> (ms = [CheckAccount pk] \<or> ms = [NewAccount pk] \<and> (\<exists>e. wb_balance env key db = Inl e)))"
  using assms
  by (auto simp: handle_web_request_def Let_def route_websocket_def answer_def route_root_def route_favicon_def
      route_lnbits_def route_join_def route_invoice_def route_account_def with_key_def
      split: sum.splits option.splits if_splits bool.splits)

text \<open>A page with an invoice is only shown to a key whose invoice the handler announced.\<close>

lemma web_invoice_page:
  assumes "handle_web_request env inbox rq db = Done (ms, Respond r)" and "rs_body r = InvoicePage c b pk"
  shows "sign_ups (st_pay_to_relay (wb_settings env)) \<and> c = admission_cost (st_pay_to_relay (wb_settings env))
    \<and> get_pubkey (rq_query rq) = Some pk
    \<and> (\<exists>i. Some (InvoiceMsg pk i) \<in> set inbox \<and> i_bolt11 i = b)
    \<and> (\<forall>key n. keys_from_pk (wb_ext env) pk = Some key \<longrightarrow> wb_balance env key db \<noteq> Inr (True, n))"
  using assms
  by (auto simp: handle_web_request_def Let_def route_websocket_def answer_def route_root_def route_favicon_def
      route_lnbits_def route_join_def route_invoice_def route_account_def with_key_def response_def
      no_joining_def already_admitted_def
      split: sum.splits option.splits if_splits bool.splits wait_result.splits)
    (blast intro: wait_for_invoice_GotInvoice)+

end
