(* ===== verification/Payment.thy ===== *)
theory Payment
  imports Sqlite_Accounts
begin

text \<open>
  The payment handler (\<open>src/src/payment/mod.rs\<close>) and its two processors, \<open>lnbits.rs\<close> and
  \<open>cln_rest.rs\<close>. The handler is a computation on the repository's state that sends
  messages and may fail or panic; \<open>pay_bind\<close> is the \<open>?\<close> operator. The HTTP client, URL
  parsing, the types of the \<open>cln_rpc\<close> crate and the encryption of direct messages are
  fields of \<open>pay_ext\<close>; a URL is its text.
\<close>

section \<open>Computations that may fail or panic\<close>

fun try_bind :: "('e + 'a) exec \<Rightarrow> ('a \<Rightarrow> ('e + 'b) exec) \<Rightarrow> ('e + 'b) exec" where
  "try_bind Panic f = Panic"
| "try_bind (Done (Inl e)) f = Done (Inl e)"
| "try_bind (Done (Inr x)) f = f x"

definition try_map_err :: "('s \<Rightarrow> error) \<Rightarrow> 's + 'a \<Rightarrow> (error + 'a) exec" where
  "try_map_err k r = Done (case r of Inl s \<Rightarrow> Inl (k s) | Inr x \<Rightarrow> Inr x)"

definition unwrap :: "'a option \<Rightarrow> (error + 'a) exec" where
  "unwrap m = (case m of None \<Rightarrow> Panic | Some x \<Rightarrow> Done (Inr x))"

definition must :: "bool \<Rightarrow> (error + unit) exec" where
  "must b = (if b then Done (Inr ()) else Panic)"

datatype 'a outcome = Value 'a | Fail error | Crash

datatype payment_output = SendPayment payment_message | SendEvent event

type_synonym ('db, 'a) pay = "'db \<Rightarrow> 'db \<times> payment_output list \<times> 'a outcome"

definition pay_return :: "'a \<Rightarrow> ('db, 'a) pay" where
  "pay_return x = (\<lambda>db. (db, [], Value x))"

definition pay_fail :: "error \<Rightarrow> ('db, 'a) pay" where
  "pay_fail e = (\<lambda>db. (db, [], Fail e))"

definition pay_send :: "payment_output \<Rightarrow> ('db, unit) pay" where
  "pay_send out = (\<lambda>db. (db, [out], Value ()))"

definition pay_bind :: "('db, 'a) pay \<Rightarrow> ('a \<Rightarrow> ('db, 'b) pay) \<Rightarrow> ('db, 'b) pay" where
  "pay_bind m f = (\<lambda>db.
     case m db of
       (db1, outs, Value x) \<Rightarrow> (case f x db1 of (db2, outs2, r) \<Rightarrow> (db2, outs @ outs2, r))
     | (db1, outs, Fail e) \<Rightarrow> (db1, outs, Fail e)
     | (db1, outs, Crash) \<Rightarrow> (db1, outs, Crash))"

text \<open>A call of the repository that changes it, one that reads it, and one of neither.\<close>

definition pay_update :: "('db \<Rightarrow> 'db \<times> (error + 'a)) \<Rightarrow> ('db, 'a) pay" where
  "pay_update f = (\<lambda>db. case f db of (db1, Inr x) \<Rightarrow> (db1, [], Value x) | (db1, Inl e) \<Rightarrow> (db1, [], Fail e))"

definition pay_read :: "('db \<Rightarrow> 'a) \<Rightarrow> ('db, 'a) pay" where
  "pay_read f = (\<lambda>db. (db, [], Value (f db)))"

definition pay_exec :: "(error + 'a) exec \<Rightarrow> ('db, 'a) pay" where
  "pay_exec r = (\<lambda>db. (db, [], case r of Panic \<Rightarrow> Crash | Done (Inl e) \<Rightarrow> Fail e | Done (Inr x) \<Rightarrow> Value x))"

section \<open>External code\<close>

record http_request =
  hq_method :: string
  hq_uri :: string
  hq_headers :: "(string \<times> string) list"
  hq_body :: string

datatype cln_status = ClnPaid | ClnUnpaid | ClnExpired

text \<open>An event of the \<open>nostr\<close> crate, each field as the text or number its accessor gives.\<close>

record nostr_event =
  ne_id :: string
  ne_pubkey :: string
  ne_created_at :: u64
  ne_kind :: u64
  ne_tags :: "tag list"
  ne_content :: string
  ne_sig :: string

record pay_ext =
  px_url_parse :: "string \<Rightarrow> string + string"             \<comment> \<open>\<open>Url::parse\<close>\<close>
  px_url_join :: "string \<Rightarrow> string \<Rightarrow> string + string"    \<comment> \<open>\<open>Url::join\<close>\<close>
  px_header_ok :: "string \<Rightarrow> bool"                       \<comment> \<open>a value \<open>HeaderValue\<close> accepts\<close>
  px_http :: "http_request \<Rightarrow> string + bytes"            \<comment> \<open>the error's text, or the body\<close>
  px_cln_request :: "u64 \<Rightarrow> string \<Rightarrow> string \<Rightarrow> string option"
    \<comment> \<open>the text of an \<open>InvoiceRequest\<close> of an amount in satoshis, a description and a label\<close>
  px_cln_invoice :: "bytes \<Rightarrow> string + string \<times> string" \<comment> \<open>\<open>InvoiceResponse\<close>: hash and bolt11\<close>
  px_cln_list :: "bytes \<Rightarrow> string + cln_status list"      \<comment> \<open>\<open>ListinvoicesResponse\<close>\<close>
  px_dm :: "string \<Rightarrow> string \<Rightarrow> string \<Rightarrow> string + nostr_event"
    \<comment> \<open>encrypted message from a secret key to a public key\<close>

definition event_of_nostr :: "nostr_event \<Rightarrow> event" where
  "event_of_nostr n =
     \<lparr>e_id = ne_id n, e_pubkey = ne_pubkey n, e_delegated_by = None, e_created_at = ne_created_at n,
      e_kind = ne_kind n, e_tags = ne_tags n, e_content = ne_content n, e_sig = ne_sig n,
      e_tagidx = None\<rparr>"

text \<open>The interface \<open>PaymentProcessor\<close>; the number is the random part of the memo.\<close>

record payment_processor =
  pp_get_invoice :: "16 word \<Rightarrow> string \<Rightarrow> u64 \<Rightarrow> (error + invoice_info) exec"
  pp_check_invoice :: "string \<Rightarrow> (error + invoice_status) exec"

section \<open>LNBits\<close>

definition api_path :: string where
  "api_path = ''/api/v1/payments/''"

text \<open>\<open>serde\<close> reads a struct from an object or, in the order of its fields, from an array.\<close>

definition lnbits_create_response :: "json \<Rightarrow> (string \<times> string) option" where
  "lnbits_create_response v =
     (case v of
        JObject m \<Rightarrow>
          (case (map_of m ''payment_hash'', map_of m ''payment_request'') of
             (Some (JString h), Some (JString r)) \<Rightarrow> Some (h, r) | _ \<Rightarrow> None)
      | JArray [JString h, JString r] \<Rightarrow> Some (h, r)
      | _ \<Rightarrow> None)"

definition lnbits_check_response :: "json \<Rightarrow> bool option" where
  "lnbits_check_response v =
     (case v of
        JObject m \<Rightarrow> Option.bind (map_of m ''paid'') as_bool
      | JArray [JBool b] \<Rightarrow> Some b
      | _ \<Rightarrow> None)"

definition invoice_memo :: "16 word \<Rightarrow> string \<Rightarrow> string" where
  "invoice_memo rnd key = nat_to_dec (unat rnd) @ '': '' @ key"

definition new_invoice :: "string \<Rightarrow> string \<Rightarrow> string \<Rightarrow> u64 \<Rightarrow> string \<Rightarrow> invoice_info" where
  "new_invoice key payment_hash bolt11 amount memo =
     \<lparr>i_pubkey = key, i_payment_hash = payment_hash, i_bolt11 = bolt11, i_amount = amount,
      i_status = Unpaid, i_memo = memo, i_confirmed_at = None\<rparr>"

definition lnbits_create_body :: "u64 \<Rightarrow> string \<Rightarrow> string \<Rightarrow> json" where
  "lnbits_create_body amount memo webhook =
     JObject [(''out'', JBool False), (''amount'', JNumber (PosInt amount)), (''memo'', JString memo),
       (''webhook'', JString webhook), (''unit'', JString ''sat''), (''internal'', JBool False),
       (''expiry'', JNumber (PosInt 3600))]"

definition strip_last_slash :: "string \<Rightarrow> string" where
  "strip_last_slash s = (if s \<noteq> [] \<and> last s = CHR ''/'' then butlast s else s)"

definition lnbits_get_invoice ::
  "ext \<Rightarrow> pay_ext \<Rightarrow> settings \<Rightarrow> 16 word \<Rightarrow> string \<Rightarrow> u64 \<Rightarrow> (error + invoice_info) exec" where
  "lnbits_get_invoice X P st rnd key amount =
     (let memo = invoice_memo rnd key; pay = st_pay_to_relay st in
      try_bind (unwrap (relay_url (st_info st))) (\<lambda>relay.
      try_bind (try_map_err URLParseError (px_url_parse P (replace_all ''ws'' ''http'' relay))) (\<lambda>base.
      try_bind (try_map_err URLParseError (px_url_join P base ''lnbits'')) (\<lambda>callback_url.
      try_bind (try_map_err URLParseError (px_url_parse P (node_url pay))) (\<lambda>node.
      try_bind (try_map_err URLParseError (px_url_join P node api_path)) (\<lambda>url.
      let uri = strip_last_slash url in
      try_bind (must (uri_valid X uri)) (\<lambda>_.
      try_bind (Done (ok_or (json_to_string X (lnbits_create_body amount memo callback_url))
                        (JsonParseFailed []))) (\<lambda>body.
      try_bind (must (px_header_ok P (api_secret pay))) (\<lambda>_.
      try_bind (try_map_err HyperError (px_http P \<lparr>hq_method = ''POST'', hq_uri = uri,
                  hq_headers = [(''X-Api-Key'', api_secret pay)], hq_body = body\<rparr>)) (\<lambda>res.
      try_bind (Done (ok_or (Option.bind (json_from_str X res) lnbits_create_response)
                        (JsonParseFailed (json_error X res)))) (\<lambda>(h, r).
      Done (Inr (new_invoice key h r amount memo)))))))))))))"

definition lnbits_check_invoice ::
  "ext \<Rightarrow> pay_ext \<Rightarrow> settings \<Rightarrow> string \<Rightarrow> (error + invoice_status) exec" where
  "lnbits_check_invoice X P st payment_hash =
     (let pay = st_pay_to_relay st in
      try_bind (try_map_err URLParseError (px_url_parse P (node_url pay))) (\<lambda>node.
      try_bind (try_map_err URLParseError (px_url_join P node api_path)) (\<lambda>api.
      try_bind (try_map_err URLParseError (px_url_join P api payment_hash)) (\<lambda>url.
      try_bind (must (uri_valid X url)) (\<lambda>_.
      try_bind (must (px_header_ok P (api_secret pay))) (\<lambda>_.
      try_bind (try_map_err HyperError (px_http P \<lparr>hq_method = ''GET'', hq_uri = url,
                  hq_headers = [(''X-Api-Key'', api_secret pay)], hq_body = []\<rparr>)) (\<lambda>res.
      try_bind (Done (ok_or (json_from_str X res) (JsonParseFailed (json_error X res)))) (\<lambda>v.
      Done (Inr (case lnbits_check_response v of
                   Some True \<Rightarrow> Paid | Some False \<Rightarrow> Unpaid | None \<Rightarrow> Expired))))))))))"

definition lnbits_processor :: "ext \<Rightarrow> pay_ext \<Rightarrow> settings \<Rightarrow> payment_processor" where
  "lnbits_processor X P st =
     \<lparr>pp_get_invoice = lnbits_get_invoice X P st, pp_check_invoice = lnbits_check_invoice X P st\<rparr>"

section \<open>Core Lightning\<close>

text \<open>The header that \<open>new\<close> reads from the file of the rune.\<close>

definition cln_new ::
  "ext \<Rightarrow> pay_ext \<Rightarrow> (string \<Rightarrow> string + bytes) \<Rightarrow> (bytes \<Rightarrow> bool) \<Rightarrow> settings \<Rightarrow> error + string" where
  "cln_new X P read_file is_utf8 st =
     (case rune_path (st_pay_to_relay st) of
        None \<Rightarrow> Inl (ConfigError ''configuration property \"rune_path\" not found'')
      | Some path \<Rightarrow>
          (case read_file path of
             Inl s \<Rightarrow> Inl (IoError s)
           | Inr rune \<Rightarrow>
               if \<not> is_utf8 rune then Inl (ConfigError ''Rune should be UTF8'')
               else if \<not> px_header_ok P (trim X rune) then Inl (ConfigError ''Invalid Rune header'')
               else Inr (trim X rune)))"

definition cln_request :: "string \<Rightarrow> string \<Rightarrow> string \<Rightarrow> http_request" where
  "cln_request uri rune body =
     \<lparr>hq_method = ''POST'', hq_uri = uri,
      hq_headers = [(''content-type'', ''application/json''), (''Rune'', rune)], hq_body = body\<rparr>"

definition check_uri :: "ext \<Rightarrow> string \<Rightarrow> (error + unit) exec" where
  "check_uri X uri = Done (if uri_valid X uri then Inr () else Inl (ConfigError ''Bad node URL''))"

definition cln_get_invoice ::
  "ext \<Rightarrow> pay_ext \<Rightarrow> string \<Rightarrow> settings \<Rightarrow> 16 word \<Rightarrow> string \<Rightarrow> u64 \<Rightarrow> (error + invoice_info) exec" where
  "cln_get_invoice X P rune st rnd key amount =
     (let memo = invoice_memo rnd key;
          uri = node_url (st_pay_to_relay st) @ ''/v1/invoice'' in
      try_bind (check_uri X uri) (\<lambda>_.
      try_bind (Done (ok_or (px_cln_request P amount memo ''Nostr'') (JsonParseFailed []))) (\<lambda>body.
      try_bind (try_map_err HyperError (px_http P (cln_request uri rune body))) (\<lambda>res.
      try_bind (try_map_err JsonParseFailed (px_cln_invoice P res)) (\<lambda>(h, bolt11).
      Done (Inr (new_invoice key h bolt11 amount memo)))))))"

definition cln_check_invoice ::
  "ext \<Rightarrow> pay_ext \<Rightarrow> string \<Rightarrow> settings \<Rightarrow> string \<Rightarrow> (error + invoice_status) exec" where
  "cln_check_invoice X P rune st payment_hash =
     (let uri = node_url (st_pay_to_relay st) @ ''/v1/listinvoices?payment_hash='' @ payment_hash in
      try_bind (check_uri X uri) (\<lambda>_.
      try_bind (try_map_err HyperError (px_http P (cln_request uri rune []))) (\<lambda>res.
      try_bind (try_map_err JsonParseFailed (px_cln_list P res)) (\<lambda>invs.
      Done (case invs of
              [] \<Rightarrow> Inl (CustomError ''Invoice not found'')
            | ClnPaid # _ \<Rightarrow> Inr Paid
            | ClnUnpaid # _ \<Rightarrow> Inr Unpaid
            | ClnExpired # _ \<Rightarrow> Inr Expired)))))"

definition cln_processor :: "ext \<Rightarrow> pay_ext \<Rightarrow> string \<Rightarrow> settings \<Rightarrow> payment_processor" where
  "cln_processor X P rune st =
     \<lparr>pp_get_invoice = cln_get_invoice X P rune st, pp_check_invoice = cln_check_invoice X P rune st\<rparr>"

section \<open>The handler\<close>

record 'db payment =
  pm_ext :: ext
  pm_settings :: settings
  pm_repo :: "'db nostr_repo"
  pm_keys :: "string option"
  pm_processor :: payment_processor
  pm_dm :: "string \<Rightarrow> string \<Rightarrow> string \<Rightarrow> string + nostr_event"

text \<open>\<open>keys_from_sk\<close> is \<open>Keys::from_sk_str\<close>.\<close>

definition payment_new ::
  "ext \<Rightarrow> pay_ext \<Rightarrow> (string \<Rightarrow> string option) \<Rightarrow> (string \<Rightarrow> string + bytes) \<Rightarrow> (bytes \<Rightarrow> bool)
     \<Rightarrow> 'db nostr_repo \<Rightarrow> settings \<Rightarrow> error + 'db payment" where
  "payment_new X P keys_from_sk read_file is_utf8 R st =
     (let pay = st_pay_to_relay st in
      result_bind
        (case secret_key pay of
           None \<Rightarrow> Inr None
         | Some sk \<Rightarrow> (case keys_from_sk sk of None \<Rightarrow> Inl (NostrKeyError []) | Some k \<Rightarrow> Inr (Some k)))
        (\<lambda>keys.
      result_bind
        (case pay_processor pay of
           LNBits \<Rightarrow> Inr (lnbits_processor X P st)
         | ClnRest \<Rightarrow> result_bind (cln_new X P read_file is_utf8 st) (\<lambda>rune. Inr (cln_processor X P rune st)))
        (\<lambda>proc.
      Inr \<lparr>pm_ext = X, pm_settings = st, pm_repo = R, pm_keys = keys, pm_processor = proc,
           pm_dm = px_dm P\<rparr>)))"

definition parse_key :: "'db payment \<Rightarrow> string \<Rightarrow> ('db, string) pay" where
  "parse_key pm pubkey =
     (case keys_from_pk (pm_ext pm) pubkey of
        None \<Rightarrow> pay_fail (NostrKeyError []) | Some k \<Rightarrow> pay_return k)"

definition dm_event :: "'db payment \<Rightarrow> string \<Rightarrow> string \<Rightarrow> string \<Rightarrow> ('db, event) pay" where
  "dm_event pm sk pubkey content =
     (case pm_dm pm sk pubkey content of
        Inl s \<Rightarrow> pay_fail (EventError s) | Inr n \<Rightarrow> pay_return (event_of_nostr n))"

text \<open>Two messages, the terms and the invoice, are stored and then broadcast.\<close>

definition send_admission_message :: "'db payment \<Rightarrow> string \<Rightarrow> invoice_info \<Rightarrow> ('db, unit) pay" where
  "send_admission_message pm pubkey info =
     (case pm_keys pm of
        None \<Rightarrow> pay_fail (CustomError ''Nostr key not defined'')
      | Some sk \<Rightarrow>
          pay_bind (parse_key pm pubkey) (\<lambda>key.
          pay_bind (dm_event pm sk key (terms_message (st_pay_to_relay (pm_settings pm)))) (\<lambda>message_event.
          pay_bind (dm_event pm sk key (i_bolt11 info)) (\<lambda>invoice_event.
          pay_bind (pay_update (rp_write_event (pm_repo pm) message_event)) (\<lambda>_.
          pay_bind (pay_update (rp_write_event (pm_repo pm) invoice_event)) (\<lambda>_.
          pay_bind (pay_send (SendEvent message_event)) (\<lambda>_.
          pay_send (SendEvent invoice_event))))))))"

definition create_new_invoice :: "'db payment \<Rightarrow> 16 word \<Rightarrow> string \<Rightarrow> u64 \<Rightarrow> ('db, invoice_info) pay" where
  "create_new_invoice pm rnd pubkey amount =
     pay_bind (parse_key pm pubkey) (\<lambda>key.
     pay_bind (pay_exec (pp_get_invoice (pm_processor pm) rnd key amount)) (\<lambda>info.
     pay_bind (pay_update (rp_create_invoice (pm_repo pm) key info)) (\<lambda>_.
     pay_bind (if direct_message (st_pay_to_relay (pm_settings pm))
               then send_admission_message pm pubkey info else pay_return ()) (\<lambda>_.
     pay_return info))))"

text \<open>An unpaid invoice of an account that exists is used again.\<close>

definition get_invoice_info :: "'db payment \<Rightarrow> 16 word \<Rightarrow> string \<Rightarrow> u64 \<Rightarrow> ('db, invoice_info) pay" where
  "get_invoice_info pm rnd pubkey amount =
     pay_bind (parse_key pm pubkey) (\<lambda>key.
     pay_bind (pay_update (rp_create_account (pm_repo pm) key)) (\<lambda>created.
     pay_bind (pay_read (rp_unpaid_invoice (pm_repo pm) key)) (\<lambda>unpaid.
       case unpaid of
         Inr (Some info) \<Rightarrow> if created then create_new_invoice pm rnd pubkey amount else pay_return info
       | _ \<Rightarrow> create_new_invoice pm rnd pubkey amount)))"

definition check_invoice_status :: "'db payment \<Rightarrow> string \<Rightarrow> ('db, invoice_status) pay" where
  "check_invoice_status pm payment_hash =
     pay_bind (pay_exec (pp_check_invoice (pm_processor pm) payment_hash)) (\<lambda>status.
     pay_bind (pay_update (rp_update_invoice (pm_repo pm) payment_hash status)) (\<lambda>_.
     pay_return status))"

definition offer_invoice :: "'db payment \<Rightarrow> 16 word \<Rightarrow> string \<Rightarrow> ('db, unit) pay" where
  "offer_invoice pm rnd pubkey =
     pay_bind (get_invoice_info pm rnd pubkey (admission_cost (st_pay_to_relay (pm_settings pm)))) (\<lambda>info.
     pay_send (SendPayment (InvoiceMsg pubkey info)))"

definition on_check_account :: "'db payment \<Rightarrow> 16 word \<Rightarrow> string \<Rightarrow> ('db, unit) pay" where
  "on_check_account pm rnd pubkey =
     pay_bind (parse_key pm pubkey) (\<lambda>key.
     pay_bind (pay_read (rp_unpaid_invoice (pm_repo pm) key)) (\<lambda>unpaid.
       case unpaid of
         Inr (Some info) \<Rightarrow>
           pay_bind (check_invoice_status pm (i_payment_hash info)) (\<lambda>status.
             if status = Paid
             then pay_bind (pay_update (rp_admit_account (pm_repo pm) key
                              (admission_cost (st_pay_to_relay (pm_settings pm))))) (\<lambda>_.
                  pay_send (SendPayment (AccountAdmitted pubkey)))
             else pay_send (SendPayment (InvoiceMsg pubkey info)))
       | _ \<Rightarrow> offer_invoice pm rnd pubkey))"

definition on_invoice_paid :: "'db payment \<Rightarrow> string \<Rightarrow> ('db, unit) pay" where
  "on_invoice_paid pm payment_hash =
     pay_bind (check_invoice_status pm payment_hash) (\<lambda>status.
       if status = Paid
       then pay_bind (pay_update (rp_update_invoice (pm_repo pm) payment_hash Paid)) (\<lambda>pubkey.
            pay_bind (parse_key pm pubkey) (\<lambda>key.
            pay_update (rp_admit_account (pm_repo pm) key
              (admission_cost (st_pay_to_relay (pm_settings pm))))))
       else pay_return ())"

text \<open>One turn; \<open>None\<close> is a lost or closed channel. A failure is logged and the loop goes on.\<close>

definition payment_turn :: "'db payment \<Rightarrow> 16 word \<Rightarrow> payment_message option \<Rightarrow> ('db, unit) pay" where
  "payment_turn pm rnd msg =
     (case msg of
        Some (NewAccount pubkey) \<Rightarrow> offer_invoice pm rnd pubkey
      | Some (CheckAccount pubkey) \<Rightarrow> on_check_account pm rnd pubkey
      | Some (InvoicePaid payment_hash) \<Rightarrow> on_invoice_paid pm payment_hash
      | _ \<Rightarrow> pay_return ())"

text \<open>
  The loop over the messages, each with the handler's parameters at that moment; a panic
  ends the task. The flag says whether the loop is still running.
\<close>

fun payment_loop ::
  "('db payment \<times> 16 word \<times> payment_message option) list \<Rightarrow> 'db \<Rightarrow> 'db \<times> payment_output list \<times> bool" where
  "payment_loop [] db = (db, [], True)"
| "payment_loop ((pm, rnd, msg) # turns) db =
     (case payment_turn pm rnd msg db of
        (db1, outs, Crash) \<Rightarrow> (db1, outs, False)
      | (db1, outs, _) \<Rightarrow>
          (case payment_loop turns db1 of (db2, outs2, go) \<Rightarrow> (db2, outs @ outs2, go)))"

end
