(* ===== verification/Sqlite_Query.thy ===== *)
theory Sqlite_Query
  imports Sqlite_Repo Subscription "HOL-Library.Multiset"
begin

text \<open>
  Queries on the SQLite store (\<open>override_index\<close>, \<open>query_from_filter\<close> and
  \<open>query_subscription\<close> of \<open>src/src/repo/sqlite.rs\<close>). The text of a query is built as in
  the source. What the text means is given once, on a structured form of the query: the
  text is the printed form of the query \<open>select_of_filter\<close>, whose conditions are
  evaluated on the tables. The order in which SQLite visits rows, on which the choice among
  rows with equal times depends, is the argument \<open>scan\<close>; index hints do not matter
  otherwise.
\<close>

section \<open>The text of a query\<close>

datatype sql_param = PBlob "bytes option" | PText string | PInt u64

definition override_index :: "req_filter \<Rightarrow> string option" where
  "override_index f =
     (if f_ids f \<noteq> None then Some ''event_hash_index''
      else if (case f_kinds f of
                 Some ks \<Rightarrow> 1 < length ks \<and> f_since f = None \<and> f_until f = None
                            \<and> f_tags f = None \<and> f_authors f = None
               | None \<Rightarrow> False)
      then Some ''kind_created_at_index''
      else if f_authors f \<noteq> None then
        (if f_since f = None \<and> f_until f = None \<and> f_limit f = None
         then (if f_kinds f = None then Some ''author_index'' else Some ''author_kind_index'')
         else Some ''author_created_at_index'')
      else None)"

definition repeat_vars :: "nat \<Rightarrow> string" where
  "repeat_vars n = (if n = 0 then [] else butlast (concat (replicate n ''?,'')))"

definition kinds_text :: "u64 list \<Rightarrow> string" where
  "kinds_text ks = ''kind IN ('' @ join_with '', '' (map u64_to_string ks) @ '')''"

definition tag_clause :: "req_filter \<Rightarrow> string list \<Rightarrow> string" where
  "tag_clause f vals =
     (let str_clause = ''AND value IN ('' @ repeat_vars (length vals) @ '')'';
          kind_clause = (case f_kinds f of Some ks \<Rightarrow> ''AND '' @ kinds_text ks | None \<Rightarrow> []);
          since_clause = (case f_since f of Some t \<Rightarrow> ''AND created_at >= '' @ u64_to_string t | None \<Rightarrow> []);
          until_clause = (case f_until f of Some t \<Rightarrow> ''AND created_at <= '' @ u64_to_string t | None \<Rightarrow> [])
      in ''e.id IN (SELECT t.event_id FROM tag t WHERE (name=? '' @ str_clause @ '' '' @ kind_clause
         @ '' '' @ since_clause @ '' '' @ until_clause @ ''))'')"

text \<open>One clause of the condition for each part of the filter, with its parameters.\<close>

definition blob_clause :: "ext \<Rightarrow> string \<Rightarrow> string list \<Rightarrow> string \<times> sql_param list" where
  "blob_clause X col vals =
     (if vals = [] then ''false'' else ''('' @ join_with '' OR '' (map (\<lambda>v. col @ ''=?'') vals) @ '')'',
      map (\<lambda>v. PBlob (hex_decode X v)) vals)"

definition filter_clauses :: "ext \<Rightarrow> u64 \<Rightarrow> req_filter \<Rightarrow> (string \<times> sql_param list) list" where
  "filter_clauses X now f =
     (case f_authors f of None \<Rightarrow> [] | Some as \<Rightarrow> [blob_clause X ''author'' as])
     @ (case f_kinds f of None \<Rightarrow> [] | Some ks \<Rightarrow> [(kinds_text ks, [])])
     @ (case f_ids f of None \<Rightarrow> [] | Some is \<Rightarrow> [blob_clause X ''event_hash'' is])
     @ (case f_tags f of
          None \<Rightarrow> []
        | Some m \<Rightarrow> map (\<lambda>(k, vs). (tag_clause f vs, PText k # map PText vs)) m)
     @ (case f_since f of None \<Rightarrow> [] | Some t \<Rightarrow> [(''created_at >= '' @ u64_to_string t, [])])
     @ (case f_until f of None \<Rightarrow> [] | Some t \<Rightarrow> [(''created_at <= '' @ u64_to_string t, [])])
     @ [(''(expires_at IS NULL OR expires_at > ?)'', [PInt now])]"

definition query_from_filter ::
  "ext \<Rightarrow> u64 \<Rightarrow> req_filter \<Rightarrow> string \<times> sql_param list \<times> string option" where
  "query_from_filter X now f =
     (if force_no_match f then (''SELECT e.content FROM event e WHERE 1=0'', [], None)
      else (let idx = override_index f;
                idx_stmt = (case idx of None \<Rightarrow> [] | Some i \<Rightarrow> ''INDEXED BY '' @ i);
                cs = filter_clauses X now f
            in (''SELECT e.content FROM event e '' @ idx_stmt @ '' WHERE hidden!=TRUE''
                @ '' AND '' @ join_with '' AND '' (map fst cs)
                @ (case f_limit f of
                     Some n \<Rightarrow> '' ORDER BY e.created_at DESC LIMIT '' @ u64_to_string n
                   | None \<Rightarrow> '' ORDER BY e.created_at ASC''),
                concat (map snd cs), idx)))"

section \<open>The structured form\<close>

datatype sql_cond =
    BlobIn bool "bytes option list"    \<comment> \<open>on the author, or else on the hash\<close>
  | KindIn "u64 list"
  | TagIn string "string list" "u64 list option" "u64 option" "u64 option"
  | CreatedFrom u64
  | CreatedTo u64
  | NotExpired u64

text \<open>A query, or the one that returns nothing; the limit comes with the descending order.\<close>

datatype sql_select = SelectNone | Select "sql_cond list" "string option" "u64 option"

definition conds_of_filter :: "ext \<Rightarrow> u64 \<Rightarrow> req_filter \<Rightarrow> sql_cond list" where
  "conds_of_filter X now f =
     (case f_authors f of None \<Rightarrow> [] | Some as \<Rightarrow> [BlobIn True (map (hex_decode X) as)])
     @ (case f_kinds f of None \<Rightarrow> [] | Some ks \<Rightarrow> [KindIn ks])
     @ (case f_ids f of None \<Rightarrow> [] | Some is \<Rightarrow> [BlobIn False (map (hex_decode X) is)])
     @ (case f_tags f of
          None \<Rightarrow> []
        | Some m \<Rightarrow> map (\<lambda>(k, vs). TagIn k vs (f_kinds f) (f_since f) (f_until f)) m)
     @ (case f_since f of None \<Rightarrow> [] | Some t \<Rightarrow> [CreatedFrom t])
     @ (case f_until f of None \<Rightarrow> [] | Some t \<Rightarrow> [CreatedTo t])
     @ [NotExpired now]"

definition select_of_filter :: "ext \<Rightarrow> u64 \<Rightarrow> req_filter \<Rightarrow> sql_select" where
  "select_of_filter X now f =
     (if force_no_match f then SelectNone
      else Select (conds_of_filter X now f) (override_index f) (f_limit f))"

section \<open>Printing\<close>

definition print_from_to :: "string \<Rightarrow> u64 option \<Rightarrow> string" where
  "print_from_to cmp t = (case t of Some n \<Rightarrow> ''AND created_at '' @ cmp @ '' '' @ u64_to_string n | None \<Rightarrow> [])"

fun print_cond :: "sql_cond \<Rightarrow> string \<times> sql_param list" where
  "print_cond (BlobIn a bs) =
     (if bs = [] then ''false''
      else ''('' @ join_with '' OR '' (map (\<lambda>v. (if a then ''author'' else ''event_hash'') @ ''=?'') bs) @ '')'',
      map PBlob bs)"
| "print_cond (KindIn ks) = (kinds_text ks, [])"
| "print_cond (TagIn k vs ks since until) =
     (''e.id IN (SELECT t.event_id FROM tag t WHERE (name=? '' @ ''AND value IN ('' @ repeat_vars (length vs)
        @ '')'' @ '' '' @ (case ks of Some ks \<Rightarrow> ''AND '' @ kinds_text ks | None \<Rightarrow> [])
        @ '' '' @ print_from_to ''>='' since @ '' '' @ print_from_to ''<='' until @ ''))'',
      PText k # map PText vs)"
| "print_cond (CreatedFrom t) = (''created_at >= '' @ u64_to_string t, [])"
| "print_cond (CreatedTo t) = (''created_at <= '' @ u64_to_string t, [])"
| "print_cond (NotExpired now) = (''(expires_at IS NULL OR expires_at > ?)'', [PInt now])"

fun print_select :: "sql_select \<Rightarrow> string \<times> sql_param list \<times> string option" where
  "print_select SelectNone = (''SELECT e.content FROM event e WHERE 1=0'', [], None)"
| "print_select (Select cs idx lim) =
     (''SELECT e.content FROM event e '' @ (case idx of None \<Rightarrow> [] | Some i \<Rightarrow> ''INDEXED BY '' @ i)
        @ '' WHERE hidden!=TRUE'' @ '' AND '' @ join_with '' AND '' (map (fst \<circ> print_cond) cs)
        @ (case lim of
             Some n \<Rightarrow> '' ORDER BY e.created_at DESC LIMIT '' @ u64_to_string n
           | None \<Rightarrow> '' ORDER BY e.created_at ASC''),
      concat (map (snd \<circ> print_cond) cs), idx)"

section \<open>Evaluation\<close>

definition opt_all :: "('a \<Rightarrow> bool) \<Rightarrow> 'a option \<Rightarrow> bool" where
  "opt_all p m = (case m of None \<Rightarrow> True | Some x \<Rightarrow> p x)"

fun cond_holds :: "db \<Rightarrow> event_row \<Rightarrow> sql_cond \<Rightarrow> bool" where
  "cond_holds db r (BlobIn a bs) \<longleftrightarrow> Some (if a then ev_author r else ev_hash r) \<in> set bs"
| "cond_holds db r (KindIn ks) \<longleftrightarrow> ev_kind r \<in> uint ` set ks"
| "cond_holds db r (TagIn k vs ks since until) \<longleftrightarrow>
     list_ex (\<lambda>t. tg_event t = ev_id r \<and> tg_name t = k \<and> tg_value t \<in> set vs
         \<and> opt_all (\<lambda>ks. tg_kind t \<in> uint ` set ks) ks
         \<and> opt_all (\<lambda>n. uint n \<le> tg_created t) since
         \<and> opt_all (\<lambda>n. tg_created t \<le> uint n) until) (tags db)"
| "cond_holds db r (CreatedFrom t) \<longleftrightarrow> uint t \<le> ev_created r"
| "cond_holds db r (CreatedTo t) \<longleftrightarrow> ev_created r \<le> uint t"
| "cond_holds db r (NotExpired now) \<longleftrightarrow> opt_all (\<lambda>x. uint now < x) (ev_expires r)"

text \<open>
  The rows of the result. A time or a limit above the range of SQL integers makes the
  statement fail.
\<close>

fun select_rows :: "(event_row list \<Rightarrow> event_row list) \<Rightarrow> db \<Rightarrow> sql_select \<Rightarrow> error + event_row list" where
  "select_rows scan db SelectNone = Inr []"
| "select_rows scan db (Select cs idx lim) =
     (if list_ex (\<lambda>c. case c of NotExpired now \<Rightarrow> sql_u64 now = None | _ \<Rightarrow> False) cs then Inl out_of_range
      else (let hits = filter (\<lambda>r. \<not> ev_hidden r \<and> list_all (cond_holds db r) cs) (scan (events db)) in
            case lim of
              None \<Rightarrow> Inr (sort_key ev_created hits)
            | Some n \<Rightarrow>
                (case sql_u64 n of
                   None \<Rightarrow> Inl (sqlite_failure ''datatype mismatch'')
                 | Some m \<Rightarrow> Inr (take (nat m) (order_desc ev_created hits)))))"

definition run_filter ::
  "ext \<Rightarrow> u64 \<Rightarrow> (event_row list \<Rightarrow> event_row list) \<Rightarrow> db \<Rightarrow> req_filter \<Rightarrow> error + string list" where
  "run_filter X now scan db f =
     result_bind (select_rows scan db (select_of_filter X now f)) (\<lambda>rs. Inr (map ev_content rs))"

section \<open>Querying for a subscription\<close>

record query_result =
  qr_sub_id :: string
  qr_event :: string

text \<open>The filters one after the other; a failing statement ends the query.\<close>

fun run_filters ::
  "ext \<Rightarrow> u64 \<Rightarrow> (event_row list \<Rightarrow> event_row list) \<Rightarrow> db \<Rightarrow> req_filter list \<Rightarrow> string list \<times> bool" where
  "run_filters X now scan db [] = ([], True)"
| "run_filters X now scan db (f # fs) =
     (case run_filter X now scan db f of
        Inl _ \<Rightarrow> ([], False)
      | Inr evs \<Rightarrow> (let (rest, ok) = run_filters X now scan db fs in (evs @ rest, ok)))"

text \<open>
  \<open>abort\<close> says after how many rows the query is given up, if it is: it waited for too long,
  the client cancelled it or reads too slowly, or a checkpoint needs the database. Without
  a connection only the end of stored events is announced.
\<close>

definition query_subscription ::
  "ext \<Rightarrow> u64 \<Rightarrow> (event_row list \<Rightarrow> event_row list) \<Rightarrow> bool \<Rightarrow> nat option \<Rightarrow> db \<Rightarrow> subscription
     \<Rightarrow> query_result list" where
  "query_subscription X now scan connected abort db sub =
     (let (evs, ok) = (if connected then run_filters X now scan db (s_filters sub) else ([], True));
          res = map (\<lambda>s. \<lparr>qr_sub_id = s_id sub, qr_event = s\<rparr>) evs;
          eose = \<lparr>qr_sub_id = s_id sub, qr_event = ''EOSE''\<rparr> in
      case abort of
        Some n \<Rightarrow> take n res
      | None \<Rightarrow> if ok then res @ [eose] else res)"

section \<open>The text is the printed query\<close>

lemma print_conds:
  "map print_cond (conds_of_filter X now f) = filter_clauses X now f"
  by (simp add: conds_of_filter_def filter_clauses_def blob_clause_def tag_clause_def Let_def
      print_from_to_def comp_def case_prod_beta split: option.split)

lemma query_from_filter_print: "query_from_filter X now f = print_select (select_of_filter X now f)"
proof -
  have "map (fst \<circ> print_cond) (conds_of_filter X now f) = map fst (filter_clauses X now f)"
    and "map (snd \<circ> print_cond) (conds_of_filter X now f) = map snd (filter_clauses X now f)"
    by (simp_all flip: print_conds)
  then show ?thesis by (simp add: query_from_filter_def select_of_filter_def Let_def)
qed

section \<open>What a query returns\<close>

text \<open>When a stored event matches a filter.\<close>

definition row_matches :: "ext \<Rightarrow> db \<Rightarrow> req_filter \<Rightarrow> event_row \<Rightarrow> bool" where
  "row_matches X db f r \<longleftrightarrow>
     (\<forall>as. f_authors f = Some as \<longrightarrow> (\<exists>a \<in> set as. hex_decode X a = Some (ev_author r)))
     \<and> (\<forall>is. f_ids f = Some is \<longrightarrow> (\<exists>i \<in> set is. hex_decode X i = Some (ev_hash r)))
     \<and> (\<forall>ks. f_kinds f = Some ks \<longrightarrow> ev_kind r \<in> uint ` set ks)
     \<and> (\<forall>m. f_tags f = Some m \<longrightarrow> (\<forall>(k, vs) \<in> set m. \<exists>v \<in> set vs. has_tag db r k v))
     \<and> (\<forall>t. f_since f = Some t \<longrightarrow> uint t \<le> ev_created r)
     \<and> (\<forall>t. f_until f = Some t \<longrightarrow> ev_created r \<le> uint t)
     \<and> \<not> force_no_match f"

definition current_row :: "u64 \<Rightarrow> event_row \<Rightarrow> bool" where
  "current_row now r \<longleftrightarrow> \<not> ev_hidden r \<and> opt_all (\<lambda>x. uint now < x) (ev_expires r)"

lemma tag_cond:
  assumes "db_inv db" and "r \<in> set (events db)"
  shows "cond_holds db r (TagIn k vs ks since until) \<longleftrightarrow>
    (\<exists>v \<in> set vs. has_tag db r k v) \<and> opt_all (\<lambda>ks. ev_kind r \<in> uint ` set ks) ks
      \<and> opt_all (\<lambda>n. uint n \<le> ev_created r) since \<and> opt_all (\<lambda>n. ev_created r \<le> uint n) until"
proof -
  have "tg_kind t = ev_kind r \<and> tg_created t = ev_created r"
    if t: "t \<in> set (tags db)" "tg_event t = ev_id r" for t
  proof -
    from assms(1) t obtain s where s: "s \<in> set (events db)" "ev_id s = ev_id r"
        "tg_created t = ev_created s" "tg_kind t = ev_kind s"
      by (auto simp: db_inv_def refs_ok_def)
    with assms have "s = r" by (auto simp: db_inv_def keys_ok_def distinct_map dest: inj_onD)
    with s show ?thesis by simp
  qed
  then show ?thesis by (fastforce simp: list_ex_iff has_tag_def)
qed

lemma conds_hold:
  assumes "db_inv db" and "r \<in> set (events db)" and "\<not> force_no_match f"
  shows "list_all (cond_holds db r) (conds_of_filter X now f) \<longleftrightarrow>
    row_matches X db f r \<and> opt_all (\<lambda>x. uint now < x) (ev_expires r)"
proof -
  have a: "list_all (cond_holds db r) (case f_authors f of None \<Rightarrow> [] | Some as \<Rightarrow> [BlobIn True (map (hex_decode X) as)])
      \<longleftrightarrow> (\<forall>as. f_authors f = Some as \<longrightarrow> (\<exists>a \<in> set as. hex_decode X a = Some (ev_author r)))"
    by (auto split: option.split) (metis image_eqI)
  have i: "list_all (cond_holds db r) (case f_ids f of None \<Rightarrow> [] | Some is \<Rightarrow> [BlobIn False (map (hex_decode X) is)])
      \<longleftrightarrow> (\<forall>is. f_ids f = Some is \<longrightarrow> (\<exists>i \<in> set is. hex_decode X i = Some (ev_hash r)))"
    by (auto split: option.split) (metis image_eqI)
  have t: "list_all (cond_holds db r) (case f_tags f of None \<Rightarrow> []
        | Some m \<Rightarrow> map (\<lambda>(k, vs). TagIn k vs (f_kinds f) (f_since f) (f_until f)) m)
      \<longleftrightarrow> (\<forall>m. f_tags f = Some m \<longrightarrow> (\<forall>(k, vs) \<in> set m. (\<exists>v \<in> set vs. has_tag db r k v)
        \<and> opt_all (\<lambda>ks. ev_kind r \<in> uint ` set ks) (f_kinds f)
        \<and> opt_all (\<lambda>n. uint n \<le> ev_created r) (f_since f) \<and> opt_all (\<lambda>n. ev_created r \<le> uint n) (f_until f)))"
    by (cases "f_tags f")
      (simp_all add: list_all_iff case_prod_beta tag_cond [OF assms(1,2)] del: cond_holds.simps(3))
  show ?thesis
    unfolding conds_of_filter_def list_all_append a i t row_matches_def
    by (auto simp: opt_all_def assms(3) split: option.splits)
qed

lemma select_hits:
  assumes "db_inv db" and "mset (scan (events db)) = mset (events db)" and "\<not> force_no_match f"
  shows "mset (filter (\<lambda>r. \<not> ev_hidden r \<and> list_all (cond_holds db r) (conds_of_filter X now f)) (scan (events db)))
    = mset (filter (\<lambda>r. current_row now r \<and> row_matches X db f r) (events db))"
proof -
  have "filter (\<lambda>r. \<not> ev_hidden r \<and> list_all (cond_holds db r) (conds_of_filter X now f)) (events db)
      = filter (\<lambda>r. current_row now r \<and> row_matches X db f r) (events db)"
    using conds_hold [OF assms(1) _ assms(3)] by (intro filter_cong) (auto simp: current_row_def)
  then show ?thesis using assms(2) by (metis mset_filter)
qed

end
