(* ===== verification/Channels.thy ===== *)
theory Channels
  imports Relay_Prelude
begin

text \<open>
  Channels between tasks, as \<open>tokio\<close> documents them. A broadcast channel keeps its latest messages;
  a receiver that is further behind is told once how many it has missed and goes on with the
  oldest that is left. A queue with a limit takes what there is room for when it is offered
  something (\<open>try_send\<close>). The relay is modelled with the queue that a receiver sees; that this is
  what the receiver of a broadcast channel gets is shown here for every implementation of it.
\<close>

section \<open>What a receiver sees\<close>

definition keep_latest :: "nat \<Rightarrow> 'a list \<Rightarrow> 'a list" where
  "keep_latest n xs = drop (length xs - n) xs"

lemma length_keep_latest [simp]: "length (keep_latest n xs) = min n (length xs)"
  by (auto simp: keep_latest_def)

lemma keep_latest_all: "length xs \<le> n \<Longrightarrow> keep_latest n xs = xs"
  by (simp add: keep_latest_def)

lemma keep_latest_subset: "set (keep_latest n xs) \<subseteq> set xs"
  by (simp add: keep_latest_def set_drop_subset)

lemma keep_latest_append: "keep_latest n (keep_latest n xs @ ys) = keep_latest n (xs @ ys)"
  by (cases "n \<le> length xs") (simp_all add: keep_latest_def add.commute)

datatype 'a received = NoMessage | Lagged nat | Received 'a

text \<open>
  The contract of a receiver with a state: \<open>view\<close> is what it will get if nothing more is sent.
  Receiving takes the first of it; a report of a lag takes nothing.
\<close>

locale receiver =
  fixes recv :: "'s \<Rightarrow> 'a received \<times> 's"
    and view :: "'s \<Rightarrow> 'a list"
    and lag :: "'s \<Rightarrow> nat"
  assumes recv_none: "recv s = (NoMessage, s') \<Longrightarrow> view s = [] \<and> s' = s"
    and recv_some: "recv s = (Received x, s') \<Longrightarrow> view s = x # view s' \<and> lag s' = 0"
    and recv_lag: "recv s = (Lagged n, s') \<Longrightarrow> 0 < n \<and> n = lag s \<and> view s' = view s \<and> lag s' = 0"
    and lag_told: "fst (recv s) \<noteq> NoMessage \<Longrightarrow> 0 < lag s \<Longrightarrow> \<exists>n. fst (recv s) = Lagged n"
begin

text \<open>All messages of the next \<open>n\<close> calls.\<close>

fun drain :: "nat \<Rightarrow> 's \<Rightarrow> 'a list" where
  "drain 0 s = []"
| "drain (Suc n) s =
     (case recv s of
        (NoMessage, s') \<Rightarrow> []
      | (Lagged k, s') \<Rightarrow> drain n s'
      | (Received x, s') \<Rightarrow> x # drain n s')"

lemma drain_prefix: "drain n s = take (length (drain n s)) (view s)"
proof (induction n arbitrary: s)
  case (Suc n)
  obtain r s' where r: "recv s = (r, s')" by fastforce
  show ?case
  proof (cases r)
    case (Lagged k)
    with r recv_lag Suc.IH [of s'] show ?thesis by auto
  next
    case (Received x)
    with r recv_some [of s x s'] Suc.IH [of s'] show ?thesis by auto
  qed (use r in simp)
qed simp

text \<open>Enough calls get everything, in order; one more call than messages, for the report.\<close>

lemma drain_all: "length (view s) + (if lag s = 0 then 0 else 1) \<le> n \<Longrightarrow> drain n s = view s"
proof (induction n arbitrary: s)
  case (Suc n)
  obtain r s' where r: "recv s = (r, s')" by fastforce
  show ?case
  proof (cases r)
    case NoMessage
    with r recv_none [of s s'] show ?thesis by simp
  next
    case (Lagged k)
    with r recv_lag [of s k s'] Suc.prems Suc.IH [of s'] show ?thesis by simp
  next
    case (Received x)
    from r Received recv_some [of s x s'] have v: "view s = x # view s'" "lag s' = 0" by simp_all
    from Suc.prems v have "drain n s' = view s'" by (intro Suc.IH) simp
    with r Received v show ?thesis by simp
  qed
qed (simp split: if_splits)

end

section \<open>The broadcast channel\<close>

text \<open>All messages so far, and how many the receiver has taken or missed; the channel keeps \<open>cap\<close>.\<close>

definition bc_recv :: "nat \<Rightarrow> 'a list \<times> nat \<Rightarrow> 'a received \<times> ('a list \<times> nat)" where
  "bc_recv cap s =
     (case s of (ms, pos) \<Rightarrow>
       if length ms \<le> pos then (NoMessage, s)
       else if pos + cap < length ms then (Lagged (length ms - cap - pos), (ms, length ms - cap))
       else (Received (ms ! pos), (ms, Suc pos)))"

definition bc_view :: "nat \<Rightarrow> 'a list \<times> nat \<Rightarrow> 'a list" where
  "bc_view cap s = keep_latest cap (drop (snd s) (fst s))"

definition bc_lag :: "nat \<Rightarrow> 'a list \<times> nat \<Rightarrow> nat" where
  "bc_lag cap s = length (fst s) - cap - snd s"

interpretation bc: receiver "bc_recv cap" "bc_view cap" "bc_lag cap" for cap
proof unfold_locales
  show "bc_recv cap s = (NoMessage, s') \<Longrightarrow> bc_view cap s = [] \<and> s' = s" for s s' :: "'a list \<times> nat"
    by (cases s) (auto simp: bc_recv_def bc_view_def keep_latest_def split: if_splits)
next
  fix s s' :: "'a list \<times> nat" and x
  obtain ms pos where s: "s = (ms, pos)" by (cases s)
  assume "bc_recv cap s = (Received x, s')"
  with s have *: "pos < length ms" "\<not> pos + cap < length ms" "x = ms ! pos" "s' = (ms, Suc pos)"
    by (auto simp: bc_recv_def split: if_splits)
  then show "bc_view cap s = x # bc_view cap s' \<and> bc_lag cap s' = 0"
    by (simp add: s bc_view_def bc_lag_def keep_latest_all Cons_nth_drop_Suc)
next
  show "bc_recv cap s = (Lagged n, s') \<Longrightarrow> 0 < n \<and> n = bc_lag cap s \<and> bc_view cap s' = bc_view cap s \<and> bc_lag cap s' = 0"
    for s s' :: "'a list \<times> nat" and n
    by (cases s) (auto simp: bc_recv_def bc_view_def bc_lag_def keep_latest_def split: if_splits)
next
  show "fst (bc_recv cap s) \<noteq> NoMessage \<Longrightarrow> 0 < bc_lag cap s \<Longrightarrow> \<exists>n. fst (bc_recv cap s) = Lagged n"
    for s :: "'a list \<times> nat"
    by (cases s) (auto simp: bc_recv_def bc_lag_def split: if_splits)
qed

text \<open>A message that is sent goes to the end of what every receiver sees, and may push out the first.\<close>

lemma bc_send: "pos \<le> length ms \<Longrightarrow> bc_view cap (ms @ es, pos) = keep_latest cap (bc_view cap (ms, pos) @ es)"
  by (simp add: bc_view_def keep_latest_append)

text \<open>So a receiver that reads all it can gets the latest of what was sent since it last did.\<close>

lemma bc_reads: "bc.drain cap (Suc (length ms)) (ms, pos) = keep_latest cap (drop pos ms)"
proof -
  have "bc.drain cap (Suc (length ms)) (ms, pos) = bc_view cap (ms, pos)"
    by (rule bc.drain_all) (auto simp: bc_view_def)
  then show ?thesis by (simp add: bc_view_def)
qed

section \<open>A queue with a limit\<close>

definition offer :: "nat \<Rightarrow> 'a \<Rightarrow> 'a list \<Rightarrow> 'a list" where
  "offer cap x q = (if length q < cap then q @ [x] else q)"

lemma offers: "length q \<le> cap \<Longrightarrow> fold (offer cap) xs q = take cap (q @ xs)"
  by (induction xs arbitrary: q) (auto simp: offer_def take_Cons')

end
