(* ===== verification/Relay.thy ===== *)
theory Relay
  imports Web Payment Sqlite_Query Channels
begin

text \<open>
  The relay as a whole: the tasks that \<open>start_server\<close> and \<open>handle_web_request\<close> of
  \<open>src/src/server.rs\<close> start, and the channels between them. Each task takes its next input
  whenever it is scheduled, so the system is a step for each of them, in any order: a
  connection takes a message, a notice, a query result or a broadcast event; a query runs;
  the writer takes a submitted event; the verifier a metadata event or its timer; the
  payment handler a message; an HTTP request is answered; expired events are deleted.
  The store is the SQLite repository. Every receiver of the broadcast channel has its own
  queue, and one that is too slow loses the oldest events (\<open>Lag\<close>). Channels have no limit here, but
  may lose what does not fit in one (\<open>Overflow\<close>); \<open>Relay_Bounded\<close> puts in the limits of the code.
\<close>

section \<open>State\<close>

record link =
  ln_info :: client_info
  ln_client :: client
  ln_open :: bool
  ln_bcast :: "event list"                    \<comment> \<open>\<open>bcast_rx\<close>\<close>
  ln_notices :: "notice list"                 \<comment> \<open>\<open>notice_rx\<close>\<close>
  ln_rows :: "query_result list"              \<comment> \<open>\<open>query_rx\<close>\<close>
  ln_queries :: "(nat \<times> subscription) list"   \<comment> \<open>queries that have not run yet\<close>
  ln_sent :: "client_output list"             \<comment> \<open>all messages to the client\<close>

text \<open>The log holds every text that a client sent, with its connection and the time.\<close>

record 'g relay =
  rl_links :: "link list"
  rl_events :: "(nat \<times> submitted_event) list" \<comment> \<open>\<open>event_rx\<close>, with the connection to notify\<close>
  rl_writer :: "(db, 'g) writer"
  rl_writing :: bool                           \<comment> \<open>the writer has not ended\<close>
  rl_meta :: "event list"                      \<comment> \<open>\<open>metadata_rx\<close>\<close>
  rl_pay :: "payment_message list"             \<comment> \<open>\<open>payment_rx\<close> of the handler\<close>
  rl_paying :: bool
  rl_log :: "(nat \<times> u64 \<times> string) list"

record 'g relay_env =
  re_ext :: ext
  re_settings :: settings
  re_jitter :: "u64 \<Rightarrow> u64"
  re_busy :: "u64 \<Rightarrow> db_failures"
  re_quota :: "u32 \<Rightarrow> 'g"
  re_gov_check :: "'g \<Rightarrow> 'g \<times> bool"
  re_grpc_call :: "(grpc_request \<Rightarrow> string + int \<times> string option) option"
  re_fetch :: "u64 \<Rightarrow> string \<Rightarrow> fetch_result"
  re_keys :: "string option"
  re_processor :: "u64 \<Rightarrow> payment_processor"
  re_dm :: "u64 \<Rightarrow> string \<Rightarrow> string \<Rightarrow> string \<Rightarrow> string + nostr_event"
  re_web :: "u64 \<Rightarrow> db web_env"

definition repo_at :: "'g relay_env \<Rightarrow> u64 \<Rightarrow> db nostr_repo" where
  "repo_at env now = sqlite_repo (re_ext env) (re_jitter env now) now (re_busy env now)"

definition writer_of :: "'g relay_env \<Rightarrow> (db, 'g) writer_env" where
  "writer_of env =
     \<lparr>we_ext = re_ext env, we_settings = re_settings env, we_repo = repo_at env,
      we_quota = re_quota env, we_gov_check = re_gov_check env, we_grpc_call = re_grpc_call env\<rparr>"

definition payment_of :: "'g relay_env \<Rightarrow> u64 \<Rightarrow> db payment" where
  "payment_of env now =
     \<lparr>pm_ext = re_ext env, pm_settings = re_settings env, pm_repo = repo_at env now,
      pm_keys = re_keys env, pm_processor = re_processor env now, pm_dm = re_dm env now\<rparr>"

text \<open>The tasks are started with empty channels; no connection is there yet.\<close>

definition relay_start :: "'g relay_env \<Rightarrow> db \<Rightarrow> 'g relay exec" where
  "relay_start env db =
     map_exec (\<lambda>w. \<lparr>rl_links = [], rl_events = [], rl_writer = w, rl_writing = True, rl_meta = [],
                     rl_pay = [], rl_paying = pay_enabled (st_pay_to_relay (re_settings env)), rl_log = []\<rparr>)
       (writer_start (writer_of env) db)"

section \<open>Channels\<close>

definition rl_db :: "'g relay \<Rightarrow> db" where
  "rl_db s = w_db (rl_writer s)"

definition set_db :: "db \<Rightarrow> 'g relay \<Rightarrow> 'g relay" where
  "set_db db s = s\<lparr>rl_writer := (rl_writer s)\<lparr>w_db := db\<rparr>\<rparr>"

definition broadcast :: "event list \<Rightarrow> 'g relay \<Rightarrow> 'g relay" where
  "broadcast es s = s\<lparr>rl_links := map (\<lambda>l. l\<lparr>ln_bcast := ln_bcast l @ es\<rparr>) (rl_links s)\<rparr>"

definition with_link :: "nat \<Rightarrow> (link \<Rightarrow> link) \<Rightarrow> 'g relay \<Rightarrow> 'g relay" where
  "with_link i f s =
     (if i < length (rl_links s) then s\<lparr>rl_links := (rl_links s)[i := f (rl_links s ! i)]\<rparr> else s)"

definition writer_broadcasts :: "writer_output list \<Rightarrow> event list" where
  "writer_broadcasts outs = List.map_filter (\<lambda>x. case x of Broadcast e \<Rightarrow> Some e | _ \<Rightarrow> None) outs"

definition writer_notices :: "writer_output list \<Rightarrow> notice list" where
  "writer_notices outs = List.map_filter (\<lambda>x. case x of Notify n \<Rightarrow> Some n | _ \<Rightarrow> None) outs"

definition writer_metadata :: "writer_output list \<Rightarrow> event list" where
  "writer_metadata outs = List.map_filter (\<lambda>x. case x of ToVerifier e \<Rightarrow> Some e | _ \<Rightarrow> None) outs"

definition writer_payments :: "writer_output list \<Rightarrow> payment_message list" where
  "writer_payments outs = List.map_filter (\<lambda>x. case x of ToPayment m \<Rightarrow> Some m | _ \<Rightarrow> None) outs"

definition payment_events :: "payment_output list \<Rightarrow> event list" where
  "payment_events outs = List.map_filter (\<lambda>x. case x of SendEvent e \<Rightarrow> Some e | _ \<Rightarrow> None) outs"

definition payment_messages :: "payment_output list \<Rightarrow> payment_message list" where
  "payment_messages outs = List.map_filter (\<lambda>x. case x of SendPayment m \<Rightarrow> Some m | _ \<Rightarrow> None) outs"

text \<open>
  What is left when the channels have less room than that: a broadcast channel (events, metadata,
  messages to the payment handler) keeps the latest messages for each receiver, a full queue of
  notices or of submitted events takes no more.
\<close>

definition overflow :: "nat \<Rightarrow> nat \<Rightarrow> nat \<Rightarrow> nat \<Rightarrow> nat \<Rightarrow> 'g relay \<Rightarrow> 'g relay" where
  "overflow bcast notices evs meta pay s =
     s\<lparr>rl_links := map (\<lambda>l. l\<lparr>ln_bcast := keep_latest bcast (ln_bcast l), ln_notices := take notices (ln_notices l)\<rparr>)
         (rl_links s),
       rl_events := take evs (rl_events s), rl_meta := keep_latest meta (rl_meta s),
       rl_pay := keep_latest pay (rl_pay s)\<rparr>"

section \<open>A turn of a connection\<close>

definition submissions :: "client_output list \<Rightarrow> submitted_event list" where
  "submissions outs = List.map_filter (\<lambda>x. case x of Submit su \<Rightarrow> Some su | _ \<Rightarrow> None) outs"

fun query_changes :: "client_output list \<Rightarrow> (nat \<times> subscription) list \<Rightarrow> (nat \<times> subscription) list" where
  "query_changes [] qs = qs"
| "query_changes (StartQuery n sub # outs) qs = query_changes outs (qs @ [(n, sub)])"
| "query_changes (Cancel n # outs) qs = query_changes outs (filter (\<lambda>q. fst q \<noteq> n) qs)"
| "query_changes (_ # outs) qs = query_changes outs qs"

text \<open>A panic ends the task of the connection.\<close>

definition link_turn :: "'g relay_env \<Rightarrow> nat \<Rightarrow> u64 \<Rightarrow> client_input \<Rightarrow> 'g relay \<Rightarrow> 'g relay" where
  "link_turn env i now inp s =
     (let l = rl_links s ! i in
      case client_turn (re_ext env) (re_settings env) (ln_info l) now inp (ln_client l) of
        Panic \<Rightarrow> with_link i (\<lambda>l. l\<lparr>ln_open := False\<rparr>) s
      | Done (cl, outs, go) \<Rightarrow>
          (with_link i (\<lambda>l. l\<lparr>ln_client := cl, ln_open := go, ln_sent := ln_sent l @ outs,
               ln_queries := query_changes outs (ln_queries l)\<rparr>) s)
          \<lparr>rl_events := rl_events s @ map (Pair i) (submissions outs)\<rparr>)"

definition open_link :: "'g relay \<Rightarrow> nat \<Rightarrow> link option" where
  "open_link s i =
     (if i < length (rl_links s) \<and> ln_open (rl_links s ! i) then Some (rl_links s ! i) else None)"

section \<open>Steps\<close>

datatype relay_action =
    Connect string string client_info      \<comment> \<open>identifier, challenge\<close>
  | Receive nat u64 ws_input
  | Tick nat u64 bool
  | StopLink nat u64
  | TakeNotice nat u64
  | TakeRow nat u64
  | TakeEvent nat u64
  | Lag nat nat
  | Overflow nat nat nat nat nat
  | RunQuery nat u64 "event_row list \<Rightarrow> event_row list" bool "nat option"
  | WriteNext u64 "nat \<Rightarrow> nat"
  | VerifyNext u64
  | Reverify u64
  | PayNext u64 "16 word"
  | Http u64 "payment_message option list" web_request
  | DeleteExpired u64

definition connect_step :: "'g relay_env \<Rightarrow> string \<Rightarrow> string \<Rightarrow> client_info \<Rightarrow> 'g relay \<Rightarrow> 'g relay" where
  "connect_step env uuid challenge info s =
     (let (cl, outs) = start_client uuid challenge info (re_settings env) in
      s\<lparr>rl_links := rl_links s @
          [\<lparr>ln_info = info, ln_client = cl, ln_open = True, ln_bcast = [], ln_notices = [], ln_rows = [],
            ln_queries = [], ln_sent = outs\<rparr>]\<rparr>)"

definition log_text :: "nat \<Rightarrow> u64 \<Rightarrow> ws_input \<Rightarrow> 'g relay \<Rightarrow> 'g relay" where
  "log_text i now w s = (case w of WsText m \<Rightarrow> s\<lparr>rl_log := rl_log s @ [(i, now, m)]\<rparr> | _ \<Rightarrow> s)"

definition query_step ::
  "'g relay_env \<Rightarrow> nat \<Rightarrow> u64 \<Rightarrow> (event_row list \<Rightarrow> event_row list) \<Rightarrow> bool \<Rightarrow> nat option
     \<Rightarrow> nat \<times> subscription \<Rightarrow> 'g relay \<Rightarrow> 'g relay" where
  "query_step env i now scan connected abort q s =
     with_link i (\<lambda>l. l\<lparr>ln_queries := tl (ln_queries l),
         ln_rows := ln_rows l @ query_subscription (re_ext env) now scan connected abort (rl_db s) (snd q)\<rparr>) s"

text \<open>The writer ends with an error or a panic.\<close>

definition writer_step :: "'g relay_env \<Rightarrow> u64 \<Rightarrow> (nat \<Rightarrow> nat) \<Rightarrow> nat \<times> submitted_event \<Rightarrow> 'g relay \<Rightarrow> 'g relay" where
  "writer_step env now clk isu s =
     (case process_event (writer_of env) now clk (snd isu) (rl_writer s) of
        Panic \<Rightarrow> s\<lparr>rl_writing := False\<rparr>
      | Done (w, outs, err) \<Rightarrow>
          (broadcast (writer_broadcasts outs)
            (with_link (fst isu) (\<lambda>l. l\<lparr>ln_notices := ln_notices l @ writer_notices outs\<rparr>) s))
          \<lparr>rl_writer := w, rl_writing := (err = None), rl_meta := rl_meta s @ writer_metadata outs,
           rl_pay := rl_pay s @ writer_payments outs\<rparr>)"

definition verifier_step :: "'g relay_env \<Rightarrow> u64 \<Rightarrow> event \<Rightarrow> 'g relay \<Rightarrow> 'g relay" where
  "verifier_step env now e s =
     (case handle_metadata (re_ext env) (repo_at env now) (st_verified_users (re_settings env))
             (re_fetch env now) e (rl_db s) of
        (db, es, _) \<Rightarrow> broadcast es (set_db db s))"

definition payment_step :: "'g relay_env \<Rightarrow> u64 \<Rightarrow> 16 word \<Rightarrow> payment_message \<Rightarrow> 'g relay \<Rightarrow> 'g relay" where
  "payment_step env now rnd m s =
     (case payment_turn (payment_of env now) rnd (Some m) (rl_db s) of
        (db, outs, r) \<Rightarrow>
          (broadcast (payment_events outs) (set_db db s))
          \<lparr>rl_pay := rl_pay s @ payment_messages outs, rl_paying := (r \<noteq> Crash)\<rparr>)"

text \<open>One action, if it can be taken; the channels are first in, first out.\<close>

fun relay_apply :: "'g relay_env \<Rightarrow> relay_action \<Rightarrow> 'g relay \<Rightarrow> 'g relay option" where
  "relay_apply env (Connect uuid challenge info) s = Some (connect_step env uuid challenge info s)"
| "relay_apply env (Receive i now w) s =
     map_option (\<lambda>l. link_turn env i now (FromClient w) (log_text i now w s)) (open_link s i)"
| "relay_apply env (Tick i now quiet) s =
     map_option (\<lambda>l. link_turn env i now (PingTick quiet) s) (open_link s i)"
| "relay_apply env (StopLink i now) s =
     map_option (\<lambda>l. link_turn env i now Shutdown s) (open_link s i)"
| "relay_apply env (TakeNotice i now) s =
     Option.bind (open_link s i) (\<lambda>l. case ln_notices l of
        [] \<Rightarrow> None
      | n # ns \<Rightarrow> Some (link_turn env i now (NoticeIn n) (with_link i (\<lambda>l. l\<lparr>ln_notices := ns\<rparr>) s)))"
| "relay_apply env (TakeRow i now) s =
     Option.bind (open_link s i) (\<lambda>l. case ln_rows l of
        [] \<Rightarrow> None
      | r # rs \<Rightarrow> Some (link_turn env i now (QueryRow (qr_sub_id r) (qr_event r))
                    (with_link i (\<lambda>l. l\<lparr>ln_rows := rs\<rparr>) s)))"
| "relay_apply env (TakeEvent i now) s =
     Option.bind (open_link s i) (\<lambda>l. case ln_bcast l of
        [] \<Rightarrow> None
      | e # es \<Rightarrow> Some (link_turn env i now (GlobalEvent e) (with_link i (\<lambda>l. l\<lparr>ln_bcast := es\<rparr>) s)))"
| "relay_apply env (Lag i n) s =
     map_option (\<lambda>l. with_link i (\<lambda>l. l\<lparr>ln_bcast := drop n (ln_bcast l)\<rparr>) s) (open_link s i)"
| "relay_apply env (Overflow b n e m p) s = Some (overflow b n e m p s)"
| "relay_apply env (RunQuery i now scan connected abort) s =
     Option.bind (open_link s i) (\<lambda>l. case ln_queries l of
        [] \<Rightarrow> None
      | q # qs \<Rightarrow> if mset (scan (events (rl_db s))) = mset (events (rl_db s))
                  then Some (query_step env i now scan connected abort q s) else None)"
| "relay_apply env (WriteNext now clk) s =
     (if \<not> rl_writing s then None
      else (case rl_events s of
              [] \<Rightarrow> None
            | isu # rest \<Rightarrow> Some (writer_step env now clk isu (s\<lparr>rl_events := rest\<rparr>))))"
| "relay_apply env (VerifyNext now) s =
     (if \<not> vu_is_active (st_verified_users (re_settings env)) then None
      else (case rl_meta s of
              [] \<Rightarrow> None
            | e # rest \<Rightarrow> Some (verifier_step env now e (s\<lparr>rl_meta := rest\<rparr>))))"
| "relay_apply env (Reverify now) s =
     (if \<not> vu_is_active (st_verified_users (re_settings env)) then None
      else Some (set_db (fst (do_reverify (re_ext env) (repo_at env now)
        (st_verified_users (re_settings env)) (re_fetch env now) now (rl_db s))) s))"
| "relay_apply env (PayNext now rnd) s =
     (if \<not> rl_paying s then None
      else (case rl_pay s of
              [] \<Rightarrow> None
            | m # rest \<Rightarrow> Some (payment_step env now rnd m (s\<lparr>rl_pay := rest\<rparr>))))"
| "relay_apply env (Http now inbox rq) s =
     (case handle_web_request (re_web env now) inbox rq (rl_db s) of
        Panic \<Rightarrow> Some s
      | Done (ms, out) \<Rightarrow> Some (s\<lparr>rl_pay := rl_pay s @ ms\<rparr>))"
| "relay_apply env (DeleteExpired now) s = Some (set_db (fst (delete_expired now (rl_db s))) s)"

fun relay_exec :: "'g relay_env \<Rightarrow> relay_action list \<Rightarrow> 'g relay \<Rightarrow> 'g relay option" where
  "relay_exec env [] s = Some s"
| "relay_exec env (a # as) s = Option.bind (relay_apply env a s) (relay_exec env as)"

inductive relay_reachable :: "'g relay_env \<Rightarrow> db \<Rightarrow> 'g relay \<Rightarrow> bool" for env db where
  relay_init: "relay_start env db = Done s \<Longrightarrow> relay_reachable env db s"
| relay_step: "relay_reachable env db s \<Longrightarrow> relay_apply env a s = Some s' \<Longrightarrow> relay_reachable env db s'"

end
