(* ===== verification/Db_Writer_Props.thy ===== *)
theory Db_Writer_Props
  imports Db_Writer
begin

text \<open>
  What the writer guarantees: an event that fails a check is neither broadcast nor stored
  and its author gets a rejection; one that passes them all is published; ephemeral events
  never reach the store; and, for every repository that meets its contract, an event that
  becomes visible in the store was broadcast and acknowledged. The contract is the locale
  \<open>writer_repo\<close>, and the SQLite store interprets it.
\<close>

section \<open>The checks\<close>

lemma kind_rate_stage_db [simp]: "w_db (fst (kind_rate_stage env k w)) = w_db w"
  by (simp add: kind_rate_stage_def case_prod_beta split: option.split)

lemma sliding_stage_db [simp]: "w_db (fst (sliding_stage clk su w)) = w_db w"
  by (simp add: sliding_stage_def case_prod_beta Let_def split: option.split)

lemma kind_filter_stage_db [simp]: "w_db (fst (kind_filter_stage env now clk su w)) = w_db w"
  by (simp add: kind_filter_stage_def case_prod_beta Let_def split: option.split)

text \<open>The messages of a rejection: no broadcast, and a notice that is not an acceptance.\<close>

definition rejection :: "string \<Rightarrow> writer_output list \<Rightarrow> bool" where
  "rejection i outs \<longleftrightarrow>
     (\<exists>pre. (\<forall>x \<in> set pre. \<exists>pm. x = ToPayment pm) \<and>
       (outs = pre \<or> (\<exists>m s. s \<noteq> Saved \<and> outs = pre @ [Notify (prefixed i m s)])))"

lemma rejection_intros [intro]:
  "rejection i []"
  "s \<noteq> Saved \<Longrightarrow> rejection i [Notify (prefixed i m s)]"
  "s \<noteq> Saved \<Longrightarrow> rejection i [ToPayment pm, Notify (prefixed i m s)]"
  by (simp_all add: rejection_def) (metis append_Nil empty_iff list.set(1),
      metis append.simps list.set_intros(1) empty_iff list.set(1) set_ConsD)

lemma kind_lists_stage_reject: "kind_lists_stage l e = Reject outs \<Longrightarrow> rejection (e_id e) outs"
  by (auto simp: kind_lists_stage_def Let_def notice_blocked_def split: if_splits option.splits)

lemma account_stage_reject:
  "account_stage env now e db = Done (Reject outs) \<Longrightarrow> rejection (e_id e) outs"
  by (auto simp: account_stage_def Let_def notice_blocked_def notice_error_def
      split: if_splits option.splits sum.splits prod.splits)

lemma nip05_stage_reject: "nip05_stage vu now e v = Reject outs \<Longrightarrow> rejection (e_id e) outs"
  by (auto simp: nip05_stage_def notice_blocked_def split: if_splits option.splits sum.splits)

lemma grpc_stage_reject: "grpc_stage env su n = Reject outs \<Longrightarrow> rejection (e_id (su_event su)) outs"
  by (auto simp: grpc_stage_def notice_blocked_def split: if_splits sum.splits)

lemma process_event_reject:
  assumes "process_event env now clk su w = Done (w1, outs, err)" and "\<not> admissible env now clk su w"
  shows "w_db w1 = w_db w" and "err = None" and "rejection (e_id (su_event su)) outs"
proof -
  let ?e = "su_event su" and ?st = "we_settings env"
  have *: "w_db w1 = w_db w \<and> err = None \<and> rejection (e_id ?e) outs"
  proof (cases "kind_lists_stage (st_limits ?st) ?e")
    case (Reject o1)
    with assms(1) kind_lists_stage_reject [OF Reject] show ?thesis by (simp add: process_event_def Let_def)
  next
    case (Proceed u)
    note lists = this
    obtain acct where acct: "account_stage env now ?e (w_db w) = Done acct"
      using assms(1) lists by (auto simp: process_event_def Let_def)
    show ?thesis
    proof (cases acct)
      case (Reject o1)
      with assms(1) lists acct account_stage_reject show ?thesis
        by (auto simp: process_event_def Let_def)
    next
      case (Proceed b)
      note acct = acct [unfolded this]
      let ?v = "nip05_validation env now ?e (w_db w)"
      show ?thesis
      proof (cases "nip05_stage (st_verified_users ?st) now ?e ?v")
        case (Reject o1)
        with assms(1) lists acct nip05_stage_reject [OF Reject] show ?thesis
          by (simp add: process_event_def Let_def)
      next
        case (Proceed u2)
        note nip = this
        let ?n = "case ?v of Some (Inr uv) \<Rightarrow> Some (v_name uv) | _ \<Rightarrow> None"
        show ?thesis
        proof (cases "grpc_stage env su ?n")
          case (Reject o1)
          with assms(1) lists acct nip grpc_stage_reject [OF Reject] show ?thesis
            by (simp add: process_event_def Let_def)
        next
          case (Proceed u3)
          then have "snd (kind_filter_stage env now clk su w) \<noteq> None"
            using assms(2) lists acct nip by (simp add: admissible_def Let_def)
          then obtain w2 m where k: "kind_filter_stage env now clk su w = (w2, Some m)"
            by (cases "kind_filter_stage env now clk su w") auto
          moreover have "w_db w2 = w_db w" using kind_filter_stage_db [of env now clk su w] k by simp
          ultimately show ?thesis
            using assms(1) lists acct nip Proceed
            by (auto simp: process_event_def Let_def from_reason_prefixed)
        qed
      qed
    qed
  qed
  then show "w_db w1 = w_db w" and "err = None" and "rejection (e_id ?e) outs" by blast+
qed

lemma process_event_admitted:
  assumes "admissible env now clk su w"
  obtains b where "account_stage env now (su_event su) (w_db w) = Done (Proceed b)"
    and "process_event env now clk su w =
      Done (admitted_event env now (su_event su) b (fst (kind_filter_stage env now clk su w)))"
proof -
  from assms obtain b where "account_stage env now (su_event su) (w_db w) = Done (Proceed b)"
    by (auto simp: admissible_def Let_def)
  moreover from this assms have "process_event env now clk su w =
      Done (admitted_event env now (su_event su) b (fst (kind_filter_stage env now clk su w)))"
    by (cases "kind_filter_stage env now clk su w") (simp add: process_event_def admissible_def Let_def)
  ultimately show thesis by (rule that)
qed

lemma rejection_no_broadcast: "rejection i outs \<Longrightarrow> Broadcast e \<notin> set outs"
  by (auto simp: rejection_def)

section \<open>Publishing\<close>

lemma publish_broadcast_iff:
  "Broadcast x \<in> set (fst (snd (publish R e db))) \<longleftrightarrow>
     x = e \<and> (is_ephemeral e \<or> (\<exists>n. snd (rp_write_event R e db) = Inr n \<and> n \<noteq> 0))"
  by (auto simp: publish_def split: prod.splits sum.splits if_splits)

lemma publish_saved:
  "Broadcast e \<in> set (fst (snd (publish R e db))) \<Longrightarrow>
     Notify (notice_saved (e_id e)) \<in> set (fst (snd (publish R e db)))"
  by (auto simp: publish_def split: prod.splits sum.splits if_splits)

lemma publish_db:
  "fst (publish R e db) = (if is_ephemeral e then db else fst (rp_write_event R e db))"
  by (auto simp: publish_def split: prod.splits sum.splits)

lemma charge_db:
  "fst (charge env now e b db) = db \<or>
     (\<exists>k c. fst (charge env now e b db) = fst (rp_update_balance (we_repo env now) k False c db))"
  by (auto simp: charge_def Let_def split: option.split prod.split sum.split) (metis fst_conv)+

lemma admitted_event_outs:
  "fst (snd (admitted_event env now e b w)) =
     (if vu_is_active (st_verified_users (we_settings env)) \<and> is_kind_metadata e then [ToVerifier e] else [])
     @ fst (snd (publish (we_repo env now) e (w_db w)))"
  by (simp add: admitted_event_def Let_def case_prod_beta)

lemma admitted_event_db:
  "w_db (fst (admitted_event env now e b w)) =
     (let p = publish (we_repo env now) e (w_db w) in
      if snd (snd p) then fst (charge env now e b (fst p)) else fst p)"
  by (simp add: admitted_event_def Let_def case_prod_beta)

lemma process_event_broadcast:
  assumes "process_event env now clk su w = Done (w1, outs, err)" and "Broadcast x \<in> set outs"
  shows "x = su_event su" and "admissible env now clk su w"
    and "is_ephemeral x \<or> (\<exists>n. snd (rp_write_event (we_repo env now) x (w_db w)) = Inr n \<and> n \<noteq> 0)"
    and "Notify (notice_saved (e_id x)) \<in> set outs"
proof -
  show adm: "admissible env now clk su w"
    using process_event_reject(3) [OF assms(1)] rejection_no_broadcast assms(2) by blast
  then obtain b where "process_event env now clk su w =
      Done (admitted_event env now (su_event su) b (fst (kind_filter_stage env now clk su w)))"
    by (rule process_event_admitted)
  with assms(1) have o: "outs = fst (snd (admitted_event env now (su_event su) b
      (fst (kind_filter_stage env now clk su w))))" by simp
  with assms(2) have p: "Broadcast x \<in> set (fst (snd (publish (we_repo env now) (su_event su) (w_db w))))"
    by (auto simp: admitted_event_outs split: if_splits)
  then show x: "x = su_event su" by (simp add: publish_broadcast_iff)
  from p x show "is_ephemeral x \<or> (\<exists>n. snd (rp_write_event (we_repo env now) x (w_db w)) = Inr n \<and> n \<noteq> 0)"
    by (simp add: publish_broadcast_iff)
  from p x o show "Notify (notice_saved (e_id x)) \<in> set outs"
    by (simp add: admitted_event_outs publish_saved)
qed

section \<open>The writer over a repository that meets its contract\<close>

locale writer_repo =
  fixes R :: "u64 \<Rightarrow> 'db nostr_repo"
    and ok :: "'db \<Rightarrow> bool"
    and vis :: "'db \<Rightarrow> 'h \<Rightarrow> bool"
    and key :: "event \<Rightarrow> 'h option"
  assumes repo: "event_repo (rp_write_event (R t)) ok vis key"
    and balance_ok: "ok db \<Longrightarrow> ok (fst (rp_update_balance (R t) k p n db))"
    and balance_vis: "vis (fst (rp_update_balance (R t) k p n db)) h = vis db h"
begin

lemma publish_ok: "ok db \<Longrightarrow> ok (fst (publish (R t) e db))"
  by (simp add: publish_db event_repo.wr_ok [OF repo])

lemma publish_vis:
  assumes "vis (fst (publish (R t) e db)) h"
  shows "vis db h \<or> key e = Some h \<and> Broadcast e \<in> set (fst (snd (publish (R t) e db)))"
  using assms event_repo.wr_vis [OF repo, of t e db h]
  by (auto simp: publish_db publish_broadcast_iff split: if_splits)

lemma charge_ok: "we_repo env = R \<Longrightarrow> ok db \<Longrightarrow> ok (fst (charge env now e b db))"
  using charge_db [of env now e b db] balance_ok by auto

lemma charge_vis: "we_repo env = R \<Longrightarrow> vis (fst (charge env now e b db)) h = vis db h"
  using charge_db [of env now e b db] balance_vis by auto

lemma process_event_ok:
  assumes "we_repo env = R" and "ok (w_db w)" and "process_event env now clk su w = Done (w1, outs, err)"
  shows "ok (w_db w1)"
proof (cases "admissible env now clk su w")
  case True
  then obtain b where "process_event env now clk su w =
      Done (admitted_event env now (su_event su) b (fst (kind_filter_stage env now clk su w)))"
    by (rule process_event_admitted)
  with assms(3) have "w_db w1 = w_db (fst (admitted_event env now (su_event su) b
      (fst (kind_filter_stage env now clk su w))))" by simp
  then show ?thesis
    using assms(1,2) publish_ok charge_ok [OF assms(1)] by (simp add: admitted_event_db Let_def)
next
  case False
  with process_event_reject(1) [OF assms(3)] assms(2) show ?thesis by simp
qed

lemma process_event_vis:
  assumes "we_repo env = R" and "process_event env now clk su w = Done (w1, outs, err)"
    and "vis (w_db w1) h"
  shows "vis (w_db w) h \<or> key (su_event su) = Some h \<and> Broadcast (su_event su) \<in> set outs"
proof (cases "admissible env now clk su w")
  case True
  then obtain b where "process_event env now clk su w =
      Done (admitted_event env now (su_event su) b (fst (kind_filter_stage env now clk su w)))"
    by (rule process_event_admitted)
  with assms(2) have t: "admitted_event env now (su_event su) b (fst (kind_filter_stage env now clk su w))
      = (w1, outs, err)" by simp
  have "vis (fst (publish (R now) (su_event su) (w_db w))) h"
    using assms(1,3) t admitted_event_db [of env now "su_event su" b "fst (kind_filter_stage env now clk su w)"]
    by (auto simp: Let_def charge_vis [OF assms(1)] split: if_splits)
  from publish_vis [OF this] show ?thesis
    using t assms(1) admitted_event_outs [of env now "su_event su" b "fst (kind_filter_stage env now clk su w)"]
    by auto
next
  case False
  with process_event_reject(1) [OF assms(2)] assms(3) show ?thesis by simp
qed

lemma db_writer_ok:
  assumes "we_repo env = R"
  shows "ok (w_db w) \<Longrightarrow> db_writer env sus w = Done (w1, outs, err) \<Longrightarrow> ok (w_db w1)"
proof (induction sus arbitrary: w w1 outs err)
  case (Cons x sus)
  obtain now clk su where x: "x = (now, clk, su)" by (cases x)
  from Cons.prems x obtain w2 o2 err2 where p: "process_event env now clk su w = Done (w2, o2, err2)"
    by (auto simp: exec_bind_eq_Done)
  from process_event_ok [OF assms Cons.prems(1) p] have ok: "ok (w_db w2)" .
  show ?case
  proof (cases err2)
    case None
    with Cons.prems x p Cons.IH [OF ok] show ?thesis by auto
  next
    case (Some y)
    with Cons.prems x p ok show ?thesis by simp
  qed
qed simp

lemma db_writer_vis:
  assumes "we_repo env = R"
  shows "db_writer env sus w = Done (w1, outs, err) \<Longrightarrow> vis (w_db w1) h \<Longrightarrow>
    vis (w_db w) h \<or> (\<exists>e. Broadcast e \<in> set outs \<and> key e = Some h)"
proof (induction sus arbitrary: w w1 outs err)
  case (Cons x sus)
  obtain now clk su where x: "x = (now, clk, su)" by (cases x)
  from Cons.prems x obtain w2 o2 err2 where p: "process_event env now clk su w = Done (w2, o2, err2)"
    by (auto simp: exec_bind_eq_Done)
  show ?case
  proof (cases err2)
    case None
    with Cons.prems x p obtain o3 where r: "db_writer env sus w2 = Done (w1, o3, err)" "outs = o2 @ o3"
      by auto
    from Cons.IH [OF r(1) Cons.prems(2)] process_event_vis [OF assms p, of h] r(2) show ?thesis by auto
  next
    case (Some y)
    with Cons.prems x p process_event_vis [OF assms p, of h] show ?thesis by auto
  qed
qed simp

end

section \<open>The SQLite store meets it\<close>

lemma map_account_sel [simp]:
  "events (map_account k f db) = events db" "tags (map_account k f db) = tags db"
  "verifications (map_account k f db) = verifications db"
  by (simp_all add: map_account_def)

lemma update_balance_sel [simp]:
  "events (fst (update_account_balance k p n db)) = events db"
  "tags (fst (update_account_balance k p n db)) = tags db"
  "verifications (fst (update_account_balance k p n db)) = verifications db"
  by (simp_all add: update_account_balance_def split: option.split)

lemma db_inv_cong:
  "events x = events y \<Longrightarrow> tags x = tags y \<Longrightarrow> verifications x = verifications y \<Longrightarrow> db_inv x = db_inv y"
  by (simp only: db_inv_def keys_ok_def refs_ok_def replaceable_unique_def)

lemma update_balance_inv: "db_inv (fst (update_account_balance k p n db)) = db_inv db"
  by (rule db_inv_cong) simp_all

text \<open>A repository whose calls may fail as well keeps the contract.\<close>

lemma event_repo_guarded:
  assumes "event_repo wr ok vis key"
  shows "event_repo (\<lambda>e. guarded f (wr e)) ok vis key"
proof (rule event_repo.intro)
  note r = event_repo.wr_ok [OF assms] event_repo.wr_error [OF assms] event_repo.wr_count [OF assms]
    event_repo.wr_vis [OF assms]
  show "ok db \<Longrightarrow> ok (fst (guarded f (wr e) db))" for e db
    using r(1) by (simp add: guarded_def split: option.split)
  show "snd (guarded f (wr e) db) = Inl err \<Longrightarrow> fst (guarded f (wr e) db) = db" for e db err
    using r(2) by (auto simp: guarded_def split: option.splits)
  show "snd (guarded f (wr e) db) = Inr n \<Longrightarrow> n = 0 \<or> n = 1" for e db n
    using r(3) [of e db n] by simp
  show "vis (fst (guarded f (wr e) db)) h \<Longrightarrow> vis db h \<or> key e = Some h \<and> snd (guarded f (wr e) db) = Inr 1"
    for e db h using r(4) by (auto simp: guarded_def split: option.splits)
qed

interpretation sqlite_writer: writer_repo "\<lambda>t. sqlite_repo X (jit t) t (busy t)" db_inv visible
  "\<lambda>e. hex_decode X (e_id e)" for X jit busy
proof (rule writer_repo.intro)
  show "event_repo (rp_write_event (sqlite_repo X (jit t) t (busy t))) db_inv visible (\<lambda>e. hex_decode X (e_id e))" for t
    using event_repo_guarded [OF sqlite.event_repo_axioms] by (simp add: sqlite_repo_def Let_def)
  show "db_inv db \<Longrightarrow> db_inv (fst (rp_update_balance (sqlite_repo X (jit t) t (busy t)) k p n db))" for db t k p n
    by (simp add: sqlite_repo_def Let_def guarded_def update_balance_inv split: option.split)
  show "visible (fst (rp_update_balance (sqlite_repo X (jit t) t (busy t)) k p n db)) h = visible db h" for t k p n db h
    by (simp add: sqlite_repo_def Let_def guarded_def visible_def split: option.split)
qed

section \<open>Starting the writer\<close>

lemma kind_limiters_Panic:
  "kind_limiters quota fs = Panic \<longleftrightarrow> (\<exists>(k, c) \<in> set fs. \<exists>rl. k_rate_limit c = Some rl \<and> events_per_minute rl = 0)"
  by (induction quota fs rule: kind_limiters.induct) (auto split: option.splits)

lemma writer_start_Panic:
  "writer_start env db = Panic \<longleftrightarrow>
     (\<exists>(k, c) \<in> set (kf_filters (st_kind_filters (we_settings env))). \<exists>rl. k_rate_limit c = Some rl \<and> events_per_minute rl = 0)
     \<or> (\<exists>rps. messages_per_sec (st_limits (we_settings env)) = Some rps \<and> rps \<noteq> 0 \<and> rps * 60 = 0)"
  by (auto simp: writer_start_def global_quota_ok_def kind_limiters_Panic split: option.splits)

section \<open>The checks of a kind\<close>

lemma first_some_None: "first_some xs = None \<longleftrightarrow> (\<forall>x \<in> set xs. x = None)"
  by (induction xs rule: first_some.induct) auto

lemma tag_limit_error_None:
  "tag_limit_error lim t = None \<longleftrightarrow>
     (t \<noteq> [] \<and> 0 < max_tag_name_chars lim \<longrightarrow> length (chars (hd t)) \<le> unat (max_tag_name_chars lim))
     \<and> (\<forall>v \<in> set (tl t). 0 < max_tag_value_chars lim \<longrightarrow> length (chars v) \<le> unat (max_tag_value_chars lim))"
  by (simp add: tag_limit_error_def list_ex_iff drop_Suc) (meson not_le)

lemma tag_limits_error_None:
  "tag_limits_error lim e = None \<longleftrightarrow>
     (0 < max_tags lim \<longrightarrow> length (e_tags e) \<le> unat (max_tags lim))
     \<and> (\<forall>t \<in> set (e_tags e). tag_limit_error lim t = None)"
  by (auto simp: tag_limits_error_def first_some_None not_less)

lemma static_message_None:
  "static_message X now kf c e a s = None \<longleftrightarrow>
     (\<forall>w. k_write c = Some w \<longrightarrow> check_write_read_config X w e a s False)
     \<and> (k_require_auth c \<longrightarrow> a \<noteq> None)
     \<and> (\<forall>m. k_max_size c = Some m \<longrightarrow>
          length (case json_to_string X (event_to_json e) of Some s \<Rightarrow> s | None \<Rightarrow> []) \<le> unat m)
     \<and> validate_d_tag e (k_d_tag c) \<and> validate_p_tag e (k_p_tag c)
     \<and> validate_required_tags e (k_required_tags c) = Inr ()
     \<and> validate_tag_patterns X e (k_tag_patterns c) = Inr ()
     \<and> (\<forall>l. k_tag_limits c = Some l \<longrightarrow> tag_limits_error l e = None)
     \<and> (\<forall>d. x_duration (k_expiration c) = Some d \<longrightarrow> now \<le> e_created_at e + d)
     \<and> (\<forall>d. x_duration (k_max_expiration c) = Some d \<longrightarrow> validate_expiration_window now e d = Inr ())"
proof -
  have 1: "write_message X kf c e a s = None \<longleftrightarrow> (\<forall>w. k_write c = Some w \<longrightarrow> check_write_read_config X w e a s False)"
    by (simp add: write_message_def split: option.split)
  have 2: "auth_message kf c e a = None \<longleftrightarrow> (k_require_auth c \<longrightarrow> a \<noteq> None)" by (simp add: auth_message_def)
  have 3: "size_message X kf c e = None \<longleftrightarrow> (\<forall>m. k_max_size c = Some m \<longrightarrow>
      length (case json_to_string X (event_to_json e) of Some s \<Rightarrow> s | None \<Rightarrow> []) \<le> unat m)"
    by (simp add: size_message_def Let_def not_less split: option.split)
  have 4: "d_tag_message kf c e = None \<longleftrightarrow> validate_d_tag e (k_d_tag c)" by (simp add: d_tag_message_def)
  have 5: "p_tag_message kf c e = None \<longleftrightarrow> validate_p_tag e (k_p_tag c)" by (simp add: p_tag_message_def)
  have 6: "required_message kf c e = None \<longleftrightarrow> validate_required_tags e (k_required_tags c) = Inr ()"
    by (simp add: required_message_def Let_def split: sum.split)
  have 7: "pattern_message X kf c e = None \<longleftrightarrow> validate_tag_patterns X e (k_tag_patterns c) = Inr ()"
    by (simp add: pattern_message_def split: sum.split)
  have 8: "tag_limits_message kf c e = None \<longleftrightarrow> (\<forall>l. k_tag_limits c = Some l \<longrightarrow> tag_limits_error l e = None)"
    by (simp add: tag_limits_message_def split: option.split)
  have 9: "expired_message now kf c e = None \<longleftrightarrow> (\<forall>d. x_duration (k_expiration c) = Some d \<longrightarrow> now \<le> e_created_at e + d)"
    by (auto simp: expired_message_def not_less split: option.split)
  have 10: "max_expiration_message now kf c e = None \<longleftrightarrow>
      (\<forall>d. x_duration (k_max_expiration c) = Some d \<longrightarrow> validate_expiration_window now e d = Inr ())"
    by (simp add: max_expiration_message_def split: option.split sum.split)
  show ?thesis unfolding static_message_def first_some_None by (simp add: 1 2 3 4 5 6 7 8 9 10)
qed

section \<open>Accounts\<close>

lemma after_removals_accounts [simp]:
  "accounts (after_removals e r db) = accounts db"
  by (simp add: after_removals_def remove_older_replaceable_def remove_older_param_def Let_def split: option.split)

lemma persist_event_accounts: "accounts (fst (persist_event X now e db)) = accounts db"
  by (cases X now e db rule: persist_event_cases) (simp_all add: after_insert_eq hide_deleted_def)

lemma write_event_accounts: "accounts (fst (write_event X now busy e db)) = accounts db"
  by (simp add: write_event_cases persist_event_accounts)

lemma publish_balance: "balance_of (fst (publish (sqlite_repo X jit now busy) e db)) q = balance_of db q"
  by (simp add: publish_db sqlite_repo_def Let_def guarded_def balance_of_def write_event_accounts split: option.split)

lemma publish_flag: "snd (snd (publish R e db)) \<longleftrightarrow> Broadcast e \<in> set (fst (snd (publish R e db)))"
  by (auto simp: publish_def split: prod.splits sum.splits if_splits)

lemma update_balance_balance:
  "sql_u64 n = Some c \<Longrightarrow> balance_of (fst (update_account_balance k False n db)) q =
     (if q = k then map_option (\<lambda>b. b - c) (balance_of db q) else balance_of db q)"
  by (simp add: update_account_balance_def balance_add [of k "- c", simplified])

text \<open>Whether an event that was published is paid for.\<close>

definition pays :: "settings \<Rightarrow> event \<Rightarrow> bool" where
  "pays st e \<longleftrightarrow> pay_enabled (st_pay_to_relay st) \<and> 0 < cost_per_event (st_pay_to_relay st)
     \<and> (\<forall>wl. pubkey_whitelist (st_authorization st) = Some wl \<longrightarrow> e_pubkey e \<notin> set wl)"

lemma account_stage_pays:
  assumes "account_stage env now e db = Done (Proceed b)"
    and "we_repo env = (\<lambda>t. sqlite_repo X (jit t) t (busy t))"
    and "\<forall>a \<in> set (accounts db). ac_balance a < 2 ^ 63"
  shows "if pays (we_settings env) e
    then \<exists>key n. keys_from_pk (we_ext env) (e_pubkey e) = Some key \<and> b \<noteq> None
      \<and> balance_of db key = Some n \<and> uint (cost_per_event (st_pay_to_relay (we_settings env))) \<le> n
    else b = None \<or> \<not> 0 < cost_per_event (st_pay_to_relay (we_settings env))"
proof (cases "pays (we_settings env) e")
  case True
  then have p: "pay_enabled (st_pay_to_relay (we_settings env))"
    and wl: "\<not> (case pubkey_whitelist (st_authorization (we_settings env)) of
        Some allowed \<Rightarrow> e_pubkey e \<in> set allowed | None \<Rightarrow> False)"
    by (auto simp: pays_def split: option.splits)
  with assms(1) obtain key where key: "keys_from_pk (we_ext env) (e_pubkey e) = Some key"
    by (auto simp: account_stage_def Let_def split: option.splits)
  with assms(1,2) p wl obtain n where g: "get_account_balance key db = Inr (True, n)"
    and n: "\<not> n < cost_per_event (st_pay_to_relay (we_settings env))" "b = Some n"
    by (auto simp: account_stage_def Let_def sqlite_repo_def guarded_read_def split: sum.splits if_splits prod.splits option.splits)
  from g obtain a where a: "List.find (\<lambda>a. ac_pubkey a = key) (accounts db) = Some a"
    "0 \<le> ac_balance a" "n = word_of_int (ac_balance a)"
    by (auto simp: get_account_balance_find split: option.splits if_splits)
  then have "a \<in> set (accounts db)" by (auto simp: find_Some_iff)
  with assms(3) have "ac_balance a < 2 ^ 64" by fastforce
  with a have "uint n = ac_balance a" by (simp add: unsigned_of_int take_bit_int_eq_self)
  with n(1) have "uint (cost_per_event (st_pay_to_relay (we_settings env))) \<le> ac_balance a"
    by (simp add: word_less_def not_less)
  with True key a n show ?thesis by (simp add: balance_of_def)
next
  case False
  with assms(1) show ?thesis
    by (auto simp: pays_def account_stage_def Let_def
        split: option.splits if_splits sum.splits prod.splits)
qed

lemma process_event_balance:
  assumes "process_event env now clk su w = Done (w1, outs, err)" and "e = su_event su"
    and "we_repo env = (\<lambda>t. sqlite_repo X (jit t) t (busy t))"
    and "\<forall>a \<in> set (accounts (w_db w)). ac_balance a < 2 ^ 63"
    and "sql_u64 (cost_per_event (st_pay_to_relay (we_settings env))) = Some c"
  shows "if pays (we_settings env) e \<and> Broadcast e \<in> set outs
    then \<exists>key n. keys_from_pk (we_ext env) (e_pubkey e) = Some key \<and> balance_of (w_db w) key = Some n
      \<and> c \<le> n \<and> (case fl_call (busy now) UpdateBalance of
          None \<Rightarrow> err = None \<and> balance_of (w_db w1) = (balance_of (w_db w))(key \<mapsto> n - c)
        | Some f \<Rightarrow> err = Some (failure_error f) \<and> balance_of (w_db w1) = balance_of (w_db w))
    else err = None \<and> balance_of (w_db w1) = balance_of (w_db w)"
proof (cases "admissible env now clk su w")
  case False
  then have "Broadcast e \<notin> set outs" and "w_db w1 = w_db w" and "err = None"
    using process_event_reject [OF assms(1)] rejection_no_broadcast by blast+
  then show ?thesis by simp
next
  case True
  let ?pay = "st_pay_to_relay (we_settings env)" and ?w = "fst (kind_filter_stage env now clk su w)"
  from True obtain b where acc: "account_stage env now e (w_db w) = Done (Proceed b)"
    and p: "process_event env now clk su w = Done (admitted_event env now e b ?w)"
    unfolding assms(2) by (rule process_event_admitted)
  define pub where "pub = publish (we_repo env now) e (w_db w)"
  from p assms(1) have t: "admitted_event env now e b ?w = (w1, outs, err)" by simp
  have db: "w_db w1 = (if snd (snd pub) then fst (charge env now e b (fst pub)) else fst pub)"
    using admitted_event_db [of env now e b ?w] t by (simp add: pub_def Let_def)
  have er: "err = (if snd (snd pub) then snd (charge env now e b (fst pub)) else None)"
    using t by (auto simp: pub_def admitted_event_def Let_def split: prod.splits if_splits)
  have fl: "snd (snd pub) \<longleftrightarrow> Broadcast e \<in> set outs"
    using admitted_event_outs [of env now e b ?w] t publish_flag [of "we_repo env now" e "w_db w"]
    by (auto simp: pub_def)
  have bal: "balance_of (fst pub) q = balance_of (w_db w) q" for q
    by (simp add: pub_def assms(3) publish_balance)
  note ac = account_stage_pays [OF acc assms(3,4)]
  have c: "uint (cost_per_event ?pay) = c" using assms(5) by (simp add: sql_u64_Some)
  show ?thesis
  proof (cases "pays (we_settings env) e \<and> Broadcast e \<in> set outs")
    case True
    with ac obtain key n where key: "keys_from_pk (we_ext env) (e_pubkey e) = Some key" "b \<noteq> None"
        "balance_of (w_db w) key = Some n" "c \<le> n"
      by (auto simp: c)
    let ?call = "guarded (fl_call (busy now) UpdateBalance) (update_account_balance key False (cost_per_event ?pay)) (fst pub)"
    have ch: "charge env now e b (fst pub) = (case ?call of (db', Inr u) \<Rightarrow> (db', None) | (db', Inl err) \<Rightarrow> (db', Some err))"
      using True key by (simp add: charge_def pays_def Let_def assms(3) sqlite_repo_def)
    show ?thesis
    proof (cases "fl_call (busy now) UpdateBalance")
      case None
      with ch assms(5) have "err = None" "w_db w1 = fst (update_account_balance key False (cost_per_event ?pay) (fst pub))"
        using db er fl True by (simp_all add: update_account_balance_def)
      then have "err = None \<and> balance_of (w_db w1) = (balance_of (w_db w))(key \<mapsto> n - c)"
        using key by (auto simp: update_balance_balance [OF assms(5)] bal)
      with True key None show ?thesis by auto
    next
      case (Some f)
      with ch have "err = Some (failure_error f)" "w_db w1 = fst pub"
        using db er fl True by (simp_all add: guarded_def)
      with True key Some bal show ?thesis by auto
    qed
  next
    case False
    then have "w_db w1 = fst pub \<and> err = None"
      using db er fl ac by (cases "pays (we_settings env) e") (auto simp: charge_def Let_def)
    with False bal show ?thesis by auto
  qed
qed

end
