(* ===== verification/Payment_Props.thy ===== *)
theory Payment_Props
  imports Payment Db_Writer_Props
begin

text \<open>
  What the payment handler does: a relation between the store before and after that every
  operation of the repository keeps, and a condition on what is sent, carry over to whole
  turns (\<open>pay_rel\<close>); who becomes admitted, proved for any repository that meets the
  contract \<open>payment_repo\<close>; what paid invoices do to the balances on the SQLite store.
\<close>

section \<open>What computations keep and send\<close>

definition pay_rel :: "('db \<Rightarrow> 'db \<Rightarrow> bool) \<Rightarrow> (payment_output \<Rightarrow> bool) \<Rightarrow> ('db, 'a) pay \<Rightarrow> bool" where
  "pay_rel R P m \<longleftrightarrow> (\<forall>db. R db (fst (m db)) \<and> list_all P (fst (snd (m db))))"

lemma pay_relD: "pay_rel R P m \<Longrightarrow> R db (fst (m db)) \<and> list_all P (fst (snd (m db)))"
  by (simp add: pay_rel_def)

lemma pay_rel_bind:
  assumes "transp R" and "pay_rel R P m" and "\<And>x. pay_rel R P (f x)"
  shows "pay_rel R P (pay_bind m f)"
  unfolding pay_rel_def
proof
  fix db
  obtain db1 outs r where m: "m db = (db1, outs, r)" by (cases "m db") auto
  have 1: "R db db1" "list_all P outs" using pay_relD [OF assms(2), of db] m by simp_all
  show "R db (fst (pay_bind m f db)) \<and> list_all P (fst (snd (pay_bind m f db)))"
  proof (cases r)
    case (Value x)
    obtain db2 outs2 r2 where f: "f x db1 = (db2, outs2, r2)" by (cases "f x db1") auto
    have "R db1 db2" "list_all P outs2" using pay_relD [OF assms(3), of db1 x] f by simp_all
    moreover from this 1 assms(1) have "R db db2" by (meson transpE)
    ultimately show ?thesis using m f Value 1 by (simp add: pay_bind_def)
  qed (use m 1 in \<open>simp_all add: pay_bind_def\<close>)
qed

lemma pay_rel_basic:
  assumes "reflp R"
  shows "pay_rel R P (pay_return x)" and "pay_rel R P (pay_fail e)" and "P out \<Longrightarrow> pay_rel R P (pay_send out)"
    and "pay_rel R P (pay_read g)" and "pay_rel R P (pay_exec r)" and "pay_rel R P (parse_key pm pk)"
  using assms by (simp_all add: pay_rel_def pay_return_def pay_fail_def pay_send_def pay_read_def pay_exec_def
      parse_key_def reflpD split: option.split)

lemma pay_rel_update:
  assumes "\<And>db. R db (fst (f db))"
  shows "pay_rel R P (pay_update f)"
  unfolding pay_rel_def
proof
  fix db
  obtain db1 r where "f db = (db1, r)" by (cases "f db")
  with assms [of db] show "R db (fst (pay_update f db)) \<and> list_all P (fst (snd (pay_update f db)))"
    by (cases r) (simp_all add: pay_update_def)
qed

text \<open>The messages that the relay writes itself.\<close>

definition own_message :: "'db payment \<Rightarrow> event \<Rightarrow> bool" where
  "own_message pm e \<longleftrightarrow>
     (\<exists>sk pk c n. pm_keys pm = Some sk \<and> pm_dm pm sk pk c = Inr n \<and> e = event_of_nostr n)"

lemma pay_rel_dm:
  assumes "reflp R" and "pm_keys pm = Some sk" and "\<And>e. own_message pm e \<Longrightarrow> pay_rel R P (f e)"
  shows "pay_rel R P (pay_bind (dm_event pm sk pk c) f)"
proof (cases "pm_dm pm sk pk c")
  case (Inl s)
  then show ?thesis using assms(1) by (simp add: pay_rel_def pay_bind_def dm_event_def pay_fail_def reflpD)
next
  case (Inr n)
  with assms(2) have "own_message pm (event_of_nostr n)" by (auto simp: own_message_def)
  from assms(3) [OF this] Inr show ?thesis
    by (simp add: pay_rel_def pay_bind_def dm_event_def pay_return_def case_prod_beta)
qed

text \<open>Everything but the admission, for a relation that the repository's operations keep.\<close>

definition repo_keeps :: "('db \<Rightarrow> 'db \<Rightarrow> bool) \<Rightarrow> (payment_output \<Rightarrow> bool) \<Rightarrow> 'db payment \<Rightarrow> bool" where
  "repo_keeps R P pm \<longleftrightarrow> reflp R \<and> transp R
     \<and> (\<forall>e. own_message pm e \<longrightarrow> P (SendEvent e) \<and> (\<forall>db. R db (fst (rp_write_event (pm_repo pm) e db))))
     \<and> (\<forall>m. P (SendPayment m))
     \<and> (\<forall>k db. R db (fst (rp_create_account (pm_repo pm) k db)))
     \<and> (\<forall>k i db. R db (fst (rp_create_invoice (pm_repo pm) k i db)))
     \<and> (\<forall>h s db. R db (fst (rp_update_invoice (pm_repo pm) h s db)))"

lemma repo_keeps_steps:
  assumes "repo_keeps R P pm"
  shows "pay_rel R P (send_admission_message pm pk info)" and "pay_rel R P (create_new_invoice pm rnd pk amount)"
    and "pay_rel R P (get_invoice_info pm rnd pk amount)" and "pay_rel R P (check_invoice_status pm h)"
    and "pay_rel R P (offer_invoice pm rnd pk)"
proof -
  from assms have r: "reflp R" and t: "transp R" by (simp_all add: repo_keeps_def)
  have u: "pay_rel R P (pay_update (rp_create_account (pm_repo pm) k))"
      "pay_rel R P (pay_update (rp_create_invoice (pm_repo pm) k i))"
      "pay_rel R P (pay_update (rp_update_invoice (pm_repo pm) h s))"
      "own_message pm e \<Longrightarrow> pay_rel R P (pay_update (rp_write_event (pm_repo pm) e))" for e k i h s
    using assms by (auto simp: repo_keeps_def intro!: pay_rel_update)
  have p: "own_message pm e \<Longrightarrow> P (SendEvent e)" "P (SendPayment m)" for e m
    using assms by (simp_all add: repo_keeps_def)
  have snd: "own_message pm e \<Longrightarrow> pay_rel R P (pay_send (SendEvent e))" for e
    by (rule pay_rel_basic(3) [where P = P, OF r]) (rule p)
  note steps = pay_rel_bind [OF t] pay_rel_basic [OF r] u p
  show sam: "pay_rel R P (send_admission_message pm pk info)" for pk info
    by (auto simp: send_admission_message_def split: option.split
        intro!: pay_rel_bind [OF t pay_rel_basic(6) [OF r]] pay_rel_dm [OF r] pay_rel_bind [OF t u(4)]
          pay_rel_bind [OF t snd] pay_rel_basic(2) [OF r] snd)
  show cni: "pay_rel R P (create_new_invoice pm rnd pk amount)" for pk amount
    by (auto simp: create_new_invoice_def intro!: steps sam)
  show gii: "pay_rel R P (get_invoice_info pm rnd pk amount)" for pk amount
    by (auto simp: get_invoice_info_def split: sum.split option.split intro!: steps cni)
  show cis: "pay_rel R P (check_invoice_status pm h)" for h
    by (auto simp: check_invoice_status_def intro!: steps)
  show oi: "pay_rel R P (offer_invoice pm rnd pk)" for pk
    by (auto simp: offer_invoice_def intro!: steps gii)
qed

text \<open>A whole turn, when admitting an account keeps the relation as well.\<close>

lemma repo_keeps_turn:
  assumes k: "repo_keeps R P pm" and "\<And>k c db. R db (fst (rp_admit_account (pm_repo pm) k c db))"
  shows "pay_rel R P (payment_turn pm rnd msg)"
proof -
  from k have r: "reflp R" and t: "transp R" and p: "P (SendPayment m)" for m by (simp_all add: repo_keeps_def)
  have u: "pay_rel R P (pay_update (rp_admit_account (pm_repo pm) k c))"
      "pay_rel R P (pay_update (rp_update_invoice (pm_repo pm) h s))" for k c h s
    using assms by (auto simp: repo_keeps_def intro!: pay_rel_update)
  note steps = pay_rel_bind [OF t] pay_rel_basic [OF r] u p repo_keeps_steps [OF k]
  show ?thesis
    by (auto simp: payment_turn_def on_check_account_def on_invoice_paid_def split: option.split
        payment_message.split sum.split intro!: steps)
qed

section \<open>Admission\<close>

definition admitted :: "db \<Rightarrow> string \<Rightarrow> bool" where
  "admitted db pk \<longleftrightarrow> (\<exists>a \<in> set (accounts db). ac_pubkey a = pk \<and> ac_admitted a)"

lemma admitted_map_account:
  assumes "\<And>a. ac_pubkey (f a) = ac_pubkey a" and "\<And>a. ac_admitted (f a) = ac_admitted a"
  shows "admitted (map_account k f db) pk = admitted db pk"
proof -
  have "(ac_pubkey (if ac_pubkey a = k then f a else a) = pk \<and> ac_admitted (if ac_pubkey a = k then f a else a))
      \<longleftrightarrow> ac_pubkey a = pk \<and> ac_admitted a" for a
    using assms by simp
  then have "(\<exists>a \<in> set (map (\<lambda>a. if ac_pubkey a = k then f a else a) xs). ac_pubkey a = pk \<and> ac_admitted a)
      \<longleftrightarrow> (\<exists>a \<in> set xs. ac_pubkey a = pk \<and> ac_admitted a)" for xs
    by (simp only: set_map bex_simps)
  then show ?thesis by (simp add: admitted_def map_account_def del: set_map)
qed

lemma admitted_accounts: "accounts db' = accounts db \<Longrightarrow> admitted db' pk = admitted db pk"
  by (simp add: admitted_def)

lemma admitted_create: "admitted (fst (create_account k db)) pk = admitted db pk"
  by (auto simp: create_account_def admitted_def)

lemma admitted_create_invoice: "admitted (fst (create_invoice_record now k i db)) pk = admitted db pk"
  by (auto simp: create_invoice_record_def intro!: admitted_accounts split: option.split)

lemma admitted_invoices: "admitted (db\<lparr>invoices := is\<rparr>) pk = admitted db pk"
  by (simp add: admitted_def)

lemma admitted_update_invoice: "admitted (fst (update_invoice now h s db)) pk = admitted db pk"
  by (auto simp: update_invoice_find Let_def admitted_map_account admitted_invoices split: option.split)

lemma admitted_admit:
  assumes "admitted (fst (admit_account now k c db)) pk"
  shows "pk = k \<or> admitted db pk"
  using assms by (auto simp: admit_account_def admitted_def map_account_def split: option.splits if_splits)

lemma fst_pay_bind:
  "fst (pay_bind m f db) =
     (case m db of (db1, outs, r) \<Rightarrow> (case r of Value x \<Rightarrow> fst (f x db1) | _ \<Rightarrow> db1))"
  by (auto simp: pay_bind_def split: prod.splits outcome.splits)

lemma pay_bind_Value:
  "m db = (db1, [], Value x) \<Longrightarrow> pay_bind m f db = f x db1"
  by (simp add: pay_bind_def split: prod.splits)

lemma check_status_cases:
  obtains (ok) s pk db1 where "pp_check_invoice (pm_processor pm) h = Done (Inr s)"
      and "rp_update_invoice (pm_repo pm) h s db = (db1, Inr pk)"
      and "check_invoice_status pm h db = (db1, [], Value s)"
  | (failed) db1 e where "check_invoice_status pm h db = (db1, [], Fail e)"
  | (crash) "check_invoice_status pm h db = (db, [], Crash)"
proof (cases "pp_check_invoice (pm_processor pm) h")
  case Panic
  then show ?thesis by (intro crash) (simp add: check_invoice_status_def pay_bind_def pay_exec_def)
next
  case (Done r)
  show ?thesis
  proof (cases r)
    case (Inl e)
    with Done show ?thesis by (intro failed) (simp add: check_invoice_status_def pay_bind_def pay_exec_def)
  next
    case (Inr s)
    obtain db1 q where q: "rp_update_invoice (pm_repo pm) h s db = (db1, q)" by (cases "rp_update_invoice (pm_repo pm) h s db")
    show ?thesis
    proof (cases q)
      case (Inl e)
      with Done Inr q show ?thesis
        by (intro failed [of db1 e]) (simp add: check_invoice_status_def pay_bind_def pay_exec_def pay_update_def)
    next
      case (Inr pk)
      with Done \<open>r = Inr s\<close> q show ?thesis
        by (intro ok [of s db1 pk]) (simp_all add: check_invoice_status_def pay_bind_def pay_exec_def
          pay_update_def pay_return_def)
    qed
  qed
qed

lemma first_max_in: "first_max f xs = Some x \<Longrightarrow> x \<in> set xs"
  by (induction f xs arbitrary: x rule: first_max.induct) (auto split: option.splits if_splits)

lemma unpaid_invoice_row:
  assumes "get_unpaid_invoice k db = Inr (Some info)"
  obtains v where "v \<in> set (invoices db)" and "iv_pubkey v = k" and "iv_hash v = i_payment_hash info"
  using assms by (auto simp: get_unpaid_invoice_def split: option.splits dest!: first_max_in)

lemma invoice_of_in: "invoice_of db h = Some v \<Longrightarrow> v \<in> set (invoices db) \<and> iv_hash v = h"
  unfolding invoice_of_def by (induction "invoices db" arbitrary: db) (auto simp: find_Some_iff)

lemma update_invoice_Inr:
  assumes "update_invoice now h s db = (db1, Inr pk)"
  obtains v where "v \<in> set (invoices db)" and "iv_hash v = h" and "iv_pubkey v = pk"
    and "invoice_of db h = Some v"
  using assms invoice_of_in [of db h]
  by (cases "invoice_of db h") (auto simp: update_invoice_find Let_def split: if_splits)

section \<open>Admission on any repository\<close>

text \<open>
  What the handler relies on: only \<open>admit_account\<close> admits, and only that account; an
  invoice that is found belongs to the account it is returned for.
\<close>

locale payment_repo =
  fixes rp :: "'db nostr_repo" and adm :: "'db \<Rightarrow> string \<Rightarrow> bool" and invoice_for :: "'db \<Rightarrow> string \<Rightarrow> string \<Rightarrow> bool"
  assumes write_adm: "adm (fst (rp_write_event rp e db)) pk \<Longrightarrow> adm db pk"
    and create_adm: "adm (fst (rp_create_account rp k db)) pk \<Longrightarrow> adm db pk"
    and invoice_adm: "adm (fst (rp_create_invoice rp k i db)) pk \<Longrightarrow> adm db pk"
    and update_adm: "adm (fst (rp_update_invoice rp h s db)) pk \<Longrightarrow> adm db pk"
    and admit_adm: "adm (fst (rp_admit_account rp k c db)) pk \<Longrightarrow> pk = k \<or> adm db pk"
    and update_names: "rp_update_invoice rp h s db = (db1, Inr p) \<Longrightarrow> invoice_for db h p"
    and update_keeps: "invoice_for (fst (rp_update_invoice rp h s db)) h p \<Longrightarrow> invoice_for db h p"
    and unpaid_names: "rp_unpaid_invoice rp k db = Inr (Some info) \<Longrightarrow> invoice_for db (i_payment_hash info) k"
begin

definition admits_none :: "'db \<Rightarrow> 'db \<Rightarrow> bool" where
  "admits_none db db' \<longleftrightarrow> (\<forall>pk. adm db' pk \<longrightarrow> adm db pk)"

text \<open>The processor reports that an invoice of the account is paid.\<close>

definition paid_report :: "'db payment \<Rightarrow> 'db \<Rightarrow> string \<Rightarrow> bool" where
  "paid_report pm db pk \<longleftrightarrow>
     (\<exists>h p. invoice_for db h p \<and> (p = pk \<or> keys_from_pk (pm_ext pm) p = Some pk)
        \<and> pp_check_invoice (pm_processor pm) h = Done (Inr Paid))"

lemma keeps:
  assumes "pm_repo pm = rp"
  shows "repo_keeps admits_none (\<lambda>_. True) pm"
  unfolding repo_keeps_def admits_none_def assms
  by (intro conjI allI impI reflpI transpI TrueI)
    (assumption | erule write_adm create_adm invoice_adm update_adm | simp)+

lemma keepsD: "pay_rel admits_none P m \<Longrightarrow> adm (fst (m db)) pk \<Longrightarrow> adm db pk"
  by (simp add: pay_rel_def admits_none_def)

lemma check_adm: "pm_repo pm = rp \<Longrightarrow> adm (fst (check_invoice_status pm h db)) pk \<Longrightarrow> adm db pk"
  by (rule keepsD [OF repo_keeps_steps(4) [OF keeps]])

lemma offer_adm: "pm_repo pm = rp \<Longrightarrow> adm (fst (offer_invoice pm rnd p db)) pk \<Longrightarrow> adm db pk"
  by (rule keepsD [OF repo_keeps_steps(5) [OF keeps]])

lemma check_account_admits:
  assumes rp: "pm_repo pm = rp" and adm: "adm (fst (on_check_account pm rnd pubkey db)) pk"
  shows "adm db pk \<or> paid_report pm db pk"
proof (cases "keys_from_pk (pm_ext pm) pubkey")
  case None
  with adm show ?thesis by (simp add: on_check_account_def parse_key_def fst_pay_bind pay_fail_def)
next
  case (Some key)
  show ?thesis
  proof (cases "\<exists>info. rp_unpaid_invoice rp key db = Inr (Some info)")
    case False
    with adm rp Some have "adm (fst (offer_invoice pm rnd pubkey db)) pk"
      by (auto simp: on_check_account_def parse_key_def fst_pay_bind pay_return_def pay_read_def
          split: sum.splits option.splits)
    with offer_adm [OF rp] show ?thesis by blast
  next
    case True
    then obtain info where info: "rp_unpaid_invoice rp key db = Inr (Some info)" by blast
    note v = unpaid_names [OF info]
    note eq = on_check_account_def parse_key_def fst_pay_bind pay_return_def pay_read_def pay_send_def
    note chk = check_adm [OF rp, of "i_payment_hash info" db]
    show ?thesis
    proof (cases rule: check_status_cases [of pm "i_payment_hash info" db])
      case (ok s p db1)
      show ?thesis
      proof (cases "s = Paid")
        case True
        with adm rp Some info ok(3)
        have "adm (fst (rp_admit_account rp key (admission_cost (st_pay_to_relay (pm_settings pm))) db1)) pk"
          by (auto simp: eq pay_update_def split: prod.splits sum.splits)
        with admit_adm have "pk = key \<or> adm db1 pk" by blast
        then show ?thesis using v ok True chk [of pk] by (auto simp: paid_report_def)
      next
        case False
        with adm rp Some info ok(3) have "adm db1 pk" by (simp add: eq)
        with ok(3) chk [of pk] show ?thesis by simp
      qed
    qed (use adm rp Some info chk [of pk] in \<open>simp_all add: eq\<close>)
  qed
qed

lemma invoice_paid_admits:
  assumes rp: "pm_repo pm = rp" and adm: "adm (fst (on_invoice_paid pm h db)) pk"
  shows "adm db pk \<or> paid_report pm db pk"
proof (cases rule: check_status_cases [of pm h db])
  case (ok s p db1)
  note chk = check_adm [OF rp, of h db]
  show ?thesis
  proof (cases "s = Paid")
    case False
    with adm ok(3) have "adm db1 pk" by (simp add: on_invoice_paid_def fst_pay_bind pay_return_def)
    with ok(3) chk [of pk] show ?thesis by simp
  next
    case True
    obtain db2 r where u2: "rp_update_invoice rp h Paid db1 = (db2, r)" by (cases "rp_update_invoice rp h Paid db1")
    have db2: "adm db2 q \<Longrightarrow> adm db q" for q
      using update_adm [of h Paid db1 q] u2 chk [of q] ok(3) by simp
    show ?thesis
    proof (cases r)
      case (Inl e)
      with adm ok(3) True u2 rp have "adm db2 pk"
        by (simp add: on_invoice_paid_def fst_pay_bind pay_update_def)
      with db2 show ?thesis by blast
    next
      case (Inr p2)
      with u2 have "invoice_for db1 h p2" by (auto intro: update_names)
      then have inv: "invoice_for db h p2" using update_keeps [of h s db p2] ok(2) rp by simp
      show ?thesis
      proof (cases "keys_from_pk (pm_ext pm) p2")
        case None
        with adm ok(3) True u2 Inr rp have "adm db2 pk"
          by (simp add: on_invoice_paid_def fst_pay_bind pay_update_def parse_key_def pay_fail_def)
        with db2 show ?thesis by blast
      next
        case (Some key)
        with adm ok(3) True u2 Inr rp
        have "adm (fst (rp_admit_account rp key (admission_cost (st_pay_to_relay (pm_settings pm))) db2)) pk"
          by (auto simp: on_invoice_paid_def fst_pay_bind pay_update_def parse_key_def pay_return_def
              split: prod.splits sum.splits)
        with admit_adm have "pk = key \<or> adm db2 pk" by blast
        with Some inv ok(1) True db2 show ?thesis by (auto simp: paid_report_def)
      qed
    qed
  qed
qed (use adm check_adm [OF rp, of h db pk] in \<open>simp_all add: on_invoice_paid_def fst_pay_bind\<close>)

lemma turn_admits:
  assumes "pm_repo pm = rp" and "adm (fst (payment_turn pm rnd msg db)) pk"
  shows "adm db pk \<or> paid_report pm db pk"
proof (cases "\<exists>p. msg = Some (NewAccount p)")
  case True
  with assms offer_adm show ?thesis by (auto simp: payment_turn_def)
next
  case False
  with assms check_account_admits invoice_paid_admits show ?thesis
    by (auto simp: payment_turn_def pay_return_def split: option.splits payment_message.splits)
qed

end

section \<open>The SQLite store\<close>

definition has_invoice :: "db \<Rightarrow> string \<Rightarrow> string \<Rightarrow> bool" where
  "has_invoice db h p \<longleftrightarrow> (\<exists>v \<in> set (invoices db). iv_hash v = h \<and> iv_pubkey v = p)"

lemma has_invoice_update: "has_invoice (fst (update_invoice now h' s db)) h p = has_invoice db h p"
proof -
  have "(iv_hash (set_invoice_status now h' s v) = h \<and> iv_pubkey (set_invoice_status now h' s v) = p)
      \<longleftrightarrow> iv_hash v = h \<and> iv_pubkey v = p" for v s
    by (simp add: set_invoice_status_def)
  then have "(\<exists>v \<in> set (map (set_invoice_status now h' s) vs). iv_hash v = h \<and> iv_pubkey v = p)
      \<longleftrightarrow> (\<exists>v \<in> set vs. iv_hash v = h \<and> iv_pubkey v = p)" for vs s
    by (simp only: set_map bex_simps)
  then show ?thesis
    by (simp add: has_invoice_def update_invoice_find Let_def map_account_def del: set_map split: option.split)
qed

interpretation sp: payment_repo "sqlite_repo X jit now busy" admitted has_invoice
  for X jit now busy
proof unfold_locales
  fix k db info
  assume "rp_unpaid_invoice (sqlite_repo X jit now busy) k db = Inr (Some info)"
  then show "has_invoice db (i_payment_hash info) k"
    by (auto simp: sqlite_repo_def Let_def has_invoice_def elim!: unpaid_invoice_row)
next
  fix h s db db1 p
  assume "rp_update_invoice (sqlite_repo X jit now busy) h s db = (db1, Inr p)"
  then show "has_invoice db h p"
    by (auto simp: sqlite_repo_def Let_def has_invoice_def elim!: update_invoice_Inr)
qed (use admitted_admit in \<open>auto simp: sqlite_repo_def Let_def guarded_def admitted_create admitted_create_invoice
  admitted_update_invoice admitted_accounts [OF write_event_accounts] has_invoice_update split: option.splits\<close>)

section \<open>The balance after a paid invoice\<close>

lemma admit_account_balance:
  assumes "sql_u64 cost = Some n"
  shows "balance_of (fst (admit_account now k cost db)) q =
    (if q = k then map_option (\<lambda>b. b - n) (balance_of db q) else balance_of db q)"
  using assms by (simp add: admit_account_def balance_map_account)
    (simp add: balance_of_def option.map_comp comp_def)

lemma find_SomeD: "List.find P xs = Some x \<Longrightarrow> x \<in> set xs \<and> P x"
  by (induction xs) (auto split: if_splits)

lemma admit_account_admits:
  assumes "sql_u64 cost = Some n" and "balance_of db k \<noteq> None"
  shows "admitted (fst (admit_account now k cost db)) k"
proof -
  from assms(2) obtain a where "a \<in> set (accounts db)" "ac_pubkey a = k"
    by (auto simp: balance_of_def dest: find_SomeD)
  then have row: "a\<lparr>ac_admitted := True, ac_tos := Some (uint now), ac_balance := ac_balance a - n\<rparr>
      \<in> set (accounts (fst (admit_account now k cost db)))"
    using assms(1) by (auto simp: admit_account_def map_account_def)
  show ?thesis unfolding admitted_def by (rule bexI [OF _ row]) (simp add: \<open>ac_pubkey a = k\<close>)
qed

lemma invoice_paid_effect:
  assumes rp: "pm_repo pm = sqlite_repo X jit now busy"
    and works: "fl_call busy UpdateInvoice = None" "fl_call busy AdmitAccount = None"
    and chk: "pp_check_invoice (pm_processor pm) h = Done (Inr Paid)"
    and v: "invoice_of db h = Some v" and key: "keys_from_pk (pm_ext pm) (iv_pubkey v) = Some (iv_pubkey v)"
    and cost: "sql_u64 (admission_cost (st_pay_to_relay (pm_settings pm))) = Some n"
  obtains db' v' where "on_invoice_paid pm h db = (db', [], Value ())"
    and "invoice_of db' h = Some v'" and "iv_status v' = ''Paid''" and "iv_pubkey v' = iv_pubkey v"
    and "balance_of db' q = (if q = iv_pubkey v
      then map_option (\<lambda>b. b + (if iv_status v = ''Unpaid'' then iv_amount v else 0) - n) (balance_of db q)
      else balance_of db q)"
    and "balance_of db (iv_pubkey v) \<noteq> None \<longrightarrow> admitted db' (iv_pubkey v)"
proof -
  let ?c = "admission_cost (st_pay_to_relay (pm_settings pm))"
  obtain db1 where u1: "update_invoice now h Paid db = (db1, Inr (iv_pubkey v))"
    using v by (simp add: update_invoice_find Let_def)
  from update_invoice_status [OF v, of now Paid] u1 obtain v1
    where v1: "invoice_of db1 h = Some v1" "iv_status v1 = ''Paid''" "iv_pubkey v1 = iv_pubkey v" by auto
  obtain db2 where u2: "update_invoice now h Paid db1 = (db2, Inr (iv_pubkey v))"
    using v1 by (simp add: update_invoice_find Let_def)
  from update_invoice_status [OF v1(1), of now Paid] u2 obtain v2
    where v2: "invoice_of db2 h = Some v2" "iv_status v2 = ''Paid''" "iv_pubkey v2 = iv_pubkey v" using v1(3) by auto
  define db3 where "db3 = fst (admit_account now (iv_pubkey v) ?c db2)"
  have a: "admit_account now (iv_pubkey v) ?c db2 = (db3, Inr ())"
    using cost by (simp add: db3_def admit_account_def)
  have st: "check_invoice_status pm h db = (db1, [], Value Paid)"
    using chk u1 rp works
    by (simp add: check_invoice_status_def pay_bind_def pay_exec_def pay_update_def pay_return_def sqlite_repo_def Let_def)
  have run: "on_invoice_paid pm h db = (db3, [], Value ())"
    using st u2 a key rp works
    by (simp add: on_invoice_paid_def pay_bind_def pay_update_def parse_key_def pay_return_def sqlite_repo_def Let_def)
  have i3: "invoice_of db3 h = Some v2"
    using v2 cost by (simp add: db3_def admit_account_def)
  have b: "balance_of db3 q = (if q = iv_pubkey v
      then map_option (\<lambda>b. b + (if iv_status v = ''Unpaid'' then iv_amount v else 0) - n) (balance_of db q)
      else balance_of db q)" for q
    using admit_account_balance [OF cost, of now "iv_pubkey v" db2 q] update_invoice_balance [OF v1(1), of now Paid q]
      update_invoice_balance [OF v, of now Paid q] u1 u2 v1
    by (auto simp: db3_def option.map_comp comp_def)
  have "balance_of db (iv_pubkey v) \<noteq> None \<Longrightarrow> balance_of db2 (iv_pubkey v) \<noteq> None"
    using update_invoice_balance [OF v1(1), of now Paid "iv_pubkey v"]
      update_invoice_balance [OF v, of now Paid "iv_pubkey v"] u1 u2 v1 by auto
  then have adm: "balance_of db (iv_pubkey v) \<noteq> None \<longrightarrow> admitted db3 (iv_pubkey v)"
    using admit_account_admits [OF cost, of db2 "iv_pubkey v" now] by (simp add: db3_def)
  show thesis by (rule that [OF run i3 v2(2,3) b adm])
qed

text \<open>One message about a paid invoice, and the same message again and again.\<close>

lemma paid_loop_again:
  assumes rp: "pm_repo pm = sqlite_repo X jit now busy"
    and works: "fl_call busy UpdateInvoice = None" "fl_call busy AdmitAccount = None"
    and chk: "pp_check_invoice (pm_processor pm) h = Done (Inr Paid)"
    and key: "keys_from_pk (pm_ext pm) p = Some p"
    and cost: "sql_u64 (admission_cost (st_pay_to_relay (pm_settings pm))) = Some n"
  shows "invoice_of db h = Some v \<Longrightarrow> iv_status v = ''Paid'' \<Longrightarrow> iv_pubkey v = p \<Longrightarrow> balance_of db p = Some b \<Longrightarrow>
    balance_of (fst (payment_loop (replicate k (pm, rnd, Some (InvoicePaid h))) db)) p = Some (b - int k * n)"
proof (induction k arbitrary: db v b)
  case (Suc k)
  from Suc.prems key have "keys_from_pk (pm_ext pm) (iv_pubkey v) = Some (iv_pubkey v)" by simp
  from invoice_paid_effect [OF rp works chk Suc.prems(1) this cost, of p] obtain db' v'
    where e: "on_invoice_paid pm h db = (db', [], Value ())" "invoice_of db' h = Some v'" "iv_status v' = ''Paid''"
      "iv_pubkey v' = iv_pubkey v" "balance_of db' p = (if p = iv_pubkey v
        then map_option (\<lambda>b. b + (if iv_status v = ''Unpaid'' then iv_amount v else 0) - n) (balance_of db p)
        else balance_of db p)" by blast
  have p: "iv_pubkey v' = p" and b: "balance_of db' p = Some (b - n)" using e(4,5) Suc.prems by auto
  from Suc.IH [OF e(2,3) p b] e(1) show ?case
    by (simp add: payment_turn_def algebra_simps split: prod.splits)
qed simp

end
