(* ===== verification/Server_Props.thy ===== *)
theory Server_Props
  imports Server
begin

text \<open>
  What a connection guarantees: its turns are steps of the connection state, so the
  invariant of the subscription table and the justification of an authenticated state
  carry over to every run; and which events a client is sent.
\<close>

section \<open>Turns as steps of the connection\<close>

text \<open>The step of the connection that a turn takes, if any.\<close>

definition conn_step :: "ext \<Rightarrow> settings \<Rightarrow> u64 \<Rightarrow> client_input \<Rightarrow> conn_action \<Rightarrow> bool" where
  "conn_step X st now inp a \<longleftrightarrow>
     (case a of
        DoSubscribe s \<Rightarrow> True
      | DoUnsubscribe c \<Rightarrow> True
      | DoChallenge u \<Rightarrow> False
      | DoAuthenticate t e \<Rightarrow> t = now \<and> nip42_auth (st_authorization st) \<and>
          (\<exists>m ec. inp = FromClient (WsText m)
             \<and> convert_to_msg X m (max_event_bytes (st_limits st)) = Inr (EventMsg ec)
             \<and> wrap_event_cmd X ec = Done (Inr (WrappedAuth e))))"

lemma on_sub_msg_conn:
  "cl_conn (fst (on_sub_msg st s cl)) = cl_conn cl \<or> cl_conn (fst (on_sub_msg st s cl)) = fst (subscribe s (cl_conn cl))"
  by (auto simp: on_sub_msg_def Let_def split: prod.splits sum.splits)

lemma on_close_msg_conn:
  "cl_conn (fst (on_close_msg cc cl)) = cl_conn cl \<or>
     (\<exists>c. cl_conn (fst (on_close_msg cc cl)) = unsubscribe c (cl_conn cl))"
  by (auto simp: on_close_msg_def split: sum.splits)

lemma on_auth_conn:
  "cl_conn (fst (on_auth X st now i e cl)) = cl_conn cl \<or>
     (\<exists>url. nip42_auth (st_authorization st) \<and> relay_url (st_info st) = Some url
        \<and> cl_conn (fst (on_auth X st now i e cl)) = fst (authenticate X now e url (cl_conn cl)))"
  by (auto simp: on_auth_def split: prod.splits sum.splits option.splits)

lemma on_event_msg_cases:
  assumes "on_event_msg X st info now ec cl = Done (cl', outs)"
  shows "cl' = cl \<or> (\<exists>e. wrap_event_cmd X ec = Done (Inr (WrappedAuth e))
    \<and> (cl', outs) = on_auth X st now (event_id ec) e cl)"
proof -
  from assms obtain r where r: "wrap_event_cmd X ec = Done r"
    and o: "(cl', outs) = (case r of
       Inr (WrappedEvent e) \<Rightarrow> (cl, on_event X st info now e cl)
     | Inr (WrappedAuth e) \<Rightarrow> on_auth X st now (event_id ec) e cl
     | Inl err \<Rightarrow> (cl, [SendJson (make_notice_message (notice_invalid (event_id ec) (error_text err)))]))"
    unfolding on_event_msg_def map_exec_eq_Done by blast
  then show ?thesis by (cases r) (auto split: event_wrapper.splits)
qed

lemma client_turn_conn:
  assumes "client_turn X st info now inp cl = Done (cl', outs, go)"
    and "relay_url (st_info st) = Some url \<or> \<not> nip42_auth (st_authorization st) \<or> relay_url (st_info st) = None"
  shows "cl_conn cl' = cl_conn cl \<or>
    (\<exists>a. conn_step X st now inp a \<and> cl_conn cl' = conn_apply X url a (cl_conn cl))"
proof (cases "\<exists>m. inp = FromClient (WsText m)")
  case False
  with assms(1) have "cl' = cl"
    by (auto simp: client_turn_def Let_def split: client_input.splits ws_input.splits if_splits)
  then show ?thesis by simp
next
  case True
  then obtain m where m: "inp = FromClient (WsText m)" by blast
  with assms(1) have t: "on_text X st info now m cl = Done (cl', outs)"
    by (auto simp: client_turn_def)
  show ?thesis
  proof (cases "convert_to_msg X m (max_event_bytes (st_limits st))")
    case (Inl err)
    with t have "cl' = cl" by (cases err) (simp_all add: on_text_def)
    then show ?thesis by simp
  next
    case (Inr msg)
    show ?thesis
    proof (cases msg)
      case (EventMsg ec)
      with Inr t have "on_event_msg X st info now ec cl = Done (cl', outs)" by (simp add: on_text_def)
      then consider "cl' = cl" | e where "wrap_event_cmd X ec = Done (Inr (WrappedAuth e))"
          "(cl', outs) = on_auth X st now (event_id ec) e cl"
        using on_event_msg_cases by blast
      then show ?thesis
      proof cases
        case 2
        then have "cl' = fst (on_auth X st now (event_id ec) e cl)" by (metis fst_conv)
        then consider "cl_conn cl' = cl_conn cl"
          | "nip42_auth (st_authorization st)" "cl_conn cl' = fst (authenticate X now e url (cl_conn cl))"
          using on_auth_conn [of X st now "event_id ec" e cl] assms(2) by auto
        then show ?thesis
        proof cases
          case 2
          have "conn_step X st now inp (DoAuthenticate now e)"
            using 2(1) m Inr EventMsg \<open>wrap_event_cmd X ec = Done (Inr (WrappedAuth e))\<close>
            by (auto simp: conn_step_def)
          moreover have "cl_conn cl' = conn_apply X url (DoAuthenticate now e) (cl_conn cl)"
            using 2(2) by simp
          ultimately show ?thesis by blast
        qed simp
      qed simp
    next
      case (SubMsg s)
      with Inr t have c: "cl' = fst (on_sub_msg st s cl)" by (auto simp: on_text_def)
      have "conn_step X st now inp (DoSubscribe s)" by (simp add: conn_step_def)
      with on_sub_msg_conn [of st s cl] c show ?thesis by (metis conn_apply.simps(1))
    next
      case (CloseMsg cc)
      with Inr t have c: "cl' = fst (on_close_msg cc cl)" by (auto simp: on_text_def)
      have "conn_step X st now inp (DoUnsubscribe x)" for x by (simp add: conn_step_def)
      with on_close_msg_conn [of cc cl] c show ?thesis by (metis conn_apply.simps(2))
    qed
  qed
qed

text \<open>The relay's own URL; any text when it is not configured, as no client authenticates then.\<close>

definition own_url :: "settings \<Rightarrow> string" where
  "own_url st = (case relay_url (st_info st) of Some u \<Rightarrow> u | None \<Rightarrow> [])"

text \<open>
  The authentication steps of a trace are inputs of the run, and its challenges were sent.
\<close>

definition trace_of_run ::
  "ext \<Rightarrow> settings \<Rightarrow> (u64 \<times> client_input) list \<Rightarrow> client_output list \<Rightarrow> conn_action list \<Rightarrow> bool" where
  "trace_of_run X st ins outs as \<longleftrightarrow>
     (\<forall>a \<in> set as. (\<exists>now inp. (now, inp) \<in> set ins \<and> conn_step X st now inp a)
        \<or> (\<exists>u. a = DoChallenge u \<and> SendJson (make_notice_message (AuthChallenge u)) \<in> set outs))"

lemma trace_of_run_mono:
  "trace_of_run X st ins outs as \<Longrightarrow> set ins \<subseteq> set ins' \<Longrightarrow> set outs \<subseteq> set outs' \<Longrightarrow>
    trace_of_run X st ins' outs' as"
  unfolding trace_of_run_def by blast

lemma conn_step_challenge [simp]: "\<not> conn_step X st now inp (DoChallenge u)"
  by (simp add: conn_step_def)

lemma client_run_trace:
  assumes "client_run X st info ins cl outs"
  shows "\<exists>as. conn_trace X (own_url st) as (cl_conn cl) \<and> trace_of_run X st ins outs as"
  using assms
proof (induction rule: client_run.induct)
  case (begin_run uuid challenge cl outs)
  show ?case
  proof (cases "nip42_auth (st_authorization st)")
    case True
    with begin_run have c: "cl_conn cl = conn_apply X (own_url st) (DoChallenge challenge) (new_conn uuid (ci_remote_ip info))"
      and o: "outs = [SendJson (make_notice_message (AuthChallenge challenge))]"
      by (auto simp: start_client_def Let_def)
    have "conn_trace X (own_url st) ([] @ [DoChallenge challenge]) (cl_conn cl)"
      unfolding c by (intro conn_trace.intros)
    with o show ?thesis by (intro exI [of _ "[DoChallenge challenge]"]) (auto simp: trace_of_run_def)
  next
    case False
    with begin_run have "cl_conn cl = new_conn uuid (ci_remote_ip info)"
      by (auto simp: start_client_def Let_def)
    then show ?thesis by (intro exI [of _ "[]"]) (simp add: trace_of_run_def conn_trace.start)
  qed
next
  case (turn ins cl outs now inp cl' outs')
  from turn.IH obtain as where as: "conn_trace X (own_url st) as (cl_conn cl)" "trace_of_run X st ins outs as"
    by blast
  have "relay_url (st_info st) = Some (own_url st) \<or> \<not> nip42_auth (st_authorization st) \<or> relay_url (st_info st) = None"
    by (cases "relay_url (st_info st)") (simp_all add: own_url_def)
  from client_turn_conn [OF turn.hyps(2) this] consider "cl_conn cl' = cl_conn cl"
    | a where "conn_step X st now inp a" "cl_conn cl' = conn_apply X (own_url st) a (cl_conn cl)" by blast
  then show ?case
  proof cases
    case 1
    have "trace_of_run X st (ins @ [(now, inp)]) (outs @ outs') as"
      by (rule trace_of_run_mono [OF as(2)]) auto
    with 1 as(1) show ?thesis by auto
  next
    case 2
    have "conn_trace X (own_url st) (as @ [a]) (cl_conn cl')" unfolding 2(2) by (rule conn_trace.step [OF as(1)])
    moreover have "trace_of_run X st (ins @ [(now, inp)]) (outs @ outs') (as @ [a])"
      using trace_of_run_mono [OF as(2), of "ins @ [(now, inp)]" "outs @ outs'"] 2(1)
      by (fastforce simp: trace_of_run_def)
    ultimately show ?thesis by blast
  qed
qed

section \<open>Authenticated clients\<close>

lemma client_run_auth:
  assumes "client_run X st info ins cl outs" and "auth_pubkey (cl_conn cl) = Some pk"
  shows "\<exists>now m ec e u. (now, FromClient (WsText m)) \<in> set ins
    \<and> convert_to_msg X m (max_event_bytes (st_limits st)) = Inr (EventMsg ec)
    \<and> wrap_event_cmd X ec = Done (Inr (WrappedAuth e)) \<and> e_pubkey e = pk
    \<and> SendJson (make_notice_message (AuthChallenge u)) \<in> set outs
    \<and> auth_answer X now e (own_url st) u"
proof -
  from client_run_trace [OF assms(1)] obtain as
    where t: "conn_trace X (own_url st) as (cl_conn cl)" and r: "trace_of_run X st ins outs as" by blast
  from assms(2) have "auth (cl_conn cl) = AuthPubkey pk"
    by (auto simp: auth_pubkey_def split: auth_state.splits)
  with conn_trace_justified [OF t] obtain as1 as2 now e u
    where as: "as = as1 @ DoAuthenticate now e # as2" and ch: "DoChallenge u \<in> set as1"
      and ans: "auth_answer X now e (own_url st) u" and pk: "e_pubkey e = pk"
    by (auto simp: auth_justified_def)
  from r as have "\<exists>t inp. (t, inp) \<in> set ins \<and> conn_step X st t inp (DoAuthenticate now e)"
    by (force simp: trace_of_run_def)
  then obtain inp where i: "(now, inp) \<in> set ins" "conn_step X st now inp (DoAuthenticate now e)"
    by (auto simp: conn_step_def)
  from as ch have "DoChallenge u \<in> set as" by simp
  with r have "SendJson (make_notice_message (AuthChallenge u)) \<in> set outs"
    unfolding trace_of_run_def using conn_step_challenge by blast
  with i ans pk show ?thesis unfolding conn_step_def conn_action.case by blast
qed

section \<open>Events sent to a client\<close>

lemma on_global_event_iff:
  "out \<in> set (on_global_event X st now e cl) \<longleftrightarrow>
     (\<exists>k sub s. (k, sub) \<in> set (subscriptions (cl_conn cl)) \<and> interested_in_event sub e
        \<and> json_to_string X (event_to_json e) = Some s \<and> allowed_to_send X now s (cl_conn cl) st
        \<and> out = SendText (event_text (strip_quotes k) s))"
  by (force simp: on_global_event_def split: option.splits)

lemma allowed_to_send_dm:
  assumes "allowed_to_send X now s c st" and "json_from_str X s = Some v" and "event_from_json v = Some e"
    and "nip42_dms (st_authorization st)" and "e_kind e \<in> {4, 44, 1059}"
  shows "\<exists>a p ps. auth_pubkey c = Some a \<and> tag_values_by_name e ''p'' = p # ps \<and> (a = p \<or> a = e_pubkey e)"
  using assms by (auto simp: allowed_to_send_iff dm_allowed_iff)

text \<open>What a turn may send as text: the end of stored events, or an event that the client may see.\<close>

lemma on_text_sends_eose:
  assumes "on_text X st info now m cl = Done (cl', outs)" and "SendText t \<in> set outs"
  shows "\<exists>sub. t = eose_text sub"
proof -
  have ev: "SendText t \<notin> set (on_event X st info now e cl)" for e
    by (simp add: on_event_def split: option.split)
  have au: "SendText t \<notin> set (snd (on_auth X st now i e cl))" for i e
    by (auto simp: on_auth_def split: prod.splits sum.splits option.splits)
  have cls: "SendText t \<notin> set (snd (on_close_msg cc cl))" for cc
    by (auto simp: on_close_msg_def split: sum.splits option.splits)
  have sub: "SendText t \<in> set (snd (on_sub_msg st s cl)) \<Longrightarrow> \<exists>sub. t = eose_text sub" for s
    by (auto simp: on_sub_msg_def Let_def split: prod.splits sum.splits option.splits if_splits)
  have msg: "SendText t \<notin> set os" if "on_event_msg X st info now ec cl = Done (c', os)" for ec c' os
  proof -
    from that obtain r where o: "(c', os) = (case r of
         Inr (WrappedEvent e) \<Rightarrow> (cl, on_event X st info now e cl)
       | Inr (WrappedAuth e) \<Rightarrow> on_auth X st now (event_id ec) e cl
       | Inl err \<Rightarrow> (cl, [SendJson (make_notice_message (notice_invalid (event_id ec) (error_text err)))]))"
      unfolding on_event_msg_def map_exec_eq_Done by blast
    show ?thesis
    proof (cases r)
      case (Inr w)
      with o ev au show ?thesis by (cases w) (simp_all, metis snd_conv)
    qed (use o in simp)
  qed
  show ?thesis
    using assms cls msg sub
    by (auto simp: on_text_def split: sum.splits nostr_message.splits error.splits) (metis snd_conv)+
qed

lemma client_turn_sends:
  assumes "client_turn X st info now inp cl = Done (cl', outs, go)" and "SendText t \<in> set outs"
  shows "(\<exists>sub. t = eose_text sub)
    \<or> (\<exists>sub s. t = event_text sub s \<and> allowed_to_send X now s (cl_conn cl) st)"
proof -
  have g: "\<exists>sub s. t = event_text sub s \<and> allowed_to_send X now s (cl_conn cl) st"
    if "SendText t \<in> set (on_global_event X st now e cl)" for e
    using that by (auto simp: on_global_event_iff)
  have q: "(\<exists>sub. t = eose_text sub) \<or> (\<exists>sub s. t = event_text sub s \<and> allowed_to_send X now s (cl_conn cl) st)"
    if "SendText t \<in> set (on_query_row X st now s v cl)" for s v
    using that by (auto simp: on_query_row_def split: if_splits)
  from assms show ?thesis
    using g q on_text_sends_eose
    by (auto simp: client_turn_def Let_def split: client_input.splits ws_input.splits if_splits)
qed

end
