(* ===== verification/Query_Props.thy ===== *)
theory Query_Props
  imports Sqlite_Query
begin

text \<open>
  What a query returns: exactly the matching rows that are neither hidden nor expired, in
  the order of their times, and under a limit the latest of them. And that a stored event
  matches a filter in the database when the event itself matches it on the live path, for
  filters of full identifiers.
\<close>

section \<open>Results\<close>

definition hits :: "ext \<Rightarrow> u64 \<Rightarrow> db \<Rightarrow> req_filter \<Rightarrow> event_row list" where
  "hits X now db f = filter (\<lambda>r. current_row now r \<and> row_matches X db f r) (events db)"

lemma bound_ok:
  "sql_u64 now \<noteq> None \<Longrightarrow>
    \<not> list_ex (\<lambda>c. case c of NotExpired now \<Rightarrow> sql_u64 now = None | _ \<Rightarrow> False) (conds_of_filter X now f)"
  by (auto simp: conds_of_filter_def list_ex_iff split: option.splits)

lemma hits_force: "force_no_match f \<Longrightarrow> hits X now db f = []"
  by (simp add: hits_def row_matches_def)

lemma select_all:
  assumes "db_inv db" and "mset (scan (events db)) = mset (events db)" and "sql_u64 now \<noteq> None"
    and "f_limit f = None"
  shows "\<exists>rs. select_rows scan db (select_of_filter X now f) = Inr rs
    \<and> mset rs = mset (hits X now db f) \<and> sorted (map ev_created rs)"
proof (cases "force_no_match f")
  case True
  then show ?thesis by (simp add: select_of_filter_def hits_force)
next
  case False
  let ?hs = "filter (\<lambda>r. \<not> ev_hidden r \<and> list_all (cond_holds db r) (conds_of_filter X now f)) (scan (events db))"
  have "select_rows scan db (select_of_filter X now f) = Inr (sort_key ev_created ?hs)"
    using False bound_ok [OF assms(3)] assms(4) by (simp add: select_of_filter_def Let_def)
  moreover have "mset (sort_key ev_created ?hs) = mset (hits X now db f)"
    unfolding mset_sort hits_def by (rule select_hits [where scan = scan, OF assms(1,2) False])
  ultimately show ?thesis by simp
qed

lemma order_desc_take:
  "\<exists>rest. mset (take n (order_desc g xs) @ rest) = mset xs
    \<and> length (take n (order_desc g xs)) = min n (length xs)
    \<and> sorted (map (\<lambda>x. - g x) (take n (order_desc g xs)))
    \<and> (\<forall>x \<in> set (take n (order_desc g xs)). \<forall>y \<in> set rest. g y \<le> g x)"
proof (intro exI [of _ "drop n (order_desc g xs)"] conjI)
  let ?ys = "order_desc g xs"
  have s: "sorted (map (\<lambda>x. - g x) (take n ?ys @ drop n ?ys))"
    by (simp add: order_desc_def)
  show "mset (take n ?ys @ drop n ?ys) = mset xs" by (simp add: order_desc_def)
  show "length (take n ?ys) = min n (length xs)" by (simp add: order_desc_def min.commute)
  show "sorted (map (\<lambda>x. - g x) (take n ?ys))"
    using s by (simp only: map_append sorted_append)
  show "\<forall>x \<in> set (take n ?ys). \<forall>y \<in> set (drop n ?ys). g y \<le> g x"
  proof (intro ballI)
    fix x y assume "x \<in> set (take n ?ys)" "y \<in> set (drop n ?ys)"
    with s have "- g x \<le> - g y" by (simp only: map_append sorted_append set_map) blast
    then show "g y \<le> g x" by simp
  qed
qed

lemma select_limit:
  assumes "db_inv db" and "mset (scan (events db)) = mset (events db)" and "sql_u64 now \<noteq> None"
    and "f_limit f = Some n" and "sql_u64 n = Some m"
  shows "\<exists>rs rest. select_rows scan db (select_of_filter X now f) = Inr rs
    \<and> mset (rs @ rest) = mset (hits X now db f) \<and> length rs = min (unat n) (length (hits X now db f))
    \<and> sorted (map (\<lambda>r. - ev_created r) rs)
    \<and> (\<forall>x \<in> set rs. \<forall>y \<in> set rest. ev_created y \<le> ev_created x)"
proof (cases "force_no_match f")
  case True
  then show ?thesis by (simp add: select_of_filter_def hits_force)
next
  case False
  let ?hs = "filter (\<lambda>r. \<not> ev_hidden r \<and> list_all (cond_holds db r) (conds_of_filter X now f)) (scan (events db))"
  have "nat m = unat n" using assms(5) by (simp add: sql_u64_Some)
  then have "select_rows scan db (select_of_filter X now f) = Inr (take (unat n) (order_desc ev_created ?hs))"
    using False bound_ok [OF assms(3)] assms(4,5) by (simp add: select_of_filter_def Let_def)
  moreover have h: "mset ?hs = mset (hits X now db f)"
    unfolding hits_def by (rule select_hits [where scan = scan, OF assms(1,2) False])
  moreover from h have "length ?hs = length (hits X now db f)" by (rule mset_eq_length)
  moreover define hs where "hs = ?hs"
  moreover obtain rest where
      "mset (take (unat n) (order_desc ev_created hs) @ rest) = mset hs"
      "length (take (unat n) (order_desc ev_created hs)) = min (unat n) (length hs)"
      "sorted (map (\<lambda>x. - ev_created x) (take (unat n) (order_desc ev_created hs)))"
      "\<forall>x \<in> set (take (unat n) (order_desc ev_created hs)). \<forall>y \<in> set rest. ev_created y \<le> ev_created x"
    using order_desc_take [of "unat n" ev_created hs] by blast
  ultimately show ?thesis by metis
qed

section \<open>Live and stored events\<close>

text \<open>The row of an event, and the tags stored with it.\<close>

definition row_of_event :: "ext \<Rightarrow> db \<Rightarrow> event \<Rightarrow> event_row \<Rightarrow> bool" where
  "row_of_event X db e r \<longleftrightarrow>
     hex_decode X (e_id e) = Some (ev_hash r) \<and> hex_decode X (e_pubkey e) = Some (ev_author r)
     \<and> ev_kind r = uint (e_kind e) \<and> ev_created r = uint (e_created_at e)
     \<and> (\<forall>k v. has_tag db r k v \<longleftrightarrow> indexed_tag (e_tags e) k v)"

lemma insert_event_row:
  assumes inv: "db_inv db" and n: "new_event_row X now e db = Inr (Some r)"
  shows "row_of_event X (insert_event r e db) e r"
proof -
  have old: "tg_event t \<noteq> ev_id r" if "t \<in> set (tags db)" for t
    using inv that new_id_absent [OF n] by (fastforce simp: db_inv_def refs_ok_def)
  have tag: "(\<exists>t \<in> set (new_tag_rows r e). tg_event t = ev_id r \<and> tg_name t = k \<and> tg_value t = v)
      \<longleftrightarrow> (\<exists>g \<in> set (e_tags e). 2 \<le> length g \<and> single_char_tagname (g ! 0) \<noteq> None \<and> g ! 0 = k \<and> g ! 1 = v)" for k v
    by (rule iffI, force dest: in_new_tag_rows [THEN iffD1], auto intro!: bexI in_new_tag_rows [THEN iffD2])
  have "2 \<le> length g \<and> single_char_tagname (g ! 0) \<noteq> None \<and> g ! 0 = k \<and> g ! 1 = v
      \<longleftrightarrow> 1 < length g \<and> single_char_tagname (hd g) = Some k \<and> g ! 1 = v" for g :: tag and k v
  proof (cases g)
    case (Cons a gs)
    then show ?thesis using single_char_tagname_eq [of a] by (auto simp: Suc_le_eq)
  qed simp
  then have "has_tag (insert_event r e db) r k v \<longleftrightarrow> indexed_tag (e_tags e) k v" for k v
    using old tag [of k v] by (auto simp: has_tag_def list_ex_iff indexed_tag_def)
  with new_event_row_Some [OF n] show ?thesis by (simp add: row_of_event_def)
qed

text \<open>Full identifiers: 64 lowercase hexadecimal digits.\<close>

definition full_id :: "string \<Rightarrow> bool" where
  "full_id s \<longleftrightarrow> length s = 64 \<and> is_lower_hex s"

definition full_ids :: "string list option \<Rightarrow> bool" where
  "full_ids m \<longleftrightarrow> (\<forall>ss. m = Some ss \<longrightarrow> list_all full_id ss)"

lemma full_id_decode:
  assumes "hex_law X" and "full_id s" and "full_id t" and "hex_decode X t = Some b"
  shows "hex_decode X s = Some b \<longleftrightarrow> starts_with t s"
proof -
  have "hex_decode X s = Some b \<longleftrightarrow> s = t"
    using hex_decode_inj_lower [OF assms(1) _ assms(4), of s] assms(2-4) is_lower_hex_lower
    by (auto simp: full_id_def)
  also have "\<dots> \<longleftrightarrow> starts_with t s" using assms(2,3) by (auto simp: full_id_def starts_with_def)
  finally show ?thesis .
qed

lemma live_matches_stored:
  assumes hex: "hex_law X" and row: "row_of_event X db e r" and idx: "is_indexed e"
    and own: "full_id (e_id e)" "full_id (e_pubkey e)" "e_delegated_by e = None"
    and f: "full_ids (f_ids f)" "full_ids (f_authors f)"
  shows "row_matches X db f r \<longleftrightarrow> filter_interested f e"
proof -
  have i: "(\<exists>i \<in> set is. hex_decode X i = Some (ev_hash r)) \<longleftrightarrow> (\<exists>p \<in> set is. \<exists>x. e_id e = p @ x)"
    if "list_all full_id is" for "is"
    using that row full_id_decode [OF hex _ own(1)]
    by (auto simp: row_of_event_def list_all_iff starts_with_iff)
  have a: "(\<exists>a \<in> set as. hex_decode X a = Some (ev_author r)) \<longleftrightarrow> (\<exists>p \<in> set as. \<exists>x. e_pubkey e = p @ x)"
    if "list_all full_id as" for as
    using that row full_id_decode [OF hex _ own(2)]
    by (auto simp: row_of_event_def list_all_iff starts_with_iff)
  have k: "ev_kind r \<in> uint ` set ks \<longleftrightarrow> e_kind e \<in> set ks" for ks
    using row inj_image_mem_iff [of "uint :: u64 \<Rightarrow> int" "e_kind e" "set ks", OF injI]
    by (simp add: row_of_event_def word_uint_eqI)
  have c: "uint t \<le> ev_created r \<longleftrightarrow> t \<le> e_created_at e" "ev_created r \<le> uint t \<longleftrightarrow> e_created_at e \<le> t" for t
    using row by (simp_all add: row_of_event_def word_le_def)
  have t: "has_tag db r n v \<longleftrightarrow> indexed_tag (e_tags e) n v" for n v
    using row by (simp add: row_of_event_def)
  show ?thesis
    unfolding filter_interested_spec [OF idx] row_matches_def filter_spec_def k c t own(3)
    using f i a unfolding full_ids_def by (cases "f_ids f"; cases "f_authors f") auto
qed

end
