(* ===== verification/Relay_Props.thy ===== *)
theory Relay_Props
  imports Relay Payment_Props Server_Props Query_Props
begin

text \<open>
  What holds of the relay as a whole, in every state that its tasks can reach in any order:
  every event that is stored, waits in a channel or was sent to a client is one that a client
  submitted and whose signature was checked, or a message of the relay's own key
  (\<open>relay_inv\<close>, kept by every action); and a published event reaches every connection that
  goes on taking events from its queue.
\<close>

section \<open>Texts in the store\<close>

definition content_from :: "(string \<Rightarrow> bool) \<Rightarrow> db \<Rightarrow> db \<Rightarrow> bool" where
  "content_from P db db' \<longleftrightarrow> (\<forall>r \<in> set (events db'). P (ev_content r) \<or> ev_content r \<in> ev_content ` set (events db))"

lemma content_from_refl: "content_from P db db"
  by (simp add: content_from_def)

lemma content_from_trans:
  assumes "content_from P a b" and "content_from P b c"
  shows "content_from P a c"
  unfolding content_from_def
proof
  fix r assume "r \<in> set (events c)"
  with assms(2) consider "P (ev_content r)" | s where "s \<in> set (events b)" "ev_content r = ev_content s"
    unfolding content_from_def by blast
  then show "P (ev_content r) \<or> ev_content r \<in> ev_content ` set (events a)"
  proof cases
    case 2
    with assms(1) have "P (ev_content s) \<or> ev_content s \<in> ev_content ` set (events a)"
      unfolding content_from_def by blast
    with 2 show ?thesis by simp
  qed simp
qed

lemma content_from_rel: "reflp (content_from P)" "transp (content_from P)"
  by (rule reflpI, rule content_from_refl) (rule transpI, erule (1) content_from_trans)

lemma content_from_events: "events db' = events db \<Longrightarrow> content_from P db db'"
  by (simp add: content_from_def)

lemma content_hide: "ev_content ` set (events (hide_events p db)) = ev_content ` set (events db)"
proof -
  have "map ev_content (events (hide_events p db)) = map ev_content (events db)"
    by (simp add: events_hide)
  then show ?thesis by (metis list.set_map)
qed

lemma persist_content:
  "content_from (\<lambda>t. json_to_string X (event_to_json e) = Some t) db (fst (persist_event X now e db))"
proof (cases X now e db rule: persist_event_cases)
  case (ins r)
  let ?x = "after_removals e r (insert_event r e db)"
  have "ev_content ` set (events (fst (persist_event X now e db))) = ev_content ` set (events ?x)"
    unfolding ins(2) after_insert_eq hide_deleted_def by (simp only: content_hide fst_conv split: if_split) simp
  moreover have "ev_content ` set (events ?x) \<subseteq> insert (ev_content r) (ev_content ` set (events db))"
    using after_removals_subset [of e r "insert_event r e db"] by auto
  ultimately have c: "ev_content s \<in> insert (ev_content r) (ev_content ` set (events db))"
    if "s \<in> set (events (fst (persist_event X now e db)))" for s
    using that by (metis image_eqI subsetD)
  show ?thesis
    unfolding content_from_def using c new_event_row_Some(7) [OF ins(1)] by (metis insertE)
qed (simp_all add: content_from_refl)

lemma write_content:
  "content_from (\<lambda>t. json_to_string X (event_to_json e) = Some t) db (fst (write_event X now busy e db))"
  by (simp add: write_event_cases persist_content content_from_refl)

lemma content_from_mono: "content_from P db db' \<Longrightarrow> (\<And>t. P t \<Longrightarrow> Q t) \<Longrightarrow> content_from Q db db'"
  unfolding content_from_def by blast

lemma run_filters_content:
  assumes "mset (scan (events db)) = mset (events db)"
  shows "t \<in> set (fst (run_filters X now scan db fs)) \<Longrightarrow> t \<in> ev_content ` set (events db)"
proof (induction fs)
  case (Cons f fs)
  have set: "set (scan (events db)) = set (events db)" using assms by (rule mset_eq_setD)
  have "set evs \<subseteq> ev_content ` set (events db)" if "run_filter X now scan db f = Inr evs" for evs
  proof -
    from that obtain rs where rs: "select_rows scan db (select_of_filter X now f) = Inr rs" and e: "evs = map ev_content rs"
      by (auto simp: run_filter_def)
    from rs have "set rs \<subseteq> set (scan (events db))"
      by (cases "select_of_filter X now f") (auto simp: Let_def order_desc_def dest: in_set_takeD split: if_splits option.splits)
    with e set show ?thesis by auto
  qed
  with Cons show ?case
    by (auto simp: Let_def split: sum.splits prod.splits)
qed simp

lemma query_content:
  assumes "mset (scan (events db)) = mset (events db)"
    and "q \<in> set (query_subscription X now scan connected abort db sub)"
  shows "qr_event q = ''EOSE'' \<or> qr_event q \<in> ev_content ` set (events db)"
proof -
  obtain evs ok where r: "(if connected then run_filters X now scan db (s_filters sub) else ([], True)) = (evs, ok)"
    by fastforce
  then have "t \<in> ev_content ` set (events db)" if "t \<in> set evs" for t
    using run_filters_content [where scan = scan, OF assms(1), of t X now "s_filters sub"] that by (auto split: if_splits)
  moreover have "q \<in> set (map (\<lambda>s. \<lparr>qr_sub_id = s_id sub, qr_event = s\<rparr>) evs) \<or> qr_event q = ''EOSE''"
    using assms(2) r set_take_subset
    by (fastforce simp: query_subscription_def Let_def split: option.splits if_splits)
  ultimately show ?thesis by auto
qed

section \<open>Where an event comes from\<close>

definition client_event :: "'g relay_env \<Rightarrow> (nat \<times> u64 \<times> string) list \<Rightarrow> event \<Rightarrow> bool" where
  "client_event env log e \<longleftrightarrow>
     (\<exists>i now m ec. (i, now, m) \<in> set log
        \<and> convert_to_msg (re_ext env) m (max_event_bytes (st_limits (re_settings env))) = Inr (EventMsg ec)
        \<and> wrap_event_cmd (re_ext env) ec = Done (Inr (WrappedEvent e)))"

definition origin :: "'g relay_env \<Rightarrow> (nat \<times> u64 \<times> string) list \<Rightarrow> event \<Rightarrow> bool" where
  "origin env log e \<longleftrightarrow> client_event env log e \<or> (\<exists>now. own_message (payment_of env now) e)"

text \<open>The text of such an event, or one that was stored before the relay started.\<close>

definition has_origin :: "'g relay_env \<Rightarrow> db \<Rightarrow> (nat \<times> u64 \<times> string) list \<Rightarrow> string \<Rightarrow> bool" where
  "has_origin env db0 log t \<longleftrightarrow>
     (\<exists>e. origin env log e \<and> json_to_string (re_ext env) (event_to_json e) = Some t)
     \<or> t \<in> ev_content ` set (events db0)"

definition sent_ok :: "'g relay_env \<Rightarrow> db \<Rightarrow> (nat \<times> u64 \<times> string) list \<Rightarrow> string \<Rightarrow> bool" where
  "sent_ok env db0 log t \<longleftrightarrow>
     (\<exists>sub. t = eose_text sub) \<or> (\<exists>sub s. t = event_text sub s \<and> has_origin env db0 log s)"

definition link_ok :: "'g relay_env \<Rightarrow> db \<Rightarrow> (nat \<times> u64 \<times> string) list \<Rightarrow> link \<Rightarrow> bool" where
  "link_ok env db0 log l \<longleftrightarrow>
     (\<forall>e \<in> set (ln_bcast l). origin env log e)
     \<and> (\<forall>q \<in> set (ln_rows l). qr_event q = ''EOSE'' \<or> has_origin env db0 log (qr_event q))
     \<and> (\<forall>t. SendText t \<in> set (ln_sent l) \<longrightarrow> sent_ok env db0 log t)"

definition store_ok :: "'g relay_env \<Rightarrow> db \<Rightarrow> (nat \<times> u64 \<times> string) list \<Rightarrow> db \<Rightarrow> bool" where
  "store_ok env db0 log db \<longleftrightarrow> (\<forall>r \<in> set (events db). has_origin env db0 log (ev_content r))"

definition relay_inv :: "'g relay_env \<Rightarrow> db \<Rightarrow> 'g relay \<Rightarrow> bool" where
  "relay_inv env db0 s \<longleftrightarrow>
     (\<forall>l \<in> set (rl_links s). link_ok env db0 (rl_log s) l)
     \<and> (\<forall>x \<in> set (rl_events s). client_event env (rl_log s) (su_event (snd x)))
     \<and> (\<forall>e \<in> set (rl_meta s). client_event env (rl_log s) e)
     \<and> store_ok env db0 (rl_log s) (rl_db s)"

lemma origin_mono:
  assumes "set log \<subseteq> set log'"
  shows "client_event env log e \<Longrightarrow> client_event env log' e" and "origin env log e \<Longrightarrow> origin env log' e"
    and "has_origin env db0 log t \<Longrightarrow> has_origin env db0 log' t" and "sent_ok env db0 log x \<Longrightarrow> sent_ok env db0 log' x"
    and "link_ok env db0 log l \<Longrightarrow> link_ok env db0 log' l" and "store_ok env db0 log db \<Longrightarrow> store_ok env db0 log' db"
proof -
  have c: "client_event env log e \<Longrightarrow> client_event env log' e" for e
    using assms unfolding client_event_def by blast
  then show "client_event env log e \<Longrightarrow> client_event env log' e" .
  from c have o: "origin env log e \<Longrightarrow> origin env log' e" for e unfolding origin_def by blast
  then show "origin env log e \<Longrightarrow> origin env log' e" .
  from o have h: "has_origin env db0 log t \<Longrightarrow> has_origin env db0 log' t" for t unfolding has_origin_def by blast
  then show "has_origin env db0 log t \<Longrightarrow> has_origin env db0 log' t" .
  from h have s: "sent_ok env db0 log x \<Longrightarrow> sent_ok env db0 log' x" for x unfolding sent_ok_def by blast
  then show "sent_ok env db0 log x \<Longrightarrow> sent_ok env db0 log' x" .
  show "link_ok env db0 log l \<Longrightarrow> link_ok env db0 log' l"
    unfolding link_ok_def using o h s by blast
  show "store_ok env db0 log db \<Longrightarrow> store_ok env db0 log' db"
    unfolding store_ok_def using h by simp
qed

lemma store_ok_content:
  "store_ok env db0 log db \<Longrightarrow> content_from (has_origin env db0 log) db db' \<Longrightarrow> store_ok env db0 log db'"
  unfolding store_ok_def content_from_def by (metis imageE)

section \<open>Parts of a step keep the invariant\<close>

lemma inv_set_db:
  "relay_inv env db0 s \<Longrightarrow> store_ok env db0 (rl_log s) db \<Longrightarrow> relay_inv env db0 (set_db db s)"
  by (simp add: relay_inv_def set_db_def rl_db_def)

lemma inv_broadcast:
  "relay_inv env db0 s \<Longrightarrow> (\<And>e. e \<in> set es \<Longrightarrow> origin env (rl_log s) e) \<Longrightarrow> relay_inv env db0 (broadcast es s)"
  by (auto simp: relay_inv_def broadcast_def link_ok_def rl_db_def)

lemma inv_with_link:
  assumes "relay_inv env db0 s" and "\<And>l. i < length (rl_links s) \<Longrightarrow> l = rl_links s ! i \<Longrightarrow>
    link_ok env db0 (rl_log s) l \<Longrightarrow> link_ok env db0 (rl_log s) (f l)"
  shows "relay_inv env db0 (with_link i f s)"
  using assms set_update_subset_insert [of "rl_links s" i "f (rl_links s ! i)"]
  by (auto simp: relay_inv_def with_link_def rl_db_def)

lemma inv_queues:
  "relay_inv env db0 s \<Longrightarrow> set es \<subseteq> set (rl_events s) \<Longrightarrow> relay_inv env db0 (s\<lparr>rl_events := es\<rparr>)"
  "relay_inv env db0 s \<Longrightarrow> set ms \<subseteq> set (rl_meta s) \<Longrightarrow> relay_inv env db0 (s\<lparr>rl_meta := ms\<rparr>)"
  "relay_inv env db0 s \<Longrightarrow> relay_inv env db0 (s\<lparr>rl_pay := ps\<rparr>)"
  "relay_inv env db0 s \<Longrightarrow> relay_inv env db0 (s\<lparr>rl_writing := b\<rparr>)"
  "relay_inv env db0 s \<Longrightarrow> relay_inv env db0 (s\<lparr>rl_paying := b\<rparr>)"
  by (auto simp: relay_inv_def rl_db_def)

lemma part_sel [simp]:
  "rl_log (with_link i f s) = rl_log s" "rl_db (with_link i f s) = rl_db s"
  "rl_log (broadcast es s) = rl_log s" "rl_db (broadcast es s) = rl_db s" "rl_log (set_db db s) = rl_log s"
  "rl_db (set_db db s) = db" "rl_events (with_link i f s) = rl_events s"
  "rl_meta (with_link i f s) = rl_meta s" "rl_meta (broadcast es s) = rl_meta s"
  "length (rl_links (with_link i f s)) = length (rl_links s)"
  by (simp_all add: with_link_def broadcast_def set_db_def rl_db_def)

lemma link_turn_db [simp]: "rl_db (link_turn env i now inp s) = rl_db s"
  by (auto simp: link_turn_def Let_def rl_db_def with_link_def split: exec.split)

lemma log_text_db [simp]: "rl_db (log_text i now w s) = rl_db s"
  by (simp add: log_text_def rl_db_def split: ws_input.split)

lemma rl_db_upd [simp]:
  "rl_db (s\<lparr>rl_events := a\<rparr>) = rl_db s" "rl_db (s\<lparr>rl_meta := b\<rparr>) = rl_db s" "rl_db (s\<lparr>rl_pay := c\<rparr>) = rl_db s"
  "rl_db (s\<lparr>rl_links := d\<rparr>) = rl_db s" "rl_db (s\<lparr>rl_paying := e\<rparr>) = rl_db s" "rl_db (s\<lparr>rl_writing := f\<rparr>) = rl_db s"
  by (simp_all add: rl_db_def)

text \<open>Channels only lose messages.\<close>

lemma overflow_sel [simp]:
  "rl_log (overflow b n e m p s) = rl_log s" "rl_db (overflow b n e m p s) = rl_db s"
  "length (rl_links (overflow b n e m p s)) = length (rl_links s)"
  "rl_events (overflow b n e m p s) = take e (rl_events s)" "rl_meta (overflow b n e m p s) = keep_latest m (rl_meta s)"
  "rl_pay (overflow b n e m p s) = keep_latest p (rl_pay s)"
  by (simp_all add: overflow_def rl_db_def)

lemma overflow_link:
  "i < length (rl_links s) \<Longrightarrow> rl_links (overflow b n e m p s) ! i =
     (rl_links s ! i)\<lparr>ln_bcast := keep_latest b (ln_bcast (rl_links s ! i)), ln_notices := take n (ln_notices (rl_links s ! i))\<rparr>"
  by (simp add: overflow_def)

lemma inv_overflow: "relay_inv env db0 s \<Longrightarrow> relay_inv env db0 (overflow b n e m p s)"
proof -
  assume inv: "relay_inv env db0 s"
  have "link_ok env db0 (rl_log s) (l\<lparr>ln_bcast := keep_latest b (ln_bcast l), ln_notices := ns\<rparr>)"
    if "link_ok env db0 (rl_log s) l" for l ns
    using that keep_latest_subset [of b "ln_bcast l"] by (auto simp: link_ok_def)
  then have "\<forall>l \<in> set (rl_links (overflow b n e m p s)). link_ok env db0 (rl_log s) l"
    using inv by (auto simp: relay_inv_def overflow_def)
  with inv keep_latest_subset [of m "rl_meta s"] show ?thesis by (auto simp: relay_inv_def dest: in_set_takeD)
qed

section \<open>Turns of connections\<close>

lemma client_turn_text:
  assumes "client_turn X st info now inp cl = Done (cl', outs, go)" and "SendText t \<in> set outs"
  shows "(\<exists>sub. t = eose_text sub) \<or> (\<exists>sub s. t = event_text sub s \<and> s \<noteq> ''EOSE'' \<and> (\<exists>q. inp = QueryRow q s))
    \<or> (\<exists>sub s e. t = event_text sub s \<and> inp = GlobalEvent e \<and> json_to_string X (event_to_json e) = Some s)"
proof -
  have g: "\<exists>sub s. t = event_text sub s \<and> json_to_string X (event_to_json e) = Some s"
    if "SendText t \<in> set (on_global_event X st now e cl)" for e
    using that by (auto simp: on_global_event_iff)
  have q: "(\<exists>sub. t = eose_text sub) \<or> (\<exists>sub. t = event_text sub v \<and> v \<noteq> ''EOSE'')"
    if "SendText t \<in> set (on_query_row X st now s v cl)" for s v
    using that by (auto simp: on_query_row_def split: if_splits)
  show ?thesis
  proof (cases inp)
    case (FromClient w)
    with assms on_text_sends_eose show ?thesis
      by (auto simp: client_turn_def Let_def split: ws_input.splits)
  qed (use assms g q in \<open>auto simp: client_turn_def Let_def split: if_splits\<close>)
qed

definition input_ok :: "'g relay_env \<Rightarrow> db \<Rightarrow> (nat \<times> u64 \<times> string) list \<Rightarrow> nat \<Rightarrow> u64 \<Rightarrow> client_input \<Rightarrow> bool" where
  "input_ok env db0 log i now inp \<longleftrightarrow>
     (case inp of
        QueryRow q t \<Rightarrow> t = ''EOSE'' \<or> has_origin env db0 log t
      | GlobalEvent e \<Rightarrow> origin env log e
      | FromClient (WsText m) \<Rightarrow> (i, now, m) \<in> set log
      | _ \<Rightarrow> True)"

lemma in_submissions: "su \<in> set (submissions outs) \<longleftrightarrow> Submit su \<in> set outs"
  by (induction outs) (auto simp: submissions_def List.map_filter_simps split: client_output.splits)

lemma link_turn_inv:
  assumes inv: "relay_inv env db0 s" and i: "i < length (rl_links s)"
    and inp: "input_ok env db0 (rl_log s) i now inp"
  shows "relay_inv env db0 (link_turn env i now inp s)"
proof (cases "client_turn (re_ext env) (re_settings env) (ln_info (rl_links s ! i)) now inp (ln_client (rl_links s ! i))")
  case Panic
  have "relay_inv env db0 (with_link i (\<lambda>l. l\<lparr>ln_open := False\<rparr>) s)"
    using inv by (rule inv_with_link) (simp add: link_ok_def)
  with Panic show ?thesis by (simp add: link_turn_def)
next
  case (Done r)
  obtain cl outs go where r: "r = (cl, outs, go)" by (cases r)
  note turn = Done [unfolded r]
  have texts: "sent_ok env db0 (rl_log s) t" if "SendText t \<in> set outs" for t
    using client_turn_text [OF turn that] inp by (auto simp: sent_ok_def input_ok_def has_origin_def)
  let ?f = "\<lambda>l. l\<lparr>ln_client := cl, ln_open := go, ln_sent := ln_sent l @ outs,
               ln_queries := query_changes outs (ln_queries l)\<rparr>"
  have 1: "relay_inv env db0 (with_link i ?f s)"
    using inv by (rule inv_with_link) (auto simp: link_ok_def texts)
  have "client_event env (rl_log s) (su_event su)" if su: "Submit su \<in> set outs" for su
  proof -
    from turn su obtain m ec where "inp = FromClient (WsText m)"
      and "convert_to_msg (re_ext env) m (max_event_bytes (st_limits (re_settings env))) = Inr (EventMsg ec)"
      and "wrap_event_cmd (re_ext env) ec = Done (Inr (WrappedEvent (su_event su)))"
      by (rule client_turn_submit)
    with inp show ?thesis by (auto simp: client_event_def input_ok_def)
  qed
  moreover have "\<forall>x \<in> set (rl_events s). client_event env (rl_log s) (su_event (snd x))"
    using inv by (simp add: relay_inv_def)
  ultimately have "relay_inv env db0 ((with_link i ?f s)
      \<lparr>rl_events := rl_events s @ map (Pair i) (submissions outs)\<rparr>)"
    using 1 by (auto simp: relay_inv_def in_submissions rl_db_def)
  with Done r show ?thesis by (simp add: link_turn_def Let_def)
qed

section \<open>Turns of the writer, the verifier and the payment handler\<close>

lemma writer_of_sel [simp]:
  "we_ext (writer_of env) = re_ext env" "we_settings (writer_of env) = re_settings env"
  "we_repo (writer_of env) = repo_at env"
  by (simp_all add: writer_of_def)

abbreviation fails :: "'g relay_env \<Rightarrow> u64 \<Rightarrow> store_call \<Rightarrow> db_failure option" where
  "fails env now c \<equiv> fl_call (re_busy env now) c"

lemma repo_at_sel [simp]:
  "rp_write_event (repo_at env now) e = guarded (fails env now SaveEvent)
     (write_event (re_ext env) now (fl_attempt (re_busy env now)) e)"
  "rp_create_verification (repo_at env now) i n = guarded (fails env now CreateVerification)
     (create_verification_record (re_ext env) now i n)"
  "rp_update_verification (repo_at env now) k = guarded (fails env now UpdateVerification)
     (update_verification_timestamp (re_jitter env now) now k)"
  "rp_fail_verification (repo_at env now) k = guarded (fails env now FailVerification)
     (fail_verification (re_jitter env now) now k)"
  "rp_delete_verification (repo_at env now) k = guarded (fails env now DeleteVerification) (delete_verification k)"
  "rp_create_account (repo_at env now) pk = guarded (fails env now CreateAccount) (create_account pk)"
  "rp_admit_account (repo_at env now) pk c = guarded (fails env now AdmitAccount) (admit_account now pk c)"
  "rp_update_balance (repo_at env now) pk p c = guarded (fails env now UpdateBalance) (update_account_balance pk p c)"
  "rp_create_invoice (repo_at env now) pk v = guarded (fails env now CreateInvoice) (create_invoice_record now pk v)"
  "rp_update_invoice (repo_at env now) h st = guarded (fails env now UpdateInvoice) (update_invoice now h st)"
  by (simp_all add: repo_at_def sqlite_repo_def Let_def)

lemma other_operations_events [simp]:
  "events (fst (create_verification_record X now i n db)) = events db"
  "events (fst (update_verification_timestamp j now k db)) = events db"
  "events (fst (fail_verification j now k db)) = events db" "events (fst (delete_verification k db)) = events db"
  "events (fst (create_account pk db)) = events db" "events (fst (admit_account now pk c db)) = events db"
  "events (fst (create_invoice_record now pk v db)) = events db" "events (fst (update_invoice now h st db)) = events db"
  by (auto simp: create_verification_record_def update_verification_timestamp_def fail_verification_def
      delete_verification_def create_account_def admit_account_def create_invoice_record_def update_invoice_def
      map_verification_def Let_def split: list.split option.split)

lemma process_event_content:
  assumes "process_event (writer_of env) now clk su w = Done (w1, outs, err)"
  shows "content_from (\<lambda>t. json_to_string (re_ext env) (event_to_json (su_event su)) = Some t) (w_db w) (w_db w1)"
proof (cases "admissible (writer_of env) now clk su w")
  case False
  with process_event_reject(1) [OF assms] show ?thesis by (simp add: content_from_refl)
next
  case True
  then obtain b where "process_event (writer_of env) now clk su w = Done (admitted_event (writer_of env) now (su_event su) b
      (fst (kind_filter_stage (writer_of env) now clk su w)))"
    by (rule process_event_admitted)
  with assms have w1: "w1 = fst (admitted_event (writer_of env) now (su_event su) b
      (fst (kind_filter_stage (writer_of env) now clk su w)))" by simp
  let ?p = "publish (repo_at env now) (su_event su) (w_db w)"
  have p: "content_from (\<lambda>t. json_to_string (re_ext env) (event_to_json (su_event su)) = Some t) (w_db w) (fst ?p)"
    by (simp add: publish_db write_content content_from_refl)
  have "events (w_db w1) = events (fst ?p)"
    using charge_db [of "writer_of env" now "su_event su" b "fst ?p"]
    by (auto simp: w1 admitted_event_db Let_def)
  with p show ?thesis by (simp add: content_from_def)
qed

lemma process_event_outputs:
  assumes "process_event env now clk su w = Done (w1, outs, err)"
  shows "Broadcast e \<in> set outs \<Longrightarrow> e = su_event su" and "ToVerifier e \<in> set outs \<Longrightarrow> e = su_event su"
proof -
  show "Broadcast e \<in> set outs \<Longrightarrow> e = su_event su" by (rule process_event_broadcast(1) [OF assms])
  assume v: "ToVerifier e \<in> set outs"
  show "e = su_event su"
  proof (cases "admissible env now clk su w")
    case False
    from process_event_reject(3) [OF assms this] v show ?thesis by (auto simp: rejection_def)
  next
    case True
    then obtain b where "process_event env now clk su w =
        Done (admitted_event env now (su_event su) b (fst (kind_filter_stage env now clk su w)))"
      by (rule process_event_admitted)
    with assms have "outs = fst (snd (admitted_event env now (su_event su) b (fst (kind_filter_stage env now clk su w))))"
      by simp
    with v show ?thesis
      by (auto simp: admitted_event_outs publish_def split: if_splits prod.splits sum.splits)
  qed
qed

lemma handle_metadata_content:
  "content_from (\<lambda>t. json_to_string X (event_to_json e) = Some t) db
     (fst (handle_metadata X (repo_at env now) vu fetch e db))" if "X = re_ext env"
proof -
  have "content_from (\<lambda>t. json_to_string X (event_to_json e) = Some t) db
      (fst (create_new_verified_user (repo_at env now) vu name e db))" for name
    using write_content [of X e db now "fl_attempt (re_busy env now)"] that
    by (cases "write_event X now (fl_attempt (re_busy env now)) e db"; cases "fails env now SaveEvent")
      (auto simp: create_new_verified_user_def content_from_def Let_def case_prod_beta split: sum.split)
  then show ?thesis by (simp add: handle_metadata_def content_from_refl split: option.split)
qed

lemma do_reverify_events: "events (fst (do_reverify X (repo_at env now) vu fetch t db)) = events db"
  by (auto simp: do_reverify_def Let_def split: sum.split web_status.split)

lemma payment_of_sel [simp]: "pm_repo (payment_of env now) = repo_at env now"
  by (simp add: payment_of_def)

lemma payment_content:
  "content_from (\<lambda>t. \<exists>e. own_message (payment_of env now) e \<and> json_to_string (re_ext env) (event_to_json e) = Some t)
     db (fst (payment_turn (payment_of env now) rnd m db))
   \<and> (SendEvent e \<in> set (fst (snd (payment_turn (payment_of env now) rnd m db))) \<longrightarrow> own_message (payment_of env now) e)"
proof -
  let ?P = "\<lambda>t. \<exists>e. own_message (payment_of env now) e \<and> json_to_string (re_ext env) (event_to_json e) = Some t"
  let ?O = "\<lambda>out. case out of SendEvent e \<Rightarrow> own_message (payment_of env now) e | SendPayment _ \<Rightarrow> True"
  have w: "content_from ?P db (fst (write_event (re_ext env) now (fl_attempt (re_busy env now)) e db))"
    if "own_message (payment_of env now) e" for e db
    by (rule content_from_mono [OF write_content]) (use that in blast)
  have "repo_keeps (content_from ?P) ?O (payment_of env now)"
    unfolding repo_keeps_def by (simp add: content_from_rel w content_from_events)
  then have "pay_rel (content_from ?P) ?O (payment_turn (payment_of env now) rnd m)"
    by (rule repo_keeps_turn) (simp add: content_from_events)
  from pay_relD [OF this, of db] show ?thesis by (auto simp: list_all_iff)
qed

section \<open>Every action keeps the invariant\<close>

lemma in_writer_events:
  "e \<in> set (writer_broadcasts outs) \<longleftrightarrow> Broadcast e \<in> set outs"
  "e \<in> set (writer_metadata outs) \<longleftrightarrow> ToVerifier e \<in> set outs"
  by (induction outs) (auto simp: writer_broadcasts_def writer_metadata_def List.map_filter_simps
      split: writer_output.splits)

lemma in_payment_events: "e \<in> set (payment_events outs) \<longleftrightarrow> SendEvent e \<in> set outs"
  by (induction outs) (auto simp: payment_events_def List.map_filter_simps split: payment_output.splits)

lemma writer_step_inv:
  assumes inv: "relay_inv env db0 s" and su: "client_event env (rl_log s) (su_event (snd isu))"
  shows "relay_inv env db0 (writer_step env now clk isu s)"
proof (cases "process_event (writer_of env) now clk (snd isu) (rl_writer s)")
  case Panic
  with inv show ?thesis by (simp add: writer_step_def inv_queues)
next
  case (Done r)
  obtain w outs err where r: "r = (w, outs, err)" by (cases r)
  note p = Done [unfolded r]
  let ?s1 = "with_link (fst isu) (\<lambda>l. l\<lparr>ln_notices := ln_notices l @ writer_notices outs\<rparr>) s"
  have o: "origin env (rl_log s) (su_event (snd isu))" using su by (simp add: origin_def)
  have 1: "relay_inv env db0 ?s1"
    using inv by (rule inv_with_link) (auto simp: link_ok_def)
  have 2: "relay_inv env db0 (broadcast (writer_broadcasts outs) ?s1)"
    using 1 by (rule inv_broadcast) (use o process_event_outputs(1) [OF p] in \<open>auto simp: in_writer_events\<close>)
  have "content_from (has_origin env db0 (rl_log s)) (rl_db s) (w_db w)"
    unfolding rl_db_def
    by (rule content_from_mono [OF process_event_content [OF p]]) (use o in \<open>auto simp: has_origin_def\<close>)
  then have "store_ok env db0 (rl_log s) (w_db w)"
    using inv store_ok_content by (auto simp: relay_inv_def)
  with 2 show ?thesis
    using process_event_outputs(2) [OF p] su
    by (auto simp: writer_step_def p relay_inv_def rl_db_def in_writer_events)
qed

lemma verifier_step_inv:
  assumes inv: "relay_inv env db0 s" and e: "client_event env (rl_log s) e"
  shows "relay_inv env db0 (verifier_step env now e s)"
proof -
  obtain db es res where h: "handle_metadata (re_ext env) (repo_at env now) (st_verified_users (re_settings env))
      (re_fetch env now) e (rl_db s) = (db, es, res)" by (metis prod_cases3)
  have o: "origin env (rl_log s) e" using e by (simp add: origin_def)
  note c = handle_metadata_content [where X = "re_ext env" and env = env and now = now and e = e and db = "rl_db s"
    and vu = "st_verified_users (re_settings env)" and fetch = "re_fetch env now", OF refl, unfolded h fst_conv]
  have "content_from (has_origin env db0 (rl_log s)) (rl_db s) db"
    by (rule content_from_mono [OF c]) (use o in \<open>auto simp: has_origin_def\<close>)
  then have "store_ok env db0 (rl_log s) db" using inv store_ok_content by (auto simp: relay_inv_def)
  with inv have "relay_inv env db0 (set_db db s)" by (rule inv_set_db)
  then have "relay_inv env db0 (broadcast es (set_db db s))"
    by (rule inv_broadcast) (use handle_metadata_events(1) [OF h] o in \<open>cases es; auto\<close>)
  with h show ?thesis by (simp add: verifier_step_def)
qed

lemma payment_step_inv:
  assumes inv: "relay_inv env db0 s"
  shows "relay_inv env db0 (payment_step env now rnd m s)"
proof -
  obtain db outs r where h: "payment_turn (payment_of env now) rnd (Some m) (rl_db s) = (db, outs, r)"
    by (metis prod_cases3)
  note c = payment_content [of env now "rl_db s" rnd "Some m", unfolded h fst_conv snd_conv]
  have "content_from (has_origin env db0 (rl_log s)) (rl_db s) db"
    by (rule content_from_mono [OF conjunct1 [OF c]]) (auto simp: has_origin_def origin_def)
  then have "store_ok env db0 (rl_log s) db" using inv store_ok_content by (auto simp: relay_inv_def)
  with inv have "relay_inv env db0 (set_db db s)" by (rule inv_set_db)
  then have "relay_inv env db0 (broadcast (payment_events outs) (set_db db s))"
    by (rule inv_broadcast) (use c in \<open>auto simp: in_payment_events origin_def\<close>)
  with h show ?thesis by (auto simp: payment_step_def relay_inv_def rl_db_def)
qed

lemma open_linkD: "open_link s i = Some l \<Longrightarrow> i < length (rl_links s) \<and> l = rl_links s ! i \<and> ln_open l"
  by (auto simp: open_link_def split: if_splits)

lemma inv_link: "relay_inv env db0 s \<Longrightarrow> i < length (rl_links s) \<Longrightarrow> link_ok env db0 (rl_log s) (rl_links s ! i)"
  by (simp add: relay_inv_def)

lemma log_text_inv:
  assumes "relay_inv env db0 s"
  shows "relay_inv env db0 (log_text i now w s)"
proof (cases w)
  case (WsText m)
  have "set (rl_log s) \<subseteq> set (rl_log s @ [(i, now, m)])" by auto
  note mono = origin_mono [OF this]
  from assms WsText show ?thesis
    by (auto simp: relay_inv_def log_text_def rl_db_def intro: mono(1,5,6))
qed (use assms in \<open>simp_all add: log_text_def\<close>)

lemma connect_step_inv:
  assumes inv: "relay_inv env db0 s"
  shows "relay_inv env db0 (connect_step env uuid challenge info s)"
proof -
  obtain cl outs where st: "start_client uuid challenge info (re_settings env) = (cl, outs)" by fastforce
  then have "SendText t \<notin> set outs" for t
    by (auto simp: start_client_def Let_def split: if_splits)
  with inv st show ?thesis by (auto simp: connect_step_def relay_inv_def link_ok_def rl_db_def)
qed

lemma query_step_inv:
  assumes inv: "relay_inv env db0 s" and scan: "mset (scan (events (rl_db s))) = mset (events (rl_db s))"
  shows "relay_inv env db0 (query_step env i now scan connected abort q s)"
  unfolding query_step_def
proof (rule inv_with_link [OF inv])
  have "t \<in> ev_content ` set (events (rl_db s)) \<Longrightarrow> has_origin env db0 (rl_log s) t" for t
    using inv by (auto simp: relay_inv_def store_ok_def)
  then have "qr_event x = ''EOSE'' \<or> has_origin env db0 (rl_log s) (qr_event x)"
    if "x \<in> set (query_subscription (re_ext env) now scan connected abort (rl_db s) (snd q))" for x
    using query_content [where scan = scan, OF scan that] by blast
  then show "link_ok env db0 (rl_log s) (l\<lparr>ln_queries := tl (ln_queries l),
      ln_rows := ln_rows l @ query_subscription (re_ext env) now scan connected abort (rl_db s) (snd q)\<rparr>)"
    if "link_ok env db0 (rl_log s) l" for l
    using that by (auto simp: link_ok_def)
qed

lemma take_case:
  "(case xs of [] \<Rightarrow> None | x # ys \<Rightarrow> Some (f x ys)) = Some z \<longleftrightarrow> (\<exists>x ys. xs = x # ys \<and> f x ys = z)"
  by (cases xs) auto

text \<open>What an action does, with the head of the queue that it takes.\<close>

lemma relay_apply_cases:
  assumes "relay_apply env a s = Some s'"
  obtains (connect) uuid challenge info where "s' = connect_step env uuid challenge info s"
  | (receive) i now w where "i < length (rl_links s)" "s' = link_turn env i now (FromClient w) (log_text i now w s)"
  | (timer) i now inp where "i < length (rl_links s)" "inp = Shutdown \<or> (\<exists>quiet. inp = PingTick quiet)"
      "s' = link_turn env i now inp s"
  | (notice) i now n ns where "i < length (rl_links s)" "ln_notices (rl_links s ! i) = n # ns"
      "s' = link_turn env i now (NoticeIn n) (with_link i (\<lambda>l. l\<lparr>ln_notices := ns\<rparr>) s)"
  | (row) i now r rs where "i < length (rl_links s)" "ln_rows (rl_links s ! i) = r # rs"
      "s' = link_turn env i now (QueryRow (qr_sub_id r) (qr_event r)) (with_link i (\<lambda>l. l\<lparr>ln_rows := rs\<rparr>) s)"
  | (event) i now e es where "i < length (rl_links s)" "ln_bcast (rl_links s ! i) = e # es"
      "s' = link_turn env i now (GlobalEvent e) (with_link i (\<lambda>l. l\<lparr>ln_bcast := es\<rparr>) s)"
  | (lag) i n where "s' = with_link i (\<lambda>l. l\<lparr>ln_bcast := drop n (ln_bcast l)\<rparr>) s"
  | (overflow) b n e m p where "s' = overflow b n e m p s"
  | (query) i now scan connected abort q where "mset (scan (events (rl_db s))) = mset (events (rl_db s))"
      "s' = query_step env i now scan connected abort q s"
  | (writer) now clk isu rest where "rl_events s = isu # rest" "s' = writer_step env now clk isu (s\<lparr>rl_events := rest\<rparr>)"
  | (verify) now e rest where "rl_meta s = e # rest" "s' = verifier_step env now e (s\<lparr>rl_meta := rest\<rparr>)"
  | (reverify) now where "s' = set_db (fst (do_reverify (re_ext env) (repo_at env now)
        (st_verified_users (re_settings env)) (re_fetch env now) now (rl_db s))) s"
  | (pay) now rnd m rest where "rl_pay s = m # rest" "s' = payment_step env now rnd m (s\<lparr>rl_pay := rest\<rparr>)"
  | (http) ms where "s' = s\<lparr>rl_pay := rl_pay s @ ms\<rparr>"
  | (expire) now where "s' = set_db (fst (delete_expired now (rl_db s))) s"
proof (cases a)
  case (RunQuery i now scan connected abort)
  with assms obtain l where l: "open_link s i = Some l" by (auto simp: bind_eq_Some_conv)
  with RunQuery assms obtain q qs where "ln_queries l = q # qs" by (cases "ln_queries l") auto
  with RunQuery assms l have "mset (scan (events (rl_db s))) = mset (events (rl_db s))"
    and "s' = query_step env i now scan connected abort q s" by (auto split: if_splits)
  then show thesis by (rule query)
next
  case (Http now inbox rq)
  with assms consider "s' = s\<lparr>rl_pay := rl_pay s @ []\<rparr>" | ms where "s' = s\<lparr>rl_pay := rl_pay s @ ms\<rparr>"
    by (auto split: exec.splits prod.splits)
  then show thesis by cases (rule http, assumption)+
next
  case (TakeRow i now)
  with assms obtain r rs where "i < length (rl_links s)" "ln_rows (rl_links s ! i) = r # rs"
      "s' = link_turn env i now (QueryRow (qr_sub_id r) (qr_event r)) (with_link i (\<lambda>l. l\<lparr>ln_rows := rs\<rparr>) s)"
    by (auto simp: bind_eq_Some_conv take_case dest!: open_linkD)
  then show thesis by (rule row)
next
  case (WriteNext now clk)
  with assms writer show thesis by (auto split: if_splits list.splits)
next
  case (VerifyNext now)
  with assms verify show thesis by (auto split: if_splits list.splits)
next
  case (PayNext now rnd)
  with assms pay show thesis by (auto split: if_splits list.splits)
next
  case (Reverify now)
  with assms reverify show thesis by (auto split: if_splits)
next
  case (TakeNotice i now)
  with assms obtain n ns where "i < length (rl_links s)" "ln_notices (rl_links s ! i) = n # ns"
      "s' = link_turn env i now (NoticeIn n) (with_link i (\<lambda>l. l\<lparr>ln_notices := ns\<rparr>) s)"
    by (auto simp: bind_eq_Some_conv take_case dest!: open_linkD)
  then show thesis by (rule notice)
next
  case (TakeEvent i now)
  with assms obtain e es where "i < length (rl_links s)" "ln_bcast (rl_links s ! i) = e # es"
      "s' = link_turn env i now (GlobalEvent e) (with_link i (\<lambda>l. l\<lparr>ln_bcast := es\<rparr>) s)"
    by (auto simp: bind_eq_Some_conv take_case dest!: open_linkD)
  then show thesis by (rule event)
next
  case (Receive i now w)
  with assms receive show thesis by (auto dest!: open_linkD)
next
  case (Tick i now quiet)
  with assms timer [of i "PingTick quiet" now] show thesis by (auto dest!: open_linkD)
next
  case (StopLink i now)
  with assms timer [of i Shutdown now] show thesis by (auto dest!: open_linkD)
next
  case (Connect uuid challenge info)
  with assms connect [of uuid challenge info] show thesis by simp
next
  case (Lag i n)
  with assms lag show thesis by auto
next
  case (Overflow b n e m p)
  with assms overflow [of b n e m p] show thesis by simp
next
  case (DeleteExpired now)
  with assms expire [of now] show thesis by simp
qed

lemma take_input:
  assumes inv: "relay_inv env db0 s" and i: "i < length (rl_links s)" and inp: "input_ok env db0 (rl_log s) i now inp"
    and f: "link_ok env db0 (rl_log s) (f (rl_links s ! i))"
  shows "relay_inv env db0 (link_turn env i now inp (with_link i f s))"
proof (rule link_turn_inv)
  show "relay_inv env db0 (with_link i f s)"
    using inv f by (auto simp: relay_inv_def with_link_def rl_db_def dest!: set_update_subset_insert [THEN subsetD])
qed (use i inp in simp_all)

lemma relay_apply_inv:
  assumes inv: "relay_inv env db0 s" and a: "relay_apply env a s = Some s'"
  shows "relay_inv env db0 s'"
  using a
proof (cases rule: relay_apply_cases)
  case (connect uuid challenge info)
  with inv show ?thesis by (simp add: connect_step_inv)
next
  case (receive i now w)
  have "i < length (rl_links (log_text i now w s))" "input_ok env db0 (rl_log (log_text i now w s)) i now (FromClient w)"
    using receive(1) by (auto simp: log_text_def input_ok_def split: ws_input.split)
  then show ?thesis unfolding receive(2) by (intro link_turn_inv log_text_inv inv)
next
  case (timer i now inp)
  then show ?thesis using inv by (auto simp: input_ok_def intro!: link_turn_inv)
next
  case (notice i now n ns)
  with inv_link [OF inv notice(1)] show ?thesis unfolding notice(3)
    by (intro take_input inv) (auto simp: link_ok_def input_ok_def)
next
  case (row i now r rs)
  with inv_link [OF inv row(1)] show ?thesis unfolding row(3)
    by (intro take_input inv) (auto simp: link_ok_def input_ok_def)
next
  case (event i now e es)
  with inv_link [OF inv event(1)] show ?thesis unfolding event(3)
    by (intro take_input inv) (auto simp: link_ok_def input_ok_def)
next
  case (lag i n)
  show ?thesis unfolding lag using inv by (rule inv_with_link) (auto simp: link_ok_def dest: in_set_dropD)
next
  case (overflow b n e m p)
  with inv show ?thesis by (simp add: inv_overflow)
next
  case (query i now scan connected abort q)
  then show ?thesis using query_step_inv [where scan = scan, OF inv query(1)] by simp
next
  case (writer now clk isu rest)
  have "relay_inv env db0 (s\<lparr>rl_events := rest\<rparr>)" using inv writer(1) by (intro inv_queues) auto
  moreover have "client_event env (rl_log s) (su_event (snd isu))" using inv writer(1) by (simp add: relay_inv_def)
  ultimately show ?thesis unfolding writer(2) by (intro writer_step_inv) simp_all
next
  case (verify now e rest)
  have "relay_inv env db0 (s\<lparr>rl_meta := rest\<rparr>)" using inv verify(1) by (intro inv_queues) auto
  moreover have "client_event env (rl_log s) e" using inv verify(1) by (simp add: relay_inv_def)
  ultimately show ?thesis unfolding verify(2) by (intro verifier_step_inv) simp_all
next
  case (reverify now)
  have "store_ok env db0 (rl_log s) (fst (do_reverify (re_ext env) (repo_at env now)
      (st_verified_users (re_settings env)) (re_fetch env now) now (rl_db s)))"
    using inv by (simp add: store_ok_def do_reverify_events relay_inv_def)
  with reverify show ?thesis by (auto intro: inv_set_db [OF inv])
next
  case (pay now rnd m rest)
  then show ?thesis by (auto intro!: payment_step_inv inv_queues inv)
next
  case (http ms)
  with inv show ?thesis by (auto intro!: inv_queues)
next
  case (expire now)
  have "set (events (fst (delete_expired now (rl_db s)))) \<subseteq> set (events (rl_db s))"
    by (auto simp: delete_expired_def)
  with inv have "store_ok env db0 (rl_log s) (fst (delete_expired now (rl_db s)))"
    by (auto simp: relay_inv_def store_ok_def)
  with expire show ?thesis by (auto intro: inv_set_db [OF inv])
qed

text \<open>For the database only a few of the actions matter.\<close>

lemma relay_apply_db_cases:
  assumes "relay_apply env a s = Some s'"
  obtains (same) "rl_db s' = rl_db s"
  | (writer) now clk isu where "isu \<in> set (rl_events s)" "rl_db s' = rl_db (writer_step env now clk isu s)"
  | (verify) now e where "e \<in> set (rl_meta s)" "rl_db s' = rl_db (verifier_step env now e s)"
  | (reverify) now where "rl_db s' = fst (do_reverify (re_ext env) (repo_at env now)
        (st_verified_users (re_settings env)) (re_fetch env now) now (rl_db s))"
  | (pay) now rnd m where "rl_db s' = rl_db (payment_step env now rnd m s)"
  | (expire) now where "rl_db s' = fst (delete_expired now (rl_db s))"
  using assms
proof (cases rule: relay_apply_cases)
  case (writer now clk isu rest)
  then show thesis by (intro that(2) [of isu now clk]) (auto simp: writer_step_def rl_db_def broadcast_def with_link_def split: exec.split)
next
  case (verify now e rest)
  then show thesis by (intro that(3) [of e now]) (simp_all add: verifier_step_def case_prod_beta rl_db_def set_db_def broadcast_def)
next
  case (pay now rnd m rest)
  then show thesis by (intro that(5) [of now rnd m]) (auto simp: payment_step_def rl_db_def broadcast_def set_db_def split: prod.split)
qed (use that(1,4,6) in \<open>auto simp: connect_step_def query_step_def split: prod.splits\<close>)

lemma relay_start_inv: "relay_start env db0 = Done s \<Longrightarrow> relay_inv env db0 s"
  by (auto simp: relay_start_def writer_start_def relay_inv_def store_ok_def has_origin_def rl_db_def split: if_splits)

lemma relay_reachable_inv: "relay_reachable env db0 s \<Longrightarrow> relay_inv env db0 s"
  by (induction rule: relay_reachable.induct) (auto intro: relay_start_inv relay_apply_inv)

text \<open>An event that a client published was valid when it arrived.\<close>

lemma update_delegation_json: "update_delegation X (build_index e) = Done e' \<Longrightarrow> event_to_json e' = event_to_json e"
  by (auto simp: update_delegation_def event_to_json_def tags_to_canonical_def)

lemma client_event_valid:
  assumes "client_event env log e"
  shows "\<exists>i now m ec. (i, now, m) \<in> set log
    \<and> convert_to_msg (re_ext env) m (max_event_bytes (st_limits (re_settings env))) = Inr (EventMsg ec)
    \<and> validate (re_ext env) (cmd_event ec) = Inr () \<and> event_to_json e = event_to_json (cmd_event ec)"
  using assms wrap_event_cmd_event update_delegation_json unfolding client_event_def by metis

section \<open>A published event arrives\<close>

lemma process_event_one_broadcast:
  assumes "process_event env now clk su w = Done (w1, outs, err)" and "Broadcast e \<in> set outs"
  shows "writer_broadcasts outs = [e]"
proof -
  have adm: "admissible env now clk su w" and e: "e = su_event su"
    using process_event_broadcast(1,2) [OF assms] by simp_all
  from adm obtain b where "process_event env now clk su w =
      Done (admitted_event env now (su_event su) b (fst (kind_filter_stage env now clk su w)))"
    by (rule process_event_admitted)
  with assms(1) have "outs = fst (snd (admitted_event env now (su_event su) b (fst (kind_filter_stage env now clk su w))))"
    by simp
  with assms(2) e show ?thesis
    by (auto simp: admitted_event_outs publish_def writer_broadcasts_def List.map_filter_simps
        split: if_splits prod.splits sum.splits)
qed

lemma query_changes_texts: "\<forall>x \<in> set outs. \<exists>t. x = SendText t \<Longrightarrow> query_changes outs qs = qs"
  by (induction outs) auto

lemma submissions_texts: "\<forall>x \<in> set outs. \<exists>t. x = SendText t \<Longrightarrow> submissions outs = []"
  by (induction outs) (auto simp: submissions_def List.map_filter_simps)

lemma global_texts: "\<forall>x \<in> set (on_global_event X st now e cl). \<exists>t. x = SendText t"
  using on_global_event_iff [of _ X st now e cl] by blast

text \<open>Taking one event from the queue.\<close>

lemma take_event:
  assumes l: "open_link s j = Some l" and q: "ln_bcast l = x # xs"
  obtains s' l' where "relay_apply env (TakeEvent j now) s = Some s'" and "open_link s' j = Some l'"
    and "ln_bcast l' = xs" and "ln_client l' = ln_client l"
    and "ln_sent l' = ln_sent l @ on_global_event (re_ext env) (re_settings env) now x (ln_client l)"
proof -
  let ?outs = "on_global_event (re_ext env) (re_settings env) now x (ln_client l)"
  let ?l' = "l\<lparr>ln_bcast := xs, ln_open := True, ln_sent := ln_sent l @ ?outs\<rparr>"
  have j: "j < length (rl_links s)" "rl_links s ! j = l" "ln_open l" using open_linkD [OF l] by auto
  define s' where "s' = s\<lparr>rl_links := (rl_links s)[j := ?l']\<rparr>"
  have t: "client_turn (re_ext env) (re_settings env) (ln_info l) now (GlobalEvent x) (ln_client l)
      = Done (ln_client l, ?outs, True)"
    by (simp add: client_turn_def)
  have "relay_apply env (TakeEvent j now) s = Some s'"
    using l q j t
    by (simp add: link_turn_def with_link_def s'_def query_changes_texts [OF global_texts]
        submissions_texts [OF global_texts])
  moreover have "open_link s' j = Some ?l'" using j by (simp add: open_link_def s'_def)
  ultimately show thesis by (rule that) simp_all
qed

lemma take_events:
  assumes "open_link s j = Some l" and "ln_bcast l = es @ e # rest"
  shows "\<exists>s' l'. relay_exec env (replicate (Suc (length es)) (TakeEvent j now)) s = Some s'
    \<and> open_link s' j = Some l'
    \<and> set (on_global_event (re_ext env) (re_settings env) now e (ln_client l)) \<subseteq> set (ln_sent l')"
  using assms
proof (induction es arbitrary: s l)
  case Nil
  from Nil.prems have q: "ln_bcast l = e # rest" by simp
  from take_event [OF Nil.prems(1) q, of env now] obtain s' l'
    where r: "relay_apply env (TakeEvent j now) s = Some s'" and o: "open_link s' j = Some l'"
      and sent: "ln_sent l' = ln_sent l @ on_global_event (re_ext env) (re_settings env) now e (ln_client l)"
    by blast
  from r have "relay_exec env (replicate (Suc (length [])) (TakeEvent j now)) s = Some s'" by simp
  moreover from sent have "set (on_global_event (re_ext env) (re_settings env) now e (ln_client l)) \<subseteq> set (ln_sent l')"
    by simp
  ultimately show ?case using o by blast
next
  case (Cons x es)
  from Cons.prems have q: "ln_bcast l = x # (es @ e # rest)" by simp
  from take_event [OF Cons.prems(1) q, of env now] obtain s1 l1
    where r: "relay_apply env (TakeEvent j now) s = Some s1" and o: "open_link s1 j = Some l1"
      and b: "ln_bcast l1 = es @ e # rest" and c: "ln_client l1 = ln_client l"
    by blast
  from Cons.IH [OF o b] obtain s' l' where r2: "relay_exec env (replicate (Suc (length es)) (TakeEvent j now)) s1 = Some s'"
    and o2: "open_link s' j = Some l'"
    and sent: "set (on_global_event (re_ext env) (re_settings env) now e (ln_client l1)) \<subseteq> set (ln_sent l')"
    by blast
  from r r2 have "relay_exec env (replicate (Suc (length (x # es))) (TakeEvent j now)) s = Some s'" by simp
  with o2 sent c show ?case by auto
qed

lemma open_link_with_link:
  assumes "open_link s j = Some l" and "\<And>l. ln_open (f l) = ln_open l"
  shows "open_link (with_link i f s) j = Some (if i = j then f l else l)"
  using assms open_linkD [OF assms(1)] by (auto simp: open_link_def with_link_def)

lemma open_link_broadcast:
  "open_link s j = Some l \<Longrightarrow> open_link (broadcast es s) j = Some (l\<lparr>ln_bcast := ln_bcast l @ es\<rparr>)"
  by (auto simp: open_link_def broadcast_def split: if_splits)

lemma writer_step_queues:
  assumes w: "process_event (writer_of env) now clk (snd isu) (rl_writer s) = Done (w1, outs, err)"
    and b: "Broadcast e \<in> set outs" and l: "open_link s j = Some l"
  obtains l' where "open_link (writer_step env now clk isu s) j = Some l'"
    and "ln_bcast l' = ln_bcast l @ [e]" and "ln_client l' = ln_client l"
proof -
  let ?f = "\<lambda>l. l\<lparr>ln_notices := ln_notices l @ writer_notices outs\<rparr>"
  let ?l1 = "if fst isu = j then ?f l else l"
  have "open_link (broadcast [e] (with_link (fst isu) ?f s)) j = Some (?l1\<lparr>ln_bcast := ln_bcast ?l1 @ [e]\<rparr>)"
    using open_link_with_link [OF l, of ?f "fst isu"] by (intro open_link_broadcast) auto
  moreover have "open_link (s'\<lparr>rl_writer := a, rl_writing := b, rl_meta := c, rl_pay := d\<rparr>) j = open_link s' j"
    for s' :: "'a relay" and a b c d
    by (simp add: open_link_def)
  ultimately have "open_link (writer_step env now clk isu s) j = Some (?l1\<lparr>ln_bcast := ln_bcast ?l1 @ [e]\<rparr>)"
    using w process_event_one_broadcast [OF w b] by (simp add: writer_step_def)
  then show thesis by (rule that) simp_all
qed

text \<open>
  The writer takes the submitted event that is first in its queue and publishes it; a
  connection that takes events once more than its queue was long is sent the event, if one
  of its subscriptions asks for it and the client may see it.
\<close>

lemma published_is_delivered:
  assumes w: "rl_writing s" "rl_events s = isu # rest"
    and p: "process_event (writer_of env) now clk (snd isu) (rl_writer s) = Done (w1, outs, err)"
    and b: "Broadcast e \<in> set outs" and l: "open_link s j = Some l"
    and sub: "(k, sub) \<in> set (subscriptions (cl_conn (ln_client l)))" "interested_in_event sub e"
    and t: "json_to_string (re_ext env) (event_to_json e) = Some t"
    and a: "allowed_to_send (re_ext env) later t (cl_conn (ln_client l)) (re_settings env)"
  shows "\<exists>s' l'. relay_exec env (WriteNext now clk # replicate (Suc (length (ln_bcast l))) (TakeEvent j later)) s = Some s'
    \<and> open_link s' j = Some l' \<and> SendText (event_text (strip_quotes k) t) \<in> set (ln_sent l')"
proof -
  let ?s0 = "s\<lparr>rl_events := rest\<rparr>"
  have "open_link ?s0 j = open_link s j" by (simp add: open_link_def)
  with l have l0: "open_link ?s0 j = Some l" by simp
  have p0: "process_event (writer_of env) now clk (snd isu) (rl_writer ?s0) = Done (w1, outs, err)" using p by simp
  from writer_step_queues [OF p0 b l0] obtain l1 where o: "open_link (writer_step env now clk isu ?s0) j = Some l1"
    and q: "ln_bcast l1 = ln_bcast l @ e # []" and c: "ln_client l1 = ln_client l" by auto
  from take_events [OF o q, of env later] obtain s' l'
    where r: "relay_exec env (replicate (Suc (length (ln_bcast l))) (TakeEvent j later)) (writer_step env now clk isu ?s0) = Some s'"
      and o2: "open_link s' j = Some l'"
      and sent: "set (on_global_event (re_ext env) (re_settings env) later e (ln_client l1)) \<subseteq> set (ln_sent l')"
    by blast
  have "SendText (event_text (strip_quotes k) t) \<in> set (on_global_event (re_ext env) (re_settings env) later e (ln_client l))"
    using sub t a by (auto simp: on_global_event_iff)
  with sent c have "SendText (event_text (strip_quotes k) t) \<in> set (ln_sent l')" by auto
  moreover have "relay_exec env (WriteNext now clk # replicate (Suc (length (ln_bcast l))) (TakeEvent j later)) s = Some s'"
    using r w by simp
  ultimately show ?thesis using o2 by blast
qed

section \<open>Who is admitted\<close>

lemma verification_accounts [simp]:
  "accounts (fst (create_verification_record X now i n db)) = accounts db"
  "accounts (fst (update_verification_timestamp j now k db)) = accounts db"
  "accounts (fst (fail_verification j now k db)) = accounts db" "accounts (fst (delete_verification k db)) = accounts db"
  "accounts (fst (delete_expired now db)) = accounts db"
  by (auto simp: create_verification_record_def update_verification_timestamp_def fail_verification_def
      delete_verification_def delete_expired_def map_verification_def Let_def split: list.split option.split)

lemma admitted_update_balance: "admitted (fst (update_account_balance k b n db)) pk = admitted db pk"
  by (auto simp: update_account_balance_def admitted_map_account split: option.split)

lemma process_event_admitted_accounts:
  assumes "process_event (writer_of env) now clk su w = Done (w1, outs, err)"
  shows "admitted (w_db w1) pk = admitted (w_db w) pk"
proof (cases "admissible (writer_of env) now clk su w")
  case False
  with process_event_reject(1) [OF assms] show ?thesis by simp
next
  case True
  then obtain b where "process_event (writer_of env) now clk su w = Done (admitted_event (writer_of env) now (su_event su) b
      (fst (kind_filter_stage (writer_of env) now clk su w)))"
    by (rule process_event_admitted)
  with assms have w1: "w1 = fst (admitted_event (writer_of env) now (su_event su) b
      (fst (kind_filter_stage (writer_of env) now clk su w)))" by simp
  let ?p = "publish (repo_at env now) (su_event su) (w_db w)"
  have "admitted (fst ?p) pk = admitted (w_db w) pk"
    by (simp add: publish_db admitted_accounts [OF write_event_accounts])
  then show ?thesis
    using charge_db [of "writer_of env" now "su_event su" b "fst ?p"] admitted_update_balance
    by (auto simp: w1 admitted_event_db Let_def split: if_splits)
qed

lemma handle_metadata_accounts: "accounts (fst (handle_metadata X (repo_at env now) vu fetch e db)) = accounts db"
proof -
  have "accounts (fst (create_new_verified_user (repo_at env now) vu name e db)) = accounts db" for name
    using write_event_accounts [of "re_ext env" now "fl_attempt (re_busy env now)" e db]
    by (cases "write_event (re_ext env) now (fl_attempt (re_busy env now)) e db"; cases "fails env now SaveEvent")
      (auto simp: create_new_verified_user_def Let_def case_prod_beta split: sum.split)
  then show ?thesis by (simp add: handle_metadata_def split: option.split)
qed

lemma do_reverify_accounts: "accounts (fst (do_reverify X (repo_at env now) vu fetch t db)) = accounts db"
  by (auto simp: do_reverify_def Let_def split: sum.split web_status.split)

text \<open>The processor in use at some time reports that an invoice of the account is paid.\<close>

definition reported_paid :: "'g relay_env \<Rightarrow> db \<Rightarrow> string \<Rightarrow> bool" where
  "reported_paid env db pk \<longleftrightarrow>
     (\<exists>now h p. has_invoice db h p \<and> (p = pk \<or> keys_from_pk (re_ext env) p = Some pk)
        \<and> pp_check_invoice (re_processor env now) h = Done (Inr Paid))"

lemma payment_step_admits:
  assumes "admitted (rl_db (payment_step env now rnd m s)) pk"
  shows "admitted (rl_db s) pk \<or> reported_paid env (rl_db s) pk"
proof -
  have "rl_db (payment_step env now rnd m s) = fst (payment_turn (payment_of env now) rnd (Some m) (rl_db s))"
    by (simp add: payment_step_def split: prod.split)
  with assms have adm: "admitted (fst (payment_turn (payment_of env now) rnd (Some m) (rl_db s))) pk" by simp
  have "pm_repo (payment_of env now) = sqlite_repo (re_ext env) (re_jitter env now) now (re_busy env now)"
    by (simp add: repo_at_def)
  from sp.turn_admits [OF this adm] show ?thesis
    by (auto simp: sp.paid_report_def reported_paid_def payment_of_def)
qed

lemma relay_apply_admits:
  assumes a: "relay_apply env a s = Some s'" and adm: "admitted (rl_db s') pk"
  shows "admitted (rl_db s) pk \<or> reported_paid env (rl_db s) pk"
  using a
proof (cases rule: relay_apply_db_cases)
  case (writer now clk isu)
  have "admitted (rl_db (writer_step env now clk isu s)) pk = admitted (rl_db s) pk"
    using process_event_admitted_accounts [of env now clk "snd isu" "rl_writer s"]
    by (auto simp: writer_step_def rl_db_def split: exec.split)
  with writer adm show ?thesis by simp
next
  case (verify now e)
  have "accounts (rl_db (verifier_step env now e s)) = accounts (rl_db s)"
    using handle_metadata_accounts [of "re_ext env" env now "st_verified_users (re_settings env)" "re_fetch env now" e "rl_db s"]
    by (auto simp: verifier_step_def split: prod.split)
  with verify adm show ?thesis by (simp add: admitted_def)
next
  case (pay now rnd m)
  with adm payment_step_admits [of env now rnd m s] show ?thesis by simp
qed (use adm in \<open>auto simp: do_reverify_accounts admitted_def\<close>)

lemma relay_start_db: "relay_start env db = Done s \<Longrightarrow> rl_db s = db"
  by (auto simp: relay_start_def writer_start_def rl_db_def split: if_splits)

lemma reachable_admitted:
  assumes "relay_reachable env db0 s"
  shows "admitted (rl_db s) pk \<Longrightarrow> admitted db0 pk \<or> (\<exists>s1. relay_reachable env db0 s1 \<and> reported_paid env (rl_db s1) pk)"
  using assms
proof (induction rule: relay_reachable.induct)
  case (relay_init s)
  then show ?case by (simp add: relay_start_db)
next
  case (relay_step s a s')
  then show ?case using relay_apply_admits by blast
qed

end
