(* ===== verification/Relay_Store.thy ===== *)
theory Relay_Store
  imports Relay_Props Query_Props
begin

text \<open>
  What all the tasks together do to the database, and what follows for the relay: every action
  is a sequence of a few operations on the tables (\<open>db_op\<close>), so the tables stay consistent in
  every reachable state, every row is of an event that a client published or of a message of
  the relay, and a verification record is there only if the domain it names listed the author. And the way of a query: a connection that has a query running is sent
  all visible matching events that it may see, and then the end of the stored events.
\<close>

section \<open>The operations on the database\<close>

text \<open>A client published the event, and the domain of its \<open>nip05\<close> field listed its author at some time.\<close>

definition listed_event :: "'g relay_env \<Rightarrow> (nat \<times> u64 \<times> string) list \<Rightarrow> event \<Rightarrow> nip05_name \<Rightarrow> bool" where
  "listed_event env log e n \<longleftrightarrow> client_event env log e \<and> get_nip05_addr (re_ext env) e = Some n
     \<and> (\<exists>now. get_web_verification (re_ext env) (st_verified_users (re_settings env)) (re_fetch env now) n (e_pubkey e)
          = Verified)"

definition same_or_fewer_verifications :: "db \<Rightarrow> db \<Rightarrow> bool" where
  "same_or_fewer_verifications db db' \<longleftrightarrow> events db' = events db \<and> tags db' = tags db
     \<and> (\<forall>v' \<in> set (verifications db'). \<exists>v \<in> set (verifications db). vr_event v' = vr_event v \<and> vr_name v' = vr_name v)"

text \<open>\<open>log\<close> holds what the clients have sent so far.\<close>

inductive db_op :: "'g relay_env \<Rightarrow> (nat \<times> u64 \<times> string) list \<Rightarrow> db \<Rightarrow> db \<Rightarrow> bool" for env log where
  op_write: "origin env log e \<Longrightarrow> db_op env log db (fst (write_event (re_ext env) now busy e db))"
| op_verified: "listed_event env log e n \<Longrightarrow>
    db_op env log db (fst (create_verification_record (re_ext env) now (e_id e) (nip05_to_string n) db))"
| op_expire: "db_op env log db (fst (delete_expired now db))"
| op_other: "same_or_fewer_verifications db db' \<Longrightarrow> db_op env log db db'"

abbreviation db_ops :: "'g relay_env \<Rightarrow> (nat \<times> u64 \<times> string) list \<Rightarrow> db \<Rightarrow> db \<Rightarrow> bool" where
  "db_ops env log \<equiv> (db_op env log)\<^sup>*\<^sup>*"

lemma same_or_fewer_refl: "events db' = events db \<Longrightarrow> tags db' = tags db \<Longrightarrow> verifications db' = verifications db
    \<Longrightarrow> same_or_fewer_verifications db db'"
  by (auto simp: same_or_fewer_verifications_def)

lemma same_or_fewer_self [simp]: "same_or_fewer_verifications db db"
  by (rule same_or_fewer_refl) simp_all

lemma other_operations [intro]:
  "same_or_fewer_verifications db (fst (update_verification_timestamp j now k db))"
  "same_or_fewer_verifications db (fst (fail_verification j now k db))"
  "same_or_fewer_verifications db (fst (delete_verification k db))"
  "same_or_fewer_verifications db (fst (create_account pk db))"
  "same_or_fewer_verifications db (fst (admit_account now pk c db))"
  "same_or_fewer_verifications db (fst (update_account_balance pk p n db))"
  "same_or_fewer_verifications db (fst (create_invoice_record now pk v db))"
  "same_or_fewer_verifications db (fst (update_invoice now h st db))"
  by (auto simp: same_or_fewer_verifications_def update_verification_timestamp_def fail_verification_def
      delete_verification_def create_account_def admit_account_def update_account_balance_def
      create_invoice_record_def update_invoice_def map_account_def
      map_verification_def Let_def split: list.split option.split if_splits)


lemma db_ops_step [intro]: "db_op env log db db' \<Longrightarrow> db_ops env log db db'"
  by blast

text \<open>A call of the repository that fails does nothing.\<close>

lemma db_ops_guarded [intro]:
  "db_ops env log db (fst (call db)) \<Longrightarrow> db_ops env log db (fst (guarded f call db))"
  by simp

lemma process_event_ops:
  assumes "process_event (writer_of env) now clk su w = Done (w1, outs, err)" and o: "origin env log (su_event su)"
  shows "db_ops env log (w_db w) (w_db w1)"
proof (cases "admissible (writer_of env) now clk su w")
  case False
  with process_event_reject(1) [OF assms(1)] show ?thesis by simp
next
  case True
  then obtain b where "process_event (writer_of env) now clk su w = Done (admitted_event (writer_of env) now (su_event su) b
      (fst (kind_filter_stage (writer_of env) now clk su w)))"
    by (rule process_event_admitted)
  with assms(1) have w1: "w1 = fst (admitted_event (writer_of env) now (su_event su) b
      (fst (kind_filter_stage (writer_of env) now clk su w)))" by simp
  let ?p = "publish (repo_at env now) (su_event su) (w_db w)"
  have p: "db_ops env log (w_db w) (fst ?p)" by (auto simp: publish_db intro!: db_ops_step op_write o)
  have "db_ops env log (fst ?p) (w_db w1)"
    using charge_db [of "writer_of env" now "su_event su" b "fst ?p"]
    by (auto simp: w1 admitted_event_db Let_def split: if_splits intro!: db_ops_step op_other)
  with p show ?thesis by simp
qed

lemma handle_metadata_ops:
  assumes o: "client_event env log e"
  shows "db_ops env log db (fst (handle_metadata (re_ext env) (repo_at env now) (st_verified_users (re_settings env))
     (re_fetch env now) e db))"
proof -
  have c: "db_ops env log db (fst (create_new_verified_user (repo_at env now) vu (nip05_to_string n) e db))"
    if "listed_event env log e n" for n vu
  proof -
    obtain db1 r where w: "guarded (fails env now SaveEvent)
        (write_event (re_ext env) now (fl_attempt (re_busy env now)) e) db = (db1, r)" by fastforce
    have "origin env log e" using o by (simp add: origin_def)
    then have "db_ops env log db (fst (guarded (fails env now SaveEvent)
        (write_event (re_ext env) now (fl_attempt (re_busy env now)) e) db))" by (blast intro: op_write)
    with w have "db_ops env log db db1" by simp
    moreover have "db_ops env log x (fst (guarded (fails env now CreateVerification)
        (create_verification_record (re_ext env) now (e_id e) (nip05_to_string n)) x))" for x
      using that by (blast intro: op_verified)
    ultimately have "db_ops env log db (fst (guarded (fails env now CreateVerification)
        (create_verification_record (re_ext env) now (e_id e) (nip05_to_string n)) x))"
      if "x = db \<or> x = db1" for x using that by (meson rtranclp_trans)
    then show ?thesis
      using w by (auto simp: create_new_verified_user_def Let_def case_prod_beta simp del: guarded_fst split: sum.split)
  qed
  show ?thesis
    using o by (auto simp: handle_metadata_def listed_event_def get_web_verification_from_event_def intro!: c split: option.split)
qed

lemma do_reverify_ops:
  "db_ops env log db (fst (do_reverify X (repo_at env now) vu fetch t db))"
  by (auto simp: do_reverify_def Let_def intro!: db_ops_step op_other split: sum.split web_status.split)

lemma payment_ops: "db_ops env log db (fst (payment_turn (payment_of env now) rnd m db))"
proof -
  have "repo_keeps (db_ops env log) (\<lambda>_. True) (payment_of env now)"
    unfolding repo_keeps_def
    by (simp del: guarded_fst, intro conjI allI impI db_ops_guarded db_ops_step op_write op_other other_operations)
      (auto simp: origin_def)
  then have "pay_rel (db_ops env log) (\<lambda>_. True) (payment_turn (payment_of env now) rnd m)"
    by (rule repo_keeps_turn) (auto intro!: db_ops_step op_other)
  from pay_relD [OF this, of db] show ?thesis by simp
qed

lemma writer_step_ops:
  "origin env log (su_event (snd isu)) \<Longrightarrow> db_ops env log (rl_db s) (rl_db (writer_step env now clk isu s))"
  using process_event_ops [of env now clk "snd isu" "rl_writer s"]
  by (auto simp: writer_step_def rl_db_def split: exec.split)

lemma verifier_step_ops:
  "client_event env log e \<Longrightarrow> db_ops env log (rl_db s) (rl_db (verifier_step env now e s))"
  using handle_metadata_ops [of env log e "rl_db s" now] by (auto simp: verifier_step_def split: prod.split)

lemma payment_step_ops: "db_ops env log (rl_db s) (rl_db (payment_step env now rnd m s))"
  using payment_ops [of env log "rl_db s" now rnd "Some m"] by (auto simp: payment_step_def rl_db_def set_db_def broadcast_def split: prod.split)

text \<open>What the writer and the verifier take from their queues came from clients.\<close>

lemma relay_apply_ops:
  assumes "relay_apply env a s = Some s'" and inv: "relay_inv env db0 s"
  shows "db_ops env (rl_log s) (rl_db s) (rl_db s')"
  using assms(1)
proof (cases rule: relay_apply_db_cases)
  case (writer now clk isu)
  then have "origin env (rl_log s) (su_event (snd isu))" using inv by (auto simp: relay_inv_def origin_def)
  with writer show ?thesis by (simp add: writer_step_ops)
next
  case (verify now e)
  with inv show ?thesis by (simp add: verifier_step_ops relay_inv_def)
next
  case (expire now)
  then show ?thesis by (auto intro!: db_ops_step op_expire)
qed (simp_all add: do_reverify_ops payment_step_ops)

lemma relay_apply_log: "relay_apply env a s = Some s' \<Longrightarrow> set (rl_log s) \<subseteq> set (rl_log s')"
  by (erule relay_apply_cases)
    (auto simp: connect_step_def link_turn_def log_text_def query_step_def writer_step_def verifier_step_def payment_step_def
      Let_def case_prod_beta split: exec.split ws_input.split)

text \<open>
  A property of the tables that every operation keeps, and that a longer log does not break,
  holds in every reachable state.
\<close>

lemma reachable_db:
  assumes "relay_reachable env db0 s" and "P [] db0"
    and op: "\<And>log db db'. db_op env log db db' \<Longrightarrow> P log db \<Longrightarrow> P log db'"
    and mono: "\<And>log log' db. set log \<subseteq> set log' \<Longrightarrow> P log db \<Longrightarrow> P log' db"
  shows "P (rl_log s) (rl_db s)"
proof -
  have ops: "db_ops env log db db' \<Longrightarrow> P log db \<Longrightarrow> P log db'" for log db db'
    by (induction rule: rtranclp_induct) (auto intro: op)
  from assms(1) show ?thesis
  proof (induction rule: relay_reachable.induct)
    case (relay_init s)
    then have "rl_log s = []" by (auto simp: relay_start_def map_exec_eq_Done)
    with relay_init assms(2) show ?case by (simp add: relay_start_db)
  next
    case (relay_step s a s')
    from relay_apply_ops [OF relay_step(2) relay_reachable_inv [OF relay_step(1)]]
    have "P (rl_log s) (rl_db s')" using relay_step.IH by (rule ops)
    with relay_apply_log [OF relay_step(2)] show ?case by (rule mono)
  qed
qed


section \<open>The invariant of the tables\<close>

lemma db_op_inv: "db_op env log db db' \<Longrightarrow> db_inv db \<Longrightarrow> db_inv db'"
proof (induction rule: db_op.induct)
  case (op_write e db now busy)
  then show ?case by (intro sqlite.wr_ok)
next
  case (op_other db db')
  then have "keys_ok db' \<and> replaceable_unique db'"
    unfolding same_or_fewer_verifications_def db_inv_def keys_ok_def replaceable_unique_def by metis
  moreover have "refs_ok db'"
    using op_other unfolding same_or_fewer_verifications_def db_inv_def refs_ok_def by metis
  ultimately show ?case by (simp add: db_inv_def)
qed (simp_all add: create_verification_inv delete_expired_inv)

lemma reachable_db_inv: "relay_reachable env db0 s \<Longrightarrow> db_inv db0 \<Longrightarrow> db_inv (rl_db s)"
  by (rule reachable_db [where P = "\<lambda>log. db_inv"]) (auto intro: db_op_inv)

section \<open>Verification records\<close>

text \<open>The identifiers of the metadata events of the records, with the names.\<close>

definition verified_names :: "db \<Rightarrow> (bytes \<times> string) set" where
  "verified_names db = {(h, n). \<exists>v \<in> set (verifications db). \<exists>r \<in> set (events db).
     ev_id r = vr_event v \<and> ev_hash r = h \<and> vr_name v = n}"

definition listed_name :: "'g relay_env \<Rightarrow> (nat \<times> u64 \<times> string) list \<Rightarrow> bytes \<Rightarrow> string \<Rightarrow> bool" where
  "listed_name env log h n \<longleftrightarrow>
     (\<exists>e m. listed_event env log e m \<and> hex_decode (re_ext env) (e_id e) = Some h \<and> n = nip05_to_string m)"

text \<open>
  A write keeps the numbers, identifiers and authors of the rows, and gives a new row a new number
  and the identifier and author of the event.
\<close>

lemma write_rows:
  assumes "r' \<in> set (events (fst (write_event X now busy e db)))"
  shows "(\<exists>r \<in> set (events db). ev_id r = ev_id r' \<and> ev_hash r = ev_hash r' \<and> ev_author r = ev_author r')
    \<or> ev_id r' \<notin> ev_id ` set (events db) \<and> hex_decode X (e_id e) = Some (ev_hash r')
      \<and> hex_decode X (e_pubkey e) = Some (ev_author r')"
proof -
  have p: ?thesis if r': "r' \<in> set (events (fst (persist_event X now e db)))"
  proof (cases X now e db rule: persist_event_cases)
    case (ins r)
    have "\<exists>s \<in> set (events db @ [r]). ev_id s = ev_id r' \<and> ev_hash s = ev_hash r' \<and> ev_author s = ev_author r'"
      using r' after_removals_subset [of e r "insert_event r e db"] unfolding ins(2) after_insert_eq hide_deleted_def
      by (fastforce simp: events_hide split: if_splits)
    with new_id_absent [OF ins(1)] new_event_row_Some(2,3) [OF ins(1)] show ?thesis by (auto simp: image_iff) metis
  qed (use r' in auto)
  with assms show ?thesis by (auto simp: write_event_cases split: if_splits)
qed

text \<open>Every row is of an event that a client published or of the relay, or was there at the start.\<close>

definition row_of :: "'g relay_env \<Rightarrow> db \<Rightarrow> (nat \<times> u64 \<times> string) list \<Rightarrow> event_row \<Rightarrow> bool" where
  "row_of env db0 log r \<longleftrightarrow>
     (\<exists>e. origin env log e \<and> hex_decode (re_ext env) (e_id e) = Some (ev_hash r)
        \<and> hex_decode (re_ext env) (e_pubkey e) = Some (ev_author r))
     \<or> (\<exists>r0 \<in> set (events db0). ev_hash r0 = ev_hash r \<and> ev_author r0 = ev_author r)"

lemma row_of_cong: "ev_hash s = ev_hash r \<Longrightarrow> ev_author s = ev_author r \<Longrightarrow> row_of env db0 log s = row_of env db0 log r"
  by (simp add: row_of_def)

lemma db_op_rows:
  "db_op env log db db' \<Longrightarrow> \<forall>r \<in> set (events db). row_of env db0 log r \<Longrightarrow> \<forall>r \<in> set (events db'). row_of env db0 log r"
proof (induction rule: db_op.induct)
  case (op_write e db now busy)
  show ?case
  proof
    fix r'
    assume "r' \<in> set (events (fst (write_event (re_ext env) now busy e db)))"
    from write_rows [OF this] op_write show "row_of env db0 log r'" by (metis row_of_cong row_of_def)
  qed
qed (auto simp: same_or_fewer_verifications_def delete_expired_def)

lemma reachable_rows:
  assumes "relay_reachable env db0 s" and "r \<in> set (events (rl_db s))"
  shows "row_of env db0 (rl_log s) r"
proof -
  have "\<forall>r \<in> set (events (rl_db s)). row_of env db0 (rl_log s) r"
  proof (rule reachable_db [OF assms(1), where P = "\<lambda>log db. \<forall>r \<in> set (events db). row_of env db0 log r"])
    show "\<forall>r \<in> set (events db0). row_of env db0 [] r" by (auto simp: row_of_def)
    show "\<forall>r \<in> set (events db). row_of env db0 log' r"
      if "set log \<subseteq> set log'" "\<forall>r \<in> set (events db). row_of env db0 log r" for log log' db
      using that origin_mono(2) [OF that(1), of env] unfolding row_of_def by blast
  qed (rule db_op_rows)
  with assms(2) show ?thesis by blast
qed

text \<open>
  No two of these events have the same identifier and different authors. The identifier is a hash of
  the event with its author, so this is what its freedom from collisions says of them.
\<close>

definition ids_name_authors :: "'g relay_env \<Rightarrow> db \<Rightarrow> (nat \<times> u64 \<times> string) list \<Rightarrow> bool" where
  "ids_name_authors env db0 log \<longleftrightarrow>
     (\<forall>e r. origin env log e \<and> row_of env db0 log r \<and> hex_decode (re_ext env) (e_id e) = Some (ev_hash r) \<longrightarrow>
        hex_decode (re_ext env) (e_pubkey e) = Some (ev_author r))"

lemma write_verifications:
  "set (verifications (fst (write_event X now busy e db))) \<subseteq> set (verifications db)"
proof -
  have "set (verifications (fst (persist_event X now e db))) \<subseteq> set (verifications db)"
  proof (cases X now e db rule: persist_event_cases)
    case (ins r)
    then show ?thesis
      by (auto simp: after_insert_eq hide_deleted_def after_removals_def remove_older_replaceable_def
          remove_older_param_def Let_def split: option.split if_splits)
  qed auto
  then show ?thesis by (auto simp: write_event_cases)
qed

lemma db_op_names:
  assumes "db_op env log db db'" and "db_inv db"
  shows "verified_names db' \<subseteq> verified_names db \<union> {(h, n). listed_name env log h n}"
  using assms
proof (induction rule: db_op.induct)
  case (op_write e db now busy)
  show ?case
  proof
    fix p
    assume "p \<in> verified_names (fst (write_event (re_ext env) now busy e db))"
    then obtain v r' where v: "v \<in> set (verifications db)" "ev_id r' = vr_event v" "p = (ev_hash r', vr_name v)"
      and r': "r' \<in> set (events (fst (write_event (re_ext env) now busy e db)))"
      using write_verifications by (fastforce simp: verified_names_def)
    have "ev_id r' \<in> ev_id ` set (events db)"
      using op_write v(1,2) unfolding db_inv_def refs_ok_def by (metis image_eqI)
    with write_rows [OF r'] obtain r where "r \<in> set (events db)" "ev_id r = ev_id r'" "ev_hash r = ev_hash r'" by blast
    with v show "p \<in> verified_names db \<union> {(h, n). listed_name env log h n}" by (auto simp: verified_names_def)
  qed
next
  case (op_verified e n db now)
  show ?case
  proof (cases "filter (\<lambda>r. hex_decode (re_ext env) (e_id e) = Some (ev_hash r)) (events db)")
    case (Cons r rs)
    then have r: "r \<in> set (events db)" "hex_decode (re_ext env) (e_id e) = Some (ev_hash r)"
      by (auto simp: filter_eq_Cons_iff)
    have "s = r" if "s \<in> set (events db)" "ev_id s = ev_id r" for s
      using op_verified(2) r(1) that by (auto simp: db_inv_def keys_ok_def distinct_map dest: inj_onD)
    with r op_verified(1) Cons show ?thesis
      by (fastforce simp: verified_names_def create_verification_record_def Let_def listed_name_def)
  qed (simp add: create_verification_record_def)
next
  case (op_expire db now)
  then show ?case by (auto simp: verified_names_def delete_expired_def)
next
  case (op_other db db')
  then show ?case unfolding verified_names_def same_or_fewer_verifications_def by (auto, metis)
qed

lemma listed_name_mono: "set log \<subseteq> set log' \<Longrightarrow> listed_name env log h n \<Longrightarrow> listed_name env log' h n"
  using origin_mono(1) [of log log' env] unfolding listed_name_def listed_event_def by blast

lemma reachable_names:
  assumes "relay_reachable env db0 s" and "db_inv db0"
  shows "verified_names (rl_db s) \<subseteq> verified_names db0 \<union> {(h, n). listed_name env (rl_log s) h n}"
proof -
  let ?P = "\<lambda>log db. db_inv db \<and> verified_names db \<subseteq> verified_names db0 \<union> {(h, n). listed_name env log h n}"
  have "?P (rl_log s) (rl_db s)"
  proof (rule reachable_db [OF assms(1), where P = ?P])
    show "?P log db'" if "db_op env log db db'" "?P log db" for log db db'
      using db_op_inv [OF that(1)] db_op_names [OF that(1)] that(2) by blast
    show "?P log' db" if "set log \<subseteq> set log'" "?P log db" for log log' db
      using listed_name_mono [OF that(1)] that(2) by blast
  qed (use assms(2) in simp)
  then show ?thesis by simp
qed


section \<open>Nobody becomes verified\<close>

text \<open>
  With verification enabled the writer rejects every event of an author without a record, the
  metadata events too: the check comes before the event is sent to the verifier. So the
  verifier is never asked, and without records at the start there are none at all.
\<close>

lemma unverified_event:
  assumes "vu_is_enabled (st_verified_users (re_settings env))" and "verifications (w_db w) = []"
    and p: "process_event (writer_of env) now clk su w = Done (w1, outs, err)"
  shows "w_db w1 = w_db w" and "err = None" and "rejection (e_id (su_event su)) outs"
proof -
  have "verification_join (w_db w) = []" using assms(2) by (simp add: verification_join_def)
  then have "get_latest_user_verification (re_ext env) (e_pubkey (su_event su)) (w_db w) = Inl no_rows"
    by (simp add: get_latest_user_verification_def)
  then have "\<exists>x. nip05_validation (writer_of env) now (su_event su) (w_db w) = Some (Inl x)"
    using assms(1) by (cases "fails env now LatestVerification") (auto simp: nip05_validation_def writer_of_def repo_at_def
        sqlite_repo_def Let_def guarded_read_def vu_is_active_def vu_is_enabled_def)
  then have "nip05_stage (st_verified_users (re_settings env)) now (su_event su)
      (nip05_validation (writer_of env) now (su_event su) (w_db w)) \<noteq> Proceed ()"
    using assms(1) by (auto simp: nip05_stage_def split: if_splits)
  then have "\<not> admissible (writer_of env) now clk su w" by (simp add: admissible_def Let_def writer_of_def)
  from process_event_reject [OF p this] show "w_db w1 = w_db w" and "err = None"
    and "rejection (e_id (su_event su)) outs" .
qed

lemma rejection_outputs:
  "rejection i outs \<Longrightarrow> writer_broadcasts outs = [] \<and> writer_metadata outs = []"
  by (auto simp: rejection_def writer_broadcasts_def writer_metadata_def List.map_filter_def list_all_iff filter_empty_conv
      split: writer_output.splits)

definition unverified :: "'g relay \<Rightarrow> bool" where
  "unverified s \<longleftrightarrow> verifications (rl_db s) = [] \<and> rl_meta s = []"

lemma unverified_frame [simp]:
  "unverified (link_turn env i now inp s) = unverified s"
  "unverified (with_link i f s) = unverified s"
  "unverified (broadcast es s) = unverified s"
  "unverified (log_text i now w s) = unverified s"
  "unverified (connect_step env uuid ch info s) = unverified s"
  "unverified (s\<lparr>rl_events := evs\<rparr>) = unverified s"
  "unverified (s\<lparr>rl_pay := ps\<rparr>) = unverified s"
  "unverified (s\<lparr>rl_paying := b\<rparr>) = unverified s"
  by (auto simp: unverified_def link_turn_def with_link_def broadcast_def log_text_def connect_step_def rl_db_def Let_def
      split: exec.split prod.split ws_input.split)

lemma payment_verifications:
  "verifications db = [] \<Longrightarrow> verifications (fst (payment_turn (payment_of env now) rnd m db)) = []"
proof -
  let ?R = "\<lambda>db db'. verifications db = [] \<longrightarrow> verifications db' = []"
  have same: "same_or_fewer_verifications db db' \<Longrightarrow> ?R db db'" for db db'
    by (cases "verifications db'") (auto simp: same_or_fewer_verifications_def)
  have "?R db (fst (write_event X now busy e db))" for X now busy e db
    using write_verifications [of X now busy e db] by (metis set_empty2 subset_empty)
  moreover have "reflp ?R" "transp ?R" by (auto intro: reflpI transpI)
  moreover note ops = other_operations [THEN same]
  ultimately have "repo_keeps ?R (\<lambda>_. True) (payment_of env now)"
    unfolding repo_keeps_def by (simp add: ops)
  then have "pay_rel ?R (\<lambda>_. True) (payment_turn (payment_of env now) rnd m)"
    by (rule repo_keeps_turn) (simp add: ops)
  from pay_relD [OF this, of db] show "verifications db = [] \<Longrightarrow> ?thesis" by simp
qed

lemma unverified_step:
  assumes enabled: "vu_is_enabled (st_verified_users (re_settings env))" and u: "unverified s"
    and a: "relay_apply env a s = Some s'"
  shows "unverified s'"
  using a
proof (cases rule: relay_apply_cases)
  case (writer now clk isu rest)
  show ?thesis
  proof (cases "process_event (writer_of env) now clk (snd isu) (rl_writer s)")
    case (Done x)
    obtain w1 outs err where x: "x = (w1, outs, err)" by (cases x)
    from u have "verifications (w_db (rl_writer s)) = []" by (simp add: unverified_def rl_db_def)
    from unverified_event [OF enabled this Done [unfolded x]] have "w_db w1 = rl_db s" "writer_metadata outs = []"
      by (simp_all add: rejection_outputs rl_db_def)
    then show ?thesis using u Done
      by (simp add: writer x writer_step_def unverified_def rl_db_def with_link_def broadcast_def)
  qed (use u in \<open>simp add: writer writer_step_def unverified_def rl_db_def\<close>)
next
  case (verify now e rest)
  with u show ?thesis by (simp add: unverified_def)
next
  case (reverify now)
  from u have "verification_join (rl_db s) = []" by (simp add: unverified_def verification_join_def)
  then have "fst (do_reverify (re_ext env) (repo_at env now) vu f now (rl_db s)) = rl_db s" for vu f
    by (auto simp: do_reverify_def Let_def repo_at_def sqlite_repo_def guarded_read_def get_oldest_user_verification_def
        split: option.split)
  with reverify u show ?thesis by (auto simp: unverified_def set_db_def rl_db_def)
next
  case (overflow b n e m p)
  with u show ?thesis by (simp add: unverified_def keep_latest_def)
next
  case (pay now rnd m rest)
  from u payment_verifications [of "rl_db s" env now rnd "Some m"]
  have "verifications (fst (payment_turn (payment_of env now) rnd (Some m) (rl_db s))) = []" by (simp add: unverified_def)
  then show ?thesis using u
    by (auto simp: pay payment_step_def unverified_def set_db_def rl_db_def broadcast_def split: prod.split)
next
  case (expire now)
  with u show ?thesis by (auto simp: unverified_def set_db_def rl_db_def delete_expired_def delete_events_def Let_def)
qed (use u in \<open>auto simp: query_step_def\<close>)

lemma reachable_unverified:
  assumes "relay_reachable env db0 s" and "vu_is_enabled (st_verified_users (re_settings env))" and "verifications db0 = []"
  shows "unverified s"
  using assms(1)
proof (induction rule: relay_reachable.induct)
  case (relay_init s)
  then show ?case using assms(3) relay_start_db [of env db0 s]
    by (auto simp: unverified_def relay_start_def map_exec_eq_Done)
qed (use assms(2) unverified_step in blast)


section \<open>Queries are answered\<close>

lemma row_texts: "\<forall>x \<in> set (on_query_row X st now sub ev cl). \<exists>t. x = SendText t"
  by (simp add: on_query_row_def)

lemma take_row:
  assumes l: "open_link s i = Some l" and q: "ln_rows l = r # rs"
  obtains s' l' where "relay_apply env (TakeRow i now) s = Some s'" and "open_link s' i = Some l'"
    and "ln_rows l' = rs" and "ln_client l' = ln_client l"
    and "ln_sent l' = ln_sent l @ on_query_row (re_ext env) (re_settings env) now (qr_sub_id r) (qr_event r) (ln_client l)"
proof -
  let ?outs = "on_query_row (re_ext env) (re_settings env) now (qr_sub_id r) (qr_event r) (ln_client l)"
  let ?l' = "l\<lparr>ln_rows := rs, ln_open := True, ln_sent := ln_sent l @ ?outs\<rparr>"
  have i: "i < length (rl_links s)" "rl_links s ! i = l" "ln_open l" using open_linkD [OF l] by auto
  define s' where "s' = s\<lparr>rl_links := (rl_links s)[i := ?l']\<rparr>"
  have t: "client_turn (re_ext env) (re_settings env) (ln_info l) now (QueryRow (qr_sub_id r) (qr_event r)) (ln_client l)
      = Done (ln_client l, ?outs, True)"
    by (simp add: client_turn_def)
  have "relay_apply env (TakeRow i now) s = Some s'"
    using l q i t
    by (simp add: link_turn_def with_link_def s'_def query_changes_texts [OF row_texts]
        submissions_texts [OF row_texts])
  moreover have "open_link s' i = Some ?l'" using i by (simp add: open_link_def s'_def)
  ultimately show thesis by (rule that) simp_all
qed

lemma take_rows:
  assumes "open_link s i = Some l" and "ln_rows l = rows"
  shows "\<exists>s' l'. relay_exec env (replicate (length rows) (TakeRow i now)) s = Some s' \<and> open_link s' i = Some l'
    \<and> ln_sent l' = ln_sent l @ concat (map (\<lambda>r. on_query_row (re_ext env) (re_settings env) now
        (qr_sub_id r) (qr_event r) (ln_client l)) rows)"
  using assms
proof (induction rows arbitrary: s l)
  case (Cons r rs)
  from take_row [OF Cons.prems, of env now] obtain s1 l1
    where 1: "relay_apply env (TakeRow i now) s = Some s1" "open_link s1 i = Some l1" "ln_rows l1 = rs"
      "ln_client l1 = ln_client l"
      "ln_sent l1 = ln_sent l @ on_query_row (re_ext env) (re_settings env) now (qr_sub_id r) (qr_event r) (ln_client l)"
    by blast
  from Cons.IH [OF 1(2,3)] obtain s' l' where 2: "relay_exec env (replicate (length rs) (TakeRow i now)) s1 = Some s'"
      "open_link s' i = Some l'" "ln_sent l' = ln_sent l1 @ concat (map (\<lambda>r. on_query_row (re_ext env) (re_settings env) now
        (qr_sub_id r) (qr_event r) (ln_client l1)) rs)" by blast
  have "relay_exec env (replicate (length (r # rs)) (TakeRow i now)) s = Some s'" using 1(1) 2(1) by simp
  moreover have "ln_sent l' = ln_sent l @ concat (map (\<lambda>r. on_query_row (re_ext env) (re_settings env) now
        (qr_sub_id r) (qr_event r) (ln_client l)) (r # rs))" using 1(4,5) 2(3) by simp
  ultimately show ?case using 2(2) by blast
qed simp

text \<open>The statements of the filters all succeed when their numbers fit in an SQL integer.\<close>

definition limits_fit :: "subscription \<Rightarrow> bool" where
  "limits_fit sub \<longleftrightarrow> list_all (\<lambda>f. case f_limit f of None \<Rightarrow> True | Some m \<Rightarrow> sql_u64 m \<noteq> None) (s_filters sub)"

lemma run_filter_result:
  assumes "db_inv db" and "mset (scan (events db)) = mset (events db)" and "sql_u64 now \<noteq> None"
    and "case f_limit f of None \<Rightarrow> True | Some m \<Rightarrow> sql_u64 m \<noteq> None"
  shows "\<exists>rs. run_filter X now scan db f = Inr (map ev_content rs) \<and> set rs \<subseteq> set (hits X now db f)
    \<and> (f_limit f = None \<longrightarrow> set rs = set (hits X now db f))"
proof (cases "f_limit f")
  case None
  from select_all [where X = X and scan = scan, OF assms(1-3) None] obtain rs
    where "select_rows scan db (select_of_filter X now f) = Inr rs" "mset rs = mset (hits X now db f)" by blast
  then show ?thesis by (auto simp: run_filter_def dest: mset_eq_setD)
next
  case (Some n)
  with assms(4) obtain m where "sql_u64 n = Some m" by auto
  from select_limit [where X = X and scan = scan, OF assms(1-3) Some this] obtain rs rest
    where r: "select_rows scan db (select_of_filter X now f) = Inr rs" "mset (rs @ rest) = mset (hits X now db f)" by blast
  from r(2) have "set (rs @ rest) = set (hits X now db f)" by (rule mset_eq_setD)
  with r(1) Some show ?thesis by (auto simp: run_filter_def)
qed

lemma run_filters_result:
  assumes "db_inv db" and "mset (scan (events db)) = mset (events db)" and "sql_u64 now \<noteq> None"
    and "list_all (\<lambda>f. case f_limit f of None \<Rightarrow> True | Some m \<Rightarrow> sql_u64 m \<noteq> None) fs"
  shows "\<exists>evs. run_filters X now scan db fs = (evs, True)
    \<and> set evs \<subseteq> (\<Union>f \<in> set fs. ev_content ` set (hits X now db f))
    \<and> (\<forall>f \<in> set fs. f_limit f = None \<longrightarrow> ev_content ` set (hits X now db f) \<subseteq> set evs)"
  using assms(4)
proof (induction fs)
  case (Cons f fs)
  from Cons.prems run_filter_result [where scan = scan and f = f and X = X, OF assms(1-3)] obtain rs
    where 1: "run_filter X now scan db f = Inr (map ev_content rs)" "set rs \<subseteq> set (hits X now db f)"
      "f_limit f = None \<longrightarrow> set rs = set (hits X now db f)" by auto
  from Cons obtain evs where 2: "run_filters X now scan db fs = (evs, True)"
      "set evs \<subseteq> (\<Union>f \<in> set fs. ev_content ` set (hits X now db f))"
      "\<forall>f \<in> set fs. f_limit f = None \<longrightarrow> ev_content ` set (hits X now db f) \<subseteq> set evs" by auto
  have "run_filters X now scan db (f # fs) = (map ev_content rs @ evs, True)" using 1(1) 2(1) by simp
  moreover have "set (map ev_content rs @ evs) \<subseteq> (\<Union>f \<in> set (f # fs). ev_content ` set (hits X now db f))"
    using 1(2) 2(2) by auto
  moreover have "\<forall>g \<in> set (f # fs). f_limit g = None \<longrightarrow> ev_content ` set (hits X now db g) \<subseteq> set (map ev_content rs @ evs)"
    using 1(3) 2(3) by auto
  ultimately show ?case by blast
qed simp


text \<open>What a query sends: the stored events that one of its filters asks for and the client may see.\<close>

definition row_outputs :: "'g relay_env \<Rightarrow> u64 \<Rightarrow> client \<Rightarrow> query_result list \<Rightarrow> client_output list" where
  "row_outputs env now cl rows =
     concat (map (\<lambda>r. on_query_row (re_ext env) (re_settings env) now (qr_sub_id r) (qr_event r) cl) rows)"

definition answers :: "'g relay_env \<Rightarrow> u64 \<Rightarrow> u64 \<Rightarrow> client \<Rightarrow> db \<Rightarrow> subscription \<Rightarrow> req_filter \<Rightarrow> client_output set" where
  "answers env now later cl db sub f =
     {SendText (event_text (strip_quotes (s_id sub)) (ev_content r)) | r.
        r \<in> set (hits (re_ext env) now db f) \<and> ev_content r \<noteq> ''EOSE''
        \<and> allowed_to_send (re_ext env) later (ev_content r) (cl_conn cl) (re_settings env)}"

lemma row_outputs_query:
  "row_outputs env later cl (map (\<lambda>t. \<lparr>qr_sub_id = k, qr_event = t\<rparr>) evs)
     = concat (map (\<lambda>t. on_query_row (re_ext env) (re_settings env) later k t cl) evs)"
  by (simp add: row_outputs_def o_def)

lemma answers_of_rows:
  assumes sub: "set evs \<subseteq> (\<Union>f \<in> set fs. ev_content ` set (hits (re_ext env) now db f))"
    and all: "\<forall>f \<in> set fs. f_limit f = None \<longrightarrow> ev_content ` set (hits (re_ext env) now db f) \<subseteq> set evs"
    and fs: "fs = s_filters q"
    and ans: "ans = concat (map (\<lambda>t. on_query_row (re_ext env) (re_settings env) later (s_id q) t cl) evs)"
  shows "\<forall>f \<in> set fs. f_limit f = None \<longrightarrow> answers env now later cl db q f \<subseteq> set ans"
    and "set ans \<subseteq> insert (SendText (eose_text (strip_quotes (s_id q)))) (\<Union>f \<in> set fs. answers env now later cl db q f)"
proof -
  let ?sends = "\<lambda>t x. allowed_to_send (re_ext env) later t (cl_conn cl) (re_settings env)
    \<and> x = SendText (event_text (strip_quotes (s_id q)) t)"
  have a: "x \<in> set ans \<longleftrightarrow> (\<exists>t \<in> set evs. if t = ''EOSE'' then x = SendText (eose_text (strip_quotes (s_id q))) else ?sends t x)" for x
    unfolding ans by (auto simp: on_query_row_def)
  show "\<forall>f \<in> set fs. f_limit f = None \<longrightarrow> answers env now later cl db q f \<subseteq> set ans"
  proof (intro ballI impI subsetI)
    fix f x
    assume f: "f \<in> set fs" "f_limit f = None" and "x \<in> answers env now later cl db q f"
    then obtain r where r: "r \<in> set (hits (re_ext env) now db f)" "ev_content r \<noteq> ''EOSE''" "?sends (ev_content r) x"
      by (auto simp: answers_def)
    from all f r(1) have "ev_content r \<in> set evs" by blast
    with r show "x \<in> set ans" unfolding a by (intro bexI [of _ "ev_content r"]) simp_all
  qed
  show "set ans \<subseteq> insert (SendText (eose_text (strip_quotes (s_id q)))) (\<Union>f \<in> set fs. answers env now later cl db q f)"
  proof
    fix x
    assume "x \<in> set ans"
    then obtain t where t: "t \<in> set evs" "if t = ''EOSE'' then x = SendText (eose_text (strip_quotes (s_id q))) else ?sends t x"
      unfolding a by blast
    from sub t(1) obtain f r where "f \<in> set fs" "r \<in> set (hits (re_ext env) now db f)" "t = ev_content r" by blast
    with t(2) show "x \<in> insert (SendText (eose_text (strip_quotes (s_id q)))) (\<Union>f \<in> set fs. answers env now later cl db q f)"
      by (auto simp: answers_def split: if_splits)
  qed
qed

lemma query_answered:
  assumes inv: "db_inv (rl_db s)" and l: "open_link s i = Some l" and q: "ln_queries l = (n, sub) # qs"
    and scan: "mset (scan (events (rl_db s))) = mset (events (rl_db s))" and now: "sql_u64 now \<noteq> None"
    and lim: "limits_fit sub"
  shows "\<exists>k s' l' ans. relay_exec env (RunQuery i now scan True None # replicate k (TakeRow i later)) s = Some s'
    \<and> open_link s' i = Some l'
    \<and> ln_sent l' = ln_sent l @ row_outputs env later (ln_client l) (ln_rows l) @ ans
        @ [SendText (eose_text (strip_quotes (s_id sub)))]
    \<and> (\<forall>f \<in> set (s_filters sub). f_limit f = None \<longrightarrow> answers env now later (ln_client l) (rl_db s) sub f \<subseteq> set ans)
    \<and> set ans \<subseteq> insert (SendText (eose_text (strip_quotes (s_id sub))))
        (\<Union>f \<in> set (s_filters sub). answers env now later (ln_client l) (rl_db s) sub f)"
proof -
  let ?X = "re_ext env" and ?db = "rl_db s"
  from run_filters_result [where scan = scan and X = ?X and fs = "s_filters sub", OF inv scan now] lim
  obtain evs where r: "run_filters ?X now scan ?db (s_filters sub) = (evs, True)"
    and hits: "set evs \<subseteq> (\<Union>f \<in> set (s_filters sub). ev_content ` set (hits ?X now ?db f))"
      "\<forall>f \<in> set (s_filters sub). f_limit f = None \<longrightarrow> ev_content ` set (hits ?X now ?db f) \<subseteq> set evs"
    unfolding limits_fit_def by blast
  define res where "res = map (\<lambda>t. \<lparr>qr_sub_id = s_id sub, qr_event = t\<rparr>) (evs @ [''EOSE''])"
  define s1 where "s1 = query_step env i now scan True None (n, sub) s"
  define l1 where "l1 = l\<lparr>ln_queries := qs, ln_rows := ln_rows l @ res\<rparr>"
  have "query_subscription ?X now scan True None ?db sub = res"
    using r by (simp add: query_subscription_def res_def)
  then have o: "open_link s1 i = Some l1"
    using open_linkD [OF l] q by (auto simp: query_step_def with_link_def open_link_def s1_def l1_def)
  have run: "relay_apply env (RunQuery i now scan True None) s = Some s1"
    using l q scan by (simp add: s1_def)
  from take_rows [OF o, of "ln_rows l @ res" env later] obtain s' l'
    where t: "relay_exec env (replicate (length (ln_rows l @ res)) (TakeRow i later)) s1 = Some s'" "open_link s' i = Some l'"
      "ln_sent l' = ln_sent l @ row_outputs env later (ln_client l) (ln_rows l @ res)"
    by (auto simp: l1_def row_outputs_def)
  define ans where "ans = concat (map (\<lambda>t. on_query_row ?X (re_settings env) later (s_id sub) t (ln_client l)) evs)"
  have "row_outputs env later (ln_client l) (ln_rows l @ res)
      = row_outputs env later (ln_client l) (ln_rows l) @ ans @ [SendText (eose_text (strip_quotes (s_id sub)))]"
    using row_outputs_query [of env later "ln_client l" "s_id sub" "evs @ [''EOSE'']"]
    by (simp add: ans_def res_def row_outputs_def) (simp add: on_query_row_def)
  with t(3) have sent: "ln_sent l' = ln_sent l @ row_outputs env later (ln_client l) (ln_rows l) @ ans
        @ [SendText (eose_text (strip_quotes (s_id sub)))]" by simp
  have "relay_exec env (RunQuery i now scan True None # replicate (length (ln_rows l @ res)) (TakeRow i later)) s = Some s'"
    using run t(1) by simp
  with t(2) sent answers_of_rows [OF hits refl ans_def] show ?thesis by blast
qed

end
