(* ===== verification/Relay_Notices.thy ===== *)
theory Relay_Notices
  imports Relay_Store
begin

text \<open>
  Who is told what became of an event: the writer's result goes back through the notice channel
  of the connection that submitted the event, so a client is sent an \<open>OK\<close> message only for an
  event that it sent itself on this connection.
\<close>

section \<open>Results and their senders\<close>

definition ok_for :: "string \<Rightarrow> json \<Rightarrow> bool" where
  "ok_for i j \<longleftrightarrow> (\<exists>b m. j = JArray [JString ''OK'', JString i, JBool b, JString m])"

definition submitted_by :: "'g relay_env \<Rightarrow> (nat \<times> u64 \<times> string) list \<Rightarrow> nat \<Rightarrow> string \<Rightarrow> bool" where
  "submitted_by env log k i \<longleftrightarrow> (\<exists>now m ec. (k, now, m) \<in> set log
     \<and> convert_to_msg (re_ext env) m (max_event_bytes (st_limits (re_settings env))) = Inr (EventMsg ec)
     \<and> event_id ec = i)"

lemma ok_for_notice: "ok_for i (make_notice_message n) \<longleftrightarrow> (\<exists>r. n = EventResult r \<and> er_id r = i)"
  by (cases n) (auto simp: ok_for_def make_notice_message_def)

lemma ok_for_message [simp]: "\<not> ok_for i (make_notice_message (notice_message m))"
  by (simp add: ok_for_notice notice_message_def)

lemma result_ids [simp]:
  "ok_for i (make_notice_message (notice_invalid j m)) \<longleftrightarrow> j = i"
  "ok_for i (make_notice_message (notice_restricted j m)) \<longleftrightarrow> j = i"
  "ok_for i (make_notice_message (notice_saved j)) \<longleftrightarrow> j = i"
  by (simp_all add: ok_for_notice notice_invalid_def notice_restricted_def notice_saved_def prefixed_def Let_def
      split: option.split)

section \<open>A turn of a connection\<close>

lemma wrapped_id:
  assumes "wrap_event_cmd X ec = Done (Inr (WrappedEvent e)) \<or> wrap_event_cmd X ec = Done (Inr (WrappedAuth e))"
  shows "e_id e = event_id ec"
  using assms
  by (auto simp: wrap_event_cmd_def update_delegation_def build_index_def event_id_def Let_def map_exec_eq_Done
      split: if_splits sum.splits)

lemma on_event_msg_results:
  assumes "on_event_msg X st info now ec cl = Done (cl', outs)" and "SendJson j \<in> set outs" and "ok_for i j"
  shows "event_id ec = i"
proof -
  from assms(1) obtain r where r: "wrap_event_cmd X ec = Done r"
    and o: "(cl', outs) = (case r of
       Inr (WrappedEvent e) \<Rightarrow> (cl, on_event X st info now e cl)
     | Inr (WrappedAuth e) \<Rightarrow> on_auth X st now (event_id ec) e cl
     | Inl err \<Rightarrow> (cl, [SendJson (make_notice_message (notice_invalid (event_id ec) (error_text err)))]))"
    unfolding on_event_msg_def map_exec_eq_Done by blast
  have ev: "e_id e = i" if "SendJson j \<in> set (on_event X st info now e cl)" for e
    using that assms(3) by (auto simp: on_event_def split: if_splits option.splits)
  have au: "e_id e = i \<or> event_id ec = i" if "SendJson j \<in> set (snd (on_auth X st now (event_id ec) e cl))" for e
    using that assms(3) by (auto simp: on_auth_def split: if_splits option.splits prod.splits sum.splits)
  show ?thesis
  proof (cases r)
    case (Inl err)
    with o assms(2,3) show ?thesis by auto
  next
    case (Inr w)
    show ?thesis
    proof (cases w)
      case (WrappedEvent e)
      with Inr o assms(2) ev [of e] wrapped_id [of X ec e] r show ?thesis by auto
    next
      case (WrappedAuth e)
      with Inr o have "outs = snd (on_auth X st now (event_id ec) e cl)" by (metis snd_conv sum.case(2) event_wrapper.case(2))
      with WrappedAuth Inr assms(2) au [of e] wrapped_id [of X ec e] r show ?thesis by auto
    qed
  qed
qed

lemma client_turn_results:
  assumes "client_turn X st info now inp cl = Done (cl', outs, go)" and "SendJson j \<in> set outs" and "ok_for i j"
  shows "(\<exists>r. inp = NoticeIn (EventResult r) \<and> er_id r = i)
    \<or> (\<exists>m ec. inp = FromClient (WsText m)
        \<and> convert_to_msg X m (max_event_bytes (st_limits st)) = Inr (EventMsg ec) \<and> event_id ec = i)"
proof -
  have g: "SendJson j \<notin> set (on_global_event X st now e cl)" for e
    by (auto simp: on_global_event_def split: if_splits option.splits)
  have q: "SendJson j \<notin> set (on_query_row X st now s v cl)" for s v by (simp add: on_query_row_def)
  have sub: "SendJson j \<notin> set (snd (on_sub_msg st s cl))" for s
    using assms(3) by (auto simp: on_sub_msg_def Let_def split: prod.splits sum.splits option.splits if_splits)
  have cls: "SendJson j \<notin> set (snd (on_close_msg cc cl))" for cc
    using assms(3) by (auto simp: on_close_msg_def split: sum.splits option.splits)
  show ?thesis
  proof (cases inp)
    case (FromClient w)
    show ?thesis
    proof (cases w)
      case (WsText m)
      with FromClient assms(1) have t: "on_text X st info now m cl = Done (cl', outs)"
        by (auto simp: client_turn_def Let_def)
      from t assms(2,3) sub cls obtain ec
        where "convert_to_msg X m (max_event_bytes (st_limits st)) = Inr (EventMsg ec)"
          and "on_event_msg X st info now ec cl = Done (cl', outs)"
        by (auto simp: on_text_def split: sum.splits nostr_message.splits error.splits) (metis snd_conv)+
      with on_event_msg_results [OF _ assms(2,3)] FromClient WsText show ?thesis by blast
    qed (use FromClient assms in \<open>auto simp: client_turn_def Let_def\<close>)
  qed (use assms g q in \<open>auto simp: client_turn_def Let_def ok_for_notice split: if_splits\<close>)
qed

section \<open>What the writer notifies\<close>

lemma process_event_notices:
  assumes "process_event env now clk su w = Done (w1, outs, err)" and "EventResult r \<in> set (writer_notices outs)"
  shows "er_id r = e_id (su_event su)"
proof -
  have n: "Notify (EventResult r) \<in> set outs"
    using assms(2) by (induction outs) (auto simp: writer_notices_def List.map_filter_simps split: writer_output.splits)
  have ids: "EventResult r = prefixed i m s \<Longrightarrow> er_id r = i" "EventResult r = notice_saved i \<Longrightarrow> er_id r = i"
    "EventResult r = notice_duplicate i \<Longrightarrow> er_id r = i" "EventResult r = notice_error i m \<Longrightarrow> er_id r = i" for i m s
    by (auto simp: prefixed_def notice_saved_def notice_duplicate_def notice_error_def Let_def split: option.splits)
  show ?thesis
  proof (cases "admissible env now clk su w")
    case False
    from process_event_reject(3) [OF assms(1) this] n ids(1) show ?thesis by (auto simp: rejection_def)
  next
    case True
    then obtain b where "process_event env now clk su w =
        Done (admitted_event env now (su_event su) b (fst (kind_filter_stage env now clk su w)))"
      by (rule process_event_admitted)
    with assms(1) have "outs = fst (snd (admitted_event env now (su_event su) b (fst (kind_filter_stage env now clk su w))))"
      by simp
    with n ids show ?thesis
      by (auto simp: admitted_event_outs publish_def split: if_splits prod.splits sum.splits)
  qed
qed

section \<open>The invariant\<close>

definition link_told :: "'g relay_env \<Rightarrow> (nat \<times> u64 \<times> string) list \<Rightarrow> nat \<Rightarrow> link \<Rightarrow> bool" where
  "link_told env log k l \<longleftrightarrow>
     (\<forall>r. EventResult r \<in> set (ln_notices l) \<longrightarrow> submitted_by env log k (er_id r))
     \<and> (\<forall>j i. SendJson j \<in> set (ln_sent l) \<and> ok_for i j \<longrightarrow> submitted_by env log k i)"

definition told_inv :: "'g relay_env \<Rightarrow> 'g relay \<Rightarrow> bool" where
  "told_inv env s \<longleftrightarrow> (\<forall>k < length (rl_links s). link_told env (rl_log s) k (rl_links s ! k))
     \<and> (\<forall>x \<in> set (rl_events s). submitted_by env (rl_log s) (fst x) (e_id (su_event (snd x))))"

lemma link_told_frame [simp]:
  "link_told env log k (l\<lparr>ln_bcast := es\<rparr>) = link_told env log k l"
  "link_told env log k (l\<lparr>ln_rows := rs\<rparr>) = link_told env log k l"
  "link_told env log k (l\<lparr>ln_open := b\<rparr>) = link_told env log k l"
  "link_told env log k (l\<lparr>ln_queries := qs\<rparr>) = link_told env log k l"
  by (simp_all add: link_told_def)

lemma told_with_link:
  assumes "told_inv env s" and "i < length (rl_links s) \<Longrightarrow> link_told env (rl_log s) i (f (rl_links s ! i))"
  shows "told_inv env (with_link i f s)"
  using assms by (auto simp: told_inv_def with_link_def nth_list_update)

lemma told_frame [simp]:
  "told_inv env (broadcast es s) = told_inv env s" "told_inv env (set_db db s) = told_inv env s"
  "told_inv env (s\<lparr>rl_pay := ps\<rparr>) = told_inv env s" "told_inv env (s\<lparr>rl_paying := b\<rparr>) = told_inv env s"
  "told_inv env (s\<lparr>rl_writing := b\<rparr>) = told_inv env s" "told_inv env (s\<lparr>rl_meta := ms\<rparr>) = told_inv env s"
  "told_inv env (s\<lparr>rl_writer := w\<rparr>) = told_inv env s"
  by (auto simp: told_inv_def broadcast_def set_db_def)

lemma told_log:
  assumes "told_inv env s"
  shows "told_inv env (log_text i now w s)"
proof -
  have "submitted_by env (rl_log s) k x \<Longrightarrow> submitted_by env (rl_log (log_text i now w s)) k x" for k x
    by (auto simp: submitted_by_def log_text_def split: ws_input.split)
  moreover have "rl_links (log_text i now w s) = rl_links s" "rl_events (log_text i now w s) = rl_events s"
    by (auto simp: log_text_def split: ws_input.split)
  ultimately show ?thesis using assms unfolding told_inv_def link_told_def by simp
qed

text \<open>The input of a turn: a text that is in the log, or a notice from the queue.\<close>

definition told_input :: "'g relay_env \<Rightarrow> (nat \<times> u64 \<times> string) list \<Rightarrow> nat \<Rightarrow> u64 \<Rightarrow> client_input \<Rightarrow> bool" where
  "told_input env log k now inp \<longleftrightarrow>
     (case inp of
        FromClient (WsText m) \<Rightarrow> (k, now, m) \<in> set log
      | NoticeIn (EventResult r) \<Rightarrow> submitted_by env log k (er_id r)
      | _ \<Rightarrow> True)"

lemma told_turn:
  assumes inv: "told_inv env s" and i: "i < length (rl_links s)" and inp: "told_input env (rl_log s) i now inp"
  shows "told_inv env (link_turn env i now inp s)"
proof (cases "client_turn (re_ext env) (re_settings env) (ln_info (rl_links s ! i)) now inp (ln_client (rl_links s ! i))")
  case Panic
  have "told_inv env (with_link i (\<lambda>l. l\<lparr>ln_open := False\<rparr>) s)"
    using inv by (rule told_with_link) (use inv in \<open>simp add: told_inv_def\<close>)
  with Panic show ?thesis by (simp add: link_turn_def)
next
  case (Done x)
  obtain cl outs go where x: "x = (cl, outs, go)" by (cases x)
  note turn = Done [unfolded x]
  have res: "submitted_by env (rl_log s) i k" if "SendJson j \<in> set outs" "ok_for k j" for j k
    using client_turn_results [OF turn that] inp unfolding told_input_def submitted_by_def by fastforce
  have sub: "submitted_by env (rl_log s) i (e_id (su_event su))" if "Submit su \<in> set outs" for su
  proof -
    from turn that obtain m ec where "inp = FromClient (WsText m)"
      and "convert_to_msg (re_ext env) m (max_event_bytes (st_limits (re_settings env))) = Inr (EventMsg ec)"
      and "wrap_event_cmd (re_ext env) ec = Done (Inr (WrappedEvent (su_event su)))"
      by (rule client_turn_submit)
    with inp wrapped_id show ?thesis unfolding submitted_by_def told_input_def by fastforce
  qed
  let ?f = "\<lambda>l. l\<lparr>ln_client := cl, ln_open := go, ln_sent := ln_sent l @ outs,
               ln_queries := query_changes outs (ln_queries l)\<rparr>"
  have "told_inv env (with_link i ?f s)"
    using inv by (rule told_with_link) (use inv i res in \<open>auto simp: told_inv_def link_told_def\<close>)
  with sub have "told_inv env ((with_link i ?f s)\<lparr>rl_events := rl_events s @ map (Pair i) (submissions outs)\<rparr>)"
    using inv by (auto simp: told_inv_def in_submissions)
  with Done x show ?thesis by (simp add: link_turn_def Let_def)
qed

lemma told_take:
  assumes inv: "told_inv env s" and i: "i < length (rl_links s)" and inp: "told_input env (rl_log s) i now inp"
    and f: "link_told env (rl_log s) i (f (rl_links s ! i))"
  shows "told_inv env (link_turn env i now inp (with_link i f s))"
proof -
  have "told_inv env (with_link i f s)" by (rule told_with_link [OF inv]) (rule f)
  from told_turn [OF this, of i now inp] i inp show ?thesis by simp
qed

lemma told_writer:
  assumes inv: "told_inv env s" and e: "rl_events s = isu # rest"
  shows "told_inv env (writer_step env now clk isu (s\<lparr>rl_events := rest\<rparr>))"
proof -
  let ?s = "s\<lparr>rl_events := rest\<rparr>"
  have s: "told_inv env ?s" using inv e by (simp add: told_inv_def)
  have sub: "submitted_by env (rl_log s) (fst isu) (e_id (su_event (snd isu)))" using inv e by (simp add: told_inv_def)
  show ?thesis
  proof (cases "process_event (writer_of env) now clk (snd isu) (rl_writer s)")
    case (Done x)
    obtain w outs err where x: "x = (w, outs, err)" by (cases x)
    let ?f = "\<lambda>l. l\<lparr>ln_notices := ln_notices l @ writer_notices outs\<rparr>"
    have "told_inv env (with_link (fst isu) ?f ?s)"
    proof (rule told_with_link [OF s])
      assume "fst isu < length (rl_links ?s)"
      then show "link_told env (rl_log ?s) (fst isu) (?f (rl_links ?s ! fst isu))"
        using inv sub process_event_notices [OF Done [unfolded x]] by (auto simp: told_inv_def link_told_def)
    qed
    with Done x show ?thesis by (simp add: writer_step_def)
  qed (use s in \<open>simp add: writer_step_def\<close>)
qed

lemma told_apply:
  assumes inv: "told_inv env s" and a: "relay_apply env a s = Some s'"
  shows "told_inv env s'"
  using a
proof (cases rule: relay_apply_cases)
  case (connect uuid challenge info)
  have "SendJson j \<in> set (snd (start_client uuid challenge info st)) \<Longrightarrow> \<not> ok_for i j" for j i st
    by (auto simp: start_client_def Let_def ok_for_notice split: if_splits)
  with inv connect show ?thesis
    by (auto simp: connect_step_def told_inv_def link_told_def nth_append less_Suc_eq case_prod_beta; fastforce)
next
  case (receive i now w)
  have "i < length (rl_links (log_text i now w s))" "told_input env (rl_log (log_text i now w s)) i now (FromClient w)"
    using receive(1) by (auto simp: log_text_def told_input_def split: ws_input.split)
  then show ?thesis unfolding receive(2) by (intro told_turn told_log inv)
next
  case (timer i now inp)
  then show ?thesis by (auto simp: told_input_def intro!: told_turn inv)
next
  case (notice i now n ns)
  with inv show ?thesis unfolding notice(3)
    by (intro told_take inv) (auto simp: told_inv_def link_told_def told_input_def split: notice.split)
next
  case (row i now r rs)
  with inv show ?thesis unfolding row(3) by (intro told_take inv) (auto simp: told_input_def told_inv_def)
next
  case (event i now e es)
  with inv show ?thesis unfolding event(3) by (intro told_take inv) (auto simp: told_input_def told_inv_def)
next
  case (lag i n)
  show ?thesis unfolding lag using inv by (rule told_with_link) (use inv in \<open>simp add: told_inv_def\<close>)
next
  case (overflow b n e m p)
  from inv show ?thesis
    unfolding overflow told_inv_def by (auto simp: overflow_link link_told_def dest: in_set_takeD)
next
  case (query i now scan connected abort q)
  show ?thesis unfolding query query_step_def using inv
    by (rule told_with_link) (use inv in \<open>simp add: told_inv_def link_told_def\<close>)
next
  case (writer now clk isu rest)
  with told_writer [OF inv] show ?thesis by simp
qed (use inv in \<open>auto simp: verifier_step_def payment_step_def split: prod.splits\<close>)

lemma reachable_told:
  assumes "relay_reachable env db0 s"
  shows "told_inv env s"
  using assms
proof (induction rule: relay_reachable.induct)
  case (relay_init s)
  then show ?case by (auto simp: relay_start_def map_exec_eq_Done told_inv_def)
qed (use told_apply in blast)

end
