(* ===== verification/Postgres_Store.thy ===== *)
theory Postgres_Store
  imports Sqlite_Store
begin

text \<open>
  The PostgreSQL store of events (\<open>src/src/repo/postgres.rs\<close>): its tables after the
  migrations, \<open>write_event\<close> and \<open>delete_expired\<close>. The conventions are those of the SQLite
  store, with PostgreSQL's rules where they differ: a value that breaks a constraint or the
  range of its column fails the statement; \<open>NULL\<close> values never conflict in a unique
  constraint; an empty list after \<open>IN\<close> is a syntax error; text has no NUL character. Times
  are seconds; \<open>ts_ok\<close> says for which numbers of seconds the \<open>chrono\<close> crate has a date
  (\<open>timestamp_opt\<close>), and the code unwraps its result; PostgreSQL's own dates begin later than
  the crate's. A connection that cannot be had is the argument \<open>down\<close>.
\<close>

section \<open>Tables\<close>

record pg_event =
  pe_id :: bytes
  pe_pub_key :: bytes
  pe_created :: int
  pe_kind :: int
  pe_content :: string
  pe_hidden :: bool
  pe_delegated :: "bytes option"
  pe_first_seen :: int
  pe_expires :: "int option"

record pg_tag =
  pt_event :: bytes
  pt_name :: string
  pt_value :: "bytes option"
  pt_value_hex :: "bytes option"

record pg_verification =
  pv_id :: nat
  pv_event :: bytes
  pv_name :: string
  pv_verified :: "int option"
  pv_failed :: "int option"
  pv_fail_count :: int

record pg_account =
  pa_pubkey :: string
  pa_admitted :: bool
  pa_balance :: int

record pg_invoice =
  pi_hash :: string
  pi_pubkey :: string
  pi_invoice :: string
  pi_amount :: int
  pi_status :: string
  pi_description :: string
  pi_created :: int
  pi_confirmed :: "int option"

record pg_db =
  pg_events :: "pg_event list"
  pg_tags :: "pg_tag list"
  pg_verifications :: "pg_verification list"
  pg_accounts :: "pg_account list"
  pg_invoices :: "pg_invoice list"
  pg_next_verification :: nat

definition empty_pg :: pg_db where
  "empty_pg = \<lparr>pg_events = [], pg_tags = [], pg_verifications = [], pg_accounts = [],
     pg_invoices = [], pg_next_verification = 1\<rparr>"

text \<open>Any error of \<open>sqlx\<close> becomes this variant.\<close>

definition sqlx_error :: "string \<Rightarrow> error" where
  "sqlx_error msg = SqlxDatabasePoolError msg"

definition int4 :: "int \<Rightarrow> bool" where
  "int4 n \<longleftrightarrow> - (2 ^ 31) \<le> n \<and> n < 2 ^ 31"

text \<open>The first second of the Julian calendar, which is the first date of PostgreSQL.\<close>

definition pg_date :: "int \<Rightarrow> bool" where
  "pg_date n \<longleftrightarrow> - 210866803200 \<le> n"

definition pg_text :: "string \<Rightarrow> bool" where
  "pg_text s \<longleftrightarrow> CHR 0x00 \<notin> set s"

definition pg_delete :: "(pg_event \<Rightarrow> bool) \<Rightarrow> pg_db \<Rightarrow> pg_db" where
  "pg_delete p db =
     (let gone = map pe_id (filter p (pg_events db)) in
      db\<lparr>pg_events := filter (\<lambda>r. \<not> p r) (pg_events db),
         pg_tags := filter (\<lambda>t. pt_event t \<notin> set gone) (pg_tags db),
         pg_verifications := filter (\<lambda>v. pv_event v \<notin> set gone) (pg_verifications db)\<rparr>)"

definition pg_hide :: "(pg_event \<Rightarrow> bool) \<Rightarrow> pg_db \<Rightarrow> pg_db" where
  "pg_hide p db = db\<lparr>pg_events := map (\<lambda>r. if p r then r\<lparr>pe_hidden := True\<rparr> else r) (pg_events db)\<rparr>"

section \<open>Writing an event\<close>

text \<open>A value of lowercase hexadecimal digits is stored and sought as bytes.\<close>

definition hex_value :: "string \<Rightarrow> bool" where
  "hex_value v \<longleftrightarrow> is_lower_hex v \<and> even (length v)"

definition pg_has_tag :: "ext \<Rightarrow> pg_db \<Rightarrow> pg_event \<Rightarrow> string \<Rightarrow> string \<Rightarrow> bool" where
  "pg_has_tag X db r n v =
     list_ex (\<lambda>t. pt_event t = pe_id r \<and> pt_name t = n \<and>
       (if hex_value v then hex_decode X v \<noteq> None \<and> pt_value_hex t = hex_decode X v
        else pt_value t = Some v)) (pg_tags db)"

definition pg_newer_replaceable :: "bytes option \<Rightarrow> event \<Rightarrow> pg_db \<Rightarrow> bool" where
  "pg_newer_replaceable pubkey_blob e db =
     (case pubkey_blob of
        None \<Rightarrow> False
      | Some pk \<Rightarrow>
          list_ex (\<lambda>r. pe_pub_key r = pk \<and> pe_kind r = sint (e_kind e) \<and> sint (e_created_at e) \<le> pe_created r)
            (pg_events db))"

definition pg_newer_param :: "ext \<Rightarrow> bytes option \<Rightarrow> event \<Rightarrow> string \<Rightarrow> pg_db \<Rightarrow> bool" where
  "pg_newer_param X pubkey_blob e d_tag db =
     (case pubkey_blob of
        None \<Rightarrow> False
      | Some pk \<Rightarrow>
          list_ex (\<lambda>r. pe_pub_key r = pk \<and> pe_kind r = sint (e_kind e) \<and> pg_has_tag X db r ''d'' d_tag
              \<and> sint (e_created_at e) \<le> pe_created r) (pg_events db))"

text \<open>The expiration time, or none when the crate has no date for it.\<close>

definition pg_expiration :: "(int \<Rightarrow> bool) \<Rightarrow> event \<Rightarrow> int option" where
  "pg_expiration ts_ok e =
     Option.bind (expiration e) (\<lambda>x. if ts_ok (sint x) then Some (sint x) else None)"

definition opt_list :: "'a option \<Rightarrow> 'a list" where
  "opt_list m = (case m of None \<Rightarrow> [] | Some x \<Rightarrow> [x])"

definition pg_new_row :: "ext \<Rightarrow> (int \<Rightarrow> bool) \<Rightarrow> u64 \<Rightarrow> string \<Rightarrow> event \<Rightarrow> pg_db \<Rightarrow> error + pg_event option" where
  "pg_new_row X ts_ok now event_str e db =
     (case (hex_decode X (e_id e), hex_decode X (e_pubkey e)) of
        (Some i, Some pk) \<Rightarrow>
          if \<not> int4 (sint (e_kind e)) then Inl (sqlx_error ''integer out of range'')
          else if \<not> list_all pg_date (sint (e_created_at e) # opt_list (pg_expiration ts_ok e))
          then Inl (sqlx_error ''timestamp out of range'')
          else if list_ex (\<lambda>r. pe_id r = i) (pg_events db) then Inr None
          else Inr (Some \<lparr>pe_id = i, pe_pub_key = pk, pe_created = sint (e_created_at e), pe_kind = sint (e_kind e),
                 pe_content = event_str, pe_hidden = False,
                 pe_delegated = Option.bind (e_delegated_by e) (hex_decode X), pe_first_seen = uint now,
                 pe_expires = pg_expiration ts_ok e\<rparr>)
      | _ \<Rightarrow> Inl (sqlx_error ''null value violates not-null constraint''))"

text \<open>\<open>UNIQUE (event_id, name, value, value_hex)\<close>\<close>

definition pg_tag_conflict :: "pg_tag \<Rightarrow> pg_tag \<Rightarrow> bool" where
  "pg_tag_conflict s t \<longleftrightarrow> pt_event s = pt_event t \<and> pt_name s = pt_name t
     \<and> pt_value s \<noteq> None \<and> pt_value s = pt_value t \<and> pt_value_hex s \<noteq> None \<and> pt_value_hex s = pt_value_hex t"

definition pg_tag_row :: "ext \<Rightarrow> bytes \<Rightarrow> tag \<Rightarrow> pg_tag" where
  "pg_tag_row X i t =
     (if hex_value (t ! 1)
      then \<lparr>pt_event = i, pt_name = t ! 0, pt_value = None, pt_value_hex = hex_decode X (t ! 1)\<rparr>
      else \<lparr>pt_event = i, pt_name = t ! 0, pt_value = Some (t ! 1), pt_value_hex = None\<rparr>)"

definition indexed :: "tag \<Rightarrow> bool" where
  "indexed t \<longleftrightarrow> 2 \<le> length t \<and> single_char_tagname (t ! 0) \<noteq> None"

fun pg_insert_tags :: "ext \<Rightarrow> bytes \<Rightarrow> tag list \<Rightarrow> pg_tag list \<Rightarrow> pg_tag list" where
  "pg_insert_tags X i [] ts = ts"
| "pg_insert_tags X i (t # rest) ts =
     (if indexed t then
        (let row = pg_tag_row X i t in
         pg_insert_tags X i rest (if list_ex (pg_tag_conflict row) ts then ts else ts @ [row]))
      else pg_insert_tags X i rest ts)"

definition pg_insert :: "ext \<Rightarrow> pg_event \<Rightarrow> event \<Rightarrow> pg_db \<Rightarrow> pg_db" where
  "pg_insert X r e db =
     db\<lparr>pg_events := pg_events db @ [r], pg_tags := pg_insert_tags X (pe_id r) (e_tags e) (pg_tags db)\<rparr>"

definition pg_remove_replaceable :: "bytes \<Rightarrow> int \<Rightarrow> pg_db \<Rightarrow> pg_db" where
  "pg_remove_replaceable pk k db =
     (let same = (\<lambda>r. pe_kind r = k \<and> pe_pub_key r = pk);
          keep = map pe_id (take 1 (order_desc pe_created (filter same (pg_events db)))) in
      pg_delete (\<lambda>r. same r \<and> pe_id r \<notin> set keep) db)"

definition pg_d_hit :: "ext \<Rightarrow> string \<Rightarrow> pg_event \<Rightarrow> pg_tag \<Rightarrow> bool" where
  "pg_d_hit X d_tag r t \<longleftrightarrow> pt_event t = pe_id r \<and> pt_name t = ''d'' \<and>
     (if hex_value d_tag then hex_decode X d_tag \<noteq> None \<and> pt_value_hex t = hex_decode X d_tag
      else pt_value t = Some d_tag)"

definition pg_param_join :: "ext \<Rightarrow> bytes \<Rightarrow> int \<Rightarrow> string \<Rightarrow> pg_db \<Rightarrow> (bytes \<times> int) list" where
  "pg_param_join X pk k d_tag db =
     concat (map (\<lambda>r. map (\<lambda>t. (pe_id r, pe_created r)) (filter (pg_d_hit X d_tag r) (pg_tags db)))
       (filter (\<lambda>r. pe_kind r = k \<and> pe_pub_key r = pk) (pg_events db)))"

definition pg_remove_param :: "ext \<Rightarrow> bytes \<Rightarrow> int \<Rightarrow> string \<Rightarrow> pg_db \<Rightarrow> pg_db" where
  "pg_remove_param X pk k d_tag db =
     (let ids = map fst (drop 1 (order_desc snd (pg_param_join X pk k d_tag db))) in
      pg_delete (\<lambda>r. pe_kind r = k \<and> pe_pub_key r = pk \<and> pe_id r \<in> set ids) db)"

text \<open>The deletions of this author whose \<open>e\<close> tag has, as text, the bytes of the identifier.\<close>

definition pg_deletion_recorded :: "bytes \<Rightarrow> bytes \<Rightarrow> pg_db \<Rightarrow> bool" where
  "pg_deletion_recorded pk i db =
     list_ex (\<lambda>r. pe_pub_key r = pk \<and> pe_kind r = 5 \<and>
         list_ex (\<lambda>t. pt_event t = pe_id r \<and> pt_name t = ''e'' \<and> pt_value t = Some i) (pg_tags db))
       (pg_events db)"

definition pg_after_insert :: "ext \<Rightarrow> event \<Rightarrow> pg_event \<Rightarrow> pg_db \<Rightarrow> pg_db \<Rightarrow> pg_db \<times> (error + u64)" where
  "pg_after_insert X e r old db0 =
     (let db1 = (if is_replaceable e then pg_remove_replaceable (pe_pub_key r) (pe_kind r) db0 else db0);
          db2 = (case distinct_param e of
                   Some d_tag \<Rightarrow> pg_remove_param X (pe_pub_key r) (pe_kind r) d_tag db1 | None \<Rightarrow> db1) in
      if e_kind e = 5 then
        (let targets = deletion_targets X e in
         if targets = [] then (old, Inl (sqlx_error ''syntax error''))
         else (pg_hide (\<lambda>x. pe_kind x \<noteq> 5 \<and> pe_pub_key x = pe_pub_key r \<and> pe_id x \<in> set targets) db2, Inr 1))
      else if pg_deletion_recorded (pe_pub_key r) (pe_id r) db2
      then (pg_hide (\<lambda>x. pe_id x = pe_id r) db2, Inr 0)
      else (db2, Inr 1))"

text \<open>
  The first use of the creation time, wherever it is, comes before any return, so its
  unwrap is the second check here.
\<close>

definition pg_write_event ::
  "ext \<Rightarrow> (int \<Rightarrow> bool) \<Rightarrow> u64 \<Rightarrow> string option \<Rightarrow> event \<Rightarrow> pg_db \<Rightarrow> (pg_db \<times> (error + u64)) exec" where
  "pg_write_event X ts_ok now down e db =
     (case down of
        Some msg \<Rightarrow> Done (db, Inl (sqlx_error msg))
      | None \<Rightarrow>
          (let pubkey_blob = hex_decode X (e_pubkey e) in
           case json_to_string X (event_to_json e) of
             None \<Rightarrow> Panic
           | Some event_str \<Rightarrow>
               if \<not> ts_ok (sint (e_created_at e)) then Panic
               else if (is_replaceable e \<or> distinct_param e \<noteq> None) \<and> \<not> pg_date (sint (e_created_at e))
               then Done (db, Inl (sqlx_error ''timestamp out of range''))
               else if is_replaceable e \<and> pg_newer_replaceable pubkey_blob e db then Done (db, Inr 0)
               else if (case distinct_param e of
                          Some d_tag \<Rightarrow> pg_newer_param X pubkey_blob e d_tag db | None \<Rightarrow> False)
               then Done (db, Inr 0)
               else (case pg_new_row X ts_ok now event_str e db of
                       Inl err \<Rightarrow> Done (db, Inl err)
                     | Inr None \<Rightarrow> Done (db, Inr 0)
                     | Inr (Some r) \<Rightarrow>
                         if list_ex (\<lambda>t. indexed t \<and> \<not> pg_text (t ! 0)) (e_tags e)
                         then Done (db, Inl (sqlx_error ''invalid byte sequence''))
                         else Done (pg_after_insert X e r db (pg_insert X r e db)))))"

definition pg_delete_expired :: "(int \<Rightarrow> bool) \<Rightarrow> u64 \<Rightarrow> pg_db \<Rightarrow> (pg_db \<times> (error + u64)) exec" where
  "pg_delete_expired ts_ok now db =
     (if \<not> ts_ok (sint now) then Panic
      else if \<not> pg_date (sint now) then Done (db, Inl (sqlx_error ''timestamp out of range''))
      else (let old = (\<lambda>r. case pe_expires r of Some x \<Rightarrow> x \<le> sint now | None \<Rightarrow> False) in
            Done (pg_delete old db, Inr (of_nat (length (filter old (pg_events db)))))))"

section \<open>Lemmas\<close>

lemma pg_write_Panic:
  "pg_write_event X ts_ok now down e db = Panic \<longleftrightarrow>
     down = None \<and> (json_to_string X (event_to_json e) = None \<or> \<not> ts_ok (sint (e_created_at e)))"
  by (auto simp: pg_write_event_def Let_def split: option.split sum.split)

text \<open>No tag row conflicts with another, as one of its two values is \<open>NULL\<close>.\<close>

definition pg_tags_ok :: "pg_tag list \<Rightarrow> bool" where
  "pg_tags_ok ts \<longleftrightarrow> (\<forall>t \<in> set ts. pt_value t = None \<or> pt_value_hex t = None \<and> \<not> hex_value (the (pt_value t)))"

lemma pg_tag_row_ok: "pg_tags_ok [pg_tag_row X i t]" "\<not> pg_tag_conflict (pg_tag_row X i t) s"
  by (auto simp: pg_tags_ok_def pg_tag_row_def pg_tag_conflict_def)

definition pg_new_tags :: "ext \<Rightarrow> bytes \<Rightarrow> tag list \<Rightarrow> pg_tag list" where
  "pg_new_tags X i ts =
     map (pg_tag_row X i) (filter indexed ts)"

lemma pg_insert_tags_eq: "pg_insert_tags X i gs ts = ts @ pg_new_tags X i gs"
proof (induction gs arbitrary: ts)
  case (Cons g gs)
  have "\<not> list_ex (pg_tag_conflict (pg_tag_row X i g)) ts"
    using pg_tag_row_ok(2) by (auto simp: list_ex_iff)
  with Cons show ?case by (simp add: pg_new_tags_def Let_def)
qed (simp add: pg_new_tags_def)

lemma pg_delete_sel [simp]:
  "pg_events (pg_delete p db) = filter (\<lambda>r. \<not> p r) (pg_events db)"
  "pg_tags (pg_delete p db) = filter (\<lambda>t. pt_event t \<notin> pe_id ` {r \<in> set (pg_events db). p r}) (pg_tags db)"
  "pg_accounts (pg_delete p db) = pg_accounts db" "pg_invoices (pg_delete p db) = pg_invoices db"
  by (simp_all add: pg_delete_def Let_def)

lemma pg_hide_sel [simp]:
  "pg_tags (pg_hide p db) = pg_tags db" "pg_accounts (pg_hide p db) = pg_accounts db"
  "pg_invoices (pg_hide p db) = pg_invoices db"
  by (simp_all add: pg_hide_def)

lemma pg_new_row_Some:
  assumes "pg_new_row X ts_ok now s e db = Inr (Some r)"
  shows "hex_decode X (e_id e) = Some (pe_id r)" and "hex_decode X (e_pubkey e) = Some (pe_pub_key r)"
    and "pe_kind r = sint (e_kind e)" and "pe_created r = sint (e_created_at e)" and "\<not> pe_hidden r"
    and "pe_content r = s" and "pe_id r \<notin> pe_id ` set (pg_events db)"
  using assms by (auto simp: pg_new_row_def list_ex_iff split: option.splits if_splits)

end
