(* ===== verification/Postgres_Props.thy ===== *)
theory Postgres_Props
  imports Postgres_Store Sqlite_Props
begin

text \<open>
  What the PostgreSQL store keeps and what differs from the SQLite store: the invariant of
  its tables, replaceable events, deletions. A deletion hides the author's stored events, but
  the check for an earlier deletion compares the text of the \<open>e\<close> tags with the bytes of
  the identifier, while identifiers in hexadecimal are stored in the other column.
\<close>

section \<open>The invariant\<close>

definition pg_keys :: "pg_db \<Rightarrow> bool" where
  "pg_keys db \<longleftrightarrow> distinct (map pe_id (pg_events db))"

definition pg_refs :: "pg_db \<Rightarrow> bool" where
  "pg_refs db \<longleftrightarrow> (\<forall>t \<in> set (pg_tags db). pt_event t \<in> pe_id ` set (pg_events db))
     \<and> (\<forall>v \<in> set (pg_verifications db). pv_event v \<in> pe_id ` set (pg_events db))"

definition pg_unique :: "pg_db \<Rightarrow> bool" where
  "pg_unique db \<longleftrightarrow> (\<forall>r \<in> set (pg_events db). \<forall>s \<in> set (pg_events db).
     replaceable_kind (pe_kind r) \<and> pe_kind r = pe_kind s \<and> pe_pub_key r = pe_pub_key s \<longrightarrow> r = s)"

definition pg_inv :: "pg_db \<Rightarrow> bool" where
  "pg_inv db \<longleftrightarrow> pg_keys db \<and> pg_refs db \<and> pg_unique db"

lemma pg_inv_empty: "pg_inv empty_pg"
  by (simp add: pg_inv_def pg_keys_def pg_refs_def pg_unique_def empty_pg_def)

lemma pg_delete_verifications [simp]:
  "pg_verifications (pg_delete p db) =
     filter (\<lambda>v. pv_event v \<notin> pe_id ` {r \<in> set (pg_events db). p r}) (pg_verifications db)"
  by (simp add: pg_delete_def Let_def)

lemma pg_hide_verifications [simp]: "pg_verifications (pg_hide p db) = pg_verifications db"
  by (simp add: pg_hide_def)

lemma pg_hide_events: "pg_events (pg_hide p db) = map (\<lambda>r. if p r then r\<lparr>pe_hidden := True\<rparr> else r) (pg_events db)"
  by (simp add: pg_hide_def)

lemma pg_hide_ids [simp]: "map pe_id (pg_events (pg_hide p db)) = map pe_id (pg_events db)"
  by (simp add: pg_hide_events comp_def if_distrib cong: if_cong)

lemma image_rest: "i \<in> f ` A \<Longrightarrow> i \<notin> f ` {r \<in> A. p r} \<Longrightarrow> i \<in> f ` {r \<in> A. \<not> p r}"
  by auto

lemma pg_delete_keeps:
  "pg_keys db \<Longrightarrow> pg_keys (pg_delete p db)" "pg_refs db \<Longrightarrow> pg_refs (pg_delete p db)"
  "pg_unique db \<Longrightarrow> pg_unique (pg_delete p db)"
  by (simp add: pg_keys_def distinct_map_filter, simp add: pg_refs_def image_rest, simp add: pg_unique_def, blast)

lemma pg_inv_delete: "pg_inv db \<Longrightarrow> pg_inv (pg_delete p db)"
  by (simp add: pg_inv_def pg_delete_keeps)

lemma pg_unique_hide:
  assumes "pg_unique db"
  shows "pg_unique (pg_hide p db)"
  unfolding pg_unique_def
proof (intro ballI impI)
  fix r s
  let ?h = "\<lambda>r. if p r then r\<lparr>pe_hidden := True\<rparr> else r"
  assume "r \<in> set (pg_events (pg_hide p db))" and "s \<in> set (pg_events (pg_hide p db))"
    and h: "replaceable_kind (pe_kind r) \<and> pe_kind r = pe_kind s \<and> pe_pub_key r = pe_pub_key s"
  then obtain r0 s0 where r0: "r0 \<in> set (pg_events db)" "r = ?h r0"
    and s0: "s0 \<in> set (pg_events db)" "s = ?h s0"
    by (auto simp: pg_hide_events)
  have k: "pe_kind (?h x) = pe_kind x" "pe_pub_key (?h x) = pe_pub_key x" for x by simp_all
  from h assms r0(1) s0(1) have "r0 = s0" unfolding pg_unique_def r0(2) s0(2) k by blast
  then show "r = s" by (simp only: r0(2) s0(2))
qed

lemma pg_inv_hide: "pg_inv db \<Longrightarrow> pg_inv (pg_hide p db)"
proof -
  have "pe_id ` set (pg_events (pg_hide p db)) = pe_id ` set (pg_events db)"
    using arg_cong [OF pg_hide_ids, of set] by (simp only: set_map)
  then show "pg_inv db \<Longrightarrow> ?thesis" by (simp add: pg_inv_def pg_unique_hide pg_keys_def pg_refs_def)
qed

lemma sint_u64:
  fixes n :: u64
  shows "sint n = (if uint n < 2 ^ 63 then uint n else uint n - 2 ^ 64)"
proof -
  have s: "sint n = (uint n + 2 ^ 63) mod 2 ^ 64 - 2 ^ 63"
    by (simp add: sint_uint signed_take_bit_eq_take_bit_shift take_bit_eq_mod)
  have b: "0 \<le> uint n" "uint n < 2 ^ 64" using uint_bounded [of n] by simp_all
  show ?thesis
  proof (cases "uint n < 2 ^ 63")
    case True
    with b s show ?thesis by simp
  next
    case False
    with b have "(uint n + 2 ^ 63) mod 2 ^ 64 = uint n + 2 ^ 63 - 2 ^ 64"
      by (subst mod_pos_geq) simp_all
    with False s show ?thesis by simp
  qed
qed

lemma is_replaceable_sint: "is_replaceable e \<longleftrightarrow> replaceable_kind (sint (e_kind e))"
proof -
  have "uint (e_kind e) < 2 ^ 64" using uint_bounded [of "e_kind e"] by simp
  then show ?thesis by (auto simp: is_replaceable_uint sint_u64 replaceable_kind_def)
qed

lemma pg_insert_sel [simp]:
  "pg_events (pg_insert X r e db) = pg_events db @ [r]"
  "pg_tags (pg_insert X r e db) = pg_tags db @ pg_new_tags X (pe_id r) (e_tags e)"
  "pg_verifications (pg_insert X r e db) = pg_verifications db"
  by (simp_all add: pg_insert_def pg_insert_tags_eq)

lemma pg_new_tags_event: "t \<in> set (pg_new_tags X i gs) \<Longrightarrow> pt_event t = i"
  by (auto simp: pg_new_tags_def pg_tag_row_def split: if_splits)

text \<open>The rows after the backwards check of a replaceable event.\<close>

lemma pg_remove_insert:
  assumes n: "pg_new_row X ts_ok now s e db = Inr (Some r)" and e: "is_replaceable e"
    and old: "\<not> pg_newer_replaceable (hex_decode X (e_pubkey e)) e db"
  shows "pg_remove_replaceable (pe_pub_key r) (pe_kind r) (pg_insert X r e db) =
    pg_delete (\<lambda>x. (pe_kind x = pe_kind r \<and> pe_pub_key x = pe_pub_key r) \<and> pe_id x \<noteq> pe_id r) (pg_insert X r e db)"
proof -
  note f = pg_new_row_Some [OF n]
  let ?same = "\<lambda>x. pe_kind x = pe_kind r \<and> pe_pub_key x = pe_pub_key r"
  have "pe_created x < pe_created r" if "x \<in> set (pg_events db)" "?same x" for x
    using old that f by (fastforce simp: pg_newer_replaceable_def list_ex_iff)
  then have "take 1 (order_desc pe_created (filter ?same (pg_events db @ [r]))) = [r]"
    by (intro hd_order_desc) auto
  then show ?thesis by (simp add: pg_remove_replaceable_def Let_def)
qed

lemma pg_unique_insert:
  assumes "pg_unique db" and "\<And>x. x \<in> set (pg_events db') \<Longrightarrow>
      x = r \<or> x \<in> set (pg_events db) \<and> \<not> (pe_kind x = pe_kind r \<and> pe_pub_key x = pe_pub_key r)"
  shows "pg_unique db'"
  unfolding pg_unique_def
proof (intro ballI impI)
  fix a b
  assume "a \<in> set (pg_events db')" and "b \<in> set (pg_events db')"
    and h: "replaceable_kind (pe_kind a) \<and> pe_kind a = pe_kind b \<and> pe_pub_key a = pe_pub_key b"
  from assms(2) [OF this(1)] assms(2) [OF this(2)]
  consider "a = r" "b = r" | "a \<in> set (pg_events db)" "b \<in> set (pg_events db)"
    using h by metis
  then show "a = b" using assms(1) h by cases (simp, unfold pg_unique_def, blast)
qed

lemma pg_after_insert_inv:
  assumes inv: "pg_inv db" and n: "pg_new_row X ts_ok now s e db = Inr (Some r)"
    and old: "\<not> (is_replaceable e \<and> pg_newer_replaceable (hex_decode X (e_pubkey e)) e db)"
  shows "pg_inv (fst (pg_after_insert X e r db (pg_insert X r e db)))"
proof -
  note f = pg_new_row_Some [OF n]
  let ?db = "pg_insert X r e db"
  define db1 where "db1 = (if is_replaceable e
    then pg_remove_replaceable (pe_pub_key r) (pe_kind r) ?db else ?db)"
  have fresh: "pe_id x \<noteq> pe_id r" if "x \<in> set (pg_events db)" for x
    using f(7) that by (metis image_eqI)
  have k: "pg_keys ?db" using inv f(7) by (simp add: pg_inv_def pg_keys_def)
  have g: "pg_refs ?db" using inv by (auto simp: pg_inv_def pg_refs_def dest: pg_new_tags_event)
  have u: "pg_unique db1"
  proof (cases "is_replaceable e")
    case True
    with old pg_remove_insert [OF n True] have d: "db1 =
      pg_delete (\<lambda>x. (pe_kind x = pe_kind r \<and> pe_pub_key x = pe_pub_key r) \<and> pe_id x \<noteq> pe_id r) ?db"
      by (simp add: db1_def)
    have "x = r \<or> x \<in> set (pg_events db) \<and> \<not> (pe_kind x = pe_kind r \<and> pe_pub_key x = pe_pub_key r)"
      if "x \<in> set (pg_events db1)" for x
      using that fresh [of x] unfolding d by auto
    with inv show ?thesis unfolding pg_inv_def by (intro pg_unique_insert [of db db1 r]) simp_all
  next
    case False
    then have "\<not> replaceable_kind (pe_kind r)" using f(3) by (simp add: is_replaceable_sint)
    with False inv show ?thesis unfolding db1_def pg_inv_def pg_unique_def by auto
  qed
  have "pg_inv db1"
    using k g u by (simp add: pg_inv_def db1_def pg_remove_replaceable_def Let_def pg_delete_keeps)
  then have "pg_inv (case distinct_param e of
      Some d \<Rightarrow> pg_remove_param X (pe_pub_key r) (pe_kind r) d db1 | None \<Rightarrow> db1)"
    by (simp add: pg_remove_param_def Let_def pg_inv_delete split: option.split)
  then show ?thesis
    unfolding pg_after_insert_def Let_def db1_def [symmetric] by (simp add: inv pg_inv_hide)
qed

text \<open>Every run of \<open>write_event\<close> that does not panic ends in one of these ways.\<close>

lemma pg_write_cases:
  assumes "pg_write_event X ts_ok now down e db = Done (db', res)"
  obtains (unchanged) "db' = db" "res \<noteq> Inr 1"
  | (insert) r s where "json_to_string X (event_to_json e) = Some s"
      "pg_new_row X ts_ok now s e db = Inr (Some r)"
      "(db', res) = pg_after_insert X e r db (pg_insert X r e db)"
      "\<not> (is_replaceable e \<and> pg_newer_replaceable (hex_decode X (e_pubkey e)) e db)"
      "\<And>d. distinct_param e = Some d \<Longrightarrow> \<not> pg_newer_param X (hex_decode X (e_pubkey e)) e d db"
      "\<not> list_ex (\<lambda>t. indexed t \<and> \<not> pg_text (t ! 0)) (e_tags e)"
proof -
  from assms show thesis
    unfolding pg_write_event_def Let_def
    by (auto split: option.splits sum.splits if_splits intro: unchanged insert dest: sym)
qed

lemma pg_write_inv:
  assumes "pg_inv db" and "pg_write_event X ts_ok now down e db = Done (db', res)"
  shows "pg_inv db'"
  using assms(2)
proof (cases rule: pg_write_cases)
  case (insert r s)
  from insert(3) have "db' = fst (pg_after_insert X e r db (pg_insert X r e db))" by (metis fst_conv)
  with pg_after_insert_inv [OF assms(1) insert(2,4)] show ?thesis by simp
qed (use assms(1) in simp)

lemma pg_delete_expired_inv:
  "pg_inv db \<Longrightarrow> pg_delete_expired ts_ok now db = Done (db', res) \<Longrightarrow> pg_inv db'"
  by (auto simp: pg_delete_expired_def Let_def pg_inv_delete split: if_splits)

section \<open>The values in the columns\<close>

text \<open>
  Numbers and times are in the range of their columns; the value of a tag stands in exactly
  one of its two columns, as bytes if it is hexadecimal.
\<close>

definition pg_event_typed :: "pg_event \<Rightarrow> bool" where
  "pg_event_typed r \<longleftrightarrow> int4 (pe_kind r) \<and> pg_date (pe_created r) \<and> (\<forall>x. pe_expires r = Some x \<longrightarrow> pg_date x)"

definition pg_tag_typed :: "pg_tag \<Rightarrow> bool" where
  "pg_tag_typed t \<longleftrightarrow> pg_text (pt_name t) \<and> single_char_tagname (pt_name t) \<noteq> None
     \<and> (if pt_value t = None then pt_value_hex t \<noteq> None
        else pt_value_hex t = None \<and> \<not> hex_value (the (pt_value t)))"

definition pg_typed :: "pg_db \<Rightarrow> bool" where
  "pg_typed db \<longleftrightarrow> list_all pg_event_typed (pg_events db) \<and> list_all pg_tag_typed (pg_tags db)"

lemma hex_value_decodes: "hex_law X \<Longrightarrow> hex_value v \<Longrightarrow> hex_decode X v \<noteq> None"
  using is_lower_hex_is_hex [of v] unfolding hex_law_def hex_value_def is_hex_iff by blast

lemma pg_typed_delete: "pg_typed db \<Longrightarrow> pg_typed (pg_delete p db)"
  by (auto simp: pg_typed_def list_all_iff)

lemma pg_typed_hide: "pg_typed db \<Longrightarrow> pg_typed (pg_hide p db)"
  by (auto simp: pg_typed_def list_all_iff pg_hide_events pg_event_typed_def)

lemma pg_new_row_typed: "pg_new_row X ts_ok now s e db = Inr (Some r) \<Longrightarrow> pg_event_typed r"
  by (auto simp: pg_new_row_def pg_event_typed_def opt_list_def split: option.splits if_splits)

lemma pg_new_tags_typed:
  assumes "hex_law X" and "\<not> list_ex (\<lambda>t. indexed t \<and> \<not> pg_text (t ! 0)) gs" and "t \<in> set (pg_new_tags X i gs)"
  shows "pg_tag_typed t"
  using assms hex_value_decodes
  by (auto simp: pg_new_tags_def pg_tag_row_def pg_tag_typed_def list_ex_iff indexed_def)

lemma pg_insert_typed:
  assumes "hex_law X" and "pg_typed db" and "pg_new_row X ts_ok now s e db = Inr (Some r)"
    and "\<not> list_ex (\<lambda>t. indexed t \<and> \<not> pg_text (t ! 0)) (e_tags e)"
  shows "pg_typed (pg_insert X r e db)"
  using assms(2) pg_new_row_typed [OF assms(3)] pg_new_tags_typed [OF assms(1,4)]
  by (auto simp: pg_typed_def list_all_iff)

lemma pg_after_typed:
  "pg_typed old \<Longrightarrow> pg_typed db \<Longrightarrow> pg_typed (fst (pg_after_insert X e r old db))"
  by (auto simp: pg_after_insert_def Let_def pg_remove_replaceable_def pg_remove_param_def
      intro!: pg_typed_hide pg_typed_delete split: option.split)

lemma pg_write_typed:
  assumes "hex_law X" and "pg_typed db" and "pg_write_event X ts_ok now down e db = Done (db', res)"
  shows "pg_typed db'"
  using assms(3)
proof (cases rule: pg_write_cases)
  case (insert r s)
  from insert(3) have "db' = fst (pg_after_insert X e r db (pg_insert X r e db))" by (metis fst_conv)
  with pg_after_typed [OF assms(2) pg_insert_typed [OF assms(1,2) insert(2,6)]] show ?thesis by simp
qed (use assms(2) in simp)

section \<open>Replaceable events\<close>

lemma pg_write_replaceable:
  assumes e: "is_replaceable e" and w: "pg_write_event X ts_ok now down e db = Done (db', Inr 1)"
    and pk: "hex_decode X (e_pubkey e) = Some pk"
  shows "\<exists>r. filter (\<lambda>x. pe_pub_key x = pk \<and> pe_kind x = sint (e_kind e)) (pg_events db') = [r]
    \<and> hex_decode X (e_id e) = Some (pe_id r) \<and> \<not> pe_hidden r \<and> pe_created r = sint (e_created_at e)
    \<and> (\<forall>x \<in> set (pg_events db). pe_pub_key x = pk \<and> pe_kind x = sint (e_kind e) \<longrightarrow> pe_created x < pe_created r)"
  using w
proof (cases rule: pg_write_cases)
  case (insert r s)
  note f = pg_new_row_Some [OF insert(2)]
  have a: "pe_pub_key r = pk" "pe_kind r = sint (e_kind e)" using f pk by simp_all
  have d: "distinct_param e = None" using e kind_classes_disjoint(3) [of e] by (simp add: distinct_param_eq)
  have "e_kind e \<noteq> 5" using e by (auto simp: is_replaceable_uint replaceable_kind_def)
  with insert(3) e d have "db' = pg_remove_replaceable (pe_pub_key r) (pe_kind r) (pg_insert X r e db)"
    by (simp add: pg_after_insert_def Let_def split: if_splits)
  with pg_remove_insert [OF insert(2) e] insert(4) e have db': "db' =
      pg_delete (\<lambda>x. (pe_kind x = pe_kind r \<and> pe_pub_key x = pe_pub_key r) \<and> pe_id x \<noteq> pe_id r) (pg_insert X r e db)"
    by simp
  have "pe_id x \<noteq> pe_id r" if "x \<in> set (pg_events db)" for x using f(7) that by (metis image_eqI)
  then have "filter (\<lambda>x. pe_pub_key x = pk \<and> pe_kind x = sint (e_kind e)) (pg_events db') = [r]"
    unfolding db' using a by (auto simp: filter_empty_conv)
  moreover have "\<forall>x \<in> set (pg_events db). pe_pub_key x = pk \<and> pe_kind x = sint (e_kind e) \<longrightarrow> pe_created x < pe_created r"
    using insert(4) e pk f(4) by (fastforce simp: pg_newer_replaceable_def list_ex_iff)
  ultimately show ?thesis using f by auto
qed simp

section \<open>Parameterized replaceable events\<close>

lemma pg_has_tag_iff: "pg_has_tag X db r ''d'' v \<longleftrightarrow> (\<exists>t \<in> set (pg_tags db). pg_d_hit X v r t)"
  by (simp add: pg_has_tag_def pg_d_hit_def list_ex_iff)

lemma length_filter_le_mono:
  assumes "\<And>x. x \<in> set xs \<Longrightarrow> P x \<Longrightarrow> Q (f x)"
  shows "length (filter P xs) \<le> length (filter Q (map f xs))"
  using assms by (induction xs) auto

lemma d_tags_hit:
  assumes "hex_law X"
  shows "d_tag_count e d \<le> length (filter (pg_d_hit X d r) (pg_new_tags X (pe_id r) (e_tags e)))"
proof -
  note hex_value_decodes [OF assms]
  moreover have "filter (\<lambda>g. 2 \<le> length g \<and> g ! 0 = ''d'' \<and> g ! 1 = d) gs
      = filter (\<lambda>g. g ! 0 = ''d'' \<and> g ! 1 = d) (filter indexed gs)" for gs
    by (induction gs) (auto simp: indexed_def single_char_d)
  ultimately show ?thesis
    unfolding d_tag_count_def pg_new_tags_def
    by (simp only:) (rule length_filter_le_mono, auto simp: pg_tag_row_def pg_d_hit_def)
qed

lemma pg_tag_other:
  "pg_inv db \<Longrightarrow> pg_new_row X ts_ok now s e db = Inr (Some r) \<Longrightarrow> t \<in> set (pg_tags db) \<Longrightarrow> pt_event t \<noteq> pe_id r"
  using pg_new_row_Some(7) unfolding pg_inv_def pg_refs_def by metis

text \<open>The identifiers that the backwards check of an inserted event selects.\<close>

lemma pg_param_removed:
  fixes r :: pg_event and e :: event and X :: ext and d :: string
  defines "same \<equiv> \<lambda>x :: pg_event. pe_kind x = pe_kind r \<and> pe_pub_key x = pe_pub_key r"
    and "m \<equiv> length (filter (pg_d_hit X d r) (pg_new_tags X (pe_id r) (e_tags e)))"
  assumes inv: "pg_inv db" and n: "pg_new_row X ts_ok now s e db = Inr (Some r)"
    and old: "\<not> pg_newer_param X (hex_decode X (e_pubkey e)) e d db" and m: "0 < m"
  shows "set (map fst (drop 1 (order_desc snd (pg_param_join X (pe_pub_key r) (pe_kind r) d (pg_insert X r e db)))))
    = (if m = 1 then {} else {pe_id r}) \<union> pe_id ` {x \<in> set (pg_events db). same x \<and> pg_has_tag X db x ''d'' d}"
proof -
  note f = pg_new_row_Some [OF n]
  let ?db = "pg_insert X r e db"
  let ?hit = "pg_d_hit X d"
  define F where "F = (\<lambda>r :: pg_event. map (\<lambda>t. (pe_id r, pe_created r)) (filter (?hit r) (pg_tags ?db)))"
  define A where "A = concat (map F (filter same (pg_events db)))"
  have "filter (?hit r) (pg_tags db) = []"
    using pg_tag_other [OF inv n] by (auto simp: pg_d_hit_def filter_empty_conv)
  then have join: "pg_param_join X (pe_pub_key r) (pe_kind r) d ?db = A @ replicate m (pe_id r, pe_created r)"
    by (simp add: pg_param_join_def A_def F_def same_def m_def map_replicate_const)
  have tag: "(\<exists>t \<in> set (pg_tags ?db). ?hit x t) \<longleftrightarrow> pg_has_tag X db x ''d'' d" if "x \<in> set (pg_events db)" for x
  proof -
    have "pe_id x \<noteq> pe_id r" using f(7) that by (metis image_eqI)
    then have "\<not> ?hit x t" if "t \<in> set (pg_new_tags X (pe_id r) (e_tags e))" for t
      using pg_new_tags_event [OF that] by (auto simp: pg_d_hit_def)
    then show ?thesis unfolding pg_has_tag_iff by auto
  qed
  have A: "y \<in> set A \<longleftrightarrow> (\<exists>x \<in> set (pg_events db). same x \<and> pg_has_tag X db x ''d'' d \<and> y = (pe_id x, pe_created x))" for y
  proof -
    have "y \<in> set A \<longleftrightarrow> (\<exists>x \<in> set (pg_events db). same x \<and> (\<exists>t \<in> set (pg_tags ?db). ?hit x t) \<and> y = (pe_id x, pe_created x))"
      unfolding A_def F_def by auto
    then show ?thesis using tag by auto
  qed
  have "snd y < pe_created r" if "y \<in> set A" for y
    using that old f by (fastforce simp: A pg_newer_param_def list_ex_iff same_def)
  then have o: "order_desc snd (A @ replicate m (pe_id r, pe_created r))
      = replicate m (pe_id r, pe_created r) @ order_desc snd A"
    by (intro order_desc_latest) simp
  have "fst ` set (order_desc snd A) = pe_id ` {x \<in> set (pg_events db). same x \<and> pg_has_tag X db x ''d'' d}"
    using A by (force simp: order_desc_def)
  then show ?thesis unfolding join o using m by (cases m) (auto simp: image_Un)
qed

text \<open>An event whose parameter stands in two tags removes itself.\<close>

lemma pg_param_lost:
  assumes inv: "pg_inv db" and hex: "hex_law X"
    and w: "pg_write_event X ts_ok now down e db = Done (db', Inr 1)"
    and d: "distinct_param e = Some d" and two: "2 \<le> d_tag_count e d"
    and i: "hex_decode X (e_id e) = Some i"
  shows "i \<notin> pe_id ` set (pg_events db')"
  using w
proof (cases rule: pg_write_cases)
  case (insert r s)
  note f = pg_new_row_Some [OF insert(2)]
  let ?db = "pg_insert X r e db"
  have "\<not> is_replaceable e \<and> e_kind e \<noteq> 5"
    using d kind_classes_disjoint(3) [of e] distinct_param_eq [of e] by (auto simp: is_param_replaceable_def)
  with insert(3) d have db': "db' = pg_remove_param X (pe_pub_key r) (pe_kind r) d ?db"
    by (simp add: pg_after_insert_def Let_def split: if_splits)
  from two d_tags_hit [OF hex, of e d r]
  have "2 \<le> length (filter (pg_d_hit X d r) (pg_new_tags X (pe_id r) (e_tags e)))" by linarith
  then have gone: "pe_id r \<in> set (map fst (drop 1 (order_desc snd (pg_param_join X (pe_pub_key r) (pe_kind r) d ?db))))"
    by (subst pg_param_removed [OF inv insert(2) insert(5) [OF d]]) auto
  have "\<forall>x \<in> set (pg_events ?db). pe_id x = pe_id r \<longrightarrow> x = r"
    using f(7) by (auto intro: rev_image_eqI)
  with gone have "\<forall>x \<in> set (pg_events db'). pe_id x \<noteq> pe_id r"
    unfolding db' pg_remove_param_def Let_def pg_delete_sel by auto
  with i f(1) show ?thesis by auto
qed simp

section \<open>Deletions\<close>

definition pg_visible :: "pg_db \<Rightarrow> bytes \<Rightarrow> bool" where
  "pg_visible db i \<longleftrightarrow> (\<exists>r \<in> set (pg_events db). pe_id r = i \<and> \<not> pe_hidden r)"

lemma pg_deletion_hides:
  assumes w: "pg_write_event X ts_ok now down e db = Done (db', Inr 1)" and k: "e_kind e = 5"
    and t: "i \<in> set (deletion_targets X e)" and pk: "hex_decode X (e_pubkey e) = Some pk"
    and r: "x \<in> set (pg_events db')" "pe_id x = i" "pe_pub_key x = pk" "pe_kind x \<noteq> 5"
  shows "pe_hidden x"
  using w
proof (cases rule: pg_write_cases)
  case (insert r s)
  note f = pg_new_row_Some [OF insert(2)]
  have n: "\<not> is_replaceable e" "distinct_param e = None"
    using k by (simp_all add: is_replaceable_uint replaceable_kind_def distinct_param_eq is_param_replaceable_def)
  from t have "deletion_targets X e \<noteq> []" by auto
  with insert(3) k n have "db' = pg_hide (\<lambda>x. pe_kind x \<noteq> 5 \<and> pe_pub_key x = pe_pub_key r
      \<and> pe_id x \<in> set (deletion_targets X e)) (pg_insert X r e db)"
    by (simp add: pg_after_insert_def Let_def)
  with r t f(2) pk show ?thesis by (auto simp: pg_hide_events split: if_splits)
qed simp

text \<open>An ordinary event: not replaceable in any way, and not a deletion.\<close>

definition pg_ordinary :: "event \<Rightarrow> bool" where
  "pg_ordinary e \<longleftrightarrow> \<not> is_replaceable e \<and> distinct_param e = None \<and> e_kind e \<noteq> 5"

text \<open>
  An ordinary event is visible after it is written, whatever deletions are stored, unless some
  tag's text is byte for byte its binary identifier.
\<close>

lemma pg_write_visible:
  assumes w: "pg_write_event X ts_ok now down e db = Done (db', Inr n)" and e: "pg_ordinary e"
    and i: "hex_decode X (e_id e) = Some i" "i \<notin> pe_id ` set (pg_events db)"
    and t: "\<forall>t \<in> set (pg_tags db) \<union> set (pg_new_tags X i (e_tags e)). pt_value t \<noteq> Some i"
    and d: "\<not> (\<exists>s. json_to_string X (event_to_json e) = Some s \<and> pg_new_row X ts_ok now s e db = Inr None)"
  shows "n = 1 \<and> pg_visible db' i"
proof -
  from w e d obtain s r where n: "pg_new_row X ts_ok now s e db = Inr (Some r)"
      "(db', Inr n) = pg_after_insert X e r db (pg_insert X r e db)"
    unfolding pg_write_event_def Let_def pg_ordinary_def
    by (auto split: option.splits sum.splits if_splits)
  note f = pg_new_row_Some [OF n(1)]
  have "\<not> pg_deletion_recorded (pe_pub_key r) (pe_id r) (pg_insert X r e db)"
    using t f(1) i(1) by (auto simp: pg_deletion_recorded_def list_ex_iff)
  with n(2) e have "db' = pg_insert X r e db" "n = 1"
    by (auto simp: pg_after_insert_def Let_def pg_ordinary_def)
  with f i(1) show ?thesis by (auto simp: pg_visible_def)
qed

end
