(* ===== verification/Store_Spec.thy ===== *)
theory Store_Spec
  imports Sqlite_Repo
begin

text \<open>
  What a store of events promises, without tables: a partial function from identifiers to what
  is known of an event. Writing an event is one definition on it, whatever the database. The
  SQLite store of \<open>Sqlite_Store\<close> implements it: \<open>sql_view\<close> forgets the rows' numbers and turns
  the tag table into a set for each event, and each statement of the transaction is an
  operation on the view.
\<close>

section \<open>The specification\<close>

record stored_event =
  sd_author :: bytes
  sd_created :: int
  sd_kind :: int
  sd_hidden :: bool
  sd_expires :: "int option"
  sd_delegated :: "bytes option"
  sd_content :: string
  sd_tags :: "(string \<times> string) set"

type_synonym store = "bytes \<Rightarrow> stored_event option"

definition spec_remove :: "(bytes \<Rightarrow> stored_event \<Rightarrow> bool) \<Rightarrow> store \<Rightarrow> store" where
  "spec_remove p S = (\<lambda>i. Option.bind (S i) (\<lambda>s. if p i s then None else Some s))"

definition spec_hide :: "(bytes \<Rightarrow> stored_event \<Rightarrow> bool) \<Rightarrow> store \<Rightarrow> store" where
  "spec_hide p S = (\<lambda>i. map_option (\<lambda>s. if p i s then s\<lparr>sd_hidden := True\<rparr> else s) (S i))"

definition some_stored :: "(bytes \<Rightarrow> stored_event \<Rightarrow> bool) \<Rightarrow> store \<Rightarrow> bool" where
  "some_stored p S \<longleftrightarrow> (\<exists>i s. S i = Some s \<and> p i s)"

text \<open>What would be stored: none if an identifier or a number has no value of its column.\<close>

definition event_tags :: "event \<Rightarrow> (string \<times> string) set" where
  "event_tags e = set (map (\<lambda>g. (g ! 0, g ! 1))
     (filter (\<lambda>g. 2 \<le> length g \<and> single_char_tagname (g ! 0) \<noteq> None) (e_tags e)))"

lemma in_event_tags: "(n, v) \<in> event_tags e \<longleftrightarrow>
    (\<exists>g \<in> set (e_tags e). 2 \<le> length g \<and> single_char_tagname (g ! 0) \<noteq> None \<and> n = g ! 0 \<and> v = g ! 1)"
  by (auto simp: event_tags_def)

definition spec_entry :: "ext \<Rightarrow> event \<Rightarrow> (bytes \<times> stored_event) option" where
  "spec_entry X e =
     (case (hex_decode X (e_id e), hex_decode X (e_pubkey e), json_to_string X (event_to_json e)) of
        (Some i, Some pk, Some s) \<Rightarrow>
          if uint (e_created_at e) < 2 ^ 63 \<and> uint (e_kind e) < 2 ^ 63
             \<and> (case expiration e of None \<Rightarrow> True | Some x \<Rightarrow> uint x < 2 ^ 63)
          then Some (i, \<lparr>sd_author = pk, sd_created = uint (e_created_at e), sd_kind = uint (e_kind e),
                 sd_hidden = False, sd_expires = map_option uint (expiration e),
                 sd_delegated = Option.bind (e_delegated_by e) (hex_decode X), sd_content = s,
                 sd_tags = event_tags e\<rparr>)
          else None
      | _ \<Rightarrow> None)"

text \<open>A stored event that a replaceable event replaces, or that keeps it out if it is not older.\<close>

definition competes :: "event \<Rightarrow> stored_event \<Rightarrow> stored_event \<Rightarrow> bool" where
  "competes e n s \<longleftrightarrow> sd_author s = sd_author n \<and> sd_kind s = sd_kind n
     \<and> (is_replaceable e \<or> (\<exists>d. distinct_param e = Some d \<and> (''d'', d) \<in> sd_tags s))"

definition deletes :: "string \<Rightarrow> stored_event \<Rightarrow> stored_event \<Rightarrow> bool" where
  "deletes i n s \<longleftrightarrow> sd_author s = sd_author n \<and> sd_kind s = 5 \<and> (''e'', i) \<in> sd_tags s"

definition spec_write :: "ext \<Rightarrow> event \<Rightarrow> bytes \<Rightarrow> stored_event \<Rightarrow> store \<Rightarrow> store \<times> u64" where
  "spec_write X e i n S =
     (if S i \<noteq> None \<or> some_stored (\<lambda>_ s. competes e n s \<and> sd_created n \<le> sd_created s) S then (S, 0)
      else (let S1 = spec_remove (\<lambda>j s. competes e n s \<and> j \<noteq> i) (S(i \<mapsto> n)) in
            if e_kind e = 5 then
              (spec_hide (\<lambda>j s. sd_kind s \<noteq> 5 \<and> sd_author s = sd_author n \<and> j \<in> set (deletion_targets X e)) S1, 1)
            else if some_stored (\<lambda>_. deletes (e_id e) n) S then (spec_hide (\<lambda>j _. j = i) S1, 0)
            else (S1, 1)))"

definition spec_expire :: "u64 \<Rightarrow> store \<Rightarrow> store" where
  "spec_expire now = spec_remove (\<lambda>_ s. \<exists>x. sd_expires s = Some x \<and> x \<le> uint now)"

text \<open>
  The defects of both stores with parameters are outside: an event of a parameterized kind
  has its parameter in exactly one tag.
\<close>

definition plain_param :: "event \<Rightarrow> bool" where
  "plain_param e \<longleftrightarrow> (case distinct_param e of None \<Rightarrow> True | Some d \<Rightarrow> d_tag_count e d = 1)"

lemma plain_param_iff: "plain_param e \<longleftrightarrow> (\<forall>d. distinct_param e = Some d \<longrightarrow> d_tag_count e d = 1)"
  by (auto simp: plain_param_def split: option.splits)

lemma spec_remove_Some [simp]: "spec_remove p S i = Some s \<longleftrightarrow> S i = Some s \<and> \<not> p i s"
  by (cases "S i") (auto simp: spec_remove_def)

lemma spec_hide_Some:
  "spec_hide p S i = Some s \<longleftrightarrow> (\<exists>t. S i = Some t \<and> s = (if p i t then t\<lparr>sd_hidden := True\<rparr> else t))"
  by (cases "S i") (auto simp: spec_hide_def)

section \<open>The SQLite store\<close>

definition row_tags :: "db \<Rightarrow> event_row \<Rightarrow> (string \<times> string) set" where
  "row_tags db r = {(n, v). has_tag db r n v}"

definition row_view :: "db \<Rightarrow> event_row \<Rightarrow> stored_event" where
  "row_view db r =
     \<lparr>sd_author = ev_author r, sd_created = ev_created r, sd_kind = ev_kind r, sd_hidden = ev_hidden r,
      sd_expires = ev_expires r, sd_delegated = ev_delegated r, sd_content = ev_content r,
      sd_tags = row_tags db r\<rparr>"

definition sql_view :: "db \<Rightarrow> store" where
  "sql_view db = map_of (map (\<lambda>r. (ev_hash r, row_view db r)) (events db))"

lemma row_view_sel [simp]:
  "sd_author (row_view db r) = ev_author r" "sd_created (row_view db r) = ev_created r"
  "sd_kind (row_view db r) = ev_kind r" "sd_hidden (row_view db r) = ev_hidden r"
  "sd_expires (row_view db r) = ev_expires r" "sd_tags (row_view db r) = row_tags db r"
  by (simp_all add: row_view_def)

lemma sql_view_Some:
  assumes "keys_ok db"
  shows "sql_view db i = Some s \<longleftrightarrow> (\<exists>r \<in> set (events db). ev_hash r = i \<and> row_view db r = s)"
proof -
  have "distinct (map fst (map (\<lambda>r. (ev_hash r, row_view db r)) (events db)))"
    using assms by (simp add: keys_ok_def comp_def)
  from map_of_eq_Some_iff [OF this] show ?thesis by (auto simp: sql_view_def)
qed

lemma sql_view_None: "sql_view db i = None \<longleftrightarrow> i \<notin> ev_hash ` set (events db)"
  by (simp add: sql_view_def map_of_eq_None_iff image_image)

lemma some_stored_sql:
  "keys_ok db \<Longrightarrow> some_stored p (sql_view db) \<longleftrightarrow> (\<exists>r \<in> set (events db). p (ev_hash r) (row_view db r))"
  by (auto simp: some_stored_def sql_view_Some)

lemma store_eqI:
  fixes S T :: store
  assumes "\<And>i s. S i = Some s \<longleftrightarrow> T i = Some s"
  shows "S = T"
proof
  fix i show "S i = T i" by (cases "T i") (use assms [of i] in \<open>auto simp: option.expand\<close>)
qed

lemma map_of_map_values: "map_of (map (\<lambda>(k, s). (k, f k s)) xs) = (\<lambda>k. map_option (f k) (map_of xs k))"
  by (induction xs) auto

text \<open>One lemma for each statement.\<close>

lemma view_delete:
  assumes keys: "keys_ok db"
    and p: "\<And>r. r \<in> set (events db) \<Longrightarrow> q r \<longleftrightarrow> p (ev_hash r) (row_view db r)"
  shows "sql_view (delete_events q db) = spec_remove p (sql_view db)"
proof (rule store_eqI)
  fix i s
  have tags: "row_view (delete_events q db) r = row_view db r" if "r \<in> set (events db)" "\<not> q r" for r
  proof -
    have "\<not> (\<exists>u \<in> set (events db). q u \<and> ev_id u = ev_id r)"
      using keys that by (auto simp: keys_ok_def distinct_map dest: inj_onD)
    then have "row_tags (delete_events q db) r = row_tags db r"
      by (auto simp: row_tags_def has_tag_def list_ex_iff)
    then show ?thesis by (simp add: row_view_def)
  qed
  have "sql_view (delete_events q db) i = Some s \<longleftrightarrow>
      (\<exists>r \<in> set (events db). \<not> q r \<and> ev_hash r = i \<and> row_view (delete_events q db) r = s)"
    unfolding sql_view_Some [OF keys_ok_delete [OF keys]] by auto
  also have "\<dots> \<longleftrightarrow> (\<exists>r \<in> set (events db). \<not> p (ev_hash r) (row_view db r) \<and> ev_hash r = i \<and> row_view db r = s)"
  proof (intro bex_cong refl)
    fix r
    assume r: "r \<in> set (events db)"
    show "(\<not> q r \<and> ev_hash r = i \<and> row_view (delete_events q db) r = s) \<longleftrightarrow>
        (\<not> p (ev_hash r) (row_view db r) \<and> ev_hash r = i \<and> row_view db r = s)"
      unfolding p [OF r, symmetric] by (cases "q r") (simp_all add: tags [OF r])
  qed
  also have "\<dots> \<longleftrightarrow> sql_view db i = Some s \<and> \<not> p i s" using sql_view_Some [OF keys, of i s] by auto
  finally show "sql_view (delete_events q db) i = Some s \<longleftrightarrow> spec_remove p (sql_view db) i = Some s"
    by simp
qed

lemma view_hide:
  assumes p: "\<And>r. r \<in> set (events db) \<Longrightarrow> q r \<longleftrightarrow> p (ev_hash r) (row_view db r)"
  shows "sql_view (hide_events q db) = spec_hide p (sql_view db)"
proof -
  have "map (\<lambda>r. (ev_hash r, row_view (hide_events q db) r)) (events (hide_events q db))
      = map (\<lambda>(i, s). (i, if p i s then s\<lparr>sd_hidden := True\<rparr> else s)) (map (\<lambda>r. (ev_hash r, row_view db r)) (events db))"
    using p by (auto simp: events_hide row_view_def row_tags_def has_tag_def)
  then show ?thesis unfolding sql_view_def spec_hide_def by (simp only: map_of_map_values)
qed

lemma view_insert:
  assumes inv: "db_inv db" and n: "new_event_row X now e db = Inr (Some r)"
  shows "sql_view (insert_event r e db) = (sql_view db)(ev_hash r \<mapsto> row_view (insert_event r e db) r)"
    and "row_tags (insert_event r e db) r = event_tags e"
proof -
  let ?db = "insert_event r e db"
  note f = new_event_row_Some [OF n]
  have old: "row_view ?db s = row_view db s" if "s \<in> set (events db)" for s
  proof -
    have "t \<notin> set (new_tag_rows r e)" if "tg_event t = ev_id s" for t
      using new_id_absent [OF n \<open>s \<in> set (events db)\<close>] that by (auto simp: in_new_tag_rows)
    then show ?thesis by (auto simp: row_view_def row_tags_def has_tag_def list_ex_iff)
  qed
  have keys: "keys_ok ?db" "keys_ok db" using inv n by (simp_all add: db_inv_def keys_ok_insert)
  show "sql_view ?db = (sql_view db)(ev_hash r \<mapsto> row_view ?db r)"
  proof (rule store_eqI)
    fix i s
    show "sql_view ?db i = Some s \<longleftrightarrow> ((sql_view db)(ev_hash r \<mapsto> row_view ?db r)) i = Some s"
    proof (cases "i = ev_hash r")
      case True
      have "ev_hash u \<noteq> ev_hash r" if "u \<in> set (events db)" for u using f(8) that by (metis image_eqI)
      then show ?thesis unfolding sql_view_Some [OF keys(1)] using True by auto
    next
      case False
      then show ?thesis unfolding sql_view_Some [OF keys(1)] using old sql_view_Some [OF keys(2), of i s] by auto
    qed
  qed
  have fresh: "tg_event t \<noteq> ev_id r" if "t \<in> set (tags db)" for t
    using inv that new_id_absent [OF n] by (fastforce simp: db_inv_def refs_ok_def)
  have own: "tg_event t = ev_id r" if "t \<in> set (new_tag_rows r e)" for t
    using that by (auto simp: in_new_tag_rows)
  have "has_tag ?db r m v \<longleftrightarrow> (\<exists>t \<in> set (new_tag_rows r e). tg_name t = m \<and> tg_value t = v)" for m v
    using fresh own by (auto simp: has_tag_def list_ex_iff)
  moreover have "(\<exists>t \<in> set (new_tag_rows r e). tg_name t = m \<and> tg_value t = v) \<longleftrightarrow> (m, v) \<in> event_tags e" for m v
  proof -
    have "set (new_tag_rows r e) = (\<lambda>g. \<lparr>tg_event = ev_id r, tg_name = g ! 0, tg_value = g ! 1,
        tg_created = ev_created r, tg_kind = ev_kind r\<rparr>)
        ` {g \<in> set (e_tags e). 2 \<le> length g \<and> single_char_tagname (g ! 0) \<noteq> None}" (is "_ = ?row ` ?G")
    proof (intro set_eqI iffI)
      fix t
      assume "t \<in> set (new_tag_rows r e)"
      then obtain g where "g \<in> set (e_tags e)" "2 \<le> length g" "single_char_tagname (g ! 0) \<noteq> None"
        "t = ?row g" unfolding in_new_tag_rows by blast
      then show "t \<in> ?row ` ?G" by (intro image_eqI [of _ _ g]) simp_all
    qed (auto simp: in_new_tag_rows)
    then show ?thesis unfolding in_event_tags by (simp add: Bex_def) blast+
  qed
  ultimately show "row_tags ?db r = event_tags e" by (auto simp: row_tags_def)
qed


section \<open>Writing an event refines the specification\<close>

lemma entry_row:
  assumes inv: "db_inv db" and n: "spec_entry X e = Some (i, n)"
  obtains (present) "new_event_row X now e db = Inr None" "sql_view db i \<noteq> None"
  | (fresh) r where "new_event_row X now e db = Inr (Some r)" "ev_hash r = i" "sql_view db i = None"
      "row_view (insert_event r e db) r = n"
proof (cases "sql_view db i")
  case None
  then have "\<not> list_ex (\<lambda>r. ev_hash r = i) (events db)" by (auto simp: sql_view_None list_ex_iff)
  with n obtain r where r: "new_event_row X now e db = Inr (Some r)" "ev_hash r = i"
      "\<lparr>sd_author = ev_author r, sd_created = ev_created r, sd_kind = ev_kind r, sd_hidden = ev_hidden r,
        sd_expires = ev_expires r, sd_delegated = ev_delegated r, sd_content = ev_content r,
        sd_tags = event_tags e\<rparr> = n"
    by (fastforce simp: spec_entry_def new_event_row_def sql_u64_def sql_opt_u64_def
        split: option.splits if_splits)
  with view_insert(2) [OF inv r(1)] have "row_view (insert_event r e db) r = n" by (simp add: row_view_def)
  with fresh r None show thesis by blast
next
  case (Some s)
  then have "list_ex (\<lambda>r. ev_hash r = i) (events db)"
    using sql_view_None [of db i] by (auto simp: list_ex_iff)
  with n have "new_event_row X now e db = Inr None"
    by (auto simp: spec_entry_def new_event_row_def sql_u64_def sql_opt_u64_def split: option.splits if_splits)
  with present Some show thesis by simp
qed

lemma newer_is_competition:
  assumes inv: "db_inv db" and n: "spec_entry X e = Some (i, n)"
  shows "is_replaceable e \<and> newer_replaceable (hex_decode X (e_pubkey e)) e db
      \<or> (\<exists>d. distinct_param e = Some d \<and> newer_param_replaceable (hex_decode X (e_pubkey e)) e d db)
    \<longleftrightarrow> some_stored (\<lambda>_ s. competes e n s \<and> sd_created n \<le> sd_created s) (sql_view db)"
proof -
  from n have "hex_decode X (e_pubkey e) = Some (sd_author n)" "sql_u64 (e_kind e) = Some (sd_kind n)"
      "sql_u64 (e_created_at e) = Some (sd_created n)"
    by (auto simp: spec_entry_def sql_u64_def split: option.splits if_splits)
  then have 1: "newer_replaceable (hex_decode X (e_pubkey e)) e db \<longleftrightarrow>
      (\<exists>s \<in> set (events db). ev_author s = sd_author n \<and> ev_kind s = sd_kind n \<and> sd_created n \<le> ev_created s)"
    and 2: "newer_param_replaceable (hex_decode X (e_pubkey e)) e d db \<longleftrightarrow>
      (\<exists>s \<in> set (events db). ev_author s = sd_author n \<and> ev_kind s = sd_kind n \<and> has_tag db s ''d'' d
         \<and> sd_created n \<le> ev_created s)" for d
    by (simp_all add: newer_replaceable_def newer_param_replaceable_def list_ex_iff)
  have keys: "keys_ok db" using inv by (simp add: db_inv_def)
  show ?thesis
    unfolding 1 2 some_stored_sql [OF keys] competes_def row_view_sel row_tags_def by blast
qed

text \<open>The backwards checks remove what competes with the new row.\<close>

lemma insert_event_ids:
  assumes "db_inv db" and "new_event_row X now e db = Inr (Some r)" and "s \<in> set (events (insert_event r e db))"
  shows "ev_id s = ev_id r \<longleftrightarrow> s = r" and "ev_hash s = ev_hash r \<longleftrightarrow> s = r"
proof -
  have "keys_ok (insert_event r e db)" using assms(1,2) by (simp add: db_inv_def keys_ok_insert)
  with assms(3) show "ev_id s = ev_id r \<longleftrightarrow> s = r" and "ev_hash s = ev_hash r \<longleftrightarrow> s = r"
    by (auto simp: keys_ok_def distinct_map dest: inj_onD intro: rev_image_eqI)
qed

lemma view_removals_param:
  assumes inv: "db_inv db" and n: "new_event_row X now e db = Inr (Some r)" and plain: "plain_param e"
    and d: "distinct_param e = Some d" and old: "\<not> newer_param_replaceable (hex_decode X (e_pubkey e)) e d db"
  shows "sql_view (after_removals e r (insert_event r e db))
    = spec_remove (\<lambda>j s. competes e (row_view (insert_event r e db) r) s \<and> j \<noteq> ev_hash r)
        (sql_view (insert_event r e db))"
proof -
  let ?db = "insert_event r e db"
  note kind = param_not_other [OF d] and id = insert_event_ids [OF inv n]
  have one: "d_tag_count e d = 1" using plain d by (simp add: plain_param_iff)
  define q where "q = (\<lambda>s :: event_row. ev_kind s = ev_kind r \<and> ev_author s = ev_author r \<and>
     ev_id s \<in> set (map fst (drop 1 (order_desc snd (param_join (ev_author r) (ev_kind r) d ?db)))))"
  have del: "after_removals e r ?db = delete_events q ?db"
    using d kind by (simp add: after_removals_def remove_older_param_def q_def Let_def)
  have "events (delete_events q ?db)
      = filter (\<lambda>s. \<not> (ev_kind s = ev_kind r \<and> ev_author s = ev_author r \<and> has_tag db s ''d'' d)) (events db) @ [r]"
    using remove_older_param_insert [OF inv n old] one by (simp add: remove_older_param_def q_def Let_def)
  then have "set (filter (\<lambda>s. \<not> q s) (events ?db)) = set (filter (\<lambda>s. \<not> (ev_kind s = ev_kind r
      \<and> ev_author s = ev_author r \<and> has_tag db s ''d'' d)) (events db) @ [r])"
    by (simp only: delete_events_sel)
  then have mem: "s \<in> set (filter (\<lambda>s. \<not> q s) (events ?db)) \<longleftrightarrow> s \<in> set (filter (\<lambda>s. \<not> (ev_kind s = ev_kind r
      \<and> ev_author s = ev_author r \<and> has_tag db s ''d'' d)) (events db) @ [r])" for s
    by (simp only:)
  have "r \<notin> set (events db)" using new_id_absent [OF n] by blast
  then have q: "q s \<longleftrightarrow> ev_kind s = ev_kind r \<and> ev_author s = ev_author r \<and> has_tag db s ''d'' d \<and> s \<noteq> r"
    if "s \<in> set (events ?db)" for s
    using that mem [of s] unfolding set_filter insert_event_sel set_append mem_Collect_eq Un_iff list.set by blast
  have old_tags: "has_tag ?db s ''d'' d \<longleftrightarrow> has_tag db s ''d'' d" if "s \<in> set (events db)" for s
    using new_id_absent [OF n that] by (auto simp: has_tag_def list_ex_iff in_new_tag_rows)
  have "q s \<longleftrightarrow> competes e (row_view ?db r) (row_view ?db s) \<and> ev_hash s \<noteq> ev_hash r"
    if s: "s \<in> set (events ?db)" for s
  proof (cases "s = r")
    case False
    with s have "s \<in> set (events db)" by simp
    with False s kind show ?thesis
      by (simp add: q id(2) old_tags competes_def d row_tags_def del: insert_event_sel) blast
  qed (simp add: q)
  moreover have "keys_ok ?db" using inv n by (simp add: db_inv_def keys_ok_insert)
  ultimately show ?thesis unfolding del by (intro view_delete)
qed

lemma view_removals:
  assumes inv: "db_inv db" and n: "new_event_row X now e db = Inr (Some r)" and plain: "plain_param e"
    and old: "\<not> (is_replaceable e \<and> newer_replaceable (hex_decode X (e_pubkey e)) e db)"
      "\<And>d. distinct_param e = Some d \<Longrightarrow> \<not> newer_param_replaceable (hex_decode X (e_pubkey e)) e d db"
  shows "sql_view (after_removals e r (insert_event r e db))
    = spec_remove (\<lambda>j s. competes e (row_view (insert_event r e db) r) s \<and> j \<noteq> ev_hash r)
        (sql_view (insert_event r e db))"
proof (cases "distinct_param e")
  case (Some d)
  then show ?thesis by (intro view_removals_param [OF inv n plain] old(2))
next
  case None
  let ?db = "insert_event r e db"
  show ?thesis
  proof (cases "is_replaceable e")
    case True
    with None after_insert_replaceable [OF inv n True] old(1)
    have "after_removals e r ?db
        = delete_events (\<lambda>s. (ev_kind s = ev_kind r \<and> ev_author s = ev_author r) \<and> ev_id s \<noteq> ev_id r) ?db"
      by (simp add: after_removals_def)
    moreover have "(ev_kind s = ev_kind r \<and> ev_author s = ev_author r) \<and> ev_id s \<noteq> ev_id r
        \<longleftrightarrow> competes e (row_view ?db r) (row_view ?db s) \<and> ev_hash s \<noteq> ev_hash r"
      if "s \<in> set (events ?db)" for s
      unfolding competes_def row_view_sel insert_event_ids [OF inv n that] using True by blast
    moreover have keys: "keys_ok ?db" using inv n by (simp add: db_inv_def keys_ok_insert)
    ultimately show ?thesis using view_delete [OF keys] by simp
  next
    case False
    with None have "after_removals e r ?db = ?db" by (simp add: after_removals_def)
    with None False show ?thesis by (simp add: competes_def spec_remove_def bind_eq_None_conv)
  qed
qed

lemma after_removals_keeps:
  "keys_ok db \<Longrightarrow> keys_ok (after_removals e r db)" "refs_ok db \<Longrightarrow> refs_ok (after_removals e r db)"
  by (simp_all add: after_removals_def remove_older_replaceable_def remove_older_param_def Let_def
      keys_ok_delete refs_ok_delete split: option.split)

lemma deletion_recorded_view:
  assumes keys: "keys_ok db" and refs: "refs_ok db"
  shows "deletion_recorded (sd_author n) i db \<longleftrightarrow> some_stored (\<lambda>_. deletes i n) (sql_view db)"
proof -
  have kind: "tg_kind t = ev_kind s" if "s \<in> set (events db)" "t \<in> set (tags db)" "tg_event t = ev_id s" for s t
  proof -
    from refs that obtain u where "u \<in> set (events db)" "ev_id u = ev_id s" "tg_kind t = ev_kind u"
      by (auto simp: refs_ok_def)
    with that(1) keys show ?thesis by (auto simp: keys_ok_def distinct_map dest: inj_onD)
  qed
  show ?thesis
    unfolding deletion_recorded_iff some_stored_sql [OF keys] deletes_def row_view_sel row_tags_def has_tag_def
      list_ex_iff mem_Collect_eq case_prod_conv
    using kind by (intro bex_cong refl) metis
qed

lemma some_stored_remove:
  assumes "\<And>j s. p j s \<Longrightarrow> q j s \<Longrightarrow> False"
  shows "some_stored p (spec_remove q S) \<longleftrightarrow> some_stored p S"
  using assms by (auto simp: some_stored_def)

text \<open>Neither the new event nor what it replaces is a deletion, unless it is one itself.\<close>

lemma deletions_unchanged:
  assumes "S i = None" and "sd_kind n \<noteq> 5"
  shows "some_stored (\<lambda>_. deletes k n) (spec_remove (\<lambda>j s. competes e n s \<and> j \<noteq> i) (S(i \<mapsto> n)))
    \<longleftrightarrow> some_stored (\<lambda>_. deletes k n) S"
proof -
  have "some_stored (\<lambda>_. deletes k n) (spec_remove (\<lambda>j s. competes e n s \<and> j \<noteq> i) (S(i \<mapsto> n)))
      \<longleftrightarrow> some_stored (\<lambda>_. deletes k n) (S(i \<mapsto> n))"
    using assms(2) by (intro some_stored_remove) (auto simp: deletes_def competes_def)
  also have "\<dots> \<longleftrightarrow> some_stored (\<lambda>_. deletes k n) S"
    using assms by (auto simp: some_stored_def deletes_def) (metis option.distinct(1))
  finally show ?thesis .
qed

lemma persist_refines:
  assumes inv: "db_inv db" and n: "spec_entry X e = Some (i, n)" and plain: "plain_param e"
  shows "map_prod sql_view id (persist_event X now e db) = map_prod id Inr (spec_write X e i n (sql_view db))"
proof -
  note comp = newer_is_competition [OF inv n]
  define blocked where "blocked = some_stored (\<lambda>_ s. competes e n s \<and> sd_created n \<le> sd_created s) (sql_view db)"
  have start: "persist_event X now e db = (if blocked then (db, Inr 0) else
      (case new_event_row X now e db of Inl err \<Rightarrow> (db, Inl err) | Inr None \<Rightarrow> (db, Inr 0)
       | Inr (Some r) \<Rightarrow> after_insert X e r (insert_event r e db)))"
    unfolding blocked_def comp [symmetric]
    by (cases "distinct_param e") (simp_all add: persist_event_def Let_def)
  show ?thesis
  proof (cases blocked)
    case True
    then show ?thesis unfolding start spec_write_def blocked_def [symmetric] by simp
  next
    case False
    then have old: "\<not> (is_replaceable e \<and> newer_replaceable (hex_decode X (e_pubkey e)) e db)"
        "\<And>d. distinct_param e = Some d \<Longrightarrow> \<not> newer_param_replaceable (hex_decode X (e_pubkey e)) e d db"
      unfolding blocked_def comp [symmetric] by blast+
    from inv n show ?thesis
    proof (cases rule: entry_row [where now = now])
      case present
      then show ?thesis by (simp add: start spec_write_def)
    next
      case (fresh r)
      let ?db = "insert_event r e db"
      let ?x = "after_removals e r ?db"
      define S1 where "S1 = spec_remove (\<lambda>j s. competes e n s \<and> j \<noteq> i) ((sql_view db)(i \<mapsto> n))"
      have x: "sql_view ?x = S1"
        unfolding S1_def using view_removals [OF inv fresh(1) plain old] view_insert(1) [OF inv fresh(1)]
        by (simp add: fresh(2,4))
      note f = new_event_row_Some [OF fresh(1)]
      have a: "ev_author r = sd_author n" "ev_kind r = uint (e_kind e)"
        using f(4) fresh(4) by auto
      have run: "persist_event X now e db =
          (if e_kind e = 5 then (hide_deleted (sd_author n) (deletion_targets X e) ?x, Inr 1)
           else if deletion_recorded (sd_author n) (e_id e) ?x then (hide_events (\<lambda>s. ev_id s = ev_id r) ?x, Inr 0)
           else (?x, Inr 1))"
        using False by (simp add: start fresh(1) after_insert_eq a(1))
      have xi: "keys_ok ?x" "refs_ok ?x"
        using inv fresh(1) by (simp_all add: db_inv_def after_removals_keeps keys_ok_insert refs_ok_insert)
      have hide: "sql_view (hide_deleted (sd_author n) T ?x)
          = spec_hide (\<lambda>j s. sd_kind s \<noteq> 5 \<and> sd_author s = sd_author n \<and> j \<in> set T) S1" for T
        unfolding hide_deleted_def x [symmetric] by (intro view_hide) simp
      have own: "sql_view (hide_events (\<lambda>s. ev_id s = ev_id r) ?x) = spec_hide (\<lambda>j _. j = i) S1"
        unfolding x [symmetric]
      proof (intro view_hide)
        fix s
        assume "s \<in> set (events ?x)"
        then have "s \<in> set (events ?db)" using after_removals_subset by blast
        then show "ev_id s = ev_id r \<longleftrightarrow> ev_hash s = i"
          using new_id_absent [OF fresh(1)] f(8) by (auto simp: fresh(2) intro: rev_image_eqI)
      qed
      have rec: "deletion_recorded (sd_author n) (e_id e) ?x \<longleftrightarrow> some_stored (\<lambda>_. deletes (e_id e) n) (sql_view db)"
        if k: "e_kind e \<noteq> 5"
      proof -
        have "sd_kind n \<noteq> 5" using k f(4) fresh(4) by (auto simp: word_uint_eq_iff)
        from deletions_unchanged [of "sql_view db", OF fresh(3) this] show ?thesis
          unfolding deletion_recorded_view [OF xi] x S1_def .
      qed
      show ?thesis
        using False fresh(3) rec
        unfolding run spec_write_def blocked_def [symmetric] S1_def [symmetric] Let_def
        by (simp add: x hide own)
    qed
  qed
qed


text \<open>An event with no entry is never stored.\<close>

lemma persist_no_entry:
  assumes "spec_entry X e = None"
  shows "fst (persist_event X now e db) = db" and "snd (persist_event X now e db) \<noteq> Inr 1"
proof -
  have "new_event_row X now e db \<noteq> Inr (Some r)" for r
    using assms by (auto simp: spec_entry_def new_event_row_def sql_u64_def sql_opt_u64_def
        split: option.splits if_splits)
  then show "fst (persist_event X now e db) = db" and "snd (persist_event X now e db) \<noteq> Inr 1"
    by (cases X now e db rule: persist_event_cases; simp)+
qed

lemma delete_expired_refines:
  assumes "keys_ok db" and "uint now < 2 ^ 63"
  shows "sql_view (fst (delete_expired now db)) = spec_expire now (sql_view db)"
  using assms unfolding delete_expired_def spec_expire_def
  by (auto simp: sql_u64_def is_expired_row_def split: option.splits intro!: view_delete)

section \<open>A store that implements the specification\<close>

text \<open>One write, and whether the event is accepted; a sequence of writes, and the events accepted.\<close>

definition spec_step :: "ext \<Rightarrow> event \<Rightarrow> store \<Rightarrow> store \<times> bool" where
  "spec_step X e S =
     (case spec_entry X e of
        None \<Rightarrow> (S, False)
      | Some (i, n) \<Rightarrow> (let (S', c) = spec_write X e i n S in (S', c = 1)))"

fun spec_writes :: "ext \<Rightarrow> event list \<Rightarrow> store \<Rightarrow> store \<times> event list" where
  "spec_writes X [] S = (S, [])"
| "spec_writes X (e # es) S =
     (let (S', a) = spec_step X e S; (S'', acc) = spec_writes X es S' in (S'', if a then e # acc else acc))"

text \<open>Each event of the sequence fits the store it meets.\<close>

fun each_fits :: "(event \<Rightarrow> store \<Rightarrow> bool) \<Rightarrow> ext \<Rightarrow> event list \<Rightarrow> store \<Rightarrow> bool" where
  "each_fits ft X [] S \<longleftrightarrow> True"
| "each_fits ft X (e # es) S \<longleftrightarrow> ft e S \<and> each_fits ft X es (fst (spec_step X e S))"

fun exec_writes :: "(event \<Rightarrow> 'db \<Rightarrow> ('db \<times> (error + u64)) exec) \<Rightarrow> event list \<Rightarrow> 'db \<Rightarrow> ('db \<times> event list) exec" where
  "exec_writes wr [] db = Done (db, [])"
| "exec_writes wr (e # es) db =
     exec_bind (wr e db) (\<lambda>(db', r).
       map_exec (\<lambda>(db'', acc). (db'', if r = Inr 1 then e # acc else acc)) (exec_writes wr es db'))"

locale store_impl =
  fixes X :: ext
    and wr :: "event \<Rightarrow> 'db \<Rightarrow> ('db \<times> (error + u64)) exec"
    and ok :: "'db \<Rightarrow> bool"
    and view :: "'db \<Rightarrow> store"
    and fits :: "event \<Rightarrow> store \<Rightarrow> bool"
  assumes step: "ok db \<Longrightarrow> fits e (view db) \<Longrightarrow> \<exists>db' r. wr e db = Done (db', r) \<and> ok db'
    \<and> spec_step X e (view db) = (view db', r = Inr 1)"
begin

lemma writes_refine:
  "ok db \<Longrightarrow> each_fits fits X es (view db) \<Longrightarrow> \<exists>db' acc. exec_writes wr es db = Done (db', acc) \<and> ok db'
     \<and> spec_writes X es (view db) = (view db', acc)"
proof (induction es arbitrary: db)
  case (Cons e es)
  from Cons.prems step [of db e] obtain db1 r where 1: "wr e db = Done (db1, r)" "ok db1"
      "spec_step X e (view db) = (view db1, r = Inr 1)" by auto
  with Cons.prems Cons.IH [of db1] obtain db' acc where "exec_writes wr es db1 = Done (db', acc)" "ok db'"
      "spec_writes X es (view db1) = (view db', acc)" by auto
  with 1 show ?case by simp
qed simp

end

lemma spec_write_step:
  "spec_entry X e = Some (i, n) \<Longrightarrow> spec_write X e i n S = (S', c) \<Longrightarrow> spec_step X e S = (S', c = 1)"
  by (simp add: spec_step_def)

text \<open>SQLite: one of the ten attempts must meet no failure, for each event.\<close>

lemma write_event_step:
  assumes inv: "db_inv db" and plain: "plain_param e" and free: "\<exists>i. 1 \<le> i \<and> i \<le> 10 \<and> busy i = None"
  shows "\<exists>db' r. write_event X now busy e db = (db', r) \<and> db_inv db'
    \<and> spec_step X e (sql_view db) = (sql_view db', r = Inr 1)"
proof -
  have w: "write_event X now busy e db = persist_event X now e db" using free by (simp add: write_event_cases)
  obtain db' r where p: "persist_event X now e db = (db', r)" by fastforce
  have "db_inv db'" using persist_event_inv [OF inv, of X now e] by (simp add: p)
  moreover have "spec_step X e (sql_view db) = (sql_view db', r = Inr 1)"
  proof (cases "spec_entry X e")
    case None
    with persist_no_entry [OF None, of now db] p show ?thesis by (simp add: spec_step_def)
  next
    case (Some y)
    obtain i n where y: "y = (i, n)" by fastforce
    obtain S c where s: "spec_write X e i n (sql_view db) = (S, c)" by fastforce
    from persist_refines [OF inv _ plain, of X i n now] Some y p s have "sql_view db' = S" "r = Inr c" by simp_all
    with spec_write_step [of X e i n, OF _ s] Some y show ?thesis by simp
  qed
  ultimately show ?thesis using w p by simp
qed

text \<open>The time and the failures of each event's write are arbitrary.\<close>

definition sqlite_fits :: "(event \<Rightarrow> nat \<Rightarrow> string option) \<Rightarrow> event \<Rightarrow> store \<Rightarrow> bool" where
  "sqlite_fits busy e S \<longleftrightarrow> plain_param e \<and> (\<exists>i. 1 \<le> i \<and> i \<le> 10 \<and> busy e i = None)"

interpretation sqlite_impl: store_impl X "\<lambda>e db. Done (write_event X (now e) (busy e) e db)" db_inv sql_view
  "sqlite_fits busy" for X now busy
proof
  fix e and db
  assume "db_inv db" and "sqlite_fits busy e (sql_view db)"
  then show "\<exists>db' r. Done (write_event X (now e) (busy e) e db) = Done (db', r) \<and> db_inv db'
      \<and> spec_step X e (sql_view db) = (sql_view db', r = Inr 1)"
    using write_event_step [of db e "busy e" X "now e"] by (auto simp: sqlite_fits_def)
qed

end
