(* ===== verification/Postgres_Refines.thy ===== *)
theory Postgres_Refines
  imports Postgres_Props Store_Spec
begin

text \<open>
  The PostgreSQL store implements the specification of \<open>Store_Spec\<close> too, for events that
  avoid its differences: kinds of 31 bits, times the \<open>chrono\<close> crate has a date for, tag names
  that are text, deletions that name at least one event, and no event whose deletion is stored
  already. So on such events both databases accept the same and hold the same.
\<close>

section \<open>The view\<close>

definition pg_row_tags :: "ext \<Rightarrow> pg_db \<Rightarrow> pg_event \<Rightarrow> (string \<times> string) set" where
  "pg_row_tags X db r = {(n, v). pg_has_tag X db r n v}"

definition pg_row_view :: "ext \<Rightarrow> pg_db \<Rightarrow> pg_event \<Rightarrow> stored_event" where
  "pg_row_view X db r =
     \<lparr>sd_author = pe_pub_key r, sd_created = pe_created r, sd_kind = pe_kind r, sd_hidden = pe_hidden r,
      sd_expires = pe_expires r, sd_delegated = pe_delegated r, sd_content = pe_content r,
      sd_tags = pg_row_tags X db r\<rparr>"

definition pg_view :: "ext \<Rightarrow> pg_db \<Rightarrow> store" where
  "pg_view X db = map_of (map (\<lambda>r. (pe_id r, pg_row_view X db r)) (pg_events db))"

lemma pg_row_view_sel [simp]:
  "sd_author (pg_row_view X db r) = pe_pub_key r" "sd_created (pg_row_view X db r) = pe_created r"
  "sd_kind (pg_row_view X db r) = pe_kind r" "sd_hidden (pg_row_view X db r) = pe_hidden r"
  "sd_expires (pg_row_view X db r) = pe_expires r" "sd_tags (pg_row_view X db r) = pg_row_tags X db r"
  by (simp_all add: pg_row_view_def)

lemma pg_view_Some:
  assumes "pg_keys db"
  shows "pg_view X db i = Some s \<longleftrightarrow> (\<exists>r \<in> set (pg_events db). pe_id r = i \<and> pg_row_view X db r = s)"
proof -
  have "distinct (map fst (map (\<lambda>r. (pe_id r, pg_row_view X db r)) (pg_events db)))"
    using assms by (simp add: pg_keys_def comp_def)
  from map_of_eq_Some_iff [OF this] show ?thesis by (auto simp: pg_view_def)
qed

lemma pg_view_None: "pg_view X db i = None \<longleftrightarrow> i \<notin> pe_id ` set (pg_events db)"
  by (simp add: pg_view_def map_of_eq_None_iff image_image)

lemma some_stored_pg:
  "pg_keys db \<Longrightarrow> some_stored p (pg_view X db) \<longleftrightarrow> (\<exists>r \<in> set (pg_events db). p (pe_id r) (pg_row_view X db r))"
  by (auto simp: some_stored_def pg_view_Some)

lemma pg_row_view_cong:
  "(\<And>n v. pg_has_tag X db' r n v \<longleftrightarrow> pg_has_tag X db r n v) \<Longrightarrow> pg_row_view X db' r = pg_row_view X db r"
  by (simp add: pg_row_view_def pg_row_tags_def)

text \<open>A row's tags depend on the tag rows of its identifier only.\<close>

lemma pg_has_tag_cong:
  assumes "\<And>t. pt_event t = pe_id r \<Longrightarrow> t \<in> set (pg_tags db') \<longleftrightarrow> t \<in> set (pg_tags db)"
  shows "pg_has_tag X db' r n v \<longleftrightarrow> pg_has_tag X db r n v"
  using assms by (auto simp: pg_has_tag_def list_ex_iff)

lemma pg_view_delete:
  assumes keys: "pg_keys db"
    and p: "\<And>r. r \<in> set (pg_events db) \<Longrightarrow> q r \<longleftrightarrow> p (pe_id r) (pg_row_view X db r)"
  shows "pg_view X (pg_delete q db) = spec_remove p (pg_view X db)"
proof (rule store_eqI)
  fix i s
  have tags: "pg_row_view X (pg_delete q db) r = pg_row_view X db r" if "r \<in> set (pg_events db)" "\<not> q r" for r
  proof -
    have "pe_id r \<notin> pe_id ` {u \<in> set (pg_events db). q u}"
      using keys that by (auto simp: pg_keys_def distinct_map dest: inj_onD)
    then show ?thesis by (intro pg_row_view_cong pg_has_tag_cong) auto
  qed
  have "pg_view X (pg_delete q db) i = Some s \<longleftrightarrow>
      (\<exists>r \<in> set (pg_events db). \<not> q r \<and> pe_id r = i \<and> pg_row_view X (pg_delete q db) r = s)"
    unfolding pg_view_Some [OF pg_delete_keeps(1) [OF keys]] by auto
  also have "\<dots> \<longleftrightarrow> (\<exists>r \<in> set (pg_events db). \<not> p (pe_id r) (pg_row_view X db r) \<and> pe_id r = i \<and> pg_row_view X db r = s)"
  proof (intro bex_cong refl)
    fix r
    assume r: "r \<in> set (pg_events db)"
    show "(\<not> q r \<and> pe_id r = i \<and> pg_row_view X (pg_delete q db) r = s) \<longleftrightarrow>
        (\<not> p (pe_id r) (pg_row_view X db r) \<and> pe_id r = i \<and> pg_row_view X db r = s)"
      unfolding p [OF r, symmetric] by (cases "q r") (simp_all add: tags [OF r])
  qed
  also have "\<dots> \<longleftrightarrow> pg_view X db i = Some s \<and> \<not> p i s" using pg_view_Some [OF keys, of X i s] by auto
  finally show "pg_view X (pg_delete q db) i = Some s \<longleftrightarrow> spec_remove p (pg_view X db) i = Some s"
    by simp
qed

lemma pg_view_hide:
  assumes p: "\<And>r. r \<in> set (pg_events db) \<Longrightarrow> q r \<longleftrightarrow> p (pe_id r) (pg_row_view X db r)"
  shows "pg_view X (pg_hide q db) = spec_hide p (pg_view X db)"
proof -
  have "map (\<lambda>r. (pe_id r, pg_row_view X (pg_hide q db) r)) (pg_events (pg_hide q db))
      = map (\<lambda>(i, s). (i, if p i s then s\<lparr>sd_hidden := True\<rparr> else s)) (map (\<lambda>r. (pe_id r, pg_row_view X db r)) (pg_events db))"
    using p by (auto simp: pg_hide_events pg_row_view_def pg_row_tags_def pg_has_tag_def)
  then show ?thesis unfolding pg_view_def spec_hide_def by (simp only: map_of_map_values)
qed


section \<open>The new row\<close>

text \<open>A tag row answers for exactly the value of its tag.\<close>

lemma hex_value_inj:
  assumes "hex_law X" and "hex_value v" and "hex_value w" and "hex_decode X v = hex_decode X w"
  shows "v = w"
proof -
  from hex_value_decodes [OF assms(1,2)] obtain b where "hex_decode X v = Some b" by blast
  with assms show ?thesis
    by (intro hex_decode_inj_lower [of X v b w]) (auto simp: hex_value_def is_lower_hex_lower)
qed

lemma pg_tag_row_hit:
  assumes "hex_law X"
  shows "(if hex_value v then hex_decode X v \<noteq> None \<and> pt_value_hex (pg_tag_row X i g) = hex_decode X v
      else pt_value (pg_tag_row X i g) = Some v) \<longleftrightarrow> g ! 1 = v"
  using hex_value_inj [OF assms, of "g ! 1" v] hex_value_decodes [OF assms, of v]
  by (auto simp: pg_tag_row_def)

lemma pg_tag_row_sel [simp]:
  "pt_event (pg_tag_row X i g) = i" "pt_name (pg_tag_row X i g) = g ! 0"
  by (simp_all add: pg_tag_row_def)

lemma pg_new_tags_hit:
  assumes "hex_law X"
  shows "(\<exists>t \<in> set (pg_new_tags X i gs). pt_event t = i \<and> pt_name t = n \<and>
      (if hex_value v then hex_decode X v \<noteq> None \<and> pt_value_hex t = hex_decode X v else pt_value t = Some v))
    \<longleftrightarrow> (\<exists>g \<in> set gs. indexed g \<and> g ! 0 = n \<and> g ! 1 = v)"
  unfolding pg_new_tags_def set_map set_filter bex_simps pg_tag_row_sel pg_tag_row_hit [OF assms] by blast

lemma pg_insert_row_tags:
  assumes hex: "hex_law X" and inv: "pg_inv db" and n: "pg_new_row X ts_ok now s e db = Inr (Some r)"
  shows "pg_row_tags X (pg_insert X r e db) r = event_tags e"
proof -
  note pg_tag_other [OF inv n]
  then have "pg_has_tag X (pg_insert X r e db) r m v \<longleftrightarrow> (\<exists>t \<in> set (pg_new_tags X (pe_id r) (e_tags e)).
      pt_event t = pe_id r \<and> pt_name t = m \<and>
      (if hex_value v then hex_decode X v \<noteq> None \<and> pt_value_hex t = hex_decode X v else pt_value t = Some v))" for m v
    unfolding pg_has_tag_def list_ex_iff pg_insert_sel set_append bex_Un by blast
  then have "pg_has_tag X (pg_insert X r e db) r m v \<longleftrightarrow> (\<exists>g \<in> set (e_tags e). indexed g \<and> g ! 0 = m \<and> g ! 1 = v)" for m v
    unfolding pg_new_tags_hit [OF hex] .
  then have "(m, v) \<in> pg_row_tags X (pg_insert X r e db) r \<longleftrightarrow> (m, v) \<in> event_tags e" for m v
    by (simp add: pg_row_tags_def in_event_tags indexed_def conj_assoc eq_commute [of m] eq_commute [of v])
  then show ?thesis by (intro set_eqI) (simp only: split_paired_all)
qed

lemma pg_view_insert:
  assumes inv: "pg_inv db" and n: "pg_new_row X ts_ok now s e db = Inr (Some r)"
  shows "pg_view X (pg_insert X r e db) = (pg_view X db)(pe_id r \<mapsto> pg_row_view X (pg_insert X r e db) r)"
proof -
  let ?db = "pg_insert X r e db"
  note f = pg_new_row_Some [OF n]
  have new: "pe_id u \<noteq> pe_id r" if "u \<in> set (pg_events db)" for u using f(7) that by (metis image_eqI)
  have old: "pg_row_view X ?db u = pg_row_view X db u" if "u \<in> set (pg_events db)" for u
    using new [OF that] by (intro pg_row_view_cong pg_has_tag_cong) (auto dest: pg_new_tags_event)
  have keys: "pg_keys ?db" "pg_keys db" using inv f(7) by (simp_all add: pg_inv_def pg_keys_def)
  show ?thesis
  proof (rule store_eqI)
    fix i s
    show "pg_view X ?db i = Some s \<longleftrightarrow> ((pg_view X db)(pe_id r \<mapsto> pg_row_view X ?db r)) i = Some s"
    proof (cases "i = pe_id r")
      case True
      then show ?thesis unfolding pg_view_Some [OF keys(1)] using new by auto
    next
      case False
      then show ?thesis unfolding pg_view_Some [OF keys(1)] using old pg_view_Some [OF keys(2), of X i s] by auto
    qed
  qed
qed

section \<open>Events without the differences\<close>

definition pg_plain :: "ext \<Rightarrow> (int \<Rightarrow> bool) \<Rightarrow> event \<Rightarrow> bool" where
  "pg_plain X ts_ok e \<longleftrightarrow> plain_param e
     \<and> (case spec_entry X e of
          None \<Rightarrow> False
        | Some (i, n) \<Rightarrow> sd_kind n < 2 ^ 31 \<and> ts_ok (sd_created n)
            \<and> (case sd_expires n of None \<Rightarrow> True | Some x \<Rightarrow> ts_ok x))
     \<and> (e_kind e = 5 \<longrightarrow> deletion_targets X e \<noteq> [])
     \<and> list_all (\<lambda>g. indexed g \<longrightarrow> pg_text (g ! 0)) (e_tags e)"

text \<open>And no deletion of the event is stored, nor one whose text is the binary identifier.\<close>

definition pg_fits :: "ext \<Rightarrow> (int \<Rightarrow> bool) \<Rightarrow> event \<Rightarrow> store \<Rightarrow> bool" where
  "pg_fits X ts_ok e S \<longleftrightarrow> pg_plain X ts_ok e
     \<and> (\<forall>i n. spec_entry X e = Some (i, n) \<longrightarrow> e_kind e \<noteq> 5 \<longrightarrow>
          \<not> some_stored (\<lambda>_ s. deletes (e_id e) n s \<or> deletes i n s) S)"

lemma pg_entry_row:
  assumes hex: "hex_law X" and inv: "pg_inv db" and n: "spec_entry X e = Some (i, n)"
    and fit: "sd_kind n < 2 ^ 31" "ts_ok (sd_created n)" "\<And>x. sd_expires n = Some x \<Longrightarrow> ts_ok x"
  obtains s where "json_to_string X (event_to_json e) = Some s"
    and "sint (e_created_at e) = sd_created n" and "sint (e_kind e) = sd_kind n"
    and "hex_decode X (e_pubkey e) = Some (sd_author n)" and "0 \<le> sd_created n"
    and "if pg_view X db i = None
      then (\<exists>r. pg_new_row X ts_ok now s e db = Inr (Some r) \<and> pe_id r = i \<and> pg_row_view X (pg_insert X r e db) r = n)
      else pg_new_row X ts_ok now s e db = Inr None"
proof -
  from n obtain s where s: "hex_decode X (e_id e) = Some i" "hex_decode X (e_pubkey e) = Some (sd_author n)"
      "json_to_string X (event_to_json e) = Some s"
    and r: "uint (e_created_at e) < 2 ^ 63" "uint (e_kind e) < 2 ^ 63"
      "\<And>x. expiration e = Some x \<Longrightarrow> uint x < 2 ^ 63"
    and n': "n = \<lparr>sd_author = sd_author n, sd_created = uint (e_created_at e), sd_kind = uint (e_kind e),
       sd_hidden = False, sd_expires = map_option uint (expiration e),
       sd_delegated = Option.bind (e_delegated_by e) (hex_decode X), sd_content = s, sd_tags = event_tags e\<rparr>"
    by (auto simp: spec_entry_def split: option.splits if_splits)
  from n' have sel: "sd_created n = uint (e_created_at e)" "sd_kind n = uint (e_kind e)"
      "sd_expires n = map_option uint (expiration e)" by (metis stored_event.select_convs)+
  have u: "sint (e_created_at e) = sd_created n" "sint (e_kind e) = sd_kind n" "0 \<le> sd_created n" "0 \<le> sd_kind n"
    using r by (simp_all add: sint_u64 sel)
  have x: "pg_expiration ts_ok e = sd_expires n"
    using fit(3) r(3) by (cases "expiration e") (auto simp: pg_expiration_def sint_u64 sel)
  have date: "pg_date (sint (e_created_at e))" "list_all pg_date (opt_list (pg_expiration ts_ok e))"
    using u(3) by (auto simp: pg_date_def u x sel opt_list_def split: option.split)
      (meson order.trans uint_ge_0 neg_le_0_iff_le zero_le_numeral)+
  have "int4 (sint (e_kind e))" using u fit(1) by (simp add: int4_def)
  with s date have new: "pg_new_row X ts_ok now s e db = (if list_ex (\<lambda>r. pe_id r = i) (pg_events db) then Inr None
      else Inr (Some \<lparr>pe_id = i, pe_pub_key = sd_author n, pe_created = sd_created n, pe_kind = sd_kind n,
        pe_content = s, pe_hidden = False, pe_delegated = Option.bind (e_delegated_by e) (hex_decode X),
        pe_first_seen = uint now, pe_expires = sd_expires n\<rparr>))"
    by (simp add: pg_new_row_def u x)
  have "if pg_view X db i = None
      then (\<exists>r. pg_new_row X ts_ok now s e db = Inr (Some r) \<and> pe_id r = i \<and> pg_row_view X (pg_insert X r e db) r = n)
      else pg_new_row X ts_ok now s e db = Inr None"
  proof (cases "pg_view X db i")
    case None
    then have "\<not> list_ex (\<lambda>r. pe_id r = i) (pg_events db)" by (auto simp: pg_view_None list_ex_iff)
    with new obtain r where r: "pg_new_row X ts_ok now s e db = Inr (Some r)" "pe_id r = i"
        "pe_pub_key r = sd_author n" "pe_created r = sd_created n" "pe_kind r = sd_kind n" "pe_content r = s"
        "\<not> pe_hidden r" "pe_delegated r = Option.bind (e_delegated_by e) (hex_decode X)" "pe_expires r = sd_expires n"
      by simp
    have "pg_row_view X (pg_insert X r e db) r = n"
      by (subst n') (simp add: pg_row_view_def pg_insert_row_tags [OF hex inv r(1)] r sel)
    with r None show ?thesis by auto
  next
    case (Some y)
    then have "list_ex (\<lambda>r. pe_id r = i) (pg_events db)" using pg_view_None [of X db i] by (auto simp: list_ex_iff)
    with new Some show ?thesis by simp
  qed
  with that s u show thesis by blast
qed


section \<open>The transaction\<close>

lemma d_tags_hit_exact:
  assumes "hex_law X"
  shows "length (filter (pg_d_hit X d r) (pg_new_tags X (pe_id r) (e_tags e))) = d_tag_count e d"
proof -
  have hit: "pg_d_hit X d r (pg_tag_row X (pe_id r) g) \<longleftrightarrow> g ! 0 = ''d'' \<and> g ! 1 = d" for g
    unfolding pg_d_hit_def pg_tag_row_sel pg_tag_row_hit [OF assms] by blast
  have "filter (\<lambda>g. g ! 0 = ''d'' \<and> g ! 1 = d) (filter indexed gs)
      = filter (\<lambda>g. 2 \<le> length g \<and> g ! 0 = ''d'' \<and> g ! 1 = d) gs" for gs
    by (induction gs) (auto simp: indexed_def single_char_d)
  then show ?thesis
    by (simp add: pg_new_tags_def filter_map o_def hit d_tag_count_def del: filter_filter)
qed

definition pg_after_removals :: "ext \<Rightarrow> event \<Rightarrow> pg_event \<Rightarrow> pg_db \<Rightarrow> pg_db" where
  "pg_after_removals X e r db0 =
     (let db1 = (if is_replaceable e then pg_remove_replaceable (pe_pub_key r) (pe_kind r) db0 else db0) in
      case distinct_param e of
        Some d_tag \<Rightarrow> pg_remove_param X (pe_pub_key r) (pe_kind r) d_tag db1 | None \<Rightarrow> db1)"

lemma pg_after_insert_eq:
  "pg_after_insert X e r old db0 =
     (let db2 = pg_after_removals X e r db0 in
      if e_kind e = 5 then
        (let targets = deletion_targets X e in
         if targets = [] then (old, Inl (sqlx_error ''syntax error''))
         else (pg_hide (\<lambda>x. pe_kind x \<noteq> 5 \<and> pe_pub_key x = pe_pub_key r \<and> pe_id x \<in> set targets) db2, Inr 1))
      else if pg_deletion_recorded (pe_pub_key r) (pe_id r) db2
      then (pg_hide (\<lambda>x. pe_id x = pe_id r) db2, Inr 0)
      else (db2, Inr 1))"
  by (simp add: pg_after_insert_def pg_after_removals_def Let_def)

lemma pg_after_removals_keeps:
  "pg_keys db \<Longrightarrow> pg_keys (pg_after_removals X e r db)" "pg_typed db \<Longrightarrow> pg_typed (pg_after_removals X e r db)"
  "set (pg_events (pg_after_removals X e r db)) \<subseteq> set (pg_events db)"
  by (auto simp: pg_after_removals_def pg_remove_replaceable_def pg_remove_param_def Let_def
      pg_delete_keeps pg_typed_delete split: option.split)

lemma pg_view_removals_param:
  assumes hex: "hex_law X" and inv: "pg_inv db" and n: "pg_new_row X ts_ok now s e db = Inr (Some r)"
    and plain: "plain_param e" and d: "distinct_param e = Some d"
    and old: "\<not> pg_newer_param X (hex_decode X (e_pubkey e)) e d db"
  shows "pg_view X (pg_after_removals X e r (pg_insert X r e db))
    = spec_remove (\<lambda>j s. competes e (pg_row_view X (pg_insert X r e db) r) s \<and> j \<noteq> pe_id r)
        (pg_view X (pg_insert X r e db))"
proof -
  let ?db = "pg_insert X r e db"
  note f = pg_new_row_Some [OF n] and kind = param_not_other [OF d]
  have one: "d_tag_count e d = 1" using plain d by (simp add: plain_param_iff)
  define q where "q = (\<lambda>x :: pg_event. pe_kind x = pe_kind r \<and> pe_pub_key x = pe_pub_key r \<and>
     pe_id x \<in> set (map fst (drop 1 (order_desc snd (pg_param_join X (pe_pub_key r) (pe_kind r) d ?db)))))"
  have del: "pg_after_removals X e r ?db = pg_delete q ?db"
    using d kind by (simp add: pg_after_removals_def pg_remove_param_def q_def Let_def)
  have ids: "set (map fst (drop 1 (order_desc snd (pg_param_join X (pe_pub_key r) (pe_kind r) d ?db))))
      = pe_id ` {x \<in> set (pg_events db). (pe_kind x = pe_kind r \<and> pe_pub_key x = pe_pub_key r) \<and> pg_has_tag X db x ''d'' d}"
    by (subst pg_param_removed [OF inv n old]) (simp_all add: d_tags_hit_exact [OF hex] one)
  have "q x \<longleftrightarrow> competes e (pg_row_view X ?db r) (pg_row_view X ?db x) \<and> pe_id x \<noteq> pe_id r"
    if x: "x \<in> set (pg_events ?db)" for x
  proof (cases "x = r")
    case True
    have "pe_id r \<notin> pe_id ` {x \<in> set (pg_events db). P x}" for P using f(7) by blast
    with True show ?thesis unfolding q_def ids by blast
  next
    case False
    with x have x: "x \<in> set (pg_events db)" by simp
    have other: "pe_id x \<noteq> pe_id r" using f(7) x by (metis image_eqI)
    then have tags: "pg_has_tag X ?db x ''d'' d \<longleftrightarrow> pg_has_tag X db x ''d'' d"
      by (intro pg_has_tag_cong) (auto dest: pg_new_tags_event)
    have "pe_id x \<in> pe_id ` {x \<in> set (pg_events db). P x} \<longleftrightarrow> P x" for P
      using x inv by (auto simp: pg_inv_def pg_keys_def distinct_map dest: inj_onD)
    with other tags kind show ?thesis
      unfolding q_def ids competes_def pg_row_view_sel d pg_row_tags_def by auto
  qed
  moreover have "pg_keys ?db" using inv f(7) by (simp add: pg_inv_def pg_keys_def)
  ultimately show ?thesis unfolding del by (intro pg_view_delete)
qed

lemma pg_view_removals:
  assumes hex: "hex_law X" and inv: "pg_inv db" and n: "pg_new_row X ts_ok now s e db = Inr (Some r)"
    and plain: "plain_param e"
    and old: "\<not> (is_replaceable e \<and> pg_newer_replaceable (hex_decode X (e_pubkey e)) e db)"
      "\<And>d. distinct_param e = Some d \<Longrightarrow> \<not> pg_newer_param X (hex_decode X (e_pubkey e)) e d db"
  shows "pg_view X (pg_after_removals X e r (pg_insert X r e db))
    = spec_remove (\<lambda>j s. competes e (pg_row_view X (pg_insert X r e db) r) s \<and> j \<noteq> pe_id r)
        (pg_view X (pg_insert X r e db))"
proof (cases "distinct_param e")
  case (Some d)
  then show ?thesis by (intro pg_view_removals_param [OF hex inv n plain] old(2))
next
  case None
  let ?db = "pg_insert X r e db"
  have keys: "pg_keys ?db" using inv pg_new_row_Some(7) [OF n] by (simp add: pg_inv_def pg_keys_def)
  show ?thesis
  proof (cases "is_replaceable e")
    case True
    with None pg_remove_insert [OF n True] old(1)
    have "pg_after_removals X e r ?db
        = pg_delete (\<lambda>x. (pe_kind x = pe_kind r \<and> pe_pub_key x = pe_pub_key r) \<and> pe_id x \<noteq> pe_id r) ?db"
      by (simp add: pg_after_removals_def)
    moreover have "(pe_kind x = pe_kind r \<and> pe_pub_key x = pe_pub_key r) \<and> pe_id x \<noteq> pe_id r
        \<longleftrightarrow> competes e (pg_row_view X ?db r) (pg_row_view X ?db x) \<and> pe_id x \<noteq> pe_id r" for x
      unfolding competes_def pg_row_view_sel using True by blast
    ultimately show ?thesis using pg_view_delete [OF keys] by simp
  next
    case False
    with None have "pg_after_removals X e r ?db = ?db" by (simp add: pg_after_removals_def)
    with None False show ?thesis by (simp add: competes_def spec_remove_def bind_eq_None_conv)
  qed
qed

lemma pg_newer_is_competition:
  assumes inv: "pg_inv db" and u: "sint (e_created_at e) = sd_created n" "sint (e_kind e) = sd_kind n"
    and pk: "hex_decode X (e_pubkey e) = Some (sd_author n)"
  shows "is_replaceable e \<and> pg_newer_replaceable (hex_decode X (e_pubkey e)) e db
      \<or> (\<exists>d. distinct_param e = Some d \<and> pg_newer_param X (hex_decode X (e_pubkey e)) e d db)
    \<longleftrightarrow> some_stored (\<lambda>_ s. competes e n s \<and> sd_created n \<le> sd_created s) (pg_view X db)"
proof -
  have keys: "pg_keys db" using inv by (simp add: pg_inv_def)
  show ?thesis
    unfolding some_stored_pg [OF keys] pg_newer_replaceable_def pg_newer_param_def pk option.case u list_ex_iff
      competes_def pg_row_view_sel pg_row_tags_def by blast
qed

text \<open>What the check for an earlier deletion finds is a tag whose text is the identifier's bytes.\<close>

lemma pg_deletion_recorded_view:
  assumes "pg_keys db" and "pg_typed db" and "pg_deletion_recorded (sd_author n) i db"
  shows "some_stored (\<lambda>_. deletes i n) (pg_view X db)"
proof -
  from assms(3) obtain r t where r: "r \<in> set (pg_events db)" "pe_pub_key r = sd_author n" "pe_kind r = 5"
    and t: "t \<in> set (pg_tags db)" "pt_event t = pe_id r" "pt_name t = ''e''" "pt_value t = Some i"
    by (auto simp: pg_deletion_recorded_def list_ex_iff)
  from assms(2) t have "\<not> hex_value i" by (auto simp: pg_typed_def list_all_iff pg_tag_typed_def)
  with t have "pg_has_tag X db r ''e'' i" by (auto simp: pg_has_tag_def list_ex_iff)
  with r show ?thesis
    by (auto simp: some_stored_pg [OF assms(1)] deletes_def pg_row_tags_def)
qed

lemma pg_write_refines:
  assumes hex: "hex_law X" and inv: "pg_inv db" and typed: "pg_typed db" and fit: "pg_fits X ts_ok e (pg_view X db)"
    and n: "spec_entry X e = Some (i, n)"
  shows "map_exec (map_prod (pg_view X) id) (pg_write_event X ts_ok now None e db)
    = Done (map_prod id Inr (spec_write X e i n (pg_view X db)))"
proof -
  from fit n have plain: "plain_param e" and ok: "sd_kind n < 2 ^ 31" "ts_ok (sd_created n)"
      "\<And>x. sd_expires n = Some x \<Longrightarrow> ts_ok x"
    and named: "\<not> list_ex (\<lambda>t. indexed t \<and> \<not> pg_text (t ! 0)) (e_tags e)"
    and del: "if e_kind e = 5 then deletion_targets X e \<noteq> []
      else \<not> some_stored (\<lambda>_ s. deletes (e_id e) n s \<or> deletes i n s) (pg_view X db)"
    by (auto simp: pg_fits_def pg_plain_def list_ex_iff list_all_iff split: option.splits)
  obtain s where s: "json_to_string X (event_to_json e) = Some s"
    and u: "sint (e_created_at e) = sd_created n" "sint (e_kind e) = sd_kind n"
    and pk: "hex_decode X (e_pubkey e) = Some (sd_author n)" and pos: "0 \<le> sd_created n"
    and row: "if pg_view X db i = None
      then (\<exists>r. pg_new_row X ts_ok now s e db = Inr (Some r) \<and> pe_id r = i \<and> pg_row_view X (pg_insert X r e db) r = n)
      else pg_new_row X ts_ok now s e db = Inr None"
    by (rule pg_entry_row [where now = now and ts_ok = ts_ok, OF hex inv n ok])
  note comp = pg_newer_is_competition [OF inv u pk]
  define blocked where "blocked = some_stored (\<lambda>_ s. competes e n s \<and> sd_created n \<le> sd_created s) (pg_view X db)"
  have start: "pg_write_event X ts_ok now None e db = Done (if blocked then (db, Inr 0) else
      (case pg_new_row X ts_ok now s e db of Inl err \<Rightarrow> (db, Inl err) | Inr None \<Rightarrow> (db, Inr 0)
       | Inr (Some r) \<Rightarrow> pg_after_insert X e r db (pg_insert X r e db)))"
    unfolding blocked_def comp [symmetric] using s ok(2) named pos
    by (cases "distinct_param e") (auto simp: pg_write_event_def Let_def u pg_date_def split: option.split sum.split)
  show ?thesis
  proof (cases "blocked \<or> pg_view X db i \<noteq> None")
    case True
    then show ?thesis using row unfolding start spec_write_def blocked_def [symmetric] by auto
  next
    case False
    then have old: "\<not> (is_replaceable e \<and> pg_newer_replaceable (hex_decode X (e_pubkey e)) e db)"
        "\<And>d. distinct_param e = Some d \<Longrightarrow> \<not> pg_newer_param X (hex_decode X (e_pubkey e)) e d db"
      unfolding blocked_def comp [symmetric] by blast+
    from False row obtain r where r: "pg_new_row X ts_ok now s e db = Inr (Some r)" "pe_id r = i"
        "pg_row_view X (pg_insert X r e db) r = n" by auto
    let ?db = "pg_insert X r e db"
    let ?x = "pg_after_removals X e r ?db"
    define S1 where "S1 = spec_remove (\<lambda>j s. competes e n s \<and> j \<noteq> i) ((pg_view X db)(i \<mapsto> n))"
    have x: "pg_view X ?x = S1"
      unfolding S1_def using pg_view_removals [OF hex inv r(1) plain old] pg_view_insert [OF inv r(1)]
      by (simp add: r(2,3))
    note f = pg_new_row_Some [OF r(1)]
    have a: "pe_pub_key r = sd_author n" using f(2) pk by simp
    have "pg_keys ?db" using inv f(7) by (simp add: pg_inv_def pg_keys_def)
    with pg_insert_typed [OF hex typed r(1) named] have xk: "pg_keys ?x" "pg_typed ?x"
      by (simp_all add: pg_after_removals_keeps)
    have hide: "pg_view X (pg_hide (\<lambda>x. pe_kind x \<noteq> 5 \<and> pe_pub_key x = sd_author n \<and> pe_id x \<in> set T) ?x)
        = spec_hide (\<lambda>j s. sd_kind s \<noteq> 5 \<and> sd_author s = sd_author n \<and> j \<in> set T) S1" for T
      unfolding x [symmetric] by (intro pg_view_hide) simp
    have none: "\<not> pg_deletion_recorded (sd_author n) i ?x \<and> \<not> some_stored (\<lambda>_. deletes (e_id e) n) (pg_view X db)"
      if k: "e_kind e \<noteq> 5"
    proof -
      have "sd_kind n \<noteq> 5" using k u(2) uint_bounded [of "e_kind e"] by (auto simp: sint_u64 word_uint_eq_iff split: if_splits)
      moreover have "pg_view X db i = None" using False by simp
      ultimately have "some_stored (\<lambda>_. deletes j n) S1 \<longleftrightarrow> some_stored (\<lambda>_. deletes j n) (pg_view X db)" for j
        unfolding S1_def by (intro deletions_unchanged)
      with pg_deletion_recorded_view [OF xk, of n i X] del k show ?thesis
        unfolding x some_stored_def by (simp only: if_False) blast
    qed
    have "pg_write_event X ts_ok now None e db = Done (pg_after_insert X e r db ?db)"
      using False by (simp add: start r(1))
    then show ?thesis
      using False none del
      unfolding pg_after_insert_eq spec_write_def blocked_def [symmetric] S1_def [symmetric] Let_def a r(2)
      by (auto simp: x hide)
  qed
qed

lemma pg_delete_expired_refines:
  assumes "pg_keys db" and "uint now < 2 ^ 63" and "ts_ok (uint now)"
  shows "map_exec (\<lambda>(db', _). pg_view X db') (pg_delete_expired ts_ok now db) = Done (spec_expire now (pg_view X db))"
proof -
  have s: "sint now = uint now" using assms(2) by (simp add: sint_u64)
  have "pg_date (uint now)" using order.trans [of _ 0 "uint now"] by (simp add: pg_date_def)
  with assms(2,3) have "map_exec (\<lambda>(db', _). pg_view X db') (pg_delete_expired ts_ok now db)
      = Done (pg_view X (pg_delete (\<lambda>r. case pe_expires r of Some x \<Rightarrow> x \<le> uint now | None \<Rightarrow> False) db))"
    unfolding pg_delete_expired_def Let_def s by simp
  also have "\<dots> = Done (spec_expire now (pg_view X db))"
    unfolding spec_expire_def by (subst pg_view_delete [OF assms(1)]) (auto split: option.splits)
  finally show ?thesis .
qed

section \<open>Both databases\<close>

lemma pg_step:
  assumes hex: "hex_law X" and inv: "pg_inv db" and typed: "pg_typed db" and fit: "pg_fits X ts_ok e (pg_view X db)"
  shows "\<exists>db' r. pg_write_event X ts_ok now None e db = Done (db', r) \<and> (pg_inv db' \<and> pg_typed db')
    \<and> spec_step X e (pg_view X db) = (pg_view X db', r = Inr 1)"
proof -
  from fit obtain i n where n: "spec_entry X e = Some (i, n)" by (auto simp: pg_fits_def pg_plain_def split: option.splits)
  obtain S c where s: "spec_write X e i n (pg_view X db) = (S, c)" by fastforce
  from pg_write_refines [OF hex inv typed fit n, of now] s obtain db'
    where w: "pg_write_event X ts_ok now None e db = Done (db', Inr c)" "pg_view X db' = S"
    by (cases "pg_write_event X ts_ok now None e db") auto
  with pg_write_inv [OF inv w(1)] pg_write_typed [OF hex typed w(1)] spec_write_step [OF n s] show ?thesis by simp
qed

interpretation pg_impl: store_impl X "\<lambda>e. pg_write_event X ts_ok (now e) None e"
  "\<lambda>db. hex_law X \<and> pg_inv db \<and> pg_typed db" "pg_view X" "pg_fits X ts_ok" for X ts_ok now
  by unfold_locales (use pg_step in blast)

lemma both_stores:
  assumes "hex_law X" and "db_inv db" and "pg_inv pg" and "pg_typed pg" and "sql_view db = pg_view X pg"
    and "each_fits (sqlite_fits busy) X es (sql_view db)" and "each_fits (pg_fits X ts_ok) X es (sql_view db)"
  shows "\<exists>db' pg' acc. exec_writes (\<lambda>e db. Done (write_event X (now e) (busy e) e db)) es db = Done (db', acc)
    \<and> exec_writes (\<lambda>e. pg_write_event X ts_ok (now' e) None e) es pg = Done (pg', acc)
    \<and> sql_view db' = pg_view X pg'"
proof -
  from sqlite_impl.writes_refine [OF assms(2,6), of now]
  obtain db' acc where 1: "exec_writes (\<lambda>e db. Done (write_event X (now e) (busy e) e db)) es db = Done (db', acc)"
      "spec_writes X es (sql_view db) = (sql_view db', acc)" by blast
  from pg_impl.writes_refine [of X pg ts_ok es now'] assms
  obtain pg' acc' where 2: "exec_writes (\<lambda>e. pg_write_event X ts_ok (now' e) None e) es pg = Done (pg', acc')"
      "spec_writes X es (sql_view db) = (pg_view X pg', acc')" by auto
  from 1 2 show ?thesis by auto
qed


section \<open>From empty databases\<close>

text \<open>In the list, no deletion comes before an event of which it says that it is deleted.\<close>

fun deletions_follow :: "ext \<Rightarrow> event list \<Rightarrow> event list \<Rightarrow> bool" where
  "deletions_follow X ds [] \<longleftrightarrow> True"
| "deletions_follow X ds (e # es) \<longleftrightarrow>
     (e_kind e \<noteq> 5 \<longrightarrow> list_all (\<lambda>d. (''e'', e_id e) \<notin> event_tags d
        \<and> (case hex_decode X (e_id e) of None \<Rightarrow> True | Some i \<Rightarrow> (''e'', i) \<notin> event_tags d)) ds)
     \<and> deletions_follow X (if e_kind e = 5 then e # ds else ds) es"

definition deletions_from :: "event list \<Rightarrow> store \<Rightarrow> bool" where
  "deletions_from ds S \<longleftrightarrow> (\<forall>i s. S i = Some s \<longrightarrow> sd_kind s = 5 \<longrightarrow> (\<exists>d \<in> set ds. sd_tags s = event_tags d))"

lemma spec_entry_sel:
  assumes "spec_entry X e = Some (i, n)"
  shows "hex_decode X (e_id e) = Some i" and "sd_kind n = uint (e_kind e)" and "sd_tags n = event_tags e"
  using assms by (auto simp: spec_entry_def split: option.splits if_splits)

lemma deletions_from_step:
  assumes "deletions_from ds S"
  shows "deletions_from (if e_kind e = 5 then e # ds else ds) (fst (spec_step X e S))"
proof (cases "spec_entry X e")
  case None
  with assms show ?thesis by (auto simp: spec_step_def deletions_from_def)
next
  case (Some y)
  obtain i n where y: "y = (i, n)" by fastforce
  note sel = spec_entry_sel [OF Some [unfolded y]]
  have "\<exists>t. (S j = Some t \<or> t = n) \<and> sd_kind t = sd_kind s \<and> sd_tags t = sd_tags s"
    if "fst (spec_write X e i n S) j = Some s" for j s
    using that by (auto simp: spec_write_def Let_def spec_hide_Some split: if_splits)
  with assms sel Some y show ?thesis
    unfolding deletions_from_def spec_step_def
    by (fastforce simp: case_prod_beta Let_def word_uint_eq_iff)
qed

lemma deletions_follow_fits:
  assumes "deletions_from ds S" and "list_all (pg_plain X ts_ok) es" and "deletions_follow X ds es"
  shows "each_fits (pg_fits X ts_ok) X es S"
  using assms
proof (induction es arbitrary: ds S)
  case (Cons e es)
  have "\<not> some_stored (\<lambda>_ s. deletes (e_id e) n s \<or> deletes i n s) S"
    if n: "spec_entry X e = Some (i, n)" "e_kind e \<noteq> 5" for i n
  proof
    assume "some_stored (\<lambda>_ s. deletes (e_id e) n s \<or> deletes i n s) S"
    then obtain j s where "S j = Some s" "sd_kind s = 5" "(''e'', e_id e) \<in> sd_tags s \<or> (''e'', i) \<in> sd_tags s"
      by (auto simp: some_stored_def deletes_def)
    with Cons.prems(1) obtain d where "d \<in> set ds" "(''e'', e_id e) \<in> event_tags d \<or> (''e'', i) \<in> event_tags d"
      unfolding deletions_from_def by metis
    with Cons.prems(3) n spec_entry_sel(1) [OF n(1)] show False by (auto simp: list_all_iff)
  qed
  with Cons.prems Cons.IH [OF deletions_from_step [OF Cons.prems(1)]] show ?case
    by (simp add: pg_fits_def)
qed simp

lemma sqlite_each_fits:
  "list_all plain_param es \<Longrightarrow> list_all (\<lambda>e. \<exists>i. 1 \<le> i \<and> i \<le> 10 \<and> busy e i = None) es \<Longrightarrow> each_fits (sqlite_fits busy) X es S"
  by (induction es arbitrary: S) (auto simp: sqlite_fits_def)

lemma empty_views: "sql_view empty_db = Map.empty" "pg_view X empty_pg = Map.empty"
  by (simp_all add: sql_view_def pg_view_def empty_db_def empty_pg_def)

lemma empty_stores:
  assumes hex: "hex_law X" and plain: "list_all (pg_plain X ts_ok) es" and order: "deletions_follow X [] es"
    and free: "list_all (\<lambda>e. \<exists>i. 1 \<le> i \<and> i \<le> 10 \<and> busy e i = None) es"
  shows "\<exists>db pg acc. exec_writes (\<lambda>e db. Done (write_event X (now e) (busy e) e db)) es empty_db = Done (db, acc)
    \<and> exec_writes (\<lambda>e. pg_write_event X ts_ok (now' e) None e) es empty_pg = Done (pg, acc)
    \<and> sql_view db = pg_view X pg"
proof (rule both_stores [OF hex db_inv_empty pg_inv_empty])
  show "pg_typed empty_pg" by (simp add: pg_typed_def empty_pg_def)
  show "sql_view empty_db = pg_view X empty_pg" by (simp add: empty_views)
  have "list_all plain_param es" using plain by (simp add: list_all_iff pg_plain_def)
  then show "each_fits (sqlite_fits busy) X es (sql_view empty_db)" using free by (rule sqlite_each_fits)
  show "each_fits (pg_fits X ts_ok) X es (sql_view empty_db)"
    using plain order by (intro deletions_follow_fits [where ds = "[]"]) (simp_all add: deletions_from_def empty_views)
qed

end
