(* ===== verification/Postgres_Accounts.thy ===== *)
theory Postgres_Accounts
  imports Postgres_Store Sqlite_Accounts
begin

text \<open>
  Verification records, accounts and invoices of the PostgreSQL store
  (\<open>src/src/repo/postgres.rs\<close>). In an order \<open>NULL\<close> comes after every value, so it is first
  in a descending one. The connection is there: one that cannot be had is an error of every
  statement, and of \<open>get_unpaid_invoice\<close> a panic, and changes nothing.
\<close>

section \<open>Verification records\<close>

definition int8 :: "int \<Rightarrow> bool" where
  "int8 n \<longleftrightarrow> - (2 ^ 63) \<le> n \<and> n < 2 ^ 63"

text \<open>The sequence of identifiers moves on even when the insertion fails.\<close>

definition pg_create_verification ::
  "ext \<Rightarrow> u64 \<Rightarrow> string \<Rightarrow> string \<Rightarrow> pg_db \<Rightarrow> pg_db \<times> (error + unit)" where
  "pg_create_verification X now ev name db =
     (let i = pg_next_verification db; moved = db\<lparr>pg_next_verification := i + 1\<rparr> in
      case hex_decode X ev of
        None \<Rightarrow> (moved, Inl (sqlx_error ''null value violates not-null constraint''))
      | Some b \<Rightarrow>
          if \<not> list_ex (\<lambda>r. pe_id r = b) (pg_events db)
          then (moved, Inl (sqlx_error ''violates foreign key constraint''))
          else (moved\<lparr>pg_verifications := filter (\<lambda>v. pv_name v \<noteq> name) (pg_verifications db) @
                  [\<lparr>pv_id = i, pv_event = b, pv_name = name, pv_verified = Some (uint now), pv_failed = None,
                    pv_fail_count = 0\<rparr>]\<rparr>, Inr ()))"

definition pg_map_verification :: "u64 \<Rightarrow> (pg_verification \<Rightarrow> pg_verification) \<Rightarrow> pg_db \<Rightarrow> pg_db" where
  "pg_map_verification i f db =
     db\<lparr>pg_verifications := map (\<lambda>v. if int (pv_id v) = sint i then f v else v) (pg_verifications db)\<rparr>"

definition pg_update_verification ::
  "(int \<Rightarrow> bool) \<Rightarrow> u64 \<Rightarrow> u64 \<Rightarrow> u64 \<Rightarrow> pg_db \<Rightarrow> (pg_db \<times> (error + unit)) exec" where
  "pg_update_verification ts_ok jitter now i db =
     (let t = sint (now_jitter jitter now) in
      if \<not> ts_ok t then Panic
      else if \<not> pg_date t then Done (db, Inl (sqlx_error ''timestamp out of range''))
      else Done (pg_map_verification i (\<lambda>v. v\<lparr>pv_verified := Some t, pv_fail_count := 0\<rparr>) db, Inr ()))"

definition pg_fail_verification :: "u64 \<Rightarrow> u64 \<Rightarrow> pg_db \<Rightarrow> pg_db \<times> (error + unit)" where
  "pg_fail_verification now i db =
     (if list_ex (\<lambda>v. int (pv_id v) = sint i \<and> \<not> int4 (pv_fail_count v + 1)) (pg_verifications db)
      then (db, Inl (sqlx_error ''integer out of range''))
      else (pg_map_verification i (\<lambda>v. v\<lparr>pv_failed := Some (uint now), pv_fail_count := pv_fail_count v + 1\<rparr>) db,
            Inr ()))"

definition pg_delete_verification :: "u64 \<Rightarrow> pg_db \<Rightarrow> pg_db \<times> (error + unit)" where
  "pg_delete_verification i db =
     (db\<lparr>pg_verifications := filter (\<lambda>v. int (pv_id v) \<noteq> sint i) (pg_verifications db)\<rparr>, Inr ())"

definition pg_verification_join :: "pg_db \<Rightarrow> (pg_verification \<times> pg_event) list" where
  "pg_verification_join db =
     concat (map (\<lambda>v. map (Pair v) (filter (\<lambda>r. pe_id r = pv_event v) (pg_events db))) (pg_verifications db))"

definition nulls_last :: "int option \<Rightarrow> nat \<times> int" where
  "nulls_last t = (case t of None \<Rightarrow> (1, 0) | Some x \<Rightarrow> (0, x))"

definition pg_verification_record :: "ext \<Rightarrow> pg_verification \<times> pg_event \<Rightarrow> error + verification_record" where
  "pg_verification_record X ve =
     (let (v, r) = ve in
      case nip05_from_str X (pv_name v) of
        Inl _ \<Rightarrow> Inl (sqlx_error row_not_found)
      | Inr n \<Rightarrow>
          Inr \<lparr>v_rowid = of_nat (pv_id v), v_name = n, v_address = hex_encode X (pe_pub_key r),
               v_event = hex_encode X (pv_event v), v_event_created = word_of_int (pe_created r),
               v_last_success = map_option word_of_int (pv_verified v),
               v_last_failure = map_option word_of_int (pv_failed v),
               v_failure_count = word_of_int (pv_fail_count v)\<rparr>)"

definition pg_no_rows :: error where
  "pg_no_rows = SqlxError row_not_found"

lemma pg_no_rows_recognised: "is_no_rows pg_no_rows"
  by (simp add: is_no_rows_def pg_no_rows_def)

definition pg_latest_verification :: "ext \<Rightarrow> string \<Rightarrow> pg_db \<Rightarrow> error + verification_record" where
  "pg_latest_verification X pub_key db =
     (case first_max (\<lambda>(v, r). (pe_created r, nulls_last (pv_verified v), nulls_last (pv_failed v)))
             (filter (\<lambda>(v, r). hex_decode X pub_key = Some (pe_pub_key r)) (pg_verification_join db)) of
        None \<Rightarrow> Inl pg_no_rows
      | Some ve \<Rightarrow> pg_verification_record X ve)"

definition pg_oldest_verification ::
  "ext \<Rightarrow> (int \<Rightarrow> bool) \<Rightarrow> u64 \<Rightarrow> pg_db \<Rightarrow> (error + verification_record) exec" where
  "pg_oldest_verification X ts_ok before db =
     (if \<not> ts_ok (sint before) then Panic
      else if \<not> pg_date (sint before) then Done (Inl (sqlx_error ''timestamp out of range''))
      else Done (case first_min (\<lambda>(v, r). (nulls_last (pv_verified v), nulls_last (pv_failed v)))
                   (filter (\<lambda>(v, r). before_or_null (pv_verified v) (sint before)
                        \<and> before_or_null (pv_failed v) (sint before)) (pg_verification_join db)) of
                   None \<Rightarrow> Inl pg_no_rows
                 | Some ve \<Rightarrow> pg_verification_record X ve))"

section \<open>Accounts\<close>

definition pg_create_account :: "string \<Rightarrow> pg_db \<Rightarrow> pg_db \<times> (error + bool)" where
  "pg_create_account pub_key db =
     (if list_ex (\<lambda>a. pa_pubkey a = pub_key) (pg_accounts db) then (db, Inr False)
      else (db\<lparr>pg_accounts := pg_accounts db @
              [\<lparr>pa_pubkey = pub_key, pa_admitted = False, pa_balance = 0\<rparr>]\<rparr>, Inr True))"

text \<open>An update of an account; a balance outside the column's range fails the statement.\<close>

definition pg_map_account :: "string \<Rightarrow> (pg_account \<Rightarrow> pg_account) \<Rightarrow> pg_db \<Rightarrow> pg_db" where
  "pg_map_account pub_key f db =
     db\<lparr>pg_accounts := map (\<lambda>a. if pa_pubkey a = pub_key then f a else a) (pg_accounts db)\<rparr>"

definition pg_update_account ::
  "string \<Rightarrow> (pg_account \<Rightarrow> pg_account) \<Rightarrow> pg_db \<Rightarrow> pg_db \<times> (error + unit)" where
  "pg_update_account pub_key f db =
     (if list_ex (\<lambda>a. pa_pubkey a = pub_key \<and> \<not> int8 (pa_balance (f a))) (pg_accounts db)
      then (db, Inl (sqlx_error ''bigint out of range''))
      else (pg_map_account pub_key f db, Inr ()))"

definition pg_admit_account :: "string \<Rightarrow> u64 \<Rightarrow> pg_db \<Rightarrow> pg_db \<times> (error + unit)" where
  "pg_admit_account pub_key cost db =
     pg_update_account pub_key (\<lambda>a. a\<lparr>pa_admitted := True, pa_balance := pa_balance a - sint cost\<rparr>) db"

text \<open>The balance is read with \<open>as u64\<close>.\<close>

definition pg_account_balance :: "string \<Rightarrow> pg_db \<Rightarrow> error + bool \<times> u64" where
  "pg_account_balance pub_key db =
     (case filter (\<lambda>a. pa_pubkey a = pub_key) (pg_accounts db) of
        [] \<Rightarrow> Inl pg_no_rows
      | a # _ \<Rightarrow> Inr (pa_admitted a, word_of_int (pa_balance a)))"

definition pg_update_balance :: "string \<Rightarrow> bool \<Rightarrow> u64 \<Rightarrow> pg_db \<Rightarrow> pg_db \<times> (error + unit)" where
  "pg_update_balance pub_key positive new_balance db =
     pg_update_account pub_key (\<lambda>a. a\<lparr>pa_balance :=
       (if positive then pa_balance a + sint new_balance else pa_balance a - sint new_balance)\<rparr>) db"

section \<open>Invoices\<close>

text \<open>The insertion is unwrapped: what SQLite reports as an error is a panic.\<close>

definition pg_create_invoice :: "u64 \<Rightarrow> string \<Rightarrow> invoice_info \<Rightarrow> pg_db \<Rightarrow> (pg_db \<times> (error + unit)) exec" where
  "pg_create_invoice now pub_key info db =
     (if list_ex (\<lambda>v. pi_hash v = i_payment_hash info) (pg_invoices db)
         \<or> \<not> list_ex (\<lambda>a. pa_pubkey a = pub_key) (pg_accounts db)
         \<or> \<not> list_all pg_text [i_payment_hash info, i_memo info, i_bolt11 info]
      then Panic
      else Done (db\<lparr>pg_invoices := pg_invoices db @
             [\<lparr>pi_hash = i_payment_hash info, pi_pubkey = pub_key, pi_invoice = i_bolt11 info,
               pi_amount = sint (i_amount info), pi_status = invoice_status_text (i_status info),
               pi_description = i_memo info, pi_created = uint now, pi_confirmed = None\<rparr>]\<rparr>, Inr ()))"

definition pg_set_status :: "u64 \<Rightarrow> string \<Rightarrow> invoice_status \<Rightarrow> pg_invoice \<Rightarrow> pg_invoice" where
  "pg_set_status now payment_hash status v =
     (if pi_hash v = payment_hash
      then (if status = Paid
            then v\<lparr>pi_status := invoice_status_text status, pi_confirmed := Some (uint now)\<rparr>
            else v\<lparr>pi_status := invoice_status_text status\<rparr>)
      else v)"

text \<open>The statements are not in one transaction: the new status stays when the balance fails.\<close>

definition pg_update_invoice :: "u64 \<Rightarrow> string \<Rightarrow> invoice_status \<Rightarrow> pg_db \<Rightarrow> pg_db \<times> (error + string)" where
  "pg_update_invoice now payment_hash status db =
     (if \<not> pg_text payment_hash then (db, Inl (sqlx_error ''invalid byte sequence''))
      else case filter (\<lambda>v. pi_hash v = payment_hash) (pg_invoices db) of
        [] \<Rightarrow> (db, Inl pg_no_rows)
      | v # _ \<Rightarrow>
          (let db1 = db\<lparr>pg_invoices := map (pg_set_status now payment_hash status) (pg_invoices db)\<rparr> in
           if pi_status v = ''Unpaid'' \<and> status = Paid then
             (case pg_update_account (pi_pubkey v) (\<lambda>a. a\<lparr>pa_balance := pa_balance a + pi_amount v\<rparr>) db1 of
                (db2, Inl err) \<Rightarrow> (db2, Inl err)
              | (db2, Inr _) \<Rightarrow> (db2, Inr (pi_pubkey v)))
           else (db1, Inr (pi_pubkey v))))"

text \<open>The latest invoice, whatever its status.\<close>

definition pg_unpaid_invoice :: "string \<Rightarrow> pg_db \<Rightarrow> error + invoice_info option" where
  "pg_unpaid_invoice pub_key db =
     Inr (map_option
       (\<lambda>v. \<lparr>i_pubkey = pub_key, i_payment_hash = pi_hash v, i_bolt11 = pi_invoice v,
             i_amount = word_of_int (pi_amount v), i_status = Unpaid,
             i_memo = pi_description v, i_confirmed_at = None\<rparr>)
       (first_max pi_created (filter (\<lambda>v. pi_pubkey v = pub_key) (pg_invoices db))))"

section \<open>Lemmas\<close>

definition pg_balance_of :: "pg_db \<Rightarrow> string \<Rightarrow> int option" where
  "pg_balance_of db pk = map_option pa_balance (List.find (\<lambda>a. pa_pubkey a = pk) (pg_accounts db))"

lemma find_pubkey: "List.find (\<lambda>a. pa_pubkey a = q) as = Some a \<Longrightarrow> pa_pubkey a = q \<and> a \<in> set as"
  by (induction as) (auto split: if_splits)

lemma pg_account_balance_find:
  "pg_account_balance pk db =
     (case List.find (\<lambda>a. pa_pubkey a = pk) (pg_accounts db) of
        None \<Rightarrow> Inl pg_no_rows | Some a \<Rightarrow> Inr (pa_admitted a, word_of_int (pa_balance a)))"
  unfolding pg_account_balance_def by (rule filter_find)

lemma find_map_account:
  assumes "\<And>a. pa_pubkey (f a) = pa_pubkey a"
  shows "List.find (\<lambda>a. pa_pubkey a = q) (pg_accounts (pg_map_account pk f db)) =
    map_option (\<lambda>a. if q = pk then f a else a) (List.find (\<lambda>a. pa_pubkey a = q) (pg_accounts db))"
proof -
  have "List.find (\<lambda>a. pa_pubkey a = q) (map (\<lambda>a. if pa_pubkey a = pk then f a else a) as)
      = map_option (\<lambda>a. if pa_pubkey a = pk then f a else a) (List.find (\<lambda>a. pa_pubkey a = q) as)" for as
    using assms by (intro find_map_same) auto
  then show ?thesis
    by (cases "List.find (\<lambda>a. pa_pubkey a = q) (pg_accounts db)")
      (auto simp: pg_map_account_def dest: find_pubkey)
qed

lemma pg_update_account_ok:
  assumes "pg_update_account pk f db = (db', Inr u)"
  shows "db' = pg_map_account pk f db"
  using assms by (simp add: pg_update_account_def split: if_splits)

text \<open>What an account shows after an admission: the true balance modulo the word size.\<close>

lemma pg_admit_shows:
  assumes "pg_admit_account pk cost db = (db', Inr ())" and "pg_balance_of db pk = Some b"
  shows "pg_balance_of db' pk = Some (b - sint cost)"
    and "pg_account_balance pk db' = Inr (True, word_of_int (b - sint cost))"
proof -
  from assms(1) have db': "db' = pg_map_account pk (\<lambda>a. a\<lparr>pa_admitted := True, pa_balance := pa_balance a - sint cost\<rparr>) db"
    unfolding pg_admit_account_def by (rule pg_update_account_ok)
  from assms(2) obtain a where a: "List.find (\<lambda>a. pa_pubkey a = pk) (pg_accounts db) = Some a" "pa_balance a = b"
    by (auto simp: pg_balance_of_def)
  have f: "List.find (\<lambda>a. pa_pubkey a = pk) (pg_accounts db') =
      Some (a\<lparr>pa_admitted := True, pa_balance := pa_balance a - sint cost\<rparr>)"
    unfolding db' by (subst find_map_account) (simp_all add: a)
  then show "pg_balance_of db' pk = Some (b - sint cost)" by (simp add: pg_balance_of_def a)
  from f show "pg_account_balance pk db' = Inr (True, word_of_int (b - sint cost))"
    by (simp add: pg_account_balance_find a)
qed

lemma word_of_negative:
  assumes "n < 0" and "- (2 ^ 63) \<le> n"
  shows "2 ^ 63 \<le> (word_of_int n :: u64)"
proof -
  have "uint (word_of_int n :: u64) = n mod 2 ^ 64" by (simp add: uint_word_of_int)
  also have "\<dots> = (n + 2 ^ 64) mod 2 ^ 64" by simp
  also have "\<dots> = n + 2 ^ 64" using assms by (intro mod_pos_pos_trivial) simp_all
  finally show ?thesis using assms by (simp add: word_le_def)
qed

text \<open>An invoice is credited when it changes from unpaid to paid, and only then.\<close>

lemma pg_update_invoice_find:
  "pg_text h \<Longrightarrow> pg_update_invoice now h status db =
     (case List.find (\<lambda>v. pi_hash v = h) (pg_invoices db) of
        None \<Rightarrow> (db, Inl pg_no_rows)
      | Some v \<Rightarrow>
          (let db1 = db\<lparr>pg_invoices := map (pg_set_status now h status) (pg_invoices db)\<rparr> in
           if pi_status v = ''Unpaid'' \<and> status = Paid then
             (case pg_update_account (pi_pubkey v) (\<lambda>a. a\<lparr>pa_balance := pa_balance a + pi_amount v\<rparr>) db1 of
                (db2, Inl err) \<Rightarrow> (db2, Inl err)
              | (db2, Inr _) \<Rightarrow> (db2, Inr (pi_pubkey v)))
           else (db1, Inr (pi_pubkey v))))"
  unfolding pg_update_invoice_def by (simp add: filter_find)

lemma pg_balance_invoices [simp]: "pg_balance_of (db\<lparr>pg_invoices := is\<rparr>) q = pg_balance_of db q"
  by (simp add: pg_balance_of_def)

lemma pg_balance_map_account:
  "pg_balance_of (pg_map_account pk (\<lambda>a. a\<lparr>pa_balance := pa_balance a + n\<rparr>) db) q =
     (if q = pk then map_option (\<lambda>b. b + n) (pg_balance_of db q) else pg_balance_of db q)"
  unfolding pg_balance_of_def by (subst find_map_account) (auto simp: option.map_comp comp_def)

lemma pg_update_invoice_balance:
  assumes "List.find (\<lambda>v. pi_hash v = h) (pg_invoices db) = Some v"
    and "pg_update_invoice now h status db = (db', Inr pk)"
  shows "pk = pi_pubkey v" and "pg_balance_of db' q =
    (if q = pk \<and> pi_status v = ''Unpaid'' \<and> status = Paid
     then map_option (\<lambda>b. b + pi_amount v) (pg_balance_of db q) else pg_balance_of db q)"
proof -
  have t: "pg_text h" using assms(2) by (rule_tac ccontr) (simp add: pg_update_invoice_def)
  from assms show "pk = pi_pubkey v"
    by (auto simp: pg_update_invoice_find [OF t] Let_def split: if_splits sum.splits prod.splits)
  with assms show "pg_balance_of db' q =
    (if q = pk \<and> pi_status v = ''Unpaid'' \<and> status = Paid
     then map_option (\<lambda>b. b + pi_amount v) (pg_balance_of db q) else pg_balance_of db q)"
    by (auto simp: pg_update_invoice_find [OF t] Let_def pg_balance_map_account
        split: if_splits sum.splits prod.splits dest!: pg_update_account_ok)
qed

text \<open>
  A paid invoice is still offered: marking invoices does not change which one is the latest.
\<close>

lemma first_max_map:
  "(\<And>x. f (g x) = f x) \<Longrightarrow> first_max f (map g xs) = map_option g (first_max f xs)"
  by (induction xs) (auto split: option.splits)

lemma pg_set_status_sel [simp]:
  "pi_hash (pg_set_status now h s v) = pi_hash v" "pi_pubkey (pg_set_status now h s v) = pi_pubkey v"
  "pi_created (pg_set_status now h s v) = pi_created v" "pi_invoice (pg_set_status now h s v) = pi_invoice v"
  "pi_amount (pg_set_status now h s v) = pi_amount v"
  "pi_description (pg_set_status now h s v) = pi_description v"
  by (simp_all add: pg_set_status_def)

lemma pg_map_account_invoices [simp]: "pg_invoices (pg_map_account pk f db) = pg_invoices db"
  by (simp add: pg_map_account_def)

lemma pg_update_invoice_invoices:
  "pg_invoices (fst (pg_update_invoice now h status db)) = pg_invoices db
   \<or> pg_invoices (fst (pg_update_invoice now h status db)) = map (pg_set_status now h status) (pg_invoices db)"
proof (cases "pg_text h")
  case False
  then show ?thesis by (simp add: pg_update_invoice_def)
next
  case True
  show ?thesis
    unfolding pg_update_invoice_find [OF True]
    by (auto simp: Let_def pg_update_account_def split: option.split)
qed

lemma pg_unpaid_unchanged:
  "pg_unpaid_invoice pk (fst (pg_update_invoice now h status db)) = pg_unpaid_invoice pk db"
proof -
  have "first_max pi_created (filter (\<lambda>v. pi_pubkey v = pk) (map (pg_set_status now h status) xs))
      = map_option (pg_set_status now h status) (first_max pi_created (filter (\<lambda>v. pi_pubkey v = pk) xs))" for xs
    by (simp add: filter_map comp_def first_max_map)
  then show ?thesis
    using pg_update_invoice_invoices [of now h status db]
    by (auto simp: pg_unpaid_invoice_def option.map_comp comp_def)
qed

end
