(* ===== verification/Postgres_Query.thy ===== *)
theory Postgres_Query
  imports Postgres_Store Query_Props
begin

text \<open>
  Queries on the PostgreSQL store (\<open>query_from_filter\<close> and \<open>query_subscription\<close> of
  \<open>src/src/repo/postgres.rs\<close>). The builder collects pieces of text and bound values; its
  flag says whether the next clause needs an \<open>AND\<close>. As for SQLite, the pieces are shown to be
  the printed form of a list of conditions, and the conditions are evaluated on the tables.
\<close>

section \<open>The query builder\<close>

datatype pg_param = PgBlob "bytes option" | PgText string | PgInt int | PgTime int

datatype pg_piece = PgSql string | PgBind pg_param

type_synonym pg_builder = "pg_piece list \<times> bool"

fun pg_separated :: "pg_param list \<Rightarrow> pg_piece list" where
  "pg_separated [] = []"
| "pg_separated [p] = [PgBind p]"
| "pg_separated (p # q # ps) = PgBind p # PgSql '', '' # pg_separated (q # ps)"

fun pg_push :: "pg_piece list \<Rightarrow> pg_builder \<Rightarrow> pg_builder" where
  "pg_push ps (q, push_and) = ((if push_and then q @ [PgSql '' AND ''] else q) @ ps, True)"

definition pg_authors :: "ext \<Rightarrow> req_filter \<Rightarrow> pg_builder \<Rightarrow> pg_builder option" where
  "pg_authors X f b =
     (case f_authors f of
        None \<Rightarrow> Some b
      | Some as \<Rightarrow>
          (let auth_vec = filter is_hex as; ps = pg_separated (map (PgBlob \<circ> hex_decode X) auth_vec) in
           if auth_vec = [] then None
           else Some (pg_push ([PgSql ''(e.pub_key in (''] @ ps @ [PgSql '') OR e.delegated_by in (''] @ ps
                  @ [PgSql ''))'']) b)))"

definition pg_kinds :: "req_filter \<Rightarrow> pg_builder \<Rightarrow> pg_builder option" where
  "pg_kinds f b =
     (case f_kinds f of
        None \<Rightarrow> Some b
      | Some ks \<Rightarrow>
          if ks = [] then None
          else Some (pg_push ([PgSql ''e.kind in (''] @ pg_separated (map (PgInt \<circ> sint) ks) @ [PgSql '')'']) b))"

definition pg_ids :: "ext \<Rightarrow> req_filter \<Rightarrow> pg_builder \<Rightarrow> pg_builder option" where
  "pg_ids X f b =
     (case f_ids f of
        None \<Rightarrow> Some b
      | Some is \<Rightarrow>
          (let id_vec = filter is_hex is in
           if id_vec = [] then None
           else Some (pg_push ([PgSql ''('', PgSql ''id in (''] @ pg_separated (map (PgBlob \<circ> hex_decode X) id_vec)
                  @ [PgSql ''))'']) b)))"

text \<open>One name of the tag map with its values.\<close>

definition pg_tag_group :: "ext \<Rightarrow> string \<Rightarrow> string list \<Rightarrow> pg_piece list" where
  "pg_tag_group X key val =
     (let plain = filter (\<lambda>v. \<not> hex_value v) val; hex = filter hex_value val in
      [PgSql ''(t.\"name\" = '', PgBind (PgText key), PgSql '' AND ('']
      @ (if plain \<noteq> [] then PgSql ''value in ('' # pg_separated (map (PgBlob \<circ> Some) plain) else [])
      @ (if plain \<noteq> [] \<and> hex \<noteq> [] then [PgSql '') OR ''] else [])
      @ (if hex \<noteq> [] then PgSql ''value_hex in ('' # pg_separated (map (PgBlob \<circ> hex_decode X) hex) else [])
      @ [PgSql '')))''])"

fun pg_tag_groups :: "ext \<Rightarrow> bool \<Rightarrow> tag_map \<Rightarrow> pg_piece list option" where
  "pg_tag_groups X push_or [] = Some []"
| "pg_tag_groups X push_or ((key, val) # m) =
     (if val = [] then None
      else map_option (\<lambda>rest. (if push_or then [PgSql '' OR ''] else []) @ pg_tag_group X key val @ rest)
             (pg_tag_groups X True m))"

definition pg_tag_select :: string where
  "pg_tag_select = ''e.id IN (SELECT ee.id FROM \"event\" ee LEFT JOIN tag t on ee.id = t.event_id WHERE ''
     @ ''ee.hidden != 1::bit(1) and ''"

definition pg_tag_clause :: "ext \<Rightarrow> req_filter \<Rightarrow> pg_builder \<Rightarrow> pg_builder option" where
  "pg_tag_clause X f b =
     (case f_tags f of
        None \<Rightarrow> Some b
      | Some m \<Rightarrow>
          if m = [] then Some b
          else map_option (\<lambda>gs. pg_push ([PgSql pg_tag_select] @ gs @ [PgSql '')'']) b)
                 (pg_tag_groups X False m))"

definition pg_time :: "(int \<Rightarrow> bool) \<Rightarrow> string \<Rightarrow> u64 option \<Rightarrow> pg_builder \<Rightarrow> pg_builder exec" where
  "pg_time ts_ok cmp t b =
     (case t of
        None \<Rightarrow> Done b
      | Some n \<Rightarrow>
          if ts_ok (sint n)
          then Done (pg_push [PgSql (''e.created_at '' @ cmp @ '' ''), PgBind (PgTime (sint n))] b)
          else Panic)"

definition pg_finish :: "req_filter \<Rightarrow> pg_builder \<Rightarrow> pg_piece list" where
  "pg_finish f b =
     fst b @ [PgSql (if snd b then '' AND e.hidden != 1::bit(1)'' else ''e.hidden != 1::bit(1)''),
       PgSql '' AND (e.expires_at IS NULL OR e.expires_at > now())'']
     @ (case f_limit f of
          Some lim \<Rightarrow> [PgSql '' ORDER BY e.created_at DESC LIMIT '', PgSql (u64_to_string (min lim 1000))]
        | None \<Rightarrow> [PgSql '' ORDER BY e.created_at ASC LIMIT '', PgSql ''1000''])"

definition pg_select_text :: string where
  "pg_select_text = ''SELECT e.\"content\", e.created_at FROM \"event\" e WHERE ''"

definition pg_query_from_filter :: "ext \<Rightarrow> (int \<Rightarrow> bool) \<Rightarrow> req_filter \<Rightarrow> pg_piece list option exec" where
  "pg_query_from_filter X ts_ok f =
     (if force_no_match f then Done None
      else case Option.bind (Option.bind (Option.bind (pg_authors X f ([PgSql pg_select_text], False)) (pg_kinds f))
                  (pg_ids X f)) (pg_tag_clause X f) of
        None \<Rightarrow> Done None
      | Some b \<Rightarrow>
          exec_bind (pg_time ts_ok ''>='' (f_since f) b) (\<lambda>b1.
          exec_bind (pg_time ts_ok ''<='' (f_until f) b1) (\<lambda>b2.
          Done (Some (pg_finish f b2)))))"

text \<open>The text the builder sends: bound values are numbered.\<close>

fun pg_sql :: "nat \<Rightarrow> pg_piece list \<Rightarrow> string" where
  "pg_sql n [] = []"
| "pg_sql n (PgSql s # ps) = s @ pg_sql n ps"
| "pg_sql n (PgBind p # ps) = ''$'' @ u64_to_string (of_nat n) @ pg_sql (n + 1) ps"

section \<open>The structured form\<close>

datatype pg_cond =
    PgAuthorIn "bytes option list"
  | PgKindIn "int list"
  | PgIdIn "bytes option list"
  | PgTagIn tag_map
  | PgFrom int
  | PgTo int

definition pg_no_match :: "req_filter \<Rightarrow> bool" where
  "pg_no_match f \<longleftrightarrow> force_no_match f
     \<or> (case f_authors f of Some as \<Rightarrow> filter is_hex as = [] | None \<Rightarrow> False)
     \<or> f_kinds f = Some []
     \<or> (case f_ids f of Some is \<Rightarrow> filter is_hex is = [] | None \<Rightarrow> False)
     \<or> (case f_tags f of Some m \<Rightarrow> list_ex (\<lambda>(k, vs). vs = []) m | None \<Rightarrow> False)"

definition pg_conds :: "ext \<Rightarrow> req_filter \<Rightarrow> pg_cond list" where
  "pg_conds X f =
     (case f_authors f of None \<Rightarrow> [] | Some as \<Rightarrow> [PgAuthorIn (map (hex_decode X) (filter is_hex as))])
     @ (case f_kinds f of None \<Rightarrow> [] | Some ks \<Rightarrow> [PgKindIn (map sint ks)])
     @ (case f_ids f of None \<Rightarrow> [] | Some is \<Rightarrow> [PgIdIn (map (hex_decode X) (filter is_hex is))])
     @ (case f_tags f of None \<Rightarrow> [] | Some m \<Rightarrow> if m = [] then [] else [PgTagIn m])
     @ (case f_since f of None \<Rightarrow> [] | Some t \<Rightarrow> [PgFrom (sint t)])
     @ (case f_until f of None \<Rightarrow> [] | Some t \<Rightarrow> [PgTo (sint t)])"

definition pg_dates_ok :: "(int \<Rightarrow> bool) \<Rightarrow> req_filter \<Rightarrow> bool" where
  "pg_dates_ok ts_ok f \<longleftrightarrow> opt_all (\<lambda>t. ts_ok (sint t)) (f_since f) \<and> opt_all (\<lambda>t. ts_ok (sint t)) (f_until f)"

section \<open>Printing\<close>

fun pg_join :: "pg_piece list \<Rightarrow> pg_piece list list \<Rightarrow> pg_piece list" where
  "pg_join sep [] = []"
| "pg_join sep [p] = p"
| "pg_join sep (p # q # ps) = p @ sep @ pg_join sep (q # ps)"

fun pg_print :: "ext \<Rightarrow> pg_cond \<Rightarrow> pg_piece list" where
  "pg_print X (PgAuthorIn bs) =
     [PgSql ''(e.pub_key in (''] @ pg_separated (map PgBlob bs) @ [PgSql '') OR e.delegated_by in (''] @
       pg_separated (map PgBlob bs) @ [PgSql ''))'']"
| "pg_print X (PgKindIn ks) = [PgSql ''e.kind in (''] @ pg_separated (map PgInt ks) @ [PgSql '')'']"
| "pg_print X (PgIdIn bs) = [PgSql ''('', PgSql ''id in (''] @ pg_separated (map PgBlob bs) @ [PgSql ''))'']"
| "pg_print X (PgTagIn m) =
     [PgSql pg_tag_select] @ pg_join [PgSql '' OR ''] (map (\<lambda>(k, vs). pg_tag_group X k vs) m) @ [PgSql '')'']"
| "pg_print X (PgFrom t) = [PgSql ''e.created_at >= '', PgBind (PgTime t)]"
| "pg_print X (PgTo t) = [PgSql ''e.created_at <= '', PgBind (PgTime t)]"

definition pg_printed :: "ext \<Rightarrow> pg_cond list \<Rightarrow> pg_builder" where
  "pg_printed X cs = ([PgSql pg_select_text] @ pg_join [PgSql '' AND ''] (map (pg_print X) cs), cs \<noteq> [])"

section \<open>Evaluation\<close>

definition pg_group_holds :: "ext \<Rightarrow> pg_db \<Rightarrow> pg_event \<Rightarrow> string \<times> string list \<Rightarrow> bool" where
  "pg_group_holds X db r kv =
     list_ex (\<lambda>t. pt_event t = pe_id r \<and> pt_name t = fst kv \<and>
         ((\<exists>v \<in> set (filter (\<lambda>v. \<not> hex_value v) (snd kv)). pt_value t = Some v)
          \<or> (pt_value_hex t \<noteq> None \<and> pt_value_hex t \<in> hex_decode X ` set (filter hex_value (snd kv)))))
       (pg_tags db)"

text \<open>\<open>and\<close> binds more tightly than \<open>OR\<close>: the hidden flag guards the first name only.\<close>

fun pg_cond_holds :: "ext \<Rightarrow> pg_db \<Rightarrow> pg_event \<Rightarrow> pg_cond \<Rightarrow> bool" where
  "pg_cond_holds X db r (PgAuthorIn bs) \<longleftrightarrow>
     Some (pe_pub_key r) \<in> set bs \<or> pe_delegated r \<noteq> None \<and> pe_delegated r \<in> set bs"
| "pg_cond_holds X db r (PgKindIn ks) \<longleftrightarrow> pe_kind r \<in> set ks"
| "pg_cond_holds X db r (PgIdIn bs) \<longleftrightarrow> Some (pe_id r) \<in> set bs"
| "pg_cond_holds X db r (PgTagIn m) \<longleftrightarrow>
     list_ex (\<lambda>ee. pe_id ee = pe_id r \<and>
        (\<not> pe_hidden ee \<and> pg_group_holds X db ee (hd m) \<or> list_ex (pg_group_holds X db ee) (tl m))) (pg_events db)"
| "pg_cond_holds X db r (PgFrom t) \<longleftrightarrow> t \<le> pe_created r"
| "pg_cond_holds X db r (PgTo t) \<longleftrightarrow> pe_created r \<le> t"

fun pg_cond_ok :: "pg_cond \<Rightarrow> bool" where
  "pg_cond_ok (PgTagIn m) \<longleftrightarrow> list_all (pg_text \<circ> fst) m"
| "pg_cond_ok (PgFrom t) \<longleftrightarrow> pg_date t"
| "pg_cond_ok (PgTo t) \<longleftrightarrow> pg_date t"
| "pg_cond_ok _ \<longleftrightarrow> True"

text \<open>The rows of the query with these conditions, or none when the statement fails.\<close>

definition pg_rows ::
  "ext \<Rightarrow> u64 \<Rightarrow> (pg_event list \<Rightarrow> pg_event list) \<Rightarrow> pg_db \<Rightarrow> pg_cond list \<Rightarrow> u64 option \<Rightarrow> pg_event list option" where
  "pg_rows X now scan db cs lim =
     (if \<not> list_all pg_cond_ok cs then None
      else (let hits = filter (\<lambda>r. list_all (pg_cond_holds X db r) cs \<and> \<not> pe_hidden r
                   \<and> opt_all (\<lambda>x. uint now < x) (pe_expires r)) (scan (pg_events db)) in
            case lim of
              Some n \<Rightarrow> Some (take (unat (min n 1000)) (order_desc pe_created hits))
            | None \<Rightarrow> Some (take 1000 (sort_key pe_created hits))))"

definition pg_run_filter ::
  "ext \<Rightarrow> (int \<Rightarrow> bool) \<Rightarrow> u64 \<Rightarrow> (pg_event list \<Rightarrow> pg_event list) \<Rightarrow> pg_db \<Rightarrow> req_filter \<Rightarrow> pg_event list exec" where
  "pg_run_filter X ts_ok now scan db f =
     (if pg_no_match f then Done []
      else if \<not> pg_dates_ok ts_ok f then Panic
      else Done (case pg_rows X now scan db (pg_conds X f) (f_limit f) of None \<Rightarrow> [] | Some rs \<Rightarrow> rs))"

text \<open>The filters one after the other; a panic ends the task.\<close>

fun pg_run_filters ::
  "ext \<Rightarrow> (int \<Rightarrow> bool) \<Rightarrow> u64 \<Rightarrow> (pg_event list \<Rightarrow> pg_event list) \<Rightarrow> pg_db \<Rightarrow> req_filter list \<Rightarrow> string list \<times> bool" where
  "pg_run_filters X ts_ok now scan db [] = ([], True)"
| "pg_run_filters X ts_ok now scan db (f # fs) =
     (case pg_run_filter X ts_ok now scan db f of
        Panic \<Rightarrow> ([], False)
      | Done rs \<Rightarrow> (let (rest, ok) = pg_run_filters X ts_ok now scan db fs in (map pe_content rs @ rest, ok)))"

definition pg_query_subscription ::
  "ext \<Rightarrow> (int \<Rightarrow> bool) \<Rightarrow> u64 \<Rightarrow> (pg_event list \<Rightarrow> pg_event list) \<Rightarrow> nat option \<Rightarrow> pg_db \<Rightarrow> subscription
     \<Rightarrow> query_result list" where
  "pg_query_subscription X ts_ok now scan abort db sub =
     (let (evs, ok) = pg_run_filters X ts_ok now scan db (s_filters sub);
          res = map (\<lambda>s. \<lparr>qr_sub_id = s_id sub, qr_event = s\<rparr>) evs;
          eose = \<lparr>qr_sub_id = s_id sub, qr_event = ''EOSE''\<rparr> in
      case abort of
        Some n \<Rightarrow> take n res
      | None \<Rightarrow> if ok then res @ [eose] else res)"

section \<open>The pieces are the printed conditions\<close>

lemma pg_join_snoc: "ps \<noteq> [] \<Longrightarrow> pg_join sep (ps @ [p]) = pg_join sep ps @ sep @ p"
proof (induction ps)
  case (Cons q ps)
  then show ?case by (cases ps) auto
qed simp

lemma pg_push_printed: "pg_push (pg_print X c) (pg_printed X cs) = pg_printed X (cs @ [c])"
  by (simp add: pg_printed_def pg_join_snoc)

lemma pg_tag_groups_print:
  "pg_tag_groups X push_or m = (if list_ex (\<lambda>(k, vs). vs = []) m then None
     else Some ((if push_or \<and> m \<noteq> [] then [PgSql '' OR ''] else [])
       @ pg_join [PgSql '' OR ''] (map (\<lambda>(k, vs). pg_tag_group X k vs) m)))"
proof (induction X push_or m rule: pg_tag_groups.induct)
  case (2 X push_or key val m)
  then show ?case by (cases m) auto
qed simp

lemma pg_authors_print: "pg_authors X f (pg_printed X cs) =
  (if (case f_authors f of Some as \<Rightarrow> filter is_hex as = [] | None \<Rightarrow> False) then None
   else Some (pg_printed X (cs @ (case f_authors f of None \<Rightarrow> []
     | Some as \<Rightarrow> [PgAuthorIn (map (hex_decode X) (filter is_hex as))]))))"
  by (cases "f_authors f") (simp_all add: pg_authors_def Let_def flip: pg_push_printed)

lemma pg_kinds_print: "pg_kinds f (pg_printed X cs) =
  (if f_kinds f = Some [] then None
   else Some (pg_printed X (cs @ (case f_kinds f of None \<Rightarrow> [] | Some ks \<Rightarrow> [PgKindIn (map sint ks)]))))"
  by (cases "f_kinds f") (simp_all add: pg_kinds_def flip: pg_push_printed)

lemma pg_ids_print: "pg_ids X f (pg_printed X cs) =
  (if (case f_ids f of Some is \<Rightarrow> filter is_hex is = [] | None \<Rightarrow> False) then None
   else Some (pg_printed X (cs @ (case f_ids f of None \<Rightarrow> []
     | Some is \<Rightarrow> [PgIdIn (map (hex_decode X) (filter is_hex is))]))))"
  by (cases "f_ids f") (simp_all add: pg_ids_def Let_def flip: pg_push_printed)

lemma pg_tags_print: "pg_tag_clause X f (pg_printed X cs) =
  (if (case f_tags f of Some m \<Rightarrow> list_ex (\<lambda>(k, vs). vs = []) m | None \<Rightarrow> False) then None
   else Some (pg_printed X (cs @ (case f_tags f of None \<Rightarrow> [] | Some m \<Rightarrow> if m = [] then [] else [PgTagIn m]))))"
  by (cases "f_tags f") (auto simp: pg_tag_clause_def pg_tag_groups_print simp flip: pg_push_printed)

lemma pg_time_print:
  "pg_time ts_ok ''>='' t (pg_printed X cs) = (if opt_all (\<lambda>t. ts_ok (sint t)) t
     then Done (pg_printed X (cs @ (case t of None \<Rightarrow> [] | Some n \<Rightarrow> [PgFrom (sint n)]))) else Panic)"
  "pg_time ts_ok ''<='' t (pg_printed X cs) = (if opt_all (\<lambda>t. ts_ok (sint t)) t
     then Done (pg_printed X (cs @ (case t of None \<Rightarrow> [] | Some n \<Rightarrow> [PgTo (sint n)]))) else Panic)"
  by (cases t; simp add: pg_time_def opt_all_def flip: pg_push_printed)+

lemma pg_query_print:
  "pg_query_from_filter X ts_ok f =
     (if pg_no_match f then Done None
      else if \<not> pg_dates_ok ts_ok f then Panic
      else Done (Some (pg_finish f (pg_printed X (pg_conds X f)))))"
proof -
  have start: "([PgSql pg_select_text], False) = pg_printed X []" by (simp add: pg_printed_def)
  show ?thesis
    unfolding pg_query_from_filter_def start pg_no_match_def pg_dates_ok_def pg_conds_def
    by (cases "opt_all (\<lambda>t. ts_ok (sint t)) (f_since f)"; cases "opt_all (\<lambda>t. ts_ok (sint t)) (f_until f)")
      (simp_all add: pg_authors_print pg_kinds_print pg_ids_print pg_tags_print pg_time_print)
qed

section \<open>What a query returns\<close>

text \<open>
  When a stored event matches a filter: an author may be the delegator, and one of the names
  of the tag map is enough.
\<close>

definition pg_matches :: "ext \<Rightarrow> pg_db \<Rightarrow> req_filter \<Rightarrow> pg_event \<Rightarrow> bool" where
  "pg_matches X db f r \<longleftrightarrow>
     (\<forall>as. f_authors f = Some as \<longrightarrow> (\<exists>a \<in> set as. is_hex a \<and> hex_decode X a \<noteq> None
        \<and> (hex_decode X a = Some (pe_pub_key r) \<or> hex_decode X a = pe_delegated r)))
     \<and> (\<forall>is. f_ids f = Some is \<longrightarrow> (\<exists>i \<in> set is. is_hex i \<and> hex_decode X i = Some (pe_id r)))
     \<and> (\<forall>ks. f_kinds f = Some ks \<longrightarrow> pe_kind r \<in> sint ` set ks)
     \<and> (\<forall>m. f_tags f = Some m \<longrightarrow> (\<forall>(k, vs) \<in> set m. vs \<noteq> [])
        \<and> (m = [] \<or> (\<exists>(k, vs) \<in> set m. \<exists>v \<in> set vs. pg_has_tag X db r k v)))
     \<and> (\<forall>t. f_since f = Some t \<longrightarrow> sint t \<le> pe_created r)
     \<and> (\<forall>t. f_until f = Some t \<longrightarrow> pe_created r \<le> sint t)
     \<and> \<not> force_no_match f"

definition pg_current :: "u64 \<Rightarrow> pg_event \<Rightarrow> bool" where
  "pg_current now r \<longleftrightarrow> \<not> pe_hidden r \<and> opt_all (\<lambda>x. uint now < x) (pe_expires r)"

definition pg_hits :: "ext \<Rightarrow> u64 \<Rightarrow> pg_db \<Rightarrow> req_filter \<Rightarrow> pg_event list" where
  "pg_hits X now db f = filter (\<lambda>r. pg_current now r \<and> pg_matches X db f r) (pg_events db)"

lemma pg_group_iff:
  "pg_group_holds X db r (k, vs) \<longleftrightarrow> (\<exists>v \<in> set vs. pg_has_tag X db r k v)"
proof -
  have "(\<exists>v \<in> set (filter (\<lambda>v. \<not> hex_value v) vs). pt_value t = Some v)
      \<or> (pt_value_hex t \<noteq> None \<and> pt_value_hex t \<in> hex_decode X ` set (filter hex_value vs))
      \<longleftrightarrow> (\<exists>v \<in> set vs. if hex_value v then hex_decode X v \<noteq> None \<and> pt_value_hex t = hex_decode X v
            else pt_value t = Some v)" for t
    by (auto split: if_splits) metis
  then show ?thesis
    unfolding pg_group_holds_def pg_has_tag_def list_ex_iff fst_conv snd_conv by blast
qed

lemma pg_tag_cond:
  assumes "distinct (map pe_id (pg_events db))" and r: "r \<in> set (pg_events db)" "\<not> pe_hidden r" and "m \<noteq> []"
  shows "pg_cond_holds X db r (PgTagIn m) \<longleftrightarrow> (\<exists>(k, vs) \<in> set m. \<exists>v \<in> set vs. pg_has_tag X db r k v)"
proof -
  have "ee = r" if "ee \<in> set (pg_events db)" "pe_id ee = pe_id r" for ee
    using assms(1) that r(1) by (auto simp: distinct_map dest: inj_onD)
  then have "pg_cond_holds X db r (PgTagIn m) \<longleftrightarrow> list_ex (pg_group_holds X db r) (hd m # tl m)"
    using r by (auto simp: list_ex_iff)
  also have "\<dots> \<longleftrightarrow> (\<exists>kv \<in> set m. pg_group_holds X db r kv)" using assms(4) by (simp add: list_ex_iff)
  finally show ?thesis by (simp add: case_prod_beta pg_group_iff [symmetric])
qed

lemma blob_in:
  "Some b \<in> set (map (hex_decode X) (filter is_hex as)) \<longleftrightarrow> (\<exists>a \<in> set as. is_hex a \<and> hex_decode X a = Some b)"
  by (auto simp: image_iff)

lemma pg_author_cond:
  "pg_cond_holds X db r (PgAuthorIn (map (hex_decode X) (filter is_hex as))) \<longleftrightarrow>
     (\<exists>a \<in> set as. is_hex a \<and> hex_decode X a \<noteq> None
        \<and> (hex_decode X a = Some (pe_pub_key r) \<or> hex_decode X a = pe_delegated r))"
  by (cases "pe_delegated r") (auto simp: blob_in simp del: set_map)

lemma pg_conds_hold:
  assumes "distinct (map pe_id (pg_events db))" and r: "r \<in> set (pg_events db)" "\<not> pe_hidden r"
    and f: "\<not> pg_no_match f"
  shows "list_all (pg_cond_holds X db r) (pg_conds X f) \<longleftrightarrow> pg_matches X db f r"
proof -
  have t: "list_all (pg_cond_holds X db r) (case f_tags f of None \<Rightarrow> [] | Some m \<Rightarrow> if m = [] then [] else [PgTagIn m])
      \<longleftrightarrow> (\<forall>m. f_tags f = Some m \<longrightarrow> (\<forall>(k, vs) \<in> set m. vs \<noteq> [])
        \<and> (m = [] \<or> (\<exists>(k, vs) \<in> set m. \<exists>v \<in> set vs. pg_has_tag X db r k v)))"
    using f pg_tag_cond [OF assms(1) r]
    by (cases "f_tags f") (auto simp: pg_no_match_def list_ex_iff simp del: pg_cond_holds.simps(4))
  have a: "list_all (pg_cond_holds X db r) (case f_authors f of None \<Rightarrow> []
        | Some as \<Rightarrow> [PgAuthorIn (map (hex_decode X) (filter is_hex as))])
      \<longleftrightarrow> (\<forall>as. f_authors f = Some as \<longrightarrow> (\<exists>a \<in> set as. is_hex a \<and> hex_decode X a \<noteq> None
        \<and> (hex_decode X a = Some (pe_pub_key r) \<or> hex_decode X a = pe_delegated r)))"
    by (cases "f_authors f") (simp_all add: pg_author_cond del: pg_cond_holds.simps(1))
  have i: "list_all (pg_cond_holds X db r) (case f_ids f of None \<Rightarrow> []
        | Some is \<Rightarrow> [PgIdIn (map (hex_decode X) (filter is_hex is))])
      \<longleftrightarrow> (\<forall>is. f_ids f = Some is \<longrightarrow> (\<exists>i \<in> set is. is_hex i \<and> hex_decode X i = Some (pe_id r)))"
    by (cases "f_ids f") (simp_all add: blob_in del: set_map)
  have "\<not> force_no_match f" using f by (simp add: pg_no_match_def)
  then show ?thesis
    unfolding pg_conds_def list_all_append t a i pg_matches_def
    by (auto split: option.split)
qed

lemma pg_no_match_hits: "pg_no_match f \<Longrightarrow> pg_hits X now db f = []"
proof -
  assume "pg_no_match f"
  then have "\<not> pg_matches X db f r" for r
    by (auto simp: pg_no_match_def pg_matches_def list_ex_iff filter_empty_conv split: option.splits)
  then show ?thesis by (simp add: pg_hits_def)
qed

definition pg_bound :: "req_filter \<Rightarrow> nat" where
  "pg_bound f = (case f_limit f of None \<Rightarrow> 1000 | Some n \<Rightarrow> unat (min n 1000))"

definition pg_rank :: "req_filter \<Rightarrow> pg_event \<Rightarrow> int" where
  "pg_rank f r = (if f_limit f = None then pe_created r else - pe_created r)"

lemma sort_take:
  fixes g :: "'a \<Rightarrow> int"
  shows "\<exists>rest. mset (take n (sort_key g xs) @ rest) = mset xs
    \<and> length (take n (sort_key g xs)) = min n (length xs)
    \<and> sorted (map g (take n (sort_key g xs)))
    \<and> (\<forall>x \<in> set (take n (sort_key g xs)). \<forall>y \<in> set rest. g x \<le> g y)"
proof (intro exI [of _ "drop n (sort_key g xs)"] conjI)
  let ?ys = "sort_key g xs"
  have s: "sorted (map g (take n ?ys @ drop n ?ys))" by simp
  show "mset (take n ?ys @ drop n ?ys) = mset xs" by simp
  show "length (take n ?ys) = min n (length xs)" by (simp add: min.commute)
  show "sorted (map g (take n ?ys))" using s by (simp only: map_append sorted_append)
  show "\<forall>x \<in> set (take n ?ys). \<forall>y \<in> set (drop n ?ys). g x \<le> g y"
    using s by (simp only: map_append sorted_append set_map) blast
qed

lemma pg_run_filter_result:
  assumes keys: "distinct (map pe_id (pg_events db))" and scan: "mset (scan (pg_events db)) = mset (pg_events db)"
    and ok: "pg_dates_ok ts_ok f" "list_all pg_cond_ok (pg_conds X f)"
  shows "\<exists>rs rest. pg_run_filter X ts_ok now scan db f = Done rs
    \<and> mset (rs @ rest) = mset (pg_hits X now db f)
    \<and> length rs = min (pg_bound f) (length (pg_hits X now db f))
    \<and> sorted (map (pg_rank f) rs) \<and> (\<forall>x \<in> set rs. \<forall>y \<in> set rest. pg_rank f x \<le> pg_rank f y)"
proof (cases "pg_no_match f")
  case True
  then show ?thesis by (simp add: pg_run_filter_def pg_no_match_hits)
next
  case False
  define hs where "hs = filter (\<lambda>r. list_all (pg_cond_holds X db r) (pg_conds X f) \<and> \<not> pe_hidden r
    \<and> opt_all (\<lambda>x. uint now < x) (pe_expires r)) (scan (pg_events db))"
  have "filter (\<lambda>r. list_all (pg_cond_holds X db r) (pg_conds X f) \<and> \<not> pe_hidden r
      \<and> opt_all (\<lambda>x. uint now < x) (pe_expires r)) (pg_events db) = pg_hits X now db f"
    unfolding pg_hits_def using pg_conds_hold [OF keys _ _ False]
    by (intro filter_cong) (auto simp: pg_current_def)
  then have m: "mset hs = mset (pg_hits X now db f)"
    unfolding hs_def using scan by (metis mset_filter)
  then have l: "length hs = length (pg_hits X now db f)" by (rule mset_eq_length)
  have rank: "pg_rank f = (if f_limit f = None then pe_created else (\<lambda>r. - pe_created r))"
    by (rule ext) (simp add: pg_rank_def)
  have run: "pg_run_filter X ts_ok now scan db f = Done (take (pg_bound f) (sort_key (pg_rank f) hs))"
    using False ok
    by (cases "f_limit f")
      (simp_all add: pg_run_filter_def pg_rows_def Let_def pg_bound_def rank order_desc_def flip: hs_def)
  show ?thesis unfolding run using sort_take [of "pg_bound f" "pg_rank f" hs] m l by auto
qed

text \<open>The text the repository's own test expects for two names of tags.\<close>

lemma pg_query_multiple_tags:
  "map_exec (map_option (pg_sql 1)) (pg_query_from_filter ext0 (\<lambda>_. True)
     \<lparr>f_ids = None, f_kinds = Some [30001], f_since = None, f_until = None, f_authors = None, f_limit = None,
      f_tags = Some [(''d'', [''follow'']), (''t'', [''siamstr''])], force_no_match = False\<rparr>)
   = Done (Some (''SELECT e.\"content\", e.created_at FROM \"event\" e WHERE e.kind in ($1) AND e.id IN ''
       @ ''(SELECT ee.id FROM \"event\" ee LEFT JOIN tag t on ee.id = t.event_id WHERE ee.hidden != 1::bit(1) and ''
       @ ''(t.\"name\" = $2 AND (value in ($3))) OR (t.\"name\" = $4 AND (value in ($5)))) AND ''
       @ ''e.hidden != 1::bit(1) AND (e.expires_at IS NULL OR e.expires_at > now()) ''
       @ ''ORDER BY e.created_at ASC LIMIT 1000''))"
  by code_simp

end
