(* ===== verification/Schema.thy ===== *)
theory Schema
  imports Relay_Prelude
begin

text \<open>
  Statements that change the schema of a database, as the migrations of
  \<open>src/src/repo/sqlite_migration.rs\<close> and \<open>src/src/repo/postgres_migration.rs\<close> use them: tables
  with their columns, indexes and unique constraints, and enumeration types. A statement may
  fail (an object exists already, or is missing); settings of the connection, which change
  no table, are left out.
\<close>

record column =
  cn_name :: string
  cn_type :: string
  cn_not_null :: bool

record schema =
  sc_tables :: "(string \<times> column list) list"
  sc_indexes :: "(string \<times> string \<times> string list) list"
  sc_types :: "string list"

text \<open>The first flag of a statement is its \<open>IF [NOT] EXISTS\<close>.\<close>

datatype ddl =
    CreateTable bool string "column list"
  | DropTable bool string
  | AddColumn string column
  | DropNotNull string string
  | CreateIndex bool string string "string list"
  | DropIndex string
  | AddUnique string string "string list"
  | CreateType string

definition empty_schema :: schema where
  "empty_schema = \<lparr>sc_tables = [], sc_indexes = [], sc_types = []\<rparr>"

abbreviation col :: "string \<Rightarrow> string \<Rightarrow> column" where
  "col n t \<equiv> \<lparr>cn_name = n, cn_type = t, cn_not_null = False\<rparr>"

abbreviation col_nn :: "string \<Rightarrow> string \<Rightarrow> column" where
  "col_nn n t \<equiv> \<lparr>cn_name = n, cn_type = t, cn_not_null = True\<rparr>"

definition columns_of :: "schema \<Rightarrow> string \<Rightarrow> string list option" where
  "columns_of s t = map_option (map cn_name) (map_of (sc_tables s) t)"

definition has_columns :: "schema \<Rightarrow> string \<Rightarrow> string list \<Rightarrow> bool" where
  "has_columns s t cs \<longleftrightarrow> (case columns_of s t of None \<Rightarrow> False | Some ds \<Rightarrow> set cs \<subseteq> set ds)"

definition has_index :: "schema \<Rightarrow> string \<Rightarrow> bool" where
  "has_index s n \<longleftrightarrow> n \<in> fst ` set (sc_indexes s)"

definition map_columns :: "string \<Rightarrow> (column list \<Rightarrow> column list) \<Rightarrow> schema \<Rightarrow> schema" where
  "map_columns t f s = s\<lparr>sc_tables := map (\<lambda>(n, cs). (n, if n = t then f cs else cs)) (sc_tables s)\<rparr>"

fun run_ddl :: "ddl \<Rightarrow> schema \<Rightarrow> schema option" where
  "run_ddl (CreateTable ine t cs) s =
     (if columns_of s t \<noteq> None then (if ine then Some s else None)
      else Some (s\<lparr>sc_tables := sc_tables s @ [(t, cs)]\<rparr>))"
| "run_ddl (DropTable ife t) s =
     (if columns_of s t = None then (if ife then Some s else None)
      else Some (s\<lparr>sc_tables := filter (\<lambda>(n, _). n \<noteq> t) (sc_tables s),
                   sc_indexes := filter (\<lambda>(_, n, _). n \<noteq> t) (sc_indexes s)\<rparr>))"
| "run_ddl (AddColumn t c) s =
     (if columns_of s t = None \<or> has_columns s t [cn_name c] then None
      else Some (map_columns t (\<lambda>cs. cs @ [c]) s))"
| "run_ddl (DropNotNull t n) s =
     (if \<not> has_columns s t [n] then None
      else Some (map_columns t (map (\<lambda>c. if cn_name c = n then c\<lparr>cn_not_null := False\<rparr> else c)) s))"
| "run_ddl (CreateIndex ine n t cs) s =
     (if has_index s n then (if ine then Some s else None)
      else if \<not> has_columns s t cs then None
      else Some (s\<lparr>sc_indexes := sc_indexes s @ [(n, t, cs)]\<rparr>))"
| "run_ddl (DropIndex n) s = Some (s\<lparr>sc_indexes := filter (\<lambda>(m, _). m \<noteq> n) (sc_indexes s)\<rparr>)"
| "run_ddl (AddUnique n t cs) s =
     (if has_index s n \<or> \<not> has_columns s t cs then None
      else Some (s\<lparr>sc_indexes := sc_indexes s @ [(n, t, cs)]\<rparr>))"
| "run_ddl (CreateType n) s = (if n \<in> set (sc_types s) then None else Some (s\<lparr>sc_types := n # sc_types s\<rparr>))"

fun run_ddls :: "ddl list \<Rightarrow> schema \<Rightarrow> schema option" where
  "run_ddls [] s = Some s"
| "run_ddls (d # ds) s = Option.bind (run_ddl d s) (run_ddls ds)"

lemma run_ddls_append: "run_ddls (ds @ es) s = Option.bind (run_ddls ds s) (run_ddls es)"
  by (induction ds arbitrary: s) (auto simp: bind_assoc split: Option.bind_split)

text \<open>A statement about other tables leaves the columns of a table as they are.\<close>

fun keeps_table :: "string \<Rightarrow> ddl \<Rightarrow> bool" where
  "keeps_table t (CreateTable _ n _) = (n \<noteq> t)"
| "keeps_table t (DropTable _ n) = (n \<noteq> t)"
| "keeps_table t (AddColumn n _) = (n \<noteq> t)"
| "keeps_table t _ = True"

lemma map_of_filter_other: "n \<noteq> t \<Longrightarrow> map_of (filter (\<lambda>(m, _). m \<noteq> n) xs) t = map_of xs t"
  by (induction xs) auto

lemma map_of_columns:
  "map_of (map (\<lambda>(n, cs). (n, if n = u then f cs else cs)) xs) t
     = map_option (\<lambda>cs. if t = u then f cs else cs) (map_of xs t)"
  by (induction xs) auto

lemma columns_map:
  assumes "t \<noteq> u \<or> (\<forall>cs. map cn_name (f cs) = map cn_name cs)"
  shows "columns_of (map_columns u f s) t = columns_of s t"
  using assms by (cases "map_of (sc_tables s) t") (auto simp: columns_of_def map_columns_def map_of_columns)

lemma names_not_null: "map cn_name (map (\<lambda>c. if cn_name c = n then c\<lparr>cn_not_null := False\<rparr> else c) cs) = map cn_name cs"
  by (induction cs) auto

lemma columns_same: "sc_tables s' = sc_tables s \<Longrightarrow> columns_of s' t = columns_of s t"
  by (simp add: columns_of_def)

lemma run_ddl_keeps: "run_ddl d s = Some s' \<Longrightarrow> keeps_table t d \<Longrightarrow> columns_of s' t = columns_of s t"
proof (cases d)
  case (CreateTable b n cs)
  then show "run_ddl d s = Some s' \<Longrightarrow> keeps_table t d \<Longrightarrow> ?thesis"
    by (auto simp: columns_of_def map_add_def split: if_splits option.split)
next
  case (DropTable b n)
  then show "run_ddl d s = Some s' \<Longrightarrow> keeps_table t d \<Longrightarrow> ?thesis"
    by (auto simp: columns_of_def map_of_filter_other split: if_splits)
next
  case (AddColumn n c)
  then show "run_ddl d s = Some s' \<Longrightarrow> keeps_table t d \<Longrightarrow> ?thesis"
    by (auto simp: columns_map split: if_splits)
next
  case (DropNotNull u n)
  then show "run_ddl d s = Some s' \<Longrightarrow> ?thesis"
    by (auto simp: columns_map names_not_null split: if_splits)
qed (auto intro!: columns_same split: if_splits)

lemma run_ddls_keeps:
  "run_ddls ds s = Some s' \<Longrightarrow> list_all (keeps_table t) ds \<Longrightarrow> columns_of s' t = columns_of s t"
  by (induction ds arbitrary: s) (auto split: bind_splits dest: run_ddl_keeps)

lemma run_new_table:
  assumes "run_ddls (DropTable b t # CreateTable False t cs # ds) s = Some s'" and "list_all (keeps_table t) ds"
  shows "columns_of s' t = Some (map cn_name cs)"
proof -
  from assms(1) obtain s1 s2 where s1: "run_ddl (DropTable b t) s = Some s1"
    and s2: "run_ddl (CreateTable False t cs) s1 = Some s2" and rest: "run_ddls ds s2 = Some s'"
    by (auto simp del: run_ddl.simps split: bind_splits)
  from s2 have "columns_of s2 t = Some (map cn_name cs)"
    by (auto simp: columns_of_def map_add_def split: if_splits option.splits)
  with run_ddls_keeps [OF rest assms(2)] show ?thesis by simp
qed

end
