(* ===== verification/Sqlite_Migration.thy ===== *)
theory Sqlite_Migration
  imports Schema Sqlite_Props
begin

text \<open>
  The upgrade of an old SQLite database (\<open>src/src/repo/sqlite_migration.rs\<close>): the schema of a
  new database, one function for each step between two versions, and \<open>upgrade_db\<close>. A
  database of an old version has rows with fewer or other columns, so its tables have their
  own records: a column that a version does not have yet is \<open>None\<close> or unused. A batch that
  fails ends the program; statements with \<open>?\<close> return the error. Foreign keys are enforced,
  as the library's default says. Settings of the connection and indexes do not change rows.
\<close>

section \<open>Old databases\<close>

record old_event =
  oe_id :: nat
  oe_hash :: bytes
  oe_first_seen :: int
  oe_created :: int
  oe_expires :: "int option"
  oe_author :: bytes
  oe_delegated :: "bytes option"
  oe_kind :: int
  oe_hidden :: "bool option"
  oe_content :: string

record old_tag =
  ot_event :: nat
  ot_name :: string
  ot_value :: "string option"
  ot_value_hex :: "bytes option"
  ot_created :: "int option"
  ot_kind :: "int option"

record old_db =
  od_version :: nat
  od_schema :: schema
  od_events :: "old_event list"
  od_tags :: "old_tag list"
  od_event_refs :: "(nat \<times> bytes) list"
  od_pubkey_refs :: "(nat \<times> bytes) list"
  od_verifications :: "verification_row list"

type_synonym migration = "old_db \<Rightarrow> (old_db \<times> (error + nat)) exec"

definition db_version :: nat where
  "db_version = 18"

definition no_such_column :: error where
  "no_such_column = sqlite_failure ''no such table or column''"

section \<open>The schema of a new database\<close>

definition tag_columns :: "column list" where
  "tag_columns = [col ''id'' ''INTEGER PRIMARY KEY'', col_nn ''event_id'' ''INTEGER'', col ''name'' ''TEXT'',
     col ''value'' ''TEXT'', col ''value_hex'' ''BLOB'']"

definition verification_ddl :: "ddl list" where
  "verification_ddl =
     [CreateTable True ''user_verification''
        [col ''id'' ''INTEGER PRIMARY KEY'', col_nn ''metadata_event'' ''INTEGER'', col_nn ''name'' ''TEXT'',
         col ''verified_at'' ''INTEGER'', col ''failed_at'' ''INTEGER'', col ''failure_count'' ''INTEGER''],
      CreateIndex True ''user_verification_name_index'' ''user_verification'' [''name''],
      CreateIndex True ''user_verification_event_index'' ''user_verification'' [''metadata_event'']]"

definition account_ddl :: ddl where
  "account_ddl = CreateTable True ''account''
     [col ''pubkey'' ''TEXT PRIMARY KEY'', col_nn ''is_admitted'' ''INTEGER'', col_nn ''balance'' ''INTEGER'',
      col ''tos_accepted_at'' ''INTEGER'']"

definition invoice_ddl :: "ddl list" where
  "invoice_ddl =
     [CreateTable True ''invoice''
        [col ''payment_hash'' ''TEXT PRIMARY KEY'', col_nn ''pubkey'' ''TEXT'', col_nn ''invoice'' ''TEXT'',
         col_nn ''amount'' ''INTEGER'', col_nn ''status'' ''TEXT'', col ''description'' ''TEXT'',
         col_nn ''created_at'' ''INTEGER'', col ''confirmed_at'' ''INTEGER''],
      CreateIndex True ''invoice_pubkey_index'' ''invoice'' [''pubkey'']]"

definition tag_index_ddl :: "ddl list" where
  "tag_index_ddl =
     [CreateIndex True ''tag_val_index'' ''tag'' [''value''],
      CreateIndex True ''tag_composite_index'' ''tag'' [''event_id'', ''name'', ''value''],
      CreateIndex True ''tag_name_eid_index'' ''tag'' [''name'', ''event_id'', ''value''],
      CreateIndex True ''tag_covering_index'' ''tag'' [''name'', ''kind'', ''value'', ''created_at'', ''event_id'']]"

definition init_ddl :: "ddl list" where
  "init_ddl =
     [CreateTable True ''event''
        [col ''id'' ''INTEGER PRIMARY KEY'', col_nn ''event_hash'' ''BLOB'', col_nn ''first_seen'' ''INTEGER'',
         col_nn ''created_at'' ''INTEGER'', col ''expires_at'' ''INTEGER'', col_nn ''author'' ''BLOB'',
         col ''delegated_by'' ''BLOB'', col_nn ''kind'' ''INTEGER'', col ''hidden'' ''INTEGER'',
         col_nn ''content'' ''TEXT''],
      CreateIndex True ''event_hash_index'' ''event'' [''event_hash''],
      CreateIndex True ''author_index'' ''event'' [''author''],
      CreateIndex True ''kind_index'' ''event'' [''kind''],
      CreateIndex True ''created_at_index'' ''event'' [''created_at''],
      CreateIndex True ''delegated_by_index'' ''event'' [''delegated_by''],
      CreateIndex True ''event_composite_index'' ''event'' [''kind'', ''created_at''],
      CreateIndex True ''kind_author_index'' ''event'' [''kind'', ''author''],
      CreateIndex True ''kind_created_at_index'' ''event'' [''kind'', ''created_at''],
      CreateIndex True ''author_created_at_index'' ''event'' [''author'', ''created_at''],
      CreateIndex True ''author_kind_index'' ''event'' [''author'', ''kind''],
      CreateIndex True ''event_expiration'' ''event'' [''expires_at''],
      CreateTable True ''tag'' (tag_columns @ [col_nn ''created_at'' ''INTEGER'', col_nn ''kind'' ''INTEGER''])]
     @ tag_index_ddl @ verification_ddl
     @ [account_ddl, CreateIndex True ''user_pubkey_index'' ''account'' [''pubkey'']] @ invoice_ddl"

section \<open>One step\<close>

text \<open>A batch that changes the schema and then, perhaps, the rows.\<close>

definition batch :: "ddl list \<Rightarrow> (old_db \<Rightarrow> old_db) \<Rightarrow> nat \<Rightarrow> migration" where
  "batch ds f v s =
     (case run_ddls ds (od_schema s) of
        None \<Rightarrow> Panic
      | Some sc \<Rightarrow> Done ((f s)\<lparr>od_schema := sc, od_version := v\<rparr>, Inr v))"

definition mig_init :: migration where
  "mig_init = batch init_ddl id db_version"

definition mig_1_to_2 :: migration where
  "mig_1_to_2 = batch [AddColumn ''event'' (col ''hidden'' ''INTEGER'')]
     (\<lambda>s. s\<lparr>od_events := map (\<lambda>r. r\<lparr>oe_hidden := Some False\<rparr>) (od_events s)\<rparr>) 2"

text \<open>The references of events and authors become tags; they are read from two older tables.\<close>

definition ref_tags :: "ext \<Rightarrow> old_db \<Rightarrow> old_tag list" where
  "ref_tags X s =
     (let refs = remdups (map (\<lambda>(i, b). (i, ''e'', hex_encode X b)) (od_event_refs s)
                   @ map (\<lambda>(i, b). (i, ''p'', hex_encode X b)) (od_pubkey_refs s)) in
      map (\<lambda>(i, n, v). \<lparr>ot_event = i, ot_name = n, ot_value = None, ot_value_hex = hex_decode X v,
                        ot_created = None, ot_kind = None\<rparr>)
        (filter (\<lambda>(i, n, v). is_lower_hex v) refs))"

definition mig_2_to_3 :: "ext \<Rightarrow> migration" where
  "mig_2_to_3 X s =
     (case run_ddls [CreateTable True ''tag'' tag_columns] (od_schema s) of
        None \<Rightarrow> Panic
      | Some sc \<Rightarrow>
          (let s1 = s\<lparr>od_schema := sc, od_version := 3\<rparr> in
           if has_columns sc ''event_ref'' [''event_id'', ''referenced_event'']
              \<and> has_columns sc ''pubkey_ref'' [''event_id'', ''referenced_pubkey'']
              \<and> has_columns sc ''tag'' [''event_id'', ''name'', ''value_hex'']
           then Done (s1\<lparr>od_tags := od_tags s1 @ ref_tags X s1\<rparr>, Inr 3)
           else Done (s1, Inl no_such_column)))"

definition mig_3_to_4 :: migration where
  "mig_3_to_4 = batch verification_ddl id 4"

definition mig_4_to_5 :: migration where
  "mig_4_to_5 = batch [DropTable True ''event_ref'', DropTable True ''pubkey_ref'']
     (\<lambda>s. s\<lparr>od_event_refs := [], od_pubkey_refs := []\<rparr>) 5"

text \<open>The stored texts are parsed again, in the order of the rows.\<close>

definition stored_event :: "ext \<Rightarrow> old_event \<Rightarrow> error + event" where
  "stored_event X r =
     (case Option.bind (json_from_str X (oe_content r)) event_from_json of
        None \<Rightarrow> Inl (JsonParseFailed (json_error X (oe_content r)))
      | Some e \<Rightarrow> Inr e)"

fun rebuilt :: "ext \<Rightarrow> (old_event \<Rightarrow> tag \<Rightarrow> old_tag) \<Rightarrow> old_event list \<Rightarrow> error + old_tag list" where
  "rebuilt X mk [] = Inr []"
| "rebuilt X mk (r # rs) =
     result_bind (stored_event X r) (\<lambda>e.
     result_bind (rebuilt X mk rs) (\<lambda>ts.
     Inr (map (mk r) (filter (\<lambda>t. 1 < length t \<and> single_char_tagname (t ! 0) \<noteq> None) (e_tags e)) @ ts)))"

definition hex_tag :: "ext \<Rightarrow> old_event \<Rightarrow> tag \<Rightarrow> old_tag" where
  "hex_tag X r t =
     (if even (length (t ! 1)) \<and> is_lower_hex (t ! 1)
      then \<lparr>ot_event = oe_id r, ot_name = t ! 0, ot_value = None, ot_value_hex = hex_decode X (t ! 1),
            ot_created = None, ot_kind = None\<rparr>
      else \<lparr>ot_event = oe_id r, ot_name = t ! 0, ot_value = Some (t ! 1), ot_value_hex = None,
            ot_created = None, ot_kind = None\<rparr>)"

definition mig_5_to_6 :: "ext \<Rightarrow> migration" where
  "mig_5_to_6 X s =
     (if \<not> (has_columns (od_schema s) ''tag'' [''event_id'', ''name'', ''value'', ''value_hex'']
            \<and> has_columns (od_schema s) ''event'' [''id'', ''content''])
      then Done (s, Inl no_such_column)
      else case rebuilt X (hex_tag X) (sort_key oe_id (od_events s)) of
             Inl err \<Rightarrow> Done (s, Inl err)
           | Inr ts \<Rightarrow> Done (s\<lparr>od_tags := ts, od_version := 6\<rparr>, Inr 6))"

definition mig_6_to_7 :: migration where
  "mig_6_to_7 = batch [AddColumn ''event'' (col ''delegated_by'' ''BLOB''),
     CreateIndex True ''delegated_by_index'' ''event'' [''delegated_by'']]
     (\<lambda>s. s\<lparr>od_events := map (\<lambda>r. r\<lparr>oe_delegated := None\<rparr>) (od_events s)\<rparr>) 7"

definition mig_7_to_8 :: migration where
  "mig_7_to_8 = batch [DropIndex ''created_at_index'', DropIndex ''kind_index'',
     CreateIndex True ''event_composite_index'' ''event'' [''kind'', ''created_at'']] id 8"

definition mig_8_to_9 :: migration where
  "mig_8_to_9 = batch [CreateIndex True ''created_at_index'' ''event'' [''created_at''],
     CreateIndex True ''event_composite_index'' ''event'' [''kind'', ''created_at'']] id 9"

definition mig_9_to_10 :: migration where
  "mig_9_to_10 = batch [CreateIndex True ''tag_composite_index'' ''tag''
     [''event_id'', ''name'', ''value_hex'', ''value'']] id 10"

definition mig_10_to_11 :: migration where
  "mig_10_to_11 = batch [CreateIndex True ''tag_name_eid_index'' ''tag'' [''name'', ''event_id'', ''value_hex'']] id 11"

text \<open>
  For every stored replaceable event, the events of its author and kind are hidden but the
  latest. A row whose flag is \<open>NULL\<close> is not touched.
\<close>

definition same_group :: "int \<times> bytes \<Rightarrow> old_event \<Rightarrow> bool" where
  "same_group g r \<longleftrightarrow> oe_kind r = fst g \<and> oe_author r = snd g"

definition hide_group :: "int \<times> bytes \<Rightarrow> old_event list \<Rightarrow> old_event list" where
  "hide_group g rs =
     (let keep = map oe_id (take 1 (order_desc oe_created (filter (same_group g) rs))) in
      map (\<lambda>r. if oe_hidden r = Some False \<and> same_group g r \<and> oe_id r \<notin> set keep
               then r\<lparr>oe_hidden := Some True\<rparr> else r) rs)"

definition mig_11_to_12 :: migration where
  "mig_11_to_12 s =
     (if \<not> has_columns (od_schema s) ''event'' [''id'', ''kind'', ''author'', ''created_at'', ''hidden'']
      then Done (s, Inl no_such_column)
      else (let groups = map (\<lambda>r. (oe_kind r, oe_author r))
                  (filter (\<lambda>r. replaceable_kind (oe_kind r)) (sort_key oe_id (od_events s))) in
            Done (s\<lparr>od_events := fold hide_group groups (od_events s), od_version := 12\<rparr>, Inr 12)))"

definition mig_12_to_13 :: migration where
  "mig_12_to_13 = batch [CreateIndex True ''kind_author_index'' ''event'' [''kind'', ''author'']] id 13"

definition mig_13_to_14 :: migration where
  "mig_13_to_14 = batch [CreateIndex True ''kind_index'' ''event'' [''kind''],
     CreateIndex True ''kind_created_at_index'' ''event'' [''kind'', ''created_at'']] id 14"

definition delete_old :: "(old_event \<Rightarrow> bool) \<Rightarrow> old_db \<Rightarrow> old_db" where
  "delete_old p s =
     (let gone = oe_id ` set (filter p (od_events s)) in
      s\<lparr>od_events := filter (\<lambda>r. \<not> p r) (od_events s),
        od_tags := filter (\<lambda>t. ot_event t \<notin> gone) (od_tags s),
        od_verifications := filter (\<lambda>v. vr_event v \<notin> gone) (od_verifications s)\<rparr>)"

definition mig_14_to_15 :: migration where
  "mig_14_to_15 s =
     (if \<not> has_columns (od_schema s) ''event'' [''hidden''] then Panic
      else batch [CreateIndex True ''author_created_at_index'' ''event'' [''author'', ''created_at''],
             CreateIndex True ''author_kind_index'' ''event'' [''author'', ''kind'']]
             (delete_old (\<lambda>r. oe_hidden r = Some True)) 15 s)"

text \<open>The tag table is built anew: the values as text, with the kind and time of the event.\<close>

definition text_tag :: "old_event \<Rightarrow> tag \<Rightarrow> old_tag" where
  "text_tag r t = \<lparr>ot_event = oe_id r, ot_name = t ! 0, ot_value = Some (t ! 1), ot_value_hex = None,
     ot_created = Some (oe_created r), ot_kind = Some (oe_kind r)\<rparr>"

definition new_tag_ddl :: "ddl list" where
  "new_tag_ddl =
     [DropTable False ''tag'',
      CreateTable False ''tag''
        [col ''id'' ''INTEGER PRIMARY KEY'', col_nn ''event_id'' ''INTEGER'', col ''name'' ''TEXT'',
         col ''value'' ''TEXT'', col_nn ''created_at'' ''INTEGER'', col_nn ''kind'' ''INTEGER'']] @ tag_index_ddl"

definition mig_15_to_16 :: "ext \<Rightarrow> migration" where
  "mig_15_to_16 X s =
     (case run_ddls new_tag_ddl (od_schema s) of
        None \<Rightarrow> Done (s, Inl no_such_column)
      | Some sc \<Rightarrow>
          if \<not> has_columns sc ''event'' [''id'', ''kind'', ''created_at'', ''content'']
          then Done (s, Inl no_such_column)
          else if list_ex (\<lambda>r. oe_kind r < 0 \<or> oe_created r < 0) (od_events s)
          then Done (s, Inl (SqlError ''Integer out of range''))
          else case rebuilt X text_tag (sort_key oe_id (od_events s)) of
                 Inl err \<Rightarrow> Done (s, Inl err)
               | Inr ts \<Rightarrow> Done (s\<lparr>od_schema := sc, od_tags := ts, od_version := 16\<rparr>, Inr 16))"

definition mig_16_to_17 :: migration where
  "mig_16_to_17 = batch [AddColumn ''event'' (col ''expires_at'' ''INTEGER''),
     CreateIndex True ''event_expiration'' ''event'' [''expires_at'']]
     (\<lambda>s. s\<lparr>od_events := map (\<lambda>r. r\<lparr>oe_expires := None\<rparr>) (od_events s)\<rparr>) 17"

definition mig_17_to_18 :: migration where
  "mig_17_to_18 = batch (invoice_ddl @ [account_ddl,
     CreateIndex True ''account_pubkey_index'' ''account'' [''pubkey'']]) id 18"

section \<open>The upgrade\<close>

text \<open>The steps in order, each with the version it starts from.\<close>

definition mig_steps :: "ext \<Rightarrow> (nat \<times> migration) list" where
  "mig_steps X =
     [(0, mig_init), (1, mig_1_to_2), (2, mig_2_to_3 X), (3, mig_3_to_4), (4, mig_4_to_5),
      (5, mig_5_to_6 X), (6, mig_6_to_7), (7, mig_7_to_8), (8, mig_8_to_9), (9, mig_9_to_10),
      (10, mig_10_to_11), (11, mig_11_to_12), (12, mig_12_to_13), (13, mig_13_to_14),
      (14, mig_14_to_15), (15, mig_15_to_16 X), (16, mig_16_to_17), (17, mig_17_to_18)]"

fun run_steps :: "(nat \<times> migration) list \<Rightarrow> nat \<Rightarrow> migration" where
  "run_steps [] v s = Done (s, Inr v)"
| "run_steps ((n, m) # ms) v s =
     (if v = n then
        (case m s of
           Panic \<Rightarrow> Panic
         | Done (s1, Inl err) \<Rightarrow> Done (s1, Inl err)
         | Done (s1, Inr v1) \<Rightarrow> run_steps ms v1 s1)
      else run_steps ms v s)"

definition upgrade_db :: "ext \<Rightarrow> migration" where
  "upgrade_db X s =
     (if db_version < od_version s then Panic
      else if od_version s = db_version then Done (s, Inr db_version)
      else case run_steps (mig_steps X) (od_version s) s of
             Panic \<Rightarrow> Panic
           | Done (s1, Inl err) \<Rightarrow> Done (s1, Inl err)
           | Done (s1, Inr _) \<Rightarrow> Done (s1, Inr db_version))"

section \<open>The version\<close>

text \<open>A step that returns has brought the database to the next version.\<close>

definition step_ok :: "nat \<times> migration \<Rightarrow> bool" where
  "step_ok nm \<longleftrightarrow> (\<forall>s s1 v. snd nm s = Done (s1, Inr v) \<longrightarrow>
     v = (if fst nm = 0 then db_version else fst nm + 1) \<and> od_version s1 = v)"

lemma batch_Done:
  "batch ds f v s = Done (s1, r) \<longleftrightarrow>
     (\<exists>sc. run_ddls ds (od_schema s) = Some sc \<and> s1 = (f s)\<lparr>od_schema := sc, od_version := v\<rparr> \<and> r = Inr v)"
  by (auto simp: batch_def split: option.split)

lemmas mig_defs = mig_init_def mig_1_to_2_def mig_2_to_3_def mig_3_to_4_def mig_4_to_5_def mig_5_to_6_def
  mig_6_to_7_def mig_7_to_8_def mig_8_to_9_def mig_9_to_10_def mig_10_to_11_def mig_11_to_12_def
  mig_12_to_13_def mig_13_to_14_def mig_14_to_15_def mig_15_to_16_def mig_16_to_17_def mig_17_to_18_def

lemma mig_steps_ok: "list_all step_ok (mig_steps X)"
  unfolding mig_steps_def
  by (auto simp: step_ok_def mig_defs batch_Done Let_def db_version_def split: option.splits if_splits sum.splits)

lemma mig_steps_fst: "map fst (mig_steps X) = [0..<18]"
  unfolding mig_steps_def by (simp add: upt_rec)

text \<open>
  A chain of steps: what one step brings about, and the later ones keep, holds at the end.
\<close>

lemma run_steps_chain:
  assumes "map fst ms = [k..<18]" and "list_all step_ok ms" and "k \<le> v" and "v \<le> 18" and "0 < v"
    and "od_version s = v" and "run_steps ms v s = Done (s1, Inr w)"
    and brings: "\<And>m s s1 v. (j, m) \<in> set ms \<Longrightarrow> od_version s = j \<Longrightarrow> Q s \<Longrightarrow> m s = Done (s1, Inr v) \<Longrightarrow> P s1"
    and keeps: "\<And>i m s s1 v. (i, m) \<in> set ms \<Longrightarrow> j < i \<Longrightarrow> P s \<Longrightarrow> m s = Done (s1, Inr v) \<Longrightarrow> P s1"
    and before: "\<And>i m s s1 v. (i, m) \<in> set ms \<Longrightarrow> od_version s = i \<Longrightarrow> 0 < i \<Longrightarrow> i < j \<Longrightarrow> Q s \<Longrightarrow> m s = Done (s1, Inr v) \<Longrightarrow> Q s1"
    and start: "if v \<le> j then Q s else P s" and j: "j < 18"
  shows "w = 18 \<and> od_version s1 = 18 \<and> P s1"
  using assms(1-7) start brings keeps before
proof (induction ms arbitrary: k v s)
  case Nil
  from Nil.prems(1) have "18 \<le> k" by (cases "k < 18") (simp_all add: upt_conv_Cons)
  with Nil.prems(3,4,6,7,8) j show ?case by (simp split: if_splits)
next
  case (Cons nm ms)
  obtain n m where nm: "nm = (n, m)" by (cases nm)
  have k: "n = k" "map fst ms = [Suc k..<18]" "k < 18"
    using Cons.prems(1) nm by (cases "k < 18"; simp add: upt_conv_Cons)+
  have later: "run_steps ms v' s' = Done (s1, Inr w) \<Longrightarrow> Suc k \<le> v' \<Longrightarrow> v' \<le> 18 \<Longrightarrow> od_version s' = v'
      \<Longrightarrow> (if v' \<le> j then Q s' else P s') \<Longrightarrow> ?case" for v' s'
    using Cons.prems(2) nm
    by (intro Cons.IH [of "Suc k" v' s'])
      (auto simp: k(2) intro: Cons.prems(9-11) simp: Cons.prems)
  show ?case
  proof (cases "v = k")
    case False
    then have "run_steps ms v s = Done (s1, Inr w)" using Cons.prems(7) nm k(1) by simp
    then show ?thesis using Cons.prems(3,4,6,8) False by (intro later) simp_all
  next
    case True
    with Cons.prems(7) nm k(1) obtain s' v' where st: "m s = Done (s', Inr v')"
      and rest: "run_steps ms v' s' = Done (s1, Inr w)"
      by (auto split: exec.splits sum.splits prod.splits)
    have v': "v' = Suc k" "od_version s' = v'"
      using Cons.prems(2,5) st nm k(1) True by (auto simp: step_ok_def)
    have "if v' \<le> j then Q s' else P s'"
      using Cons.prems(5,6,8) True st nm k(1) v'
        Cons.prems(9) [of m s s' v'] Cons.prems(10) [of k m s s' v'] Cons.prems(11) [of k m s s' v']
      by (auto split: if_splits)
    then show ?thesis using rest v' k(3) by (intro later) simp_all
  qed
qed

section \<open>Tags\<close>

text \<open>The row and its tags as the current version has them.\<close>

definition to_row :: "old_event \<Rightarrow> event_row" where
  "to_row r = \<lparr>ev_id = oe_id r, ev_hash = oe_hash r, ev_first_seen = oe_first_seen r, ev_created = oe_created r,
     ev_expires = oe_expires r, ev_author = oe_author r, ev_delegated = oe_delegated r, ev_kind = oe_kind r,
     ev_hidden = (oe_hidden r = Some True), ev_content = oe_content r\<rparr>"

definition to_tag :: "old_tag \<Rightarrow> tag_row" where
  "to_tag t = \<lparr>tg_event = ot_event t, tg_name = ot_name t, tg_value = the (ot_value t),
     tg_created = the (ot_created t), tg_kind = the (ot_kind t)\<rparr>"

definition old_tags_ok :: "ext \<Rightarrow> old_db \<Rightarrow> bool" where
  "old_tags_ok X s \<longleftrightarrow> (\<exists>es. map (stored_event X) (sort_key oe_id (od_events s)) = map Inr es
     \<and> map to_tag (od_tags s) = concat (map2 (\<lambda>r e. new_tag_rows (to_row r) e) (sort_key oe_id (od_events s)) es))"

lemma text_tag_rows:
  "map to_tag (map (text_tag r) (filter (\<lambda>t. 1 < length t \<and> single_char_tagname (t ! 0) \<noteq> None) (e_tags e)))
     = new_tag_rows (to_row r) e"
proof -
  have "map to_tag (map (text_tag r) (filter (\<lambda>t. 1 < length t \<and> single_char_tagname (t ! 0) \<noteq> None) gs))
      = List.map_filter (\<lambda>t. if 2 \<le> length t \<and> single_char_tagname (t ! 0) \<noteq> None
          then Some \<lparr>tg_event = oe_id r, tg_name = t ! 0, tg_value = t ! 1, tg_created = oe_created r,
            tg_kind = oe_kind r\<rparr> else None) gs" for gs
    by (induction gs) (auto simp: List.map_filter_simps to_tag_def text_tag_def)
  then show ?thesis by (simp add: new_tag_rows_def to_row_def cong: if_cong)
qed

lemma rebuilt_text:
  "rebuilt X text_tag rs = Inr ts \<Longrightarrow> \<exists>es. map (stored_event X) rs = map Inr es
     \<and> map to_tag ts = concat (map2 (\<lambda>r e. new_tag_rows (to_row r) e) rs es)"
proof (induction rs arbitrary: ts)
  case (Cons r rs)
  from Cons.prems obtain e us where e: "stored_event X r = Inr e" and us: "rebuilt X text_tag rs = Inr us"
    and ts: "ts = map (text_tag r) (filter (\<lambda>t. 1 < length t \<and> single_char_tagname (t ! 0) \<noteq> None) (e_tags e)) @ us"
    by (cases "stored_event X r"; cases "rebuilt X text_tag rs") auto
  from Cons.IH [OF us] obtain es where "map (stored_event X) rs = map Inr es"
    "map to_tag us = concat (map2 (\<lambda>r e. new_tag_rows (to_row r) e) rs es)" by blast
  then show ?case by (intro exI [of _ "e # es"]) (simp add: e ts text_tag_rows del: map_map not_None_eq One_nat_def)
qed simp

lemma insort_key_map: "(\<And>x. f (h x) = f x) \<Longrightarrow> insort_key f (h x) (map h xs) = map h (insort_key f x xs)"
  by (induction xs) simp_all

lemma sort_key_map: "(\<And>x. f (h x) = f x) \<Longrightarrow> sort_key f (map h xs) = map h (sort_key f xs)"
  by (induction xs) (simp_all add: insort_key_map)

lemma old_tags_expires: "old_tags_ok X s \<Longrightarrow>
  old_tags_ok X (s\<lparr>od_events := map (\<lambda>r. r\<lparr>oe_expires := None\<rparr>) (od_events s), od_schema := sc, od_version := v\<rparr>)"
proof -
  let ?h = "\<lambda>r. r\<lparr>oe_expires := None\<rparr>"
  have s: "sort_key oe_id (map ?h rs) = map ?h (sort_key oe_id rs)" for rs by (rule sort_key_map) simp
  have n: "new_tag_rows (to_row (?h r)) e = new_tag_rows (to_row r) e" "stored_event X (?h r) = stored_event X r" for r e
    by (simp_all add: new_tag_rows_def to_row_def stored_event_def cong: if_cong option.case_cong)
  have m: "map2 (\<lambda>r e. new_tag_rows (to_row r) e) (map ?h rs) es = map2 (\<lambda>r e. new_tag_rows (to_row r) e) rs es" for rs es
    by (simp add: zip_map1 comp_def case_prod_beta n)
  show "old_tags_ok X s \<Longrightarrow> ?thesis"
    by (simp add: old_tags_ok_def s m n comp_def)
qed

section \<open>Hidden events\<close>

definition none_hidden :: "old_db \<Rightarrow> bool" where
  "none_hidden s \<longleftrightarrow> (\<forall>r \<in> set (od_events s). oe_hidden r \<noteq> Some True)"

text \<open>Identifiers are keys and no flag is \<open>NULL\<close>.\<close>

definition flags_ok :: "old_db \<Rightarrow> bool" where
  "flags_ok s \<longleftrightarrow> distinct (map oe_id (od_events s)) \<and> (\<forall>r \<in> set (od_events s). oe_hidden r \<noteq> None)"

definition one_visible :: "old_db \<Rightarrow> bool" where
  "one_visible s \<longleftrightarrow> (\<forall>r \<in> set (od_events s). \<forall>t \<in> set (od_events s).
     oe_hidden r \<noteq> Some True \<and> oe_hidden t \<noteq> Some True \<and> replaceable_kind (oe_kind r)
     \<and> oe_kind r = oe_kind t \<and> oe_author r = oe_author t \<longrightarrow> r = t)"

definition group_key :: "old_event \<Rightarrow> nat \<times> int \<times> int \<times> bytes" where
  "group_key r = (oe_id r, oe_created r, oe_kind r, oe_author r)"

lemma hide_group_map: "\<exists>h. hide_group g rs = map h rs \<and> (\<forall>r. group_key (h r) = group_key r)
    \<and> (\<forall>r. oe_hidden (h r) = Some False \<longrightarrow> oe_hidden r = Some False)
    \<and> (\<forall>r. oe_hidden r \<noteq> None \<longrightarrow> oe_hidden (h r) \<noteq> None)"
proof -
  let ?keep = "map oe_id (take 1 (order_desc oe_created (filter (same_group g) rs)))"
  let ?h = "\<lambda>r. if oe_hidden r = Some False \<and> same_group g r \<and> oe_id r \<notin> set ?keep
    then r\<lparr>oe_hidden := Some True\<rparr> else r"
  have "hide_group g rs = map ?h rs" by (simp add: hide_group_def Let_def)
  moreover have "group_key (?h r) = group_key r" for r by (simp add: group_key_def)
  ultimately show ?thesis by (intro exI [of _ ?h]) auto
qed

definition group_keep :: "int \<times> bytes \<Rightarrow> old_event list \<Rightarrow> nat list" where
  "group_keep g rs = map oe_id (take 1 (order_desc oe_created (filter (same_group g) rs)))"

lemma group_keep_map:
  assumes "\<And>r. group_key (h r) = group_key r"
  shows "group_keep g (map h rs) = group_keep g rs"
proof -
  have h: "oe_id (h r) = oe_id r" "oe_created (h r) = oe_created r" "same_group g (h r) = same_group g r" for r
    using assms [of r] by (simp_all add: group_key_def same_group_def)
  have "order_desc oe_created (map h xs) = map h (order_desc oe_created xs)" for xs
    unfolding order_desc_def by (rule sort_key_map) (simp add: h)
  then show ?thesis by (simp add: group_keep_def filter_map comp_def h take_map)
qed

definition group_done :: "int \<times> bytes \<Rightarrow> old_event list \<Rightarrow> bool" where
  "group_done g rs \<longleftrightarrow> (\<forall>r \<in> set rs. same_group g r \<and> oe_hidden r = Some False \<longrightarrow> oe_id r \<in> set (group_keep g rs))"

lemma hide_group_done: "group_done g (hide_group g rs)"
proof -
  obtain h where h: "hide_group g rs = map h rs" "\<And>r. group_key (h r) = group_key r"
    using hide_group_map by blast
  have k: "group_keep g (hide_group g rs) = group_keep g rs" unfolding h(1) by (rule group_keep_map) (rule h(2))
  show ?thesis
    unfolding group_done_def k by (auto simp: hide_group_def Let_def group_keep_def same_group_def)
qed

lemma hide_group_keeps: "group_done g rs \<Longrightarrow> group_done g (hide_group g' rs)"
proof -
  obtain h where h: "hide_group g' rs = map h rs" "\<And>r. group_key (h r) = group_key r"
    "\<And>r. oe_hidden (h r) = Some False \<Longrightarrow> oe_hidden r = Some False"
    using hide_group_map by blast
  have g: "same_group g (h r) = same_group g r" "oe_id (h r) = oe_id r" for r
    using h(2) [of r] by (simp_all add: group_key_def same_group_def)
  show "group_done g rs \<Longrightarrow> ?thesis"
    using h(3) by (auto simp: group_done_def h(1) group_keep_map [OF h(2)] g)
qed

lemma fold_hide_keeps: "group_done g rs \<Longrightarrow> group_done g (fold hide_group gs rs)"
  by (induction gs arbitrary: rs) (simp_all add: hide_group_keeps)

lemma fold_hide_done: "g \<in> set gs \<Longrightarrow> group_done g (fold hide_group gs rs)"
proof (induction gs arbitrary: rs)
  case (Cons a gs)
  then show ?case by (cases "g = a") (simp_all add: fold_hide_keeps hide_group_done)
qed simp

lemma fold_hide_rows:
  "map group_key (fold hide_group gs rs) = map group_key rs"
  "\<forall>r \<in> set rs. oe_hidden r \<noteq> None \<Longrightarrow> \<forall>r \<in> set (fold hide_group gs rs). oe_hidden r \<noteq> None"
proof (induction gs arbitrary: rs)
  case (Cons g gs)
  {
    case 1
    obtain h where h: "hide_group g rs = map h rs" "\<And>r. group_key (h r) = group_key r"
      using hide_group_map by blast
    have "map group_key (hide_group g rs) = map group_key rs" unfolding h(1) by (simp add: h(2) comp_def)
    then show ?case using Cons.IH(1) [of "hide_group g rs"] by simp
  next
    case 2
    obtain h where h: "hide_group g rs = map h rs" "\<And>r. oe_hidden r \<noteq> None \<Longrightarrow> oe_hidden (h r) \<noteq> None"
      using hide_group_map by blast
    with 2 have "\<forall>r \<in> set (hide_group g rs). oe_hidden r \<noteq> None" by (simp add: h(1))
    from Cons.IH(2) [OF this] show ?case by simp
  }
qed simp_all

text \<open>After the step to version 12, one event of a replaceable kind and author is visible.\<close>

lemma mig_11_one_visible:
  assumes "flags_ok s" and "mig_11_to_12 s = Done (s1, Inr v)"
  shows "one_visible s1"
proof -
  define gs where "gs = map (\<lambda>r. (oe_kind r, oe_author r))
    (filter (\<lambda>r. replaceable_kind (oe_kind r)) (sort_key oe_id (od_events s)))"
  have ev: "od_events s1 = fold hide_group gs (od_events s)"
    using assms(2) by (auto simp: mig_11_to_12_def Let_def gs_def split: if_splits)
  have keys: "map group_key (od_events s1) = map group_key (od_events s)" unfolding ev by (rule fold_hide_rows)
  have "map oe_id (od_events s1) = map (fst \<circ> group_key) (od_events s1)"
    "map oe_id (od_events s) = map (fst \<circ> group_key) (od_events s)" by (simp_all add: group_key_def)
  with keys have "map oe_id (od_events s1) = map oe_id (od_events s)" by (metis map_map)
  with assms(1) have ids: "distinct (map oe_id (od_events s1))" by (simp add: flags_ok_def)
  have flags: "\<forall>r \<in> set (od_events s1). oe_hidden r \<noteq> None"
    using assms(1) unfolding ev by (intro fold_hide_rows(2)) (simp add: flags_ok_def)
  show ?thesis
    unfolding one_visible_def
  proof (intro ballI impI, elim conjE)
    fix r t
    assume r: "r \<in> set (od_events s1)" "t \<in> set (od_events s1)"
      and h: "oe_hidden r \<noteq> Some True" "oe_hidden t \<noteq> Some True"
      and k: "replaceable_kind (oe_kind r)" "oe_kind r = oe_kind t" "oe_author r = oe_author t"
    let ?g = "(oe_kind r, oe_author r)"
    have f: "oe_hidden r = Some False" "oe_hidden t = Some False" using flags r h by auto
    have "group_key r \<in> set (map group_key (od_events s))" unfolding keys [symmetric] using r(1) by simp
    then obtain r0 where "r0 \<in> set (od_events s)" "group_key r0 = group_key r" by auto
    then have "?g \<in> set gs" using k(1) by (auto simp: gs_def group_key_def image_iff intro: bexI [of _ r0])
    then have "group_done ?g (od_events s1)" unfolding ev by (rule fold_hide_done)
    then have "oe_id r \<in> set (group_keep ?g (od_events s1))" "oe_id t \<in> set (group_keep ?g (od_events s1))"
      using r f k by (auto simp: group_done_def same_group_def)
    moreover have "length (group_keep ?g (od_events s1)) \<le> 1" by (simp add: group_keep_def)
    ultimately have "oe_id r = oe_id t" by (cases "group_keep ?g (od_events s1)") auto
    with ids r show "r = t" by (auto simp: distinct_map dest: inj_onD)
  qed
qed

section \<open>The whole upgrade\<close>

lemma upgrade_runs:
  assumes "upgrade_db X s = Done (s1, Inr n)" and "od_version s \<noteq> 18"
  obtains w where "run_steps (mig_steps X) (od_version s) s = Done (s1, Inr w)" and "od_version s < 18" and "n = 18"
  using assms by (auto simp: upgrade_db_def db_version_def split: if_splits exec.splits prod.splits sum.splits)

lemma upgrade_chain:
  assumes up: "upgrade_db X s = Done (s1, Inr n)" and v: "0 < od_version s" "od_version s \<le> j" "j < 18"
    and "Q s"
    and "\<And>m s s1 v. (j, m) \<in> set (mig_steps X) \<Longrightarrow> od_version s = j \<Longrightarrow> Q s \<Longrightarrow> m s = Done (s1, Inr v) \<Longrightarrow> P s1"
    and "\<And>i m s s1 v. (i, m) \<in> set (mig_steps X) \<Longrightarrow> j < i \<Longrightarrow> P s \<Longrightarrow> m s = Done (s1, Inr v) \<Longrightarrow> P s1"
    and "\<And>i m s s1 v. (i, m) \<in> set (mig_steps X) \<Longrightarrow> od_version s = i \<Longrightarrow> 0 < i \<Longrightarrow> i < j \<Longrightarrow> Q s \<Longrightarrow> m s = Done (s1, Inr v) \<Longrightarrow> Q s1"
  shows "n = 18 \<and> od_version s1 = 18 \<and> P s1"
proof -
  obtain w where r: "run_steps (mig_steps X) (od_version s) s = Done (s1, Inr w)" "n = 18"
    using upgrade_runs [OF up] v by auto
  have "w = 18 \<and> od_version s1 = 18 \<and> P s1"
    by (rule run_steps_chain [where Q = Q and P = P and j = j, OF mig_steps_fst mig_steps_ok _ _ v(1) refl r(1)])
      (use v assms(5-8) in auto)
  with r(2) show ?thesis by simp
qed

lemma mig_15_tags: "mig_15_to_16 X s = Done (s1, Inr v) \<Longrightarrow> old_tags_ok X s1"
proof -
  assume "mig_15_to_16 X s = Done (s1, Inr v)"
  then obtain ts sc where "rebuilt X text_tag (sort_key oe_id (od_events s)) = Inr ts"
      "s1 = s\<lparr>od_schema := sc, od_tags := ts, od_version := 16\<rparr>"
    by (auto simp: mig_15_to_16_def split: option.splits if_splits sum.splits)
  with rebuilt_text [of X "sort_key oe_id (od_events s)" ts] show ?thesis by (simp add: old_tags_ok_def)
qed

lemma upgrade_tags:
  assumes "upgrade_db X s = Done (s1, Inr n)" and "0 < od_version s" and "od_version s \<le> 15"
  shows "n = 18 \<and> od_version s1 = 18 \<and> old_tags_ok X s1"
proof (rule upgrade_chain [OF assms, where Q = "\<lambda>_. True"])
  show "old_tags_ok X s1" if "(15, m) \<in> set (mig_steps X)" "od_version s = 15" "True" "m s = Done (s1, Inr v)" for m s s1 v
    using that mig_15_tags by (auto simp: mig_steps_def)
  show "old_tags_ok X s1"
    if "(i, m) \<in> set (mig_steps X)" "15 < i" "old_tags_ok X s" "m s = Done (s1, Inr v)" for i m s s1 v
  proof -
    from that(1,2) consider "m = mig_16_to_17" | "m = mig_17_to_18" by (auto simp: mig_steps_def)
    then show ?thesis
    proof cases
      case 1
      with that(3,4) show ?thesis by (auto simp: mig_16_to_17_def batch_Done old_tags_expires)
    next
      case 2
      with that(3,4) show ?thesis by (auto simp: mig_17_to_18_def batch_Done old_tags_ok_def)
    qed
  qed
qed simp_all

lemma upgrade_none_hidden:
  assumes "upgrade_db X s = Done (s1, Inr n)" and "0 < od_version s" and "od_version s \<le> 14"
  shows "none_hidden s1"
proof -
  have "n = 18 \<and> od_version s1 = 18 \<and> none_hidden s1"
  proof (rule upgrade_chain [OF assms, where Q = "\<lambda>_. True"])
    show "none_hidden s1" if "(14, m) \<in> set (mig_steps X)" "od_version s = 14" "True" "m s = Done (s1, Inr v)" for m s s1 v
      using that by (auto simp: mig_steps_def mig_14_to_15_def batch_Done none_hidden_def delete_old_def Let_def split: if_splits)
    show "none_hidden s1"
      if "(i, m) \<in> set (mig_steps X)" "14 < i" "none_hidden s" "m s = Done (s1, Inr v)" for i m s s1 v
      using that
      by (auto simp: mig_steps_def mig_15_to_16_def mig_16_to_17_def mig_17_to_18_def batch_Done none_hidden_def
          split: option.splits if_splits sum.splits)
  qed simp_all
  then show ?thesis by blast
qed

lemma one_visible_map:
  assumes "one_visible s" and "od_events s1 = map h (od_events s)"
    and "\<And>r. oe_kind (h r) = oe_kind r \<and> oe_author (h r) = oe_author r \<and> oe_hidden (h r) = oe_hidden r"
  shows "one_visible s1"
  using assms unfolding one_visible_def by (auto simp: assms(2,3))

lemma later_events:
  assumes "(i, m) \<in> set (mig_steps X)" and "11 < i" and "m s = Done (s1, Inr v)"
  shows "od_events s1 = od_events s \<or> od_events s1 = map (\<lambda>r. r\<lparr>oe_expires := None\<rparr>) (od_events s)
    \<or> od_events s1 = filter (\<lambda>r. oe_hidden r \<noteq> Some True) (od_events s)"
  using assms
  by (auto simp: mig_steps_def mig_12_to_13_def mig_13_to_14_def mig_14_to_15_def mig_15_to_16_def mig_16_to_17_def
      mig_17_to_18_def batch_Done delete_old_def Let_def split: option.splits if_splits sum.splits)

lemma some_false: "Ex Not"
  by (rule exI [of _ False]) simp

text \<open>The first step sets the flag of every row; the others leave it as it is.\<close>

lemma early_flags:
  assumes "(i, m) \<in> set (mig_steps X)" and "0 < i" and "i < 11" and "m s = Done (s1, Inr v)"
  shows "flags_ok s \<Longrightarrow> flags_ok s1" and "i = 1 \<Longrightarrow> distinct (map oe_id (od_events s)) \<Longrightarrow> flags_ok s1"
proof -
  have "od_events s1 = od_events s \<or> od_events s1 = map (\<lambda>r. r\<lparr>oe_delegated := None\<rparr>) (od_events s)
      \<or> od_events s1 = map (\<lambda>r. r\<lparr>oe_hidden := Some False\<rparr>) (od_events s)"
    using assms
    by (auto simp: mig_steps_def mig_1_to_2_def mig_2_to_3_def mig_3_to_4_def mig_4_to_5_def mig_5_to_6_def
        mig_6_to_7_def mig_7_to_8_def mig_8_to_9_def mig_9_to_10_def mig_10_to_11_def batch_Done Let_def
        split: option.splits if_splits sum.splits)
  then show "flags_ok s \<Longrightarrow> flags_ok s1" by (auto simp: flags_ok_def comp_def some_false)
  show "flags_ok s1" if "i = 1" "distinct (map oe_id (od_events s))"
    using assms that by (auto simp: mig_steps_def mig_1_to_2_def batch_Done flags_ok_def comp_def some_false)
qed

lemma upgrade_one_visible:
  assumes "upgrade_db X s = Done (s1, Inr n)" and "0 < od_version s" and "od_version s \<le> 11"
    and "od_version s = 1 \<and> distinct (map oe_id (od_events s)) \<or> flags_ok s"
  shows "one_visible s1"
proof -
  define Q where "Q = (\<lambda>s. od_version s = 1 \<and> distinct (map oe_id (od_events s)) \<or> flags_ok s)"
  have "n = 18 \<and> od_version s1 = 18 \<and> one_visible s1"
  proof (rule upgrade_chain [OF assms(1,2), where Q = Q and j = 11])
    show "Q s" using assms(4) by (simp add: Q_def)
    show "one_visible s1"
      if "(11, m) \<in> set (mig_steps X)" "od_version s = 11" "Q s" "m s = Done (s1, Inr v)" for m s s1 v
    proof -
      from that(1) have "m = mig_11_to_12" by (auto simp: mig_steps_def)
      with that show ?thesis by (simp add: Q_def mig_11_one_visible)
    qed
    show "one_visible s1"
      if "(i, m) \<in> set (mig_steps X)" "11 < i" "one_visible s" "m s = Done (s1, Inr v)" for i m s s1 v
    proof -
      from later_events [OF that(1,2,4)]
      consider "od_events s1 = od_events s" | "od_events s1 = map (\<lambda>r. r\<lparr>oe_expires := None\<rparr>) (od_events s)"
        | "od_events s1 = filter (\<lambda>r. oe_hidden r \<noteq> Some True) (od_events s)" by blast
      then show ?thesis
      proof cases
        case 1
        with that(3) show ?thesis by (simp add: one_visible_def)
      next
        case 2
        with that(3) show ?thesis by (rule one_visible_map) simp
      next
        case 3
        with that(3) show ?thesis unfolding one_visible_def by simp blast
      qed
    qed
    show "Q s1"
      if "(i, m) \<in> set (mig_steps X)" "od_version s = i" "0 < i" "i < 11" "Q s" "m s = Done (s1, Inr v)" for i m s s1 v
      using early_flags [OF that(1,3,4,6)] that(2,5) by (auto simp: Q_def)
  qed (use assms(3) in simp_all)
  then show ?thesis by blast
qed

section \<open>The schema\<close>

definition final_tag_columns :: "old_db \<Rightarrow> bool" where
  "final_tag_columns s \<longleftrightarrow>
     columns_of (od_schema s) ''tag'' = Some [''id'', ''event_id'', ''name'', ''value'', ''created_at'', ''kind'']"

lemma tag_index_keeps: "list_all (keeps_table ''tag'') tag_index_ddl"
  by (simp add: tag_index_ddl_def)

lemma mig_15_columns: "mig_15_to_16 X s = Done (s1, Inr v) \<Longrightarrow> final_tag_columns s1"
  by (auto simp: mig_15_to_16_def final_tag_columns_def new_tag_ddl_def split: option.splits if_splits sum.splits
      dest!: run_new_table [OF _ tag_index_keeps] simp del: run_ddls.simps)

lemma upgrade_columns:
  assumes "upgrade_db X s = Done (s1, Inr n)" and "0 < od_version s" and "od_version s \<le> 15"
  shows "final_tag_columns s1"
proof -
  have "n = 18 \<and> od_version s1 = 18 \<and> final_tag_columns s1"
  proof (rule upgrade_chain [OF assms, where Q = "\<lambda>_. True"])
    show "final_tag_columns s1"
      if "(15, m) \<in> set (mig_steps X)" "od_version s = 15" "True" "m s = Done (s1, Inr v)" for m s s1 v
      using that mig_15_columns by (auto simp: mig_steps_def)
    show "final_tag_columns s1"
      if "(i, m) \<in> set (mig_steps X)" "15 < i" "final_tag_columns s" "m s = Done (s1, Inr v)" for i m s s1 v
    proof -
      from that(1,2) have "m = mig_16_to_17 \<or> m = mig_17_to_18" by (auto simp: mig_steps_def)
      with that(4) obtain ds where "run_ddls ds (od_schema s) = Some (od_schema s1)" "list_all (keeps_table ''tag'') ds"
        by (auto simp: mig_16_to_17_def mig_17_to_18_def batch_Done account_ddl_def invoice_ddl_def
            simp del: run_ddls.simps)
      from run_ddls_keeps [OF this] that(3) show ?thesis by (simp add: final_tag_columns_def)
    qed
  qed simp_all
  then show ?thesis by blast
qed

text \<open>A new database has one more column in this table, which no statement uses.\<close>

lemma fresh_upgrade:
  assumes "od_version s = 0" and "od_schema s = empty_schema"
  shows "\<exists>sc. upgrade_db X s = Done (s\<lparr>od_schema := sc, od_version := 18\<rparr>, Inr 18)
    \<and> columns_of sc ''tag'' = Some [''id'', ''event_id'', ''name'', ''value'', ''value_hex'', ''created_at'', ''kind'']"
proof -
  have "map_option (\<lambda>sc. columns_of sc ''tag'') (run_ddls init_ddl empty_schema)
      = Some (Some [''id'', ''event_id'', ''name'', ''value'', ''value_hex'', ''created_at'', ''kind''])"
    by code_simp
  then obtain sc where "run_ddls init_ddl empty_schema = Some sc"
    and "columns_of sc ''tag'' = Some [''id'', ''event_id'', ''name'', ''value'', ''value_hex'', ''created_at'', ''kind'']"
    by auto
  then show ?thesis
    by (intro exI [of _ sc]) (simp add: upgrade_db_def assms db_version_def mig_steps_def mig_init_def batch_def)
qed

section \<open>Building the tags again\<close>

text \<open>
  \<open>rebuild_tags\<close>, which no other code calls: the table is emptied and filled from the stored
  events, in one transaction. A row fails if a column is missing, or if one that must have
  a value is not given any.
\<close>

definition insert_error :: "schema \<Rightarrow> old_tag \<Rightarrow> error option" where
  "insert_error sc t =
     (let given = [''event_id'', ''name'', if ot_value t = None then ''value_hex'' else ''value''] in
      case map_of (sc_tables sc) ''tag'' of
        None \<Rightarrow> Some no_such_column
      | Some cs \<Rightarrow>
          if \<not> set given \<subseteq> cn_name ` set cs then Some no_such_column
          else if list_ex (\<lambda>c. cn_not_null c \<and> cn_name c \<notin> set given) cs
          then Some (SqlError ''NOT NULL constraint failed'') else None)"

fun insert_tags :: "schema \<Rightarrow> old_tag list \<Rightarrow> error + unit" where
  "insert_tags sc [] = Inr ()"
| "insert_tags sc (t # ts) = (case insert_error sc t of Some err \<Rightarrow> Inl err | None \<Rightarrow> insert_tags sc ts)"

fun rebuild_rows :: "ext \<Rightarrow> schema \<Rightarrow> old_event list \<Rightarrow> error + old_tag list" where
  "rebuild_rows X sc [] = Inr []"
| "rebuild_rows X sc (r # rs) =
     result_bind (stored_event X r) (\<lambda>e.
       let ts = map (hex_tag X r) (filter (\<lambda>t. 1 < length t \<and> single_char_tagname (t ! 0) \<noteq> None) (e_tags e)) in
       result_bind (insert_tags sc ts) (\<lambda>_. result_bind (rebuild_rows X sc rs) (\<lambda>us. Inr (ts @ us))))"

definition rebuild_tags :: "ext \<Rightarrow> old_db \<Rightarrow> old_db \<times> (error + unit)" where
  "rebuild_tags X s =
     (if columns_of (od_schema s) ''tag'' = None \<or> \<not> has_columns (od_schema s) ''event'' [''id'', ''content'']
      then (s, Inl no_such_column)
      else case rebuild_rows X (od_schema s) (sort_key oe_id (od_events s)) of
             Inl err \<Rightarrow> (s, Inl err)
           | Inr ts \<Rightarrow> (s\<lparr>od_tags := ts\<rparr>, Inr ()))"

lemma insert_tags_ok: "insert_tags sc ts = Inr () \<longleftrightarrow> (\<forall>t \<in> set ts. insert_error sc t = None)"
  by (induction ts) (auto split: option.splits)

lemma rebuild_rows_ok: "rebuild_rows X sc rs = Inr ts \<Longrightarrow> \<forall>t \<in> set ts. insert_error sc t = None"
  by (induction rs arbitrary: ts) (auto simp: Let_def result_bind_Inr insert_tags_ok)

text \<open>On the current schema it can only succeed when no event has a tag to store.\<close>

lemma rebuild_tags_current:
  assumes "run_ddls init_ddl empty_schema = Some (od_schema s)" and "rebuild_tags X s = (s1, Inr ())"
  shows "od_tags s1 = []"
proof -
  let ?bad = "\<lambda>sc. list_all (\<lambda>n. map_option (list_ex (\<lambda>c. cn_not_null c \<and> cn_name c \<notin> set [''event_id'', ''name'', n]))
      (map_of (sc_tables sc) ''tag'') = Some True) [''value'', ''value_hex'']"
  have "map_option ?bad (run_ddls init_ddl empty_schema) = Some True" by code_simp
  then have bad: "?bad (od_schema s)" using assms(1) by simp
  have "insert_error (od_schema s) t \<noteq> None" for t
    using bad by (auto simp: insert_error_def Let_def split: option.splits)
  moreover from assms(2) obtain ts where "rebuild_rows X (od_schema s) (sort_key oe_id (od_events s)) = Inr ts" "od_tags s1 = ts"
    by (auto simp: rebuild_tags_def split: if_splits sum.splits)
  ultimately have "\<forall>t \<in> set ts. False" and "od_tags s1 = ts" using rebuild_rows_ok by blast+
  then show ?thesis by simp
qed

end
