(* ===== verification/Postgres_Migration.thy ===== *)
theory Postgres_Migration
  imports Schema Postgres_Store
begin

text \<open>
  The migrations of the PostgreSQL store (\<open>src/src/repo/postgres_migration.rs\<close>): each has a
  serial number and runs once, in a transaction with the row that records it; a statement
  that fails ends the program. The second one is followed by \<open>rebuild_tags\<close>, in a
  transaction of its own.
\<close>

record pg_state =
  pgs_db :: pg_db
  pgs_schema :: schema
  pgs_migrations :: "int list option"

datatype migration_result = Upgraded | NotNeeded

definition m001 :: "int \<times> ddl list" where
  "m001 = (1,
     [CreateTable False ''event''
        [col_nn ''id'' ''bytea'', col_nn ''pub_key'' ''bytea'', col_nn ''created_at'' ''timestamptz'',
         col_nn ''kind'' ''integer'', col_nn ''content'' ''bytea'', col_nn ''hidden'' ''bit(1)'',
         col ''delegated_by'' ''bytea'', col_nn ''first_seen'' ''timestamptz''],
      CreateIndex False ''event_created_at_idx'' ''event'' [''created_at'', ''kind''],
      CreateIndex False ''event_pub_key_idx'' ''event'' [''pub_key''],
      CreateIndex False ''event_delegated_by_idx'' ''event'' [''delegated_by''],
      CreateTable False ''tag''
        [col_nn ''id'' ''int8'', col_nn ''event_id'' ''bytea'', col_nn ''name'' ''varchar'', col_nn ''value'' ''bytea''],
      CreateIndex False ''tag_event_id_idx'' ''tag'' [''event_id'', ''name''],
      CreateIndex False ''tag_value_idx'' ''tag'' [''value''],
      CreateTable False ''user_verification''
        [col_nn ''id'' ''int8'', col_nn ''event_id'' ''bytea'', col_nn ''name'' ''varchar'',
         col ''verified_at'' ''timestamptz'', col ''failed_at'' ''timestamptz'', col ''fail_count'' ''int4''],
      CreateIndex False ''user_verification_event_id_idx'' ''user_verification'' [''event_id''],
      CreateIndex False ''user_verification_name_idx'' ''user_verification'' [''name'']])"

definition m002 :: "int \<times> ddl list" where
  "m002 = (2,
     [AddColumn ''tag'' (col ''value_hex'' ''bytea''),
      DropNotNull ''tag'' ''value'',
      CreateIndex False ''tag_value_hex_idx'' ''tag'' [''value_hex'']])"

definition m003 :: "int \<times> ddl list" where
  "m003 = (3, [AddUnique ''unique_constraint_name'' ''tag'' [''event_id'', ''name'', ''value'', ''value_hex'']])"

definition m004 :: "int \<times> ddl list" where
  "m004 = (4,
     [AddColumn ''event'' (col ''expires_at'' ''timestamptz''),
      CreateIndex False ''event_expires_at_idx'' ''event'' [''expires_at'']])"

definition m005 :: "int \<times> ddl list" where
  "m005 = (5,
     [CreateTable False ''account''
        [col_nn ''pubkey'' ''varchar'', col_nn ''is_admitted'' ''boolean'', col_nn ''balance'' ''bigint'',
         col ''tos_accepted_at'' ''timestamp''],
      CreateType ''status'',
      CreateTable False ''invoice''
        [col_nn ''payment_hash'' ''varchar'', col_nn ''pubkey'' ''varchar'', col_nn ''invoice'' ''varchar'',
         col_nn ''amount'' ''bigint'', col_nn ''status'' ''status'', col ''description'' ''varchar'',
         col ''created_at'' ''timestamp'', col ''confirmed_at'' ''timestamp'']])"

definition prepare_migrations_table :: "pg_state \<Rightarrow> pg_state" where
  "prepare_migrations_table s =
     (case pgs_migrations s of None \<Rightarrow> s\<lparr>pgs_migrations := Some []\<rparr> | Some _ \<Rightarrow> s)"

definition run_migration :: "int \<times> ddl list \<Rightarrow> pg_state \<Rightarrow> (pg_state \<times> migration_result) exec" where
  "run_migration m s =
     (case pgs_migrations s of
        None \<Rightarrow> Panic
      | Some ns \<Rightarrow>
          if fst m \<in> set ns then Done (s, NotNeeded)
          else (case run_ddls (snd m) (pgs_schema s) of
                  None \<Rightarrow> Panic
                | Some sc \<Rightarrow> Done (s\<lparr>pgs_schema := sc, pgs_migrations := Some (ns @ [fst m])\<rparr>, Upgraded)))"

text \<open>Every tag of every event is stored again; the order of the events is \<open>by_id\<close>.\<close>

definition pg_stored_event :: "ext \<Rightarrow> pg_event \<Rightarrow> error + event" where
  "pg_stored_event X r =
     (case Option.bind (json_from_str X (pe_content r)) event_from_json of
        None \<Rightarrow> Inl (JsonParseFailed (json_error X (pe_content r)))
      | Some e \<Rightarrow> Inr e)"

fun pg_rebuilt :: "ext \<Rightarrow> pg_event list \<Rightarrow> error + pg_tag list" where
  "pg_rebuilt X [] = Inr []"
| "pg_rebuilt X (r # rs) =
     result_bind (pg_stored_event X r) (\<lambda>e.
       let ts = filter (\<lambda>t. 1 < length t \<and> single_char_tagname (t ! 0) \<noteq> None) (e_tags e) in
       if list_ex (\<lambda>t. \<not> pg_text (t ! 0)) ts then Inl (sqlx_error ''invalid byte sequence'')
       else result_bind (pg_rebuilt X rs) (\<lambda>us. Inr (map (pg_tag_row X (pe_id r)) ts @ us)))"

definition pg_rebuild_tags :: "ext \<Rightarrow> (pg_event list \<Rightarrow> pg_event list) \<Rightarrow> pg_state \<Rightarrow> pg_state \<times> (error + unit)" where
  "pg_rebuild_tags X by_id s =
     (case pg_rebuilt X (by_id (pg_events (pgs_db s))) of
        Inl err \<Rightarrow> (s, Inl err)
      | Inr ts \<Rightarrow> (s\<lparr>pgs_db := (pgs_db s)\<lparr>pg_tags := ts\<rparr>\<rparr>, Inr ()))"

definition current_version :: "pg_state \<Rightarrow> int exec" where
  "current_version s =
     (case pgs_migrations s of Some (n # ns) \<Rightarrow> Done (fold max ns n) | _ \<Rightarrow> Panic)"

definition run_migrations :: "ext \<Rightarrow> (pg_event list \<Rightarrow> pg_event list) \<Rightarrow> pg_state \<Rightarrow> (pg_state \<times> (error + int)) exec" where
  "run_migrations X by_id s0 =
     exec_bind (run_migration m001 (prepare_migrations_table s0)) (\<lambda>(s1, _).
     exec_bind (run_migration m002 s1) (\<lambda>(s2, r2).
       case (if r2 = Upgraded then pg_rebuild_tags X by_id s2 else (s2, Inr ())) of
         (s3, Inl err) \<Rightarrow> Done (s3, Inl err)
       | (s3, Inr _) \<Rightarrow>
           exec_bind (run_migration m003 s3) (\<lambda>(s4, _).
           exec_bind (run_migration m004 s4) (\<lambda>(s5, _).
           exec_bind (run_migration m005 s5) (\<lambda>(s6, _).
           exec_bind (current_version s6) (\<lambda>v. Done (s6, Inr v)))))))"

section \<open>Lemmas\<close>

lemma run_migration_Done:
  "run_migration m s = Done (s', r) \<longleftrightarrow>
     (\<exists>ns. pgs_migrations s = Some ns \<and>
       (if fst m \<in> set ns then s' = s \<and> r = NotNeeded
        else (\<exists>sc. run_ddls (snd m) (pgs_schema s) = Some sc
          \<and> s' = s\<lparr>pgs_schema := sc, pgs_migrations := Some (ns @ [fst m])\<rparr> \<and> r = Upgraded)))"
  by (auto simp: run_migration_def split: option.split if_splits)

lemma pg_rebuilt_ok:
  "pg_rebuilt X rs = Inr ts \<Longrightarrow> \<exists>es. map (pg_stored_event X) rs = map Inr es
     \<and> ts = concat (map2 (\<lambda>r e. pg_new_tags X (pe_id r) (e_tags e)) rs es)"
proof (induction rs arbitrary: ts)
  case (Cons r rs)
  have idx: "filter (\<lambda>t. 1 < length t \<and> single_char_tagname (t ! 0) \<noteq> None) gs = filter indexed gs" for gs :: "tag list"
    by (intro filter_cong) (auto simp: indexed_def)
  from Cons.prems obtain e us where e: "pg_stored_event X r = Inr e" and us: "pg_rebuilt X rs = Inr us"
    and ts: "ts = pg_new_tags X (pe_id r) (e_tags e) @ us"
    unfolding pg_rebuilt.simps Let_def idx
    by (cases "pg_stored_event X r"; cases "pg_rebuilt X rs") (auto simp: pg_new_tags_def split: if_splits)
  from Cons.IH [OF us] obtain es where "map (pg_stored_event X) rs = map Inr es"
    "us = concat (map2 (\<lambda>r e. pg_new_tags X (pe_id r) (e_tags e)) rs es)" by blast
  then show ?case by (intro exI [of _ "e # es"]) (simp add: e ts)
qed simp

text \<open>A run that succeeds leaves nothing to do: the next run changes nothing.\<close>

definition recorded :: "int set \<Rightarrow> pg_state \<Rightarrow> bool" where
  "recorded I s \<longleftrightarrow> (\<exists>ns. pgs_migrations s = Some ns \<and> I \<subseteq> set ns)"

lemma run_migration_recorded:
  "run_migration m s = Done (s', r) \<Longrightarrow> recorded I s \<Longrightarrow> recorded (insert (fst m) I) s'"
  by (auto simp: run_migration_Done recorded_def split: if_splits)

lemma rebuild_recorded: "pg_rebuild_tags X by_id s = (s', r) \<Longrightarrow> recorded I s \<Longrightarrow> recorded I s'"
  by (auto simp: pg_rebuild_tags_def recorded_def split: sum.splits)

lemma run_migrations_Done:
  assumes "run_migrations X by_id s = Done (s6, Inr v)"
  obtains s1 s2 s3 s4 s5 r1 r2 r4 r5 r6 where
    "run_migration m001 (prepare_migrations_table s) = Done (s1, r1)" "run_migration m002 s1 = Done (s2, r2)"
    "if r2 = Upgraded then pg_rebuild_tags X by_id s2 = (s3, Inr ()) else s3 = s2"
    "run_migration m003 s3 = Done (s4, r4)" "run_migration m004 s4 = Done (s5, r5)"
    "run_migration m005 s5 = Done (s6, r6)" "current_version s6 = Done v"
proof -
  from assms obtain s1 r1 s2 r2 where 1: "run_migration m001 (prepare_migrations_table s) = Done (s1, r1)"
      "run_migration m002 s1 = Done (s2, r2)"
    and rest: "(case (if r2 = Upgraded then pg_rebuild_tags X by_id s2 else (s2, Inr ())) of
         (s3, Inl err) \<Rightarrow> Done (s3, Inl err)
       | (s3, Inr _) \<Rightarrow>
           exec_bind (run_migration m003 s3) (\<lambda>(s4, _).
           exec_bind (run_migration m004 s4) (\<lambda>(s5, _).
           exec_bind (run_migration m005 s5) (\<lambda>(s6, _).
           exec_bind (current_version s6) (\<lambda>v. Done (s6, Inr v)))))) = Done (s6, Inr v)"
    by (auto simp: run_migrations_def)
  obtain s3 r3 where 3: "(if r2 = Upgraded then pg_rebuild_tags X by_id s2 else (s2, Inr ())) = (s3, r3)" by fastforce
  from rest [unfolded 3] have "r3 = Inr ()" by (cases r3) auto
  with rest [unfolded 3] obtain s4 r4 s5 r5 r6 where "run_migration m003 s3 = Done (s4, r4)"
      "run_migration m004 s4 = Done (s5, r5)" "run_migration m005 s5 = Done (s6, r6)" "current_version s6 = Done v"
    by auto
  moreover have "if r2 = Upgraded then pg_rebuild_tags X by_id s2 = (s3, Inr ()) else s3 = s2"
    using 3 \<open>r3 = Inr ()\<close> by (auto split: if_splits)
  ultimately show thesis using 1 by (intro that)
qed

lemma migrations_recorded:
  assumes "run_migrations X by_id s = Done (s6, Inr v)"
  shows "recorded {1, 2, 3, 4, 5} s6" and "current_version s6 = Done v"
proof -
  have start: "recorded {} (prepare_migrations_table s)"
    by (simp add: recorded_def prepare_migrations_table_def split: option.split)
  obtain s1 s2 s3 s4 s5 r1 r2 r4 r5 r6 where
    r: "run_migration m001 (prepare_migrations_table s) = Done (s1, r1)" "run_migration m002 s1 = Done (s2, r2)"
    "if r2 = Upgraded then pg_rebuild_tags X by_id s2 = (s3, Inr ()) else s3 = s2"
    "run_migration m003 s3 = Done (s4, r4)" "run_migration m004 s4 = Done (s5, r5)"
    "run_migration m005 s5 = Done (s6, r6)" and v: "current_version s6 = Done v"
    using assms by (rule run_migrations_Done) blast
  show "current_version s6 = Done v" by (rule v)
  have "recorded {1} s1" using run_migration_recorded [OF r(1) start] by (simp add: m001_def)
  from run_migration_recorded [OF r(2) this] have "recorded {1, 2} s2" by (simp add: m002_def insert_commute)
  then have "recorded {1, 2} s3" using r(3) rebuild_recorded by (auto split: if_splits)
  from run_migration_recorded [OF r(4) this] have "recorded {1, 2, 3} s4" by (simp add: m003_def insert_commute)
  from run_migration_recorded [OF r(5) this] have "recorded {1, 2, 3, 4} s5" by (simp add: m004_def insert_commute)
  from run_migration_recorded [OF r(6) this] show "recorded {1, 2, 3, 4, 5} s6" by (simp add: m005_def insert_commute)
qed

lemma migrations_again:
  assumes "run_migrations X by_id s = Done (s6, Inr v)"
  shows "run_migrations X by_id s6 = Done (s6, Inr v)"
proof -
  note r = migrations_recorded [OF assms]
  have "run_migration m s6 = Done (s6, NotNeeded)" if "fst m \<in> {1, 2, 3, 4, 5}" for m
    using r(1) that by (auto simp: run_migration_def recorded_def)
  moreover have "prepare_migrations_table s6 = s6" using r(1) by (auto simp: prepare_migrations_table_def recorded_def)
  ultimately show ?thesis using r(2) by (simp add: run_migrations_def m001_def m002_def m003_def m004_def m005_def)
qed

text \<open>After the rebuild the tags are the ones that writing the events would have stored.\<close>

lemma rebuild_ok:
  assumes "pg_rebuild_tags X by_id s = (s', Inr ())"
  shows "\<exists>es. map (pg_stored_event X) (by_id (pg_events (pgs_db s))) = map Inr es
    \<and> pg_tags (pgs_db s') = concat (map2 (\<lambda>r e. pg_new_tags X (pe_id r) (e_tags e)) (by_id (pg_events (pgs_db s))) es)"
proof -
  from assms obtain ts where ts: "pg_rebuilt X (by_id (pg_events (pgs_db s))) = Inr ts"
    and "s' = s\<lparr>pgs_db := (pgs_db s)\<lparr>pg_tags := ts\<rparr>\<rparr>"
    by (auto simp: pg_rebuild_tags_def split: sum.splits)
  with pg_rebuilt_ok [OF ts] show ?thesis by simp
qed

text \<open>A database without tables is brought to version 5.\<close>

lemma fresh_migrations:
  "map_exec (\<lambda>(s, r). (columns_of (pgs_schema s) ''tag'', pgs_migrations s, r))
     (run_migrations ext0 rev \<lparr>pgs_db = empty_pg, pgs_schema = empty_schema, pgs_migrations = None\<rparr>)
   = Done (Some [''id'', ''event_id'', ''name'', ''value'', ''value_hex''], Some [1, 2, 3, 4, 5], Inr 5)"
  by code_simp

end
