(* ===== verification/Sqlite_Locks.thy ===== *)
theory Sqlite_Locks
  imports Relay_Prelude
begin

text \<open>
  How the operations of the SQLite repository (\<open>src/src/repo/sqlite.rs\<close>) share its locks and
  connections: two mutexes, three connection pools, the semaphore of the readers, and the
  runtime's blocking threads. Every asynchronous function is the list of the resources it
  takes and gives back, in the order of the code (a value that is moved into a blocking closure
  is given back when the closure ends, the others in reverse order of their declaration); what
  it does between is \<open>Work\<close>. A run interleaves the tasks in any order.

  The order is not always the same: \<open>write_event\<close> takes the write lock and then a connection
  of the write pool, the verification functions the other way round. Still no run gets stuck
  with at least two blocking threads and three reader connections, because the write lock
  comes before the thread and a single task runs the verifications; with one blocking thread a
  run can. A pool that has no connection to give is waited for here without end, where the code
  gives up after the time limit of the pool.
\<close>

section \<open>Resources\<close>

datatype resource =
  WriteLock | CheckpointLock | ReaderPermit | BlockingThread | ReadPool | WritePool | MaintPool

record limits =
  reader_conns :: nat
  blocking_threads :: nat

definition capacity :: "limits \<Rightarrow> resource \<Rightarrow> nat" where
  "capacity L r =
     (case r of
        WriteLock \<Rightarrow> 1 | CheckpointLock \<Rightarrow> 1 | ReaderPermit \<Rightarrow> reader_conns L | ReadPool \<Rightarrow> reader_conns L
      | WritePool \<Rightarrow> 2 | MaintPool \<Rightarrow> 2 | BlockingThread \<Rightarrow> blocking_threads L)"

text \<open>
  \<open>TryLock\<close> takes a free resource and leaves the function if it is held. At a \<open>Check\<close> the
  function may leave too: the client has cancelled the query, or is too slow, or the query
  has waited too long.
\<close>

datatype instr = Acquire resource | Release resource | TryLock resource | Check | Work

section \<open>The operations\<close>

text \<open>A query looks for a checkpoint and for a cancellation \<open>n\<close> times.\<close>

datatype operation =
    MigrateUp
  | WriteEvent
  | QuerySubscription nat
  | OptimizeDb
  | EditVerification
  | ReadVerification
  | AccountOp
  | CheckpointRound usize
  | CleanupRound

definition migrate_up_prog :: "instr list" where
  "migrate_up_prog = [Acquire WriteLock, Acquire WritePool, Acquire BlockingThread, Work,
     Release WritePool, Release BlockingThread, Release WriteLock]"

definition write_event_prog :: "instr list" where
  "write_event_prog = [Acquire WriteLock, Acquire BlockingThread, Acquire WritePool, Work,
     Release WritePool, Release BlockingThread, Release WriteLock]"

definition query_row_check :: "instr list" where
  "query_row_check = [TryLock CheckpointLock, Release CheckpointLock, Check]"

definition query_prog :: "nat \<Rightarrow> instr list" where
  "query_prog n =
     [Acquire ReaderPermit, Acquire BlockingThread, Acquire CheckpointLock, Release CheckpointLock, Check,
      Acquire ReadPool]
     @ concat (replicate n query_row_check)
     @ [Work, Release ReadPool, Release ReaderPermit, Work, Release BlockingThread]"

definition optimize_prog :: "instr list" where
  "optimize_prog = [Acquire WritePool, Acquire BlockingThread, Work, Release WritePool, Release BlockingThread]"

text \<open>\<open>create_verification_record\<close>, \<open>update_verification_timestamp\<close>, \<open>fail_verification\<close> and
  \<open>delete_verification\<close> take the connection first.\<close>

definition edit_verification_prog :: "instr list" where
  "edit_verification_prog = [Acquire WritePool, Acquire WriteLock, Acquire BlockingThread, Work,
     Release WritePool, Release BlockingThread, Release WriteLock]"

definition read_verification_prog :: "instr list" where
  "read_verification_prog = [Acquire ReadPool, Acquire BlockingThread, Work, Release ReadPool, Release BlockingThread]"

text \<open>The functions for accounts and invoices use the write pool, without the lock.\<close>

definition account_prog :: "instr list" where
  "account_prog = [Acquire WritePool, Acquire BlockingThread, Work, Release WritePool, Release BlockingThread]"

text \<open>One round of \<open>db_checkpoint_task\<close>, with the size of the log that the last round left.\<close>

definition wal_threshold :: usize where
  "wal_threshold = 1000 * 10"

definition checkpoint_busy_secs :: "usize \<Rightarrow> nat" where
  "checkpoint_busy_secs wal = (if wal \<le> wal_threshold then 1 else 10)"

definition checkpoint_prog :: "usize \<Rightarrow> instr list" where
  "checkpoint_prog wal =
     [Acquire MaintPool, Acquire WriteLock]
     @ (if wal \<le> wal_threshold then [Work] else [Acquire CheckpointLock, Work, Release CheckpointLock])
     @ [Release WriteLock, Release MaintPool]"

definition cleanup_prog :: "instr list" where
  "cleanup_prog = [Acquire MaintPool, Acquire WriteLock, Acquire BlockingThread, Work,
     Release MaintPool, Release BlockingThread, Release WriteLock]"

fun program :: "operation \<Rightarrow> instr list" where
  "program MigrateUp = migrate_up_prog"
| "program WriteEvent = write_event_prog"
| "program (QuerySubscription n) = query_prog n"
| "program OptimizeDb = optimize_prog"
| "program EditVerification = edit_verification_prog"
| "program ReadVerification = read_verification_prog"
| "program AccountOp = account_prog"
| "program (CheckpointRound wal) = checkpoint_prog wal"
| "program CleanupRound = cleanup_prog"

text \<open>The log after a round: \<open>PRAGMA wal_checkpoint\<close> returns its result, the size and the frames.\<close>

datatype sqlite_status = StatusOk | StatusBusy | StatusError | StatusOther u64

definition checkpoint_status :: "u64 \<Rightarrow> sqlite_status" where
  "checkpoint_status r =
     (if r = 0 then StatusOk else if r = 1 then StatusBusy else if r = 2 then StatusError else StatusOther r)"

definition checkpoint_db :: "'e + u64 \<times> u64 \<times> u64 \<Rightarrow> 'e + sqlite_status \<times> usize" where
  "checkpoint_db row = (case row of Inl e \<Rightarrow> Inl e | Inr (r, wal, _) \<Rightarrow> Inr (checkpoint_status r, wal))"

definition next_wal :: "usize \<Rightarrow> 'e + u64 \<times> u64 \<times> u64 \<Rightarrow> usize" where
  "next_wal wal row = (case checkpoint_db row of Inl _ \<Rightarrow> wal | Inr (_, n) \<Rightarrow> n)"

section \<open>Tasks and runs\<close>

text \<open>
  The tasks that call the operations. Of the first five there is one each. Events are written
  by the writer, by the verifier for an author it has just verified, and by the payment code,
  which answers web requests too, for the messages to an author who has to pay.
\<close>

datatype task_kind = Startup | DbWriter | VerifierTask | CheckpointTask | CleanupTask | ClientQuery | WebOrPayment

fun calls :: "task_kind \<Rightarrow> operation \<Rightarrow> bool" where
  "calls Startup q \<longleftrightarrow> q = MigrateUp"
| "calls DbWriter q \<longleftrightarrow> q \<in> {WriteEvent, ReadVerification, AccountOp}"
| "calls VerifierTask q \<longleftrightarrow> q \<in> {EditVerification, ReadVerification, WriteEvent}"
| "calls CheckpointTask q \<longleftrightarrow> (case q of CheckpointRound wal \<Rightarrow> True | _ \<Rightarrow> False)"
| "calls CleanupTask q \<longleftrightarrow> q = CleanupRound"
| "calls ClientQuery q \<longleftrightarrow> (case q of QuerySubscription n \<Rightarrow> True | _ \<Rightarrow> False)"
| "calls WebOrPayment q \<longleftrightarrow> q \<in> {AccountOp, WriteEvent}"

definition single :: "task_kind \<Rightarrow> bool" where
  "single t \<longleftrightarrow> t \<noteq> ClientQuery \<and> t \<noteq> WebOrPayment"

datatype outcome = Completed | Left | CheckpointAbort

record call =
  cl_task :: task_kind
  cl_op :: operation
  cl_todo :: "instr list"
  cl_held :: "resource list"
  cl_outcome :: outcome

definition new_call :: "task_kind \<Rightarrow> operation \<Rightarrow> call" where
  "new_call t q = \<lparr>cl_task = t, cl_op = q, cl_todo = program q, cl_held = [], cl_outcome = Completed\<rparr>"

text \<open>A query that leaves early drops its connection, its permit and its thread.\<close>

definition leave_order :: "resource list" where
  "leave_order = [ReadPool, ReaderPermit, BlockingThread]"

definition leave :: "outcome \<Rightarrow> call \<Rightarrow> call" where
  "leave out p = p\<lparr>cl_todo := map Release (filter (\<lambda>r. r \<in> set (cl_held p)) leave_order), cl_outcome := out\<rparr>"

definition advance_call :: "(resource \<Rightarrow> bool) \<Rightarrow> bool \<Rightarrow> call \<Rightarrow> call option" where
  "advance_call free quit p =
     (case cl_todo p of
        [] \<Rightarrow> None
      | Acquire r # k \<Rightarrow> if free r then Some (p\<lparr>cl_todo := k, cl_held := cl_held p @ [r]\<rparr>) else None
      | TryLock r # k \<Rightarrow>
          if free r then Some (p\<lparr>cl_todo := k, cl_held := cl_held p @ [r]\<rparr>) else Some (leave CheckpointAbort p)
      | Release r # k \<Rightarrow> Some (p\<lparr>cl_todo := k, cl_held := remove1 r (cl_held p)\<rparr>)
      | Check # k \<Rightarrow> Some (if quit then leave Left p else p\<lparr>cl_todo := k\<rparr>)
      | Work # k \<Rightarrow> Some (p\<lparr>cl_todo := k\<rparr>))"

definition holders :: "resource \<Rightarrow> call list \<Rightarrow> nat" where
  "holders r s = length (filter (\<lambda>p. r \<in> set (cl_held p)) s)"

definition advance :: "limits \<Rightarrow> bool \<Rightarrow> nat \<Rightarrow> call list \<Rightarrow> call list option" where
  "advance L quit i s =
     (if i < length s
      then map_option (\<lambda>p. s[i := p]) (advance_call (\<lambda>r. holders r s < capacity L r) quit (s ! i))
      else None)"

definition may_start :: "task_kind \<Rightarrow> operation \<Rightarrow> call list \<Rightarrow> bool" where
  "may_start t q s \<longleftrightarrow> calls t q \<and> (single t \<longrightarrow> (\<forall>p \<in> set s. cl_task p = t \<longrightarrow> cl_todo p = []))"

inductive reach :: "limits \<Rightarrow> call list \<Rightarrow> bool" for L where
  reach_init: "reach L []"
| reach_start: "reach L s \<Longrightarrow> may_start t q s \<Longrightarrow> reach L (s @ [new_call t q])"
| reach_step: "reach L s \<Longrightarrow> advance L quit i s = Some s' \<Longrightarrow> reach L s'"


section \<open>What is true of every program\<close>

text \<open>
  \<open>sound h k\<close>: from the resources \<open>h\<close>, the rest \<open>k\<close> of a program takes nothing twice, gives
  back what it has, may leave only where leaving gives everything back, and ends with
  nothing. \<open>waits h k\<close> lists what it waits for, each with what it then holds; \<open>works h k\<close> lists
  what it holds at each \<open>Work\<close>.
\<close>

definition may_leave :: "resource list \<Rightarrow> bool" where
  "may_leave h \<longleftrightarrow> distinct h \<and> set h \<subseteq> set leave_order"

fun sound :: "resource list \<Rightarrow> instr list \<Rightarrow> bool" where
  "sound h [] \<longleftrightarrow> h = []"
| "sound h (Acquire r # k) \<longleftrightarrow> r \<notin> set h \<and> sound (h @ [r]) k"
| "sound h (TryLock r # k) \<longleftrightarrow> r \<notin> set h \<and> may_leave h \<and> sound (h @ [r]) k"
| "sound h (Release r # k) \<longleftrightarrow> r \<in> set h \<and> sound (remove1 r h) k"
| "sound h (Check # k) \<longleftrightarrow> may_leave h \<and> sound h k"
| "sound h (Work # k) \<longleftrightarrow> sound h k"

fun waits :: "resource list \<Rightarrow> instr list \<Rightarrow> (resource \<times> resource list) list" where
  "waits h [] = []"
| "waits h (Acquire r # k) = (r, h) # waits (h @ [r]) k"
| "waits h (TryLock r # k) = waits (h @ [r]) k"
| "waits h (Release r # k) = waits (remove1 r h) k"
| "waits h (Check # k) = waits h k"
| "waits h (Work # k) = waits h k"

fun works :: "resource list \<Rightarrow> instr list \<Rightarrow> resource list list" where
  "works h [] = []"
| "works h (Acquire r # k) = works (h @ [r]) k"
| "works h (TryLock r # k) = works (h @ [r]) k"
| "works h (Release r # k) = works (remove1 r h) k"
| "works h (Check # k) = works h k"
| "works h (Work # k) = h # works h k"

lemma sound_row_checks:
  "may_leave h \<Longrightarrow> sound h (concat (replicate n query_row_check) @ k) \<longleftrightarrow> sound h k"
  by (induction n)
    (auto simp: query_row_check_def may_leave_def leave_order_def remove1_append)

lemma waits_row_checks:
  "CheckpointLock \<notin> set h \<Longrightarrow> waits h (concat (replicate n query_row_check) @ k) = waits h k"
  by (induction n) (auto simp: query_row_check_def remove1_append)

lemmas programs = migrate_up_prog_def write_event_prog_def query_prog_def optimize_prog_def
  edit_verification_prog_def read_verification_prog_def account_prog_def checkpoint_prog_def cleanup_prog_def

lemma program_sound: "sound [] (program q)"
  by (cases q) (auto simp: programs sound_row_checks may_leave_def leave_order_def)

lemma program_waits:
  "waits [] (program q) = (case q of
     MigrateUp \<Rightarrow> [(WriteLock, []), (WritePool, [WriteLock]), (BlockingThread, [WriteLock, WritePool])]
   | WriteEvent \<Rightarrow> [(WriteLock, []), (BlockingThread, [WriteLock]), (WritePool, [WriteLock, BlockingThread])]
   | QuerySubscription n \<Rightarrow> [(ReaderPermit, []), (BlockingThread, [ReaderPermit]),
       (CheckpointLock, [ReaderPermit, BlockingThread]), (ReadPool, [ReaderPermit, BlockingThread])]
   | OptimizeDb \<Rightarrow> [(WritePool, []), (BlockingThread, [WritePool])]
   | EditVerification \<Rightarrow> [(WritePool, []), (WriteLock, [WritePool]), (BlockingThread, [WritePool, WriteLock])]
   | ReadVerification \<Rightarrow> [(ReadPool, []), (BlockingThread, [ReadPool])]
   | AccountOp \<Rightarrow> [(WritePool, []), (BlockingThread, [WritePool])]
   | CheckpointRound wal \<Rightarrow> [(MaintPool, []), (WriteLock, [MaintPool])]
       @ (if wal \<le> wal_threshold then [] else [(CheckpointLock, [MaintPool, WriteLock])])
   | CleanupRound \<Rightarrow> [(MaintPool, []), (WriteLock, [MaintPool]), (BlockingThread, [MaintPool, WriteLock])])"
  by (cases q) (simp_all add: programs waits_row_checks)

lemma works_row_checks:
  "CheckpointLock \<notin> set h \<Longrightarrow> works h (concat (replicate n query_row_check) @ k) = works h k"
  by (induction n) (auto simp: query_row_check_def remove1_append)

text \<open>The operations that do their work under the write lock, and those on the write pool.\<close>

fun writes_alone :: "operation \<Rightarrow> bool" where
  "writes_alone MigrateUp \<longleftrightarrow> True"
| "writes_alone WriteEvent \<longleftrightarrow> True"
| "writes_alone EditVerification \<longleftrightarrow> True"
| "writes_alone (CheckpointRound wal) \<longleftrightarrow> True"
| "writes_alone CleanupRound \<longleftrightarrow> True"
| "writes_alone q \<longleftrightarrow> False"

fun uses_write_pool :: "operation \<Rightarrow> bool" where
  "uses_write_pool MigrateUp \<longleftrightarrow> True"
| "uses_write_pool WriteEvent \<longleftrightarrow> True"
| "uses_write_pool EditVerification \<longleftrightarrow> True"
| "uses_write_pool AccountOp \<longleftrightarrow> True"
| "uses_write_pool OptimizeDb \<longleftrightarrow> True"
| "uses_write_pool q \<longleftrightarrow> False"

lemma program_works:
  assumes "h \<in> set (works [] (program q))"
  shows "writes_alone q \<Longrightarrow> WriteLock \<in> set h" and "uses_write_pool q \<Longrightarrow> WritePool \<in> set h"
  using assms by (cases q; auto simp: programs works_row_checks split: if_splits)+

lemma sound_leave: "may_leave h \<Longrightarrow> sound h (map Release (filter (\<lambda>r. r \<in> set h) leave_order))"
proof -
  have rel: "sound h (map Release rs)" if "distinct rs" "distinct h" "set rs = set h" for rs h
    using that
  proof (induction rs arbitrary: h)
    case (Cons r rs)
    have "distinct (remove1 r h)" "set rs = set (remove1 r h)"
      using Cons.prems by (auto simp: set_remove1_eq)
    from Cons.IH [OF _ this] Cons.prems show ?case by auto
  qed simp
  have "distinct leave_order" by (simp add: leave_order_def)
  moreover assume "may_leave h"
  ultimately show ?thesis by (intro rel) (auto simp: may_leave_def)
qed

lemma waits_releases [simp]: "waits h (map Release rs) = []" "works h (map Release rs) = []"
  by (induction rs arbitrary: h) simp_all

section \<open>Calls in a run\<close>

definition call_ok :: "call \<Rightarrow> bool" where
  "call_ok p \<longleftrightarrow> calls (cl_task p) (cl_op p) \<and> distinct (cl_held p) \<and> sound (cl_held p) (cl_todo p)
     \<and> set (waits (cl_held p) (cl_todo p)) \<subseteq> set (waits [] (program (cl_op p)))
     \<and> set (works (cl_held p) (cl_todo p)) \<subseteq> set (works [] (program (cl_op p)))"

lemma call_ok_new: "calls t q \<Longrightarrow> call_ok (new_call t q)"
  by (simp add: call_ok_def new_call_def program_sound)

lemma leave_sel [simp]:
  "cl_task (leave out p) = cl_task p" "cl_op (leave out p) = cl_op p" "cl_held (leave out p) = cl_held p"
  "cl_todo (leave out p) = map Release (filter (\<lambda>r. r \<in> set (cl_held p)) leave_order)"
  by (simp_all add: leave_def)

lemma advance_call_cases:
  assumes "advance_call free quit p = Some p'"
  obtains (take) r k where "cl_todo p = Acquire r # k \<or> cl_todo p = TryLock r # k" "free r"
      "p' = p\<lparr>cl_todo := k, cl_held := cl_held p @ [r]\<rparr>"
  | (give) r k where "cl_todo p = Release r # k" "p' = p\<lparr>cl_todo := k, cl_held := remove1 r (cl_held p)\<rparr>"
  | (leave) i k out where "cl_todo p = i # k" "i = Check \<or> (\<exists>r. i = TryLock r)" "p' = leave out p"
  | (pass) i k where "cl_todo p = i # k" "i = Check \<or> i = Work" "p' = p\<lparr>cl_todo := k\<rparr>"
  using assms unfolding advance_call_def by (auto split: list.splits instr.splits if_splits)

lemma advance_call_ok:
  assumes "advance_call free quit p = Some p'" and "call_ok p"
  shows "call_ok p' \<and> cl_task p' = cl_task p \<and> cl_op p' = cl_op p"
  using assms(1)
proof (cases rule: advance_call_cases)
  case (leave i k out)
  then have "may_leave (cl_held p)" using assms(2) by (auto simp: call_ok_def)
  with leave assms(2) show ?thesis by (auto simp: call_ok_def sound_leave)
qed (use assms(2) in \<open>auto simp: call_ok_def\<close>)

text \<open>Only \<open>Acquire\<close> waits, and a finished call holds nothing.\<close>

lemma stuck_call:
  assumes "call_ok p" and "cl_todo p \<noteq> []" and "advance_call free False p = None"
  obtains r where "\<not> free r" and "(r, cl_held p) \<in> set (waits [] (program (cl_op p)))"
  using assms unfolding advance_call_def
  by (auto simp: call_ok_def split: list.splits instr.splits if_splits)

lemma finished_holds_nothing: "call_ok p \<Longrightarrow> cl_todo p = [] \<Longrightarrow> cl_held p = []"
  by (simp add: call_ok_def)

lemma held_distinct_step:
  "advance_call free quit p = Some p' \<Longrightarrow> r \<in> set (cl_held p') \<Longrightarrow> r \<in> set (cl_held p) \<or> free r"
  by (erule advance_call_cases) (auto dest: set_remove1_subset [THEN subsetD])


section \<open>Safety: the capacities\<close>

lemma advance_Some:
  assumes "advance L quit i s = Some s'"
  obtains p' where "i < length s" "advance_call (\<lambda>r. holders r s < capacity L r) quit (s ! i) = Some p'" "s' = s[i := p']"
  using assms by (auto simp: advance_def split: if_splits)

lemma length_filter_update:
  "i < length xs \<Longrightarrow> length (filter P (xs[i := x])) + (if P (xs ! i) then 1 else 0)
     = length (filter P xs) + (if P x then 1 else 0)"
proof (induction xs arbitrary: i)
  case (Cons y ys)
  then show ?case by (cases i) (use Cons.IH in \<open>auto split: if_splits\<close>)
qed simp

lemma reach_calls_ok: "reach L s \<Longrightarrow> p \<in> set s \<Longrightarrow> call_ok p"
proof (induction arbitrary: p rule: reach.induct)
  case (reach_start s t q)
  then show ?case by (auto simp: may_start_def call_ok_new)
next
  case (reach_step s quit i s')
  from reach_step.hyps(2) show ?case
  proof (rule advance_Some)
    fix p'
    assume i: "i < length s" "advance_call (\<lambda>r. holders r s < capacity L r) quit (s ! i) = Some p'" "s' = s[i := p']"
    have "call_ok p'" using advance_call_ok [OF i(2) reach_step.IH] i(1) by simp
    with reach_step i show ?thesis using set_update_subset_insert [of s i p'] by blast
  qed
qed simp

lemma reach_capacity: "reach L s \<Longrightarrow> holders r s \<le> capacity L r"
proof (induction rule: reach.induct)
  case (reach_start s t q)
  then show ?case by (simp add: holders_def new_call_def)
next
  case (reach_step s quit i s')
  from reach_step.hyps(2) show ?case
  proof (rule advance_Some)
    fix p'
    assume i: "i < length s" "advance_call (\<lambda>r. holders r s < capacity L r) quit (s ! i) = Some p'" "s' = s[i := p']"
    have "r \<in> set (cl_held p') \<Longrightarrow> r \<in> set (cl_held (s ! i)) \<or> holders r s < capacity L r"
      using held_distinct_step [OF i(2), of r] by simp
    with reach_step.IH length_filter_update [OF i(1), of "\<lambda>p. r \<in> set (cl_held p)" p'] show ?thesis
      unfolding i(3) holders_def by (auto split: if_splits)
  qed
qed (simp add: holders_def)

lemma two_holders:
  assumes "i < length s" and "j < length s" and "i \<noteq> j" and "P (s ! i)" and "P (s ! j)"
  shows "2 \<le> length (filter P s)"
proof -
  have "{i, j} \<subseteq> {k. k < length s \<and> P (s ! k)}" using assms by auto
  then have "card {i, j} \<le> card {k. k < length s \<and> P (s ! k)}" by (intro card_mono) auto
  with assms(3) show ?thesis by (simp add: length_filter_conv_card)
qed

lemma mutual_exclusion:
  assumes "reach L s" and "capacity L r = 1" and "i < length s" and "j < length s"
    and "r \<in> set (cl_held (s ! i))" and "r \<in> set (cl_held (s ! j))"
  shows "i = j"
  using reach_capacity [OF assms(1), of r] two_holders [OF assms(3,4) _ assms(5,6)] assms(2)
  by (fastforce simp: holders_def)

text \<open>A call that does its work now.\<close>

fun at_work :: "call \<Rightarrow> bool" where
  "at_work p \<longleftrightarrow> (case cl_todo p of Work # _ \<Rightarrow> True | _ \<Rightarrow> False)"

lemma at_work_holds:
  assumes "reach L s" and "p \<in> set s" and "at_work p"
  shows "writes_alone (cl_op p) \<Longrightarrow> WriteLock \<in> set (cl_held p)"
    and "uses_write_pool (cl_op p) \<Longrightarrow> WritePool \<in> set (cl_held p)"
proof -
  obtain k where "cl_todo p = Work # k" using assms(3) by (auto split: list.splits instr.splits)
  with reach_calls_ok [OF assms(1,2)] have h: "cl_held p \<in> set (works [] (program (cl_op p)))"
    by (simp add: call_ok_def)
  show "writes_alone (cl_op p) \<Longrightarrow> WriteLock \<in> set (cl_held p)" by (rule program_works(1) [OF h])
  show "uses_write_pool (cl_op p) \<Longrightarrow> WritePool \<in> set (cl_held p)" by (rule program_works(2) [OF h])
qed

lemma filter_mono_length: "(\<And>x. x \<in> set xs \<Longrightarrow> P x \<Longrightarrow> Q x) \<Longrightarrow> length (filter P xs) \<le> length (filter Q xs)"
  by (induction xs) auto

lemma one_writer:
  assumes "reach L s" and "i < length s" and "j < length s" and "at_work (s ! i)" and "at_work (s ! j)"
    and "writes_alone (cl_op (s ! i))" and "writes_alone (cl_op (s ! j))"
  shows "i = j"
  using mutual_exclusion [OF assms(1) _ assms(2,3), of WriteLock] at_work_holds(1) [OF assms(1)] assms(2-)
  by (simp add: capacity_def del: at_work.simps)

lemma two_on_write_pool:
  assumes "reach L s"
  shows "length (filter (\<lambda>p. at_work p \<and> uses_write_pool (cl_op p)) s) \<le> 2"
proof -
  have "length (filter (\<lambda>p. at_work p \<and> uses_write_pool (cl_op p)) s) \<le> holders WritePool s"
    unfolding holders_def using at_work_holds(2) [OF assms] by (intro filter_mono_length) blast
  also have "\<dots> \<le> 2" using reach_capacity [OF assms, of WritePool] by (simp add: capacity_def)
  finally show ?thesis .
qed

section \<open>Liveness: no run gets stuck\<close>

definition unfinished :: "(call \<Rightarrow> bool) \<Rightarrow> call list \<Rightarrow> nat" where
  "unfinished P s = length (filter (\<lambda>p. cl_todo p \<noteq> [] \<and> P p) s)"

lemma reach_single:
  assumes "reach L s" and "single t"
  shows "unfinished (\<lambda>p. cl_task p = t) s \<le> 1"
  using assms(1)
proof (induction rule: reach.induct)
  case (reach_start s u q)
  then show ?case using assms(2)
    by (auto simp: unfinished_def may_start_def new_call_def filter_empty_conv)
next
  case (reach_step s quit i s')
  from reach_step.hyps(2) show ?case
  proof (rule advance_Some)
    fix p'
    assume i: "i < length s" "advance_call (\<lambda>r. holders r s < capacity L r) quit (s ! i) = Some p'" "s' = s[i := p']"
    have ok: "call_ok (s ! i)" using reach_calls_ok [OF reach_step.hyps(1)] i(1) by simp
    have "cl_todo (s ! i) \<noteq> []" using i(2) by (auto simp: advance_call_def)
    with advance_call_ok [OF i(2) ok] reach_step.IH
      length_filter_update [OF i(1), of "\<lambda>p. cl_todo p \<noteq> [] \<and> cl_task p = t" p'] show ?thesis
      unfolding i(3) unfinished_def by (auto split: if_splits)
  qed
qed (simp add: unfinished_def)


text \<open>What a call may hold while it waits, for each resource it may wait for.\<close>

definition waiting :: "call \<Rightarrow> resource \<Rightarrow> bool" where
  "waiting p r \<longleftrightarrow> (r, cl_held p) \<in> set (waits [] (program (cl_op p)))"

lemma waiting_cases:
  assumes "waiting p r"
  shows "CheckpointLock \<notin> set (cl_held p)"
    and "ReadPool \<in> set (cl_held p) \<Longrightarrow> cl_op p = ReadVerification"
    and "BlockingThread \<in> set (cl_held p) \<Longrightarrow> WriteLock \<in> set (cl_held p) \<or> r = CheckpointLock \<or> r = ReadPool"
    and "WritePool \<in> set (cl_held p) \<Longrightarrow> cl_op p = EditVerification \<or> r = BlockingThread"
    and "WriteLock \<in> set (cl_held p) \<Longrightarrow> r = BlockingThread \<or> r = WritePool \<or> r = CheckpointLock"
    and "MaintPool \<in> set (cl_held p) \<Longrightarrow> r = WriteLock \<or> r = BlockingThread \<or> r = CheckpointLock"
    and "ReaderPermit \<in> set (cl_held p) \<Longrightarrow> r = BlockingThread \<or> r = CheckpointLock \<or> r = ReadPool"
  using assms unfolding waiting_def program_waits by (cases "cl_op p"; auto split: if_splits)+

text \<open>Full resources have as many holders; each of them waits in a stuck state.\<close>

definition stuck :: "limits \<Rightarrow> call list \<Rightarrow> bool" where
  "stuck L s \<longleftrightarrow> (\<forall>i. advance L False i s = None)"

lemma stuck_waiting:
  assumes "reach L s" and "stuck L s" and "p \<in> set s" and "cl_todo p \<noteq> []"
  obtains r where "waiting p r" and "capacity L r \<le> holders r s"
proof -
  from assms(3) obtain i where i: "i < length s" "s ! i = p" by (auto simp: in_set_conv_nth)
  with assms(2) have "advance_call (\<lambda>r. holders r s < capacity L r) False p = None"
    by (auto simp: stuck_def advance_def dest: spec [of _ i])
  from stuck_call [OF reach_calls_ok [OF assms(1,3)] assms(4) this] that show thesis
    by (auto simp: waiting_def not_less)
qed

lemma stuck_holder:
  assumes "reach L s" and "stuck L s" and "p \<in> set s" and "r \<in> set (cl_held p)"
  obtains r' where "waiting p r'" and "capacity L r' \<le> holders r' s" and "cl_todo p \<noteq> []"
proof -
  have "cl_todo p \<noteq> []" using finished_holds_nothing [OF reach_calls_ok [OF assms(1,3)]] assms(4) by auto
  with stuck_waiting [OF assms(1-3) this] that show thesis by blast
qed

lemma single_holders:
  assumes "reach L s" and "single t" and "\<And>p. p \<in> set s \<Longrightarrow> r \<in> set (cl_held p) \<Longrightarrow> cl_task p = t"
  shows "holders r s \<le> 1"
proof -
  have "holders r s \<le> unfinished (\<lambda>p. cl_task p = t) s"
    unfolding holders_def unfinished_def
    using assms(3) finished_holds_nothing reach_calls_ok [OF assms(1)] by (intro filter_mono_length) force
  with reach_single [OF assms(1,2)] show ?thesis by simp
qed

lemma call_ok_calls: "call_ok p \<Longrightarrow> calls (cl_task p) (cl_op p)"
  by (simp add: call_ok_def)

lemma calls_task:
  "calls t EditVerification \<longleftrightarrow> t = VerifierTask"
  "calls t ReadVerification \<longleftrightarrow> t = DbWriter \<or> t = VerifierTask"
  by (cases t; simp)+

text \<open>Nothing waits: one resource after the other has a holder that does not.\<close>

lemma never_stuck:
  assumes s: "reach L s" "stuck L s" and L: "2 \<le> blocking_threads L" "3 \<le> reader_conns L" and p: "p \<in> set s"
  shows "cl_todo p = []"
proof -
  note ok = reach_calls_ok [OF s(1)]
  define full where "full r \<longleftrightarrow> capacity L r \<le> holders r s" for r
  have pos: "0 < capacity L r" for r using L by (simp add: capacity_def split: resource.split)
  have some: "\<exists>p \<in> set s. r \<in> set (cl_held p)" if "full r" for r
    using that pos [of r] unfolding full_def holders_def
    by (cases "filter (\<lambda>p. r \<in> set (cl_held p)) s") (auto simp: filter_eq_Cons_iff)
  have wait: "\<exists>r'. waiting p r' \<and> full r'" if "p \<in> set s" "r \<in> set (cl_held p)" for p r
    using stuck_holder [OF s that] by (auto simp: full_def)
  have cl: "\<not> full CheckpointLock"
    using some [of CheckpointLock] wait waiting_cases(1) by blast
  have rp: "\<not> full ReadPool"
  proof
    assume "full ReadPool"
    have "cl_task p = DbWriter \<or> cl_task p = VerifierTask" if "p \<in> set s" "ReadPool \<in> set (cl_held p)" for p
      using wait [OF that] waiting_cases(2) that(2) call_ok_calls [OF ok [OF that(1)]] by (metis calls_task(2))
    then have "holders ReadPool s \<le> length (filter (\<lambda>p. (cl_todo p \<noteq> [] \<and> cl_task p = DbWriter) \<or> (cl_todo p \<noteq> [] \<and> cl_task p = VerifierTask)) s)"
      unfolding holders_def using finished_holds_nothing ok by (intro filter_mono_length) force
    also have "\<dots> \<le> unfinished (\<lambda>p. cl_task p = DbWriter) s + unfinished (\<lambda>p. cl_task p = VerifierTask) s"
      unfolding unfinished_def by (induction s) auto
    also have "\<dots> \<le> 2"
      using reach_single [OF s(1), of DbWriter] reach_single [OF s(1), of VerifierTask] by (simp add: single_def)
    finally show False using \<open>full ReadPool\<close> L(2) by (simp add: full_def capacity_def)
  qed
  have bt: "\<not> full BlockingThread"
  proof
    assume "full BlockingThread"
    have "WriteLock \<in> set (cl_held p)" if "p \<in> set s" "BlockingThread \<in> set (cl_held p)" for p
      using wait [OF that] waiting_cases(3) that(2) cl rp by blast
    then have "holders BlockingThread s \<le> holders WriteLock s"
      unfolding holders_def by (intro filter_mono_length)
    with reach_capacity [OF s(1), of WriteLock] have "holders BlockingThread s \<le> 1" by (simp add: capacity_def)
    with \<open>full BlockingThread\<close> L(1) show False by (simp add: full_def capacity_def)
  qed
  have wp: "\<not> full WritePool"
  proof
    assume "full WritePool"
    have "cl_task p = VerifierTask" if "p \<in> set s" "WritePool \<in> set (cl_held p)" for p
      using wait [OF that] waiting_cases(4) that(2) bt call_ok_calls [OF ok [OF that(1)]] by (metis calls_task(1))
    with single_holders [OF s(1), of VerifierTask WritePool] have "holders WritePool s \<le> 1"
      by (simp add: single_def)
    with \<open>full WritePool\<close> show False by (simp add: full_def capacity_def)
  qed
  have wl: "\<not> full WriteLock" using some [of WriteLock] wait waiting_cases(5) bt wp cl by blast
  have mp: "\<not> full MaintPool" using some [of MaintPool] wait waiting_cases(6) bt wl cl by blast
  have pm: "\<not> full ReaderPermit" using some [of ReaderPermit] wait waiting_cases(7) bt rp cl by blast
  show ?thesis
  proof (rule ccontr)
    assume "cl_todo p \<noteq> []"
    from stuck_waiting [OF s p this] obtain r where "full r" by (auto simp: full_def)
    then show False using cl rp bt wp wl mp pm by (cases r) auto
  qed
qed


text \<open>Every step leaves less to do.\<close>

definition work_left :: "call list \<Rightarrow> nat" where
  "work_left s = sum_list (map (\<lambda>p. length (cl_todo p)) s)"

lemma sound_length: "sound h k \<Longrightarrow> length h \<le> length k"
proof (induction h k rule: sound.induct)
  case (4 h r k)
  then show ?case by (auto simp: length_remove1 split: if_splits)
qed auto

lemma sound_length1: "sound (h @ [r]) k \<Longrightarrow> length h \<le> length k"
  using sound_length [of "h @ [r]" k] by simp

lemma leave_length: "length (filter (\<lambda>r. r \<in> set h) leave_order) \<le> length h"
proof -
  have "length (filter (\<lambda>r. r \<in> set h) leave_order) = card (set (filter (\<lambda>r. r \<in> set h) leave_order))"
    by (intro distinct_card [symmetric] distinct_filter) (simp add: leave_order_def)
  also have "\<dots> \<le> card (set h)" by (intro card_mono) auto
  also have "\<dots> \<le> length h" by (rule card_length)
  finally show ?thesis .
qed

lemma advance_call_shorter:
  assumes "advance_call free quit p = Some p'" and "call_ok p"
  shows "length (cl_todo p') < length (cl_todo p)"
  using assms(1)
proof (cases rule: advance_call_cases)
  case (leave i k out)
  have "length (cl_held p) \<le> length k"
    using leave(1,2) assms(2) by (auto simp: call_ok_def dest: sound_length sound_length1)
  with leave leave_length [of "cl_held p"] show ?thesis by simp
qed auto

lemma sum_list_update_less:
  "i < length xs \<Longrightarrow> f x < f (xs ! i) \<Longrightarrow> sum_list (map f (xs[i := x])) < sum_list (map f xs)" for f :: "'a \<Rightarrow> nat"
  by (induction xs arbitrary: i) (auto simp: nth_Cons' less_Suc_eq_0_disj)

lemma advance_less_work:
  assumes "reach L s" and "advance L quit i s = Some s'"
  shows "work_left s' < work_left s"
  using assms(2)
proof (rule advance_Some)
  fix p'
  assume "i < length s" "advance_call (\<lambda>r. holders r s < capacity L r) quit (s ! i) = Some p'" "s' = s[i := p']"
  with advance_call_shorter reach_calls_ok [OF assms(1)] show ?thesis
    unfolding work_left_def by (intro sum_list_update_less [THEN ord_eq_less_trans [rotated]]) auto
qed

text \<open>So every run without new calls ends, with all calls finished.\<close>

lemma run_ends:
  assumes "reach L s" and "2 \<le> blocking_threads L" and "3 \<le> reader_conns L"
  shows "\<exists>s'. (\<lambda>s s'. \<exists>i. advance L False i s = Some s')\<^sup>*\<^sup>* s s' \<and> reach L s' \<and> (\<forall>p \<in> set s'. cl_todo p = [])"
  using assms(1)
proof (induction "work_left s" arbitrary: s rule: less_induct)
  case less
  show ?case
  proof (cases "stuck L s")
    case True
    with never_stuck [OF less.prems True assms(2,3)] less.prems show ?thesis by blast
  next
    case False
    then obtain i s1 where 1: "advance L False i s = Some s1" by (auto simp: stuck_def)
    from less.hyps [OF advance_less_work [OF less.prems 1] reach_step [OF less.prems 1]]
    obtain s' where "(\<lambda>s s'. \<exists>i. advance L False i s = Some s')\<^sup>*\<^sup>* s1 s'" "reach L s'" "\<forall>p \<in> set s'. cl_todo p = []"
      by blast
    with 1 show ?thesis by (blast intro: converse_rtranclp_into_rtranclp)
  qed
qed

section \<open>Schedules\<close>

datatype choice = Start task_kind operation | Go nat

fun run_schedule :: "limits \<Rightarrow> choice list \<Rightarrow> call list \<Rightarrow> call list option" where
  "run_schedule L [] s = Some s"
| "run_schedule L (Start t q # cs) s = (if may_start t q s then run_schedule L cs (s @ [new_call t q]) else None)"
| "run_schedule L (Go i # cs) s = Option.bind (advance L False i s) (run_schedule L cs)"

lemma run_schedule_reach: "reach L s \<Longrightarrow> run_schedule L cs s = Some s' \<Longrightarrow> reach L s'"
  by (induction L cs s rule: run_schedule.induct)
    (auto simp: bind_eq_Some_conv intro: reach_start reach_step split: if_splits)


text \<open>With one blocking thread two payments and a write wait for each other.\<close>

definition thread_starved :: "choice list" where
  "thread_starved =
     [Start DbWriter WriteEvent, Go 0, Go 0, Start WebOrPayment AccountOp, Go 1, Start WebOrPayment AccountOp, Go 2]"

lemma one_thread_stuck:
  assumes "blocking_threads L = 1"
  shows "\<exists>s. run_schedule L thread_starved [] = Some s \<and> stuck L s
    \<and> map cl_todo s = [drop 2 write_event_prog, drop 1 account_prog, drop 1 account_prog]"
proof -
  define s where "s =
    [\<lparr>cl_task = DbWriter, cl_op = WriteEvent, cl_todo = drop 2 write_event_prog,
       cl_held = [WriteLock, BlockingThread], cl_outcome = Completed\<rparr>,
     \<lparr>cl_task = WebOrPayment, cl_op = AccountOp, cl_todo = drop 1 account_prog,
       cl_held = [WritePool], cl_outcome = Completed\<rparr>,
     \<lparr>cl_task = WebOrPayment, cl_op = AccountOp, cl_todo = drop 1 account_prog,
       cl_held = [WritePool], cl_outcome = Completed\<rparr>]"
  have "run_schedule L thread_starved [] = Some s"
    using assms
    by (simp add: thread_starved_def s_def may_start_def single_def new_call_def advance_def advance_call_def
        programs holders_def capacity_def numeral_eq_Suc)
  moreover have "stuck L s"
    using assms
    by (auto simp: stuck_def s_def advance_def advance_call_def programs holders_def capacity_def nth_Cons'
        numeral_eq_Suc less_Suc_eq)
  ultimately show ?thesis by (auto simp: s_def)
qed

text \<open>
  Two queries, and no checkpoint: one looks at the checkpoint lock while the other does, and
  ends as if a checkpoint was running.
\<close>

definition two_queries :: "choice list" where
  "two_queries =
     Start ClientQuery (QuerySubscription 1) # replicate 6 (Go 0)
     @ Start ClientQuery (QuerySubscription 1) # replicate 6 (Go 1) @ [Go 0, Go 1]"

lemma query_aborts_query:
  assumes "2 \<le> blocking_threads L" and "2 \<le> reader_conns L"
  shows "\<exists>s. run_schedule L two_queries [] = Some s \<and> map cl_op s = [QuerySubscription 1, QuerySubscription 1]
    \<and> map cl_outcome s = [Completed, CheckpointAbort]"
  using assms
  by (simp add: two_queries_def may_start_def single_def new_call_def advance_def advance_call_def
      programs query_row_check_def holders_def capacity_def numeral_eq_Suc leave_def)

text \<open>
  The last result, \<open>EOSE\<close>, is sent after the permit is given back and while the thread is held;
  the send waits for the client. So the permits do not bound the threads that wait there.
\<close>

definition sending_eose :: call where
  "sending_eose = \<lparr>cl_task = ClientQuery, cl_op = QuerySubscription 0, cl_todo = [Work, Release BlockingThread],
     cl_held = [BlockingThread], cl_outcome = Completed\<rparr>"

lemma holders_replicate [simp]:
  "holders r (xs @ ys) = holders r xs + holders r ys"
  "holders r (p # ys) = (if r \<in> set (cl_held p) then 1 else 0) + holders r ys"
  "holders r [] = 0"
  "holders r (replicate k p) = (if r \<in> set (cl_held p) then k else 0)"
  by (simp_all add: holders_def)

lemma advance_last:
  "length s = k \<Longrightarrow> advance L quit k (s @ [p]) =
     map_option (\<lambda>p'. s @ [p']) (advance_call (\<lambda>r. holders r (s @ [p]) < capacity L r) quit p)"
  by (auto simp: advance_def map_option_case split: option.splits)

lemma go_last:
  "run_schedule L (Go (length s) # cs) (s @ [p]) =
     Option.bind (advance_call (\<lambda>r. holders r (s @ [p]) < capacity L r) False p) (\<lambda>p'. run_schedule L cs (s @ [p']))"
  by (simp add: advance_last bind_map_option o_def del: holders_replicate)

lemma eose_once:
  assumes "holders ReaderPermit s < reader_conns L" and "holders BlockingThread s < blocking_threads L"
    and "holders CheckpointLock s = 0" and "holders ReadPool s < reader_conns L"
  shows "run_schedule L (Start ClientQuery (QuerySubscription 0) # replicate 9 (Go (length s))) s = Some (s @ [sending_eose])"
proof -
  let ?g = "Go (length s)"
  have nine: "replicate 9 ?g = [?g, ?g, ?g, ?g, ?g, ?g, ?g, ?g, ?g]" by (simp add: numeral_eq_Suc)
  show ?thesis
    unfolding nine using assms
    by (simp add: may_start_def single_def go_last new_call_def query_prog_def advance_call_def capacity_def
        sending_eose_def del: run_schedule.simps(3))
qed

lemma eose_reach:
  assumes "1 \<le> reader_conns L"
  shows "k \<le> blocking_threads L \<Longrightarrow> reach L (replicate k sending_eose)"
proof (induction k)
  case (Suc k)
  let ?s = "replicate k sending_eose"
  have "run_schedule L (Start ClientQuery (QuerySubscription 0) # replicate 9 (Go (length ?s))) ?s = Some (?s @ [sending_eose])"
    using Suc.prems assms by (intro eose_once) (simp_all add: sending_eose_def)
  from run_schedule_reach [OF _ this] Suc have "reach L (?s @ [sending_eose])" by simp
  then show ?case by (simp add: replicate_append_same)
qed (simp add: reach_init)

end
