(* ===== verification/Startup.thy ===== *)
theory Startup
  imports Nip05 Sqlite_Accounts Payment Sqlite_Migration Postgres_Migration Sqlite_Locks
begin

text \<open>
  How the program starts and ends (\<open>src/src/main.rs\<close>, \<open>src/src/cli.rs\<close>, \<open>start_server\<close> of
  \<open>src/src/server.rs\<close>, \<open>build_repo\<close> of \<open>src/src/db.rs\<close>), and the loop of the verifier task
  (\<open>src/src/nip05.rs\<close>). The machine is the record \<open>host\<close>: files, sockets, the databases. A panic
  in the server's thread reaches \<open>main\<close> through \<open>join\<close>, an error that \<open>start_server\<close> returns
  does not.
\<close>

section \<open>The machine\<close>

record host =
  h_exists :: "string \<Rightarrow> bool"
  h_is_file :: "string \<Rightarrow> bool"
  h_is_dir :: "string \<Rightarrow> bool"
  h_metadata :: "string \<Rightarrow> string + unit"
  h_open :: "string \<Rightarrow> string + unit"
  h_read :: "string \<Rightarrow> string + bytes"
  h_log_init :: bool                          \<comment> \<open>no other logger is installed\<close>
  h_socket_addr :: "string \<Rightarrow> bool"           \<comment> \<open>the text is a socket address\<close>
  h_bind :: "string \<Rightarrow> bool"
  h_sqlite :: "string \<Rightarrow> old_db option"       \<comment> \<open>the database in a directory, if it can be opened\<close>
  h_postgres :: "string \<Rightarrow> pg_state option"   \<comment> \<open>the database of a connection string, if it answers\<close>

section \<open>The command line and the settings\<close>

record cli_args =
  arg_db :: "string option"
  arg_config :: "string option"

definition check_config_file :: "host \<Rightarrow> string \<Rightarrow> string option" where
  "check_config_file H path =
     (if \<not> h_exists H path then Some (''Config file not found: '' @ path)
      else if \<not> h_is_file H path then Some (''Invalid config file path: '' @ path)
      else (case h_metadata H path of
              Inl err \<Rightarrow> Some (''Error while accessing file metadata: '' @ err)
            | Inr _ \<Rightarrow>
                (case h_open H path of
                   Inl err \<Rightarrow> Some (''Config file is not readable: '' @ err)
                 | Inr _ \<Rightarrow> None)))"

datatype log_target = TokioConsole | LogFolder string string | Stdout

definition log_target :: "settings \<Rightarrow> log_target" where
  "log_target st =
     (if st_diagnostics_tracing st then TokioConsole
      else (case st_log_folder st of
              Some path \<Rightarrow> LogFolder path (case st_log_prefix st of Some p \<Rightarrow> p | None \<Rightarrow> ''relay'')
            | None \<Rightarrow> Stdout))"

text \<open>\<open>main\<close> up to the start of the server: the process ends with code 1, or there are settings.\<close>

definition main_settings ::
  "ext \<Rightarrow> host \<Rightarrow> (settings \<Rightarrow> string \<Rightarrow> string + settings) \<Rightarrow> cli_args \<Rightarrow> (int + settings \<times> log_target) exec" where
  "main_settings X H build_config args =
     (if (case arg_config args of Some path \<Rightarrow> check_config_file H path \<noteq> None | None \<Rightarrow> False) then Done (Inl 1)
      else exec_bind (settings_new X (h_read H) build_config (arg_config args)) (\<lambda>r.
        case r of
          Inl _ \<Rightarrow> Done (Inl 1)
        | Inr st \<Rightarrow>
            if \<not> h_log_init H then Panic
            else Done (Inr
              (case arg_db args of
                 Some dir \<Rightarrow> st\<lparr>st_database := (st_database st)\<lparr>data_directory := dir\<rparr>\<rparr>
               | None \<Rightarrow> st, log_target st))))"

section \<open>The repository\<close>

text \<open>
  What became of the migration of SQLite is known to nobody: its result, an error or the panic
  of its thread, is dropped. With PostgreSQL both end the program.
\<close>

datatype repo =
    SqliteRepository "(old_db \<times> (error + nat)) exec"
  | PostgresRepository pg_state int

definition build_sqlite_pool :: "ext \<Rightarrow> host \<Rightarrow> settings \<Rightarrow> repo exec" where
  "build_sqlite_pool X H st =
     (case h_sqlite H (data_directory (st_database st)) of
        None \<Rightarrow> Panic
      | Some s \<Rightarrow> Done (SqliteRepository (upgrade_db X s)))"

definition build_postgres_pool :: "ext \<Rightarrow> (pg_event list \<Rightarrow> pg_event list) \<Rightarrow> host \<Rightarrow> settings \<Rightarrow> repo exec" where
  "build_postgres_pool X by_id H st =
     (case h_postgres H (db_connection (st_database st)) of
        None \<Rightarrow> Panic
      | Some pool \<Rightarrow>
          (case (case connection_write (st_database st) of Some c \<Rightarrow> h_postgres H c | None \<Rightarrow> Some pool) of
             None \<Rightarrow> Panic
           | Some write_pool \<Rightarrow>
               exec_bind (run_migrations X by_id write_pool) (\<lambda>(s, r).
                 case r of Inl _ \<Rightarrow> Panic | Inr v \<Rightarrow> Done (PostgresRepository s v))))"

definition build_repo :: "ext \<Rightarrow> (pg_event list \<Rightarrow> pg_event list) \<Rightarrow> host \<Rightarrow> settings \<Rightarrow> repo exec" where
  "build_repo X by_id H st =
     (if db_engine (st_database st) = ''sqlite'' then build_sqlite_pool X H st
      else if db_engine (st_database st) = ''postgres'' then build_postgres_pool X by_id H st
      else Panic)"

section \<open>The server\<close>

text \<open>The tasks that run, with the two broadcast buffers and the favicon.\<close>

record serving =
  sv_repo :: repo
  sv_verifier :: bool
  sv_payment :: bool
  sv_favicon :: "bytes option"

datatype server_start = Refused error | ServerPanic | ServerExit int | Serving serving

definition listen_addr :: "ext \<Rightarrow> settings \<Rightarrow> string" where
  "listen_addr X st = trim X (net_address (st_network st)) @ '':'' @ nat_to_dec (unat (net_port (st_network st)))"

text \<open>
  \<open>tokio\<close> refuses zero blocking threads and channels with no place by a panic; \<open>pay_ok\<close> says
  whether \<open>Payment::new\<close> succeeds.
\<close>

definition start_server ::
  "ext \<Rightarrow> (pg_event list \<Rightarrow> pg_event list) \<Rightarrow> host \<Rightarrow> bool \<Rightarrow> settings \<Rightarrow> server_start" where
  "start_server X by_id H pay_ok st =
     (if \<not> h_is_dir H (data_directory (st_database st)) then Refused DatabaseDirError
      else if \<not> h_socket_addr H (listen_addr X st) then ServerPanic
      else if max_blocking_threads (st_limits st) = 0 then ServerPanic
      else if broadcast_buffer (st_limits st) = 0 \<or> event_persist_buffer (st_limits st) = 0 then ServerPanic
      else (case build_repo X by_id H st of
              Panic \<Rightarrow> ServerPanic
            | Done repo \<Rightarrow>
                if pay_enabled (st_pay_to_relay st) \<and> \<not> pay_ok then ServerExit 1
                else if \<not> h_bind H (listen_addr X st) then ServerPanic
                else Serving
                  \<lparr>sv_repo = repo, sv_verifier = vu_is_active (st_verified_users st),
                   sv_payment = pay_enabled (st_pay_to_relay st),
                   sv_favicon = Option.bind (info_favicon (st_info st)) (\<lambda>f. result_ok (h_read H f))\<rparr>))"

text \<open>The exit code, when the process ends before it serves. A panic of \<open>main\<close> gives 101.\<close>

definition main_run ::
  "ext \<Rightarrow> (pg_event list \<Rightarrow> pg_event list) \<Rightarrow> host \<Rightarrow> (settings \<Rightarrow> string \<Rightarrow> string + settings) \<Rightarrow> bool
     \<Rightarrow> cli_args \<Rightarrow> int + serving" where
  "main_run X by_id H build_config pay_ok args =
     (case main_settings X H build_config args of
        Panic \<Rightarrow> Inl 101
      | Done (Inl code) \<Rightarrow> Inl code
      | Done (Inr (st, _)) \<Rightarrow>
          (case start_server X by_id H pay_ok st of
             Refused _ \<Rightarrow> Inl 0
           | ServerPanic \<Rightarrow> Inl 101
           | ServerExit code \<Rightarrow> Inl code
           | Serving sv \<Rightarrow> Inr sv))"

definition limits_of :: "settings \<Rightarrow> limits" where
  "limits_of st = \<lparr>reader_conns = unat (max_conn (st_database st)),
     blocking_threads = unat (max_blocking_threads (st_limits st))\<rparr>"


section \<open>The verifier's loop\<close>

text \<open>
  Times are seconds of the monotonic clock. \<open>Verifier::new\<close> sets the timer to one second; when
  no record is old enough, the next tick is ten minutes later.
\<close>

definition http_wait :: nat where
  "http_wait = 1"

definition wait_after_finish :: nat where
  "wait_after_finish = 60 * 10"

datatype verifier_input =
    MetadataIn event
  | MetadataLagged nat
  | MetadataClosed
  | ReverifyTick nat

text \<open>One turn of \<open>run_internal\<close>: the store, the events broadcast, the next tick, the result.\<close>

definition verifier_turn ::
  "ext \<Rightarrow> 'db nostr_repo \<Rightarrow> verified_users \<Rightarrow> (string \<Rightarrow> fetch_result) \<Rightarrow> u64 \<Rightarrow> verifier_input
     \<Rightarrow> 'db \<times> nat \<Rightarrow> ('db \<times> nat) \<times> event list \<times> (error + unit)" where
  "verifier_turn X R vu fetch now inp s =
     (case (s, inp) of
        ((db, tick), MetadataIn e) \<Rightarrow>
          (case handle_metadata X R vu fetch e db of (db', out, r) \<Rightarrow> ((db', tick), out, r))
      | ((db, tick), MetadataLagged c) \<Rightarrow> ((db, tick), [], Inr ())
      | ((db, tick), MetadataClosed) \<Rightarrow> ((db, tick), [], Inl ChannelClosed)
      | ((db, tick), ReverifyTick clock) \<Rightarrow>
          (let dur = (case verify_update_frequency_duration vu of Some d \<Rightarrow> d | None \<Rightarrow> 60 * 60 * 6);
               idle = (case rp_oldest_verification R (seconds_ago now dur) db of
                         Inl err \<Rightarrow> is_no_rows err | Inr _ \<Rightarrow> False);
               (db', r) = do_reverify X R vu fetch now db in
           ((db', if idle then clock + wait_after_finish else tick + http_wait), [], r)))"

text \<open>\<open>run\<close>: an error is logged, and only a closed channel ends the loop. The flag says if it runs on.\<close>

fun verifier_run ::
  "ext \<Rightarrow> (u64 \<Rightarrow> 'db nostr_repo) \<Rightarrow> verified_users \<Rightarrow> (u64 \<Rightarrow> string \<Rightarrow> fetch_result) \<Rightarrow> (u64 \<times> verifier_input) list
     \<Rightarrow> 'db \<times> nat \<Rightarrow> ('db \<times> nat) \<times> event list \<times> bool" where
  "verifier_run X R vu fetch [] s = (s, [], True)"
| "verifier_run X R vu fetch ((now, inp) # ins) s =
     (case verifier_turn X (R now) vu (fetch now) now inp s of
        (s', out, Inl ChannelClosed) \<Rightarrow> (s', out, False)
      | (s', out, _) \<Rightarrow>
          (case verifier_run X R vu fetch ins s' of (s'', out', go) \<Rightarrow> (s'', out @ out', go)))"

section \<open>Lemmas\<close>

lemma main_run_serving:
  assumes "main_run X by_id H build_config pay_ok args = Inr sv"
  obtains st lg where "main_settings X H build_config args = Done (Inr (st, lg))"
    and "start_server X by_id H pay_ok st = Serving sv"
  using assms unfolding main_run_def
  by (auto split: exec.splits sum.splits server_start.splits prod.splits)

lemma start_server_serving:
  assumes "start_server X by_id H pay_ok st = Serving sv"
  shows "h_is_dir H (data_directory (st_database st))" and "max_blocking_threads (st_limits st) \<noteq> 0"
    and "build_repo X by_id H st = Done (sv_repo sv)" and "sv_payment sv \<longrightarrow> pay_ok"
    and "sv_verifier sv = vu_is_active (st_verified_users st)" and "sv_payment sv = pay_enabled (st_pay_to_relay st)"
  using assms by (auto simp: start_server_def split: if_splits exec.splits)

text \<open>A server on PostgreSQL has all five migrations; one on SQLite may have failed to migrate.\<close>

lemma build_repo_migrated:
  assumes "build_repo X by_id H st = Done (PostgresRepository s v)"
  shows "recorded {1, 2, 3, 4, 5} s \<and> current_version s = Done v"
proof -
  from assms obtain p where "run_migrations X by_id p = Done (s, Inr v)"
    by (auto simp: build_repo_def build_sqlite_pool_def build_postgres_pool_def exec_bind_eq_Done
        split: if_splits option.splits sum.splits prod.splits)
  from migrations_recorded [OF this] show ?thesis by simp
qed

lemma sqlite_too_new:
  assumes "db_engine (st_database st) = ''sqlite''" and "h_sqlite H (data_directory (st_database st)) = Some s"
    and "db_version < od_version s"
  shows "build_repo X by_id H st = Done (SqliteRepository Panic)"
  using assms by (simp add: build_repo_def build_sqlite_pool_def upgrade_db_def)

lemma default_limits: "limits_of default_settings = \<lparr>reader_conns = 8, blocking_threads = 16\<rparr>"
  by (simp add: limits_of_def default_settings_def)


text \<open>No operation of the SQLite repository fails in a way that ends the verifier's loop.\<close>

lemma verification_errors:
  "snd (create_verification_record X now i n db) \<noteq> Inl ChannelClosed"
  "snd (update_verification_timestamp j now k db) \<noteq> Inl ChannelClosed"
  "snd (fail_verification j now k db) \<noteq> Inl ChannelClosed" "snd (delete_verification k db) \<noteq> Inl ChannelClosed"
  by (auto simp: create_verification_record_def update_verification_timestamp_def fail_verification_def
      delete_verification_def sqlite_failure_def out_of_range_def Let_def split: list.split option.split)

lemma failure_error_open: "failure_error f \<noteq> ChannelClosed"
  by (cases f) (simp_all add: sqlite_failure_def)

lemma guarded_open:
  "snd (guarded f call db) = Inl ChannelClosed \<longleftrightarrow> f = None \<and> snd (call db) = Inl ChannelClosed"
  by (simp add: guarded_def failure_error_open split: option.split)

lemma verifier_turn_open:
  "(case verifier_turn X (sqlite_repo X j now busy) vu fetch now inp s of (s', out, r) \<Rightarrow> r = Inl ChannelClosed)
     \<longleftrightarrow> inp = MetadataClosed"
proof (cases inp)
  case (MetadataIn e)
  have "snd (snd (handle_metadata X (sqlite_repo X j now busy) vu fetch e db)) \<noteq> Inl ChannelClosed" for db
    by (auto simp: handle_metadata_def create_new_verified_user_def Let_def sqlite_repo_def case_prod_beta
        guarded_open verification_errors split: option.split)
  with MetadataIn show ?thesis by (auto simp: verifier_turn_def case_prod_beta split: prod.split)
next
  case (ReverifyTick clock)
  have "snd (do_reverify X (sqlite_repo X j now busy) vu fetch now db) \<noteq> Inl ChannelClosed" for db
    by (auto simp: do_reverify_def Let_def sqlite_repo_def guarded_open verification_errors split: sum.split web_status.split)
  with ReverifyTick show ?thesis by (auto simp: verifier_turn_def case_prod_beta Let_def split: prod.split)
qed (auto simp: verifier_turn_def split: prod.split)

lemma verifier_runs_on:
  "snd (snd (verifier_run X (\<lambda>now. sqlite_repo X (j now) now (busy now)) vu fetch ins s))
     \<longleftrightarrow> MetadataClosed \<notin> snd ` set ins"
proof (induction ins arbitrary: s)
  case (Cons i ins)
  obtain now inp where i: "i = (now, inp)" by fastforce
  obtain s' out r where t: "verifier_turn X (sqlite_repo X (j now) now (busy now)) vu (fetch now) now inp s = (s', out, r)"
    by (metis prod_cases3)
  with verifier_turn_open [of X "j now" now "busy now" vu "fetch now" inp s] have r: "r = Inl ChannelClosed \<longleftrightarrow> inp = MetadataClosed"
    by simp
  show ?case
  proof (cases "inp = MetadataClosed")
    case True
    with r t i show ?thesis by simp
  next
    case False
    with r have "verifier_run X (\<lambda>now. sqlite_repo X (j now) now (busy now)) vu fetch (i # ins) s =
        (case verifier_run X (\<lambda>now. sqlite_repo X (j now) now (busy now)) vu fetch ins s' of (s'', out', go) \<Rightarrow> (s'', out @ out', go))"
      using t i by (cases r) (auto split: error.split)
    with Cons.IH [of s'] False i show ?thesis by (auto split: prod.splits)
  qed
qed simp

end
