(* ===== verification/Pages.thy ===== *)
theory Pages
  imports Web
begin

text \<open>
  The HTML of the pages that \<open>handle_web_request\<close> (\<open>src/src/server.rs\<close>) writes, byte for byte, with
  the places that are filled in. Nothing is escaped there; what the client can put into a
  page is its key, which is put in only after the key was recognised.
\<close>

section \<open>The texts\<close>

definition join_html :: string where
  "join_html = ''
<!doctype HTML>
<head>
  <meta charset=\"UTF-8\">
  <style>
    body {
      display: flex;
      flex-direction: column;
      align-items: center;
      text-align: center;
      font-family: Arial, sans-serif;
      background-color: #6320a7;
      color: white;
    }

    .container {
      display: flex;
      justify-content: center;
      align-items: center;
      height: 400px;
    }

    a {
      color: pink;
    }

    input[type=\"text\"] {
        width: 100%;
        max-width: 500px;
        box-sizing: border-box;
        overflow-x: auto;
        white-space: nowrap;
    }
  </style>
</head>
<body>
  <div style=\"width:75%;\">
    <h1>Enter your pubkey</h1>
    <form action=\"/invoice\" onsubmit=\"return checkForm(this);\">
      <input type=\"text\" name=\"pubkey\" id=\"pubkey-input\"><br><br>
      <input type=\"checkbox\" id=\"terms\" required>
      <label for=\"terms\">I agree to the <a href=\"/terms\">terms and conditions</a></label><br><br>
      <button type=\"submit\">Submit</button>
    </form>
    <button id=\"get-public-key-btn\">Get Public Key</button>
  </div>
  <script>
    function checkForm(form) {
      if (!form.terms.checked) {
        alert(\"Please agree to the terms and conditions\");
        return false;
      }
      return true;
    }

    const pubkeyInput = document.getElementById('pubkey-input');
      const getPublicKeyBtn = document.getElementById('get-public-key-btn');
      getPublicKeyBtn.addEventListener('click', async function() {
        try {
          const publicKey = await window.nostr.getPublicKey();
          pubkeyInput.value = publicKey;
        } catch (error) {
          console.error(error);
        }
      });
  </script>
</body>
</html>
            ''"

text \<open>The drawing of the code is left to a library; it may fail.\<close>

definition qr_text :: "(string \<Rightarrow> string option) \<Rightarrow> string \<Rightarrow> string" where
  "qr_text qr bolt11 = (case qr bolt11 of Some svg \<Rightarrow> svg | None \<Rightarrow> ''Could not render image'')"

definition invoice_head :: string where
  "invoice_head = ''
<!DOCTYPE html>
<html>
  <head>
  <meta charset=\"UTF-8\">
    <style>
      body {
        display: flex;
        flex-direction: column;
        align-items: center;
        text-align: center;
        font-family: Arial, sans-serif;
        background-color:  #6320a7 ;
        color: white;
      }
      #copy-button {
        background-color: #bb5f0d ;
        color: white;
        padding: 10px 20px;
        border-radius: 5px;
        border: none;
        cursor: pointer;
      }
      #copy-button:hover {
        background-color: #8f29f4;
      }
    .container {
        display: flex;
        justify-content: center;
        align-items: center;
        height: 400px;
    }
    a {
        color: pink;
    }
    </style>
  </head>
  <body>
    <div style=\"width:75%;\">
      <h3>
        To use this relay, an admission fee of ''"

definition invoice_script :: "string \<Rightarrow> string" where
  "invoice_script bolt11 = ''>here</a> once you have paid</p>
    </div>
    </div>
  </body>
</html>


<script>
  const copyButton = document.getElementById(\"copy-button\");
  if (navigator.clipboard) {
    copyButton.addEventListener(\"click\", function() {
      const textToCopy = \"'' @ bolt11 @
     ''\";
      navigator.clipboard.writeText(textToCopy).then(function() {
        console.log(\"Text copied to clipboard\");
      }, function(err) {
        console.error(\"Could not copy text: \", err);
      });
    });
  } else {
    copyButton.style.display = \"none\";
    console.warn(\"Clipboard API is not supported in this browser\");
  }
</script>
''"

definition invoice_html :: "string \<Rightarrow> u64 \<Rightarrow> string \<Rightarrow> string \<Rightarrow> string" where
  "invoice_html svg cost bolt11 pubkey =
     invoice_head @ nat_to_dec (unat cost) @ '' sats is required. By paying the fee, you agree to the <a href='terms'>terms</a>.
      </h3>
    </div>
    <div>
        <div style=\"max-height: 300px;\">
            '' @ svg @ ''
        </div>
    </div>
    <div>
    <div style=\"width: 75%;\">
        <p style=\"overflow-wrap: break-word; width: 500px;\">'' @ bolt11 @
     ''</p>
        <button id=\"copy-button\">Copy</button>
    </div>
    <div>
        <p> This page will not refresh </p>
        <p> Verify admission <a href=/account?pubkey='' @ pubkey @ invoice_script bolt11"

definition account_html :: "string \<Rightarrow> string \<Rightarrow> string" where
  "account_html pubkey status =
     ''
            <!DOCTYPE html>
<html>
  <head>
    <meta charset=\"UTF-8\">
    <style>
      body {
        display: flex;
        flex-direction: column;
        align-items: center;
        text-align: center;
        font-family: Arial, sans-serif;
        background-color: #6320a7;
        color: white;
        height: 100vh;
      }
    </style>
  </head>
  <body>
    <div>
      <h5>'' @ pubkey @ '' '' @ status @
     '' admitted</h5>
    </div>
  </body>
</html>


            ''"

definition page_body :: "(json \<Rightarrow> string option) \<Rightarrow> string \<Rightarrow> (string \<Rightarrow> string option) \<Rightarrow> page \<Rightarrow> string" where
  "page_body print metrics qr p =
     (case p of
        NoPage \<Rightarrow> []
      | TextPage s \<Rightarrow> s
      | FilePage b \<Rightarrow> b
      | InfoPage j \<Rightarrow> (case print j of Some s \<Rightarrow> s | None \<Rightarrow> [])
      | MetricsPage \<Rightarrow> metrics
      | JoinPage \<Rightarrow> join_html
      | InvoicePage cost bolt11 pubkey \<Rightarrow> invoice_html (qr_text qr bolt11) cost bolt11 pubkey
      | AccountPage pubkey status \<Rightarrow> account_html pubkey status)"

section \<open>No markup comes from the client\<close>

text \<open>
  A key that \<open>Keys::from_pk_str\<close> recognises is hexadecimal or bech32, so it has letters and
  digits only.
\<close>

definition letter_or_digit :: "char \<Rightarrow> bool" where
  "letter_or_digit c \<longleftrightarrow> is_ascii_digit c \<or> is_ascii_lowercase c \<or> is_ascii_uppercase c"

definition key_law :: "ext \<Rightarrow> bool" where
  "key_law X \<longleftrightarrow> (\<forall>s k. keys_from_pk X s = Some k \<longrightarrow> list_all letter_or_digit s)"

text \<open>The characters that HTML and its scripts are made of.\<close>

definition markup :: "string" where
  "markup = [CHR ''<'', CHR ''>'', CHR ''&'', CHR 0x22, CHR 0x27, CHR 0x5C, CHR ''/'', CHR '' '']"

lemma markup_not_key: "c \<in> set markup \<Longrightarrow> \<not> letter_or_digit c"
  by (auto simp: markup_def letter_or_digit_def is_ascii_digit_def is_ascii_lowercase_def is_ascii_uppercase_def)

lemma count_key: "list_all letter_or_digit s \<Longrightarrow> c \<in> set markup \<Longrightarrow> count_list s c = 0"
  using markup_not_key by (auto simp: count_list_0_iff list_all_iff)

lemma account_html_count:
  "count_list (account_html k s) c = count_list (account_html [] s) c + count_list k c"
  unfolding account_html_def by (simp only: count_list_append append_Nil)

lemma invoice_html_count:
  "count_list (invoice_html svg n b k) c = count_list (invoice_html svg n b []) c + count_list k c"
  unfolding invoice_html_def by (simp only: count_list_append append_Nil)

text \<open>The key on a page is the one of the query, and it was recognised.\<close>

lemma page_key:
  assumes "handle_web_request env inbox rq db = Done (ms, Respond r)"
    and "rs_body r = AccountPage pk s \<or> rs_body r = InvoicePage n b pk"
  shows "get_pubkey (rq_query rq) = Some pk \<and> keys_from_pk (wb_ext env) pk \<noteq> None"
  using assms
  by (auto simp: handle_web_request_def Let_def route_websocket_def answer_def route_root_def route_favicon_def
      route_lnbits_def route_join_def route_invoice_def route_account_def with_key_def response_def
      no_joining_def already_admitted_def
      split: sum.splits option.splits if_splits bool.splits wait_result.splits)

text \<open>So a page has as much markup as it has with no key at all.\<close>

lemma page_markup:
  assumes law: "key_law (wb_ext env)" and c: "c \<in> set markup"
    and r: "handle_web_request env inbox rq db = Done (ms, Respond r)"
  shows "rs_body r = AccountPage pk s \<Longrightarrow> count_list (page_body print metrics qr (rs_body r)) c = count_list (account_html [] s) c"
    and "rs_body r = InvoicePage n b pk \<Longrightarrow>
      count_list (page_body print metrics qr (rs_body r)) c = count_list (invoice_html (qr_text qr b) n b []) c"
proof -
  have "count_list pk c = 0" if "rs_body r = AccountPage pk s \<or> rs_body r = InvoicePage n b pk"
    using page_key [OF r that] law c by (intro count_key) (auto simp: key_law_def)
  then show "rs_body r = AccountPage pk s \<Longrightarrow> count_list (page_body print metrics qr (rs_body r)) c = count_list (account_html [] s) c"
    and "rs_body r = InvoicePage n b pk \<Longrightarrow>
      count_list (page_body print metrics qr (rs_body r)) c = count_list (invoice_html (qr_text qr b) n b []) c"
    by (simp_all add: page_body_def account_html_count [of pk] invoice_html_count [of _ _ _ pk])
qed

end
