(* ===== verification/Bulk_Load.thy ===== *)
theory Bulk_Load
  imports Sqlite_Repo Delegation
begin

text \<open>
  The bulk loader (\<open>src/src/bin/bulkloader.rs\<close>), which reads events from its standard
  input, one JSON text on each line, and writes them to the tables without the relay.
  The start is \<open>loader_main\<close>; the thread that reads is \<open>parse_line\<close>; a transaction is
  \<open>load_batch\<close>. The clock is an argument.
\<close>

text \<open>The row has no expiration, whatever the event's tags say.\<close>

definition loader_row :: "ext \<Rightarrow> u64 \<Rightarrow> event \<Rightarrow> db \<Rightarrow> error + event_row option" where
  "loader_row X now e db =
     (case (sql_u64 (e_created_at e), sql_u64 (e_kind e)) of
        (Some t, Some k) \<Rightarrow>
          (case (hex_decode X (e_id e), hex_decode X (e_pubkey e), json_to_string X (event_to_json e)) of
             (Some i, Some pk, Some s) \<Rightarrow>
               if list_ex (\<lambda>r. ev_hash r = i) (events db) then Inr None
               else Inr (Some
                 \<lparr>ev_id = next_id (map ev_id (events db)), ev_hash = i, ev_first_seen = uint now,
                  ev_created = t, ev_expires = None, ev_author = pk,
                  ev_delegated = Option.bind (e_delegated_by e) (hex_decode X), ev_kind = k,
                  ev_hidden = False, ev_content = s\<rparr>)
           | _ \<Rightarrow> Inr None)
      | _ \<Rightarrow> Inl out_of_range)"

definition load_event :: "ext \<Rightarrow> u64 \<Rightarrow> event \<Rightarrow> db \<Rightarrow> db \<times> (error + usize)" where
  "load_event X now e db =
     (case loader_row X now e db of
        Inl err \<Rightarrow> (db, Inl err)
      | Inr None \<Rightarrow> (db, Inr 0)
      | Inr (Some r) \<Rightarrow>
          (let db1 = insert_event r e db in
           (if is_replaceable e then remove_older_replaceable (ev_author r) (ev_kind r) db1 else db1, Inr 1)))"

text \<open>A line that cannot be read or parsed, or is not a valid event, is skipped.\<close>

definition parse_line :: "ext \<Rightarrow> string option \<Rightarrow> event option" where
  "parse_line X line =
     Option.bind line (\<lambda>s. Option.bind (json_from_str X s) (\<lambda>v. Option.bind (event_from_json v) (\<lambda>e.
       if validate X e = Inr () then Some (build_index e) else None)))"

record load_state =
  ld_db :: db
  ld_read :: nat
  ld_new :: usize

text \<open>An ephemeral event is counted but not written; an error is logged.\<close>

definition load_step :: "ext \<Rightarrow> u64 \<Rightarrow> event \<Rightarrow> load_state \<Rightarrow> load_state" where
  "load_step X now e s =
     (let s1 = s\<lparr>ld_read := Suc (ld_read s)\<rparr> in
      if 20000 \<le> e_kind e \<and> e_kind e < 30000 then s1
      else (case load_event X now e (ld_db s1) of
              (db, Inr c) \<Rightarrow> s1\<lparr>ld_db := db, ld_new := ld_new s1 + c\<rparr>
            | (db, Inl err) \<Rightarrow> s1\<lparr>ld_db := db\<rparr>))"

definition load_batch :: "ext \<Rightarrow> u64 \<Rightarrow> event list \<Rightarrow> load_state \<Rightarrow> load_state" where
  "load_batch X now es s = fold (load_step X now) es s"

definition event_batch_size :: nat where
  "event_batch_size = 50000"

text \<open>The events in transactions of at most a batch, until the reader's end mark.\<close>

function load_batches :: "ext \<Rightarrow> u64 \<Rightarrow> event list \<Rightarrow> load_state \<Rightarrow> load_state" where
  "load_batches X now es s =
     (let s1 = load_batch X now (take event_batch_size es) s in
      if length es < event_batch_size then s1
      else load_batches X now (drop event_batch_size es) s1)"
  by pat_completeness auto
termination
  by (relation "measure (\<lambda>(X, now, es, s). length es)") (auto simp: event_batch_size_def)

definition loader_main ::
  "ext \<Rightarrow> bool \<Rightarrow> nat \<Rightarrow> u64 \<Rightarrow> string option list \<Rightarrow> db \<Rightarrow> (error + load_state) exec" where
  "loader_main X dir_ok version now lines db =
     (if \<not> dir_ok then Done (Inl DatabaseDirError)
      else if version \<noteq> 18 then Panic
      else Done (Inr (load_batches X now (List.map_filter (parse_line X) lines)
                        \<lparr>ld_db = db, ld_read = 0, ld_new = 0\<rparr>)))"

section \<open>Lemmas\<close>

declare load_batches.simps [simp del]

lemma load_batches_fold: "load_batches X now es s = fold (load_step X now) es s"
proof (induction X now es s rule: load_batches.induct)
  case (1 X now es s)
  let ?s1 = "load_batch X now (take event_batch_size es) s"
  show ?case
  proof (cases "length es < event_batch_size")
    case True
    then show ?thesis by (simp add: load_batches.simps [of X now es s] Let_def load_batch_def)
  next
    case False
    from 1 [OF refl False] have "load_batches X now es s
        = fold (load_step X now) (take event_batch_size es @ drop event_batch_size es) s"
      using False by (simp add: load_batches.simps [of X now es s] Let_def load_batch_def del: append_take_drop_id)
    then show ?thesis by simp
  qed
qed

lemma loader_row_Some:
  assumes "loader_row X now e db = Inr (Some r)"
  shows "ev_id r = next_id (map ev_id (events db))" and "hex_decode X (e_id e) = Some (ev_hash r)"
    and "hex_decode X (e_pubkey e) = Some (ev_author r)" and "ev_kind r = uint (e_kind e)"
    and "ev_expires r = None" and "ev_hash r \<notin> ev_hash ` set (events db)"
    and "json_to_string X (event_to_json e) = Some (ev_content r)"
  using assms by (auto simp: loader_row_def sql_u64_Some list_ex_iff split: option.splits if_splits)

lemma load_event_inv:
  assumes "db_inv db"
  shows "db_inv (fst (load_event X now e db))"
proof (cases "loader_row X now e db")
  case (Inr m)
  show ?thesis
  proof (cases m)
    case (Some r)
    note f = loader_row_Some [OF Inr [unfolded Some]]
    let ?db = "insert_event r e db"
    have k: "keys_ok ?db"
      using assms f(1,6) next_id_new [of "map ev_id (events db)"] by (auto simp: keys_ok_def db_inv_def)
    have rf: "refs_ok ?db" using assms by (simp add: db_inv_def refs_ok_insert)
    have u: "\<forall>s \<in> set (events db). \<forall>t \<in> set (events db).
        replaceable_kind (ev_kind s) \<and> ev_kind s = ev_kind t \<and> ev_author s = ev_author t \<longrightarrow> s = t"
      using assms unfolding db_inv_def replaceable_unique_def by blast
    have "db_inv (if is_replaceable e then remove_older_replaceable (ev_author r) (ev_kind r) ?db else ?db)"
    proof (cases "is_replaceable e")
      case True
      have "replaceable_unique (remove_older_replaceable (ev_author r) (ev_kind r) ?db)"
        using k u by (intro remove_older_replaceable_unique) auto
      with True k rf show ?thesis
        by (simp add: db_inv_def remove_older_replaceable_def Let_def keys_ok_delete refs_ok_delete)
    next
      case False
      then have "\<not> replaceable_kind (ev_kind r)" using f(4) by (simp add: is_replaceable_uint)
      with False u k rf show ?thesis by (auto simp: db_inv_def replaceable_unique_def)
    qed
    with Inr Some show ?thesis by (simp add: load_event_def Let_def)
  qed (use Inr assms in \<open>simp add: load_event_def\<close>)
qed (use assms in \<open>simp add: load_event_def\<close>)

lemma load_step_inv: "db_inv (ld_db s) \<Longrightarrow> db_inv (ld_db (load_step X now e s))"
  using load_event_inv [of "ld_db s" X now e]
  by (cases "load_event X now e (ld_db s)") (auto simp: load_step_def Let_def split: sum.splits)

lemma load_fold_inv: "db_inv (ld_db s) \<Longrightarrow> db_inv (ld_db (fold (load_step X now) es s))"
  by (induction es arbitrary: s) (simp_all add: load_step_inv)

text \<open>What the tables say about an event that the loader wrote.\<close>

lemma load_event_unexpiring:
  assumes "\<forall>r \<in> set (events db). P r \<or> ev_expires r = None"
  shows "\<forall>r \<in> set (events (fst (load_event X now e db))). P r \<or> ev_expires r = None"
  using assms loader_row_Some(5) [of X now e db]
  by (auto simp: load_event_def Let_def events_remove_replaceable split: sum.splits option.splits)

lemma load_fold_unexpiring:
  "(\<forall>r \<in> set (events (ld_db s)). P r \<or> ev_expires r = None) \<Longrightarrow>
    \<forall>r \<in> set (events (ld_db (fold (load_step X now) es s))). P r \<or> ev_expires r = None"
proof (induction es arbitrary: s)
  case (Cons e es)
  have "\<forall>r \<in> set (events (ld_db (load_step X now e s))). P r \<or> ev_expires r = None"
    using Cons.prems load_event_unexpiring [of "ld_db s" P X now e]
    by (cases "load_event X now e (ld_db s)") (auto simp: load_step_def Let_def split: sum.splits)
  with Cons.IH show ?case by simp
qed simp

text \<open>An event that needs none of the relay's special cases is stored as the relay stores it.\<close>

definition ordinary :: "db \<Rightarrow> ext \<Rightarrow> event \<Rightarrow> bool" where
  "ordinary db X e \<longleftrightarrow> \<not> is_replaceable e \<and> distinct_param e = None \<and> e_kind e \<noteq> 5 \<and> expiration e = None
     \<and> (\<forall>pk. hex_decode X (e_pubkey e) = Some pk \<longrightarrow> \<not> deletion_recorded pk (e_id e) db)"

lemma loader_row_eq: "expiration e = None \<Longrightarrow> loader_row X now e db = new_event_row X now e db"
  by (simp add: loader_row_def new_event_row_def sql_opt_u64_def split: option.splits)

lemma deletion_recorded_insert:
  assumes "refs_ok db" and "new_event_row X now e db = Inr (Some r)" and "e_kind e \<noteq> 5"
  shows "deletion_recorded pk i (insert_event r e db) \<longleftrightarrow> deletion_recorded pk i db"
proof -
  have k: "ev_kind r \<noteq> 5" using new_event_row_Some(4) [OF assms(2)] assms(3) by (simp add: word_uint_eq_iff)
  have new: "tg_kind t = ev_kind r" if "t \<in> set (new_tag_rows r e)" for t
    using that by (auto simp: in_new_tag_rows)
  have old: "tg_event t \<noteq> ev_id r" if "t \<in> set (tags db)" for t
    using that assms(1) new_id_absent [OF assms(2)] unfolding refs_ok_def by metis
  show ?thesis
    unfolding deletion_recorded_def list_ex_iff using k new old by auto
qed

lemma load_ordinary:
  assumes "ordinary db X e" and "refs_ok db"
  shows "load_event X now e db = persist_event X now e db"
proof (cases "new_event_row X now e db")
  case (Inr m)
  show ?thesis
  proof (cases m)
    case (Some r)
    note n = Inr [unfolded Some]
    have "\<not> deletion_recorded (ev_author r) (e_id e) (insert_event r e db)"
      using assms deletion_recorded_insert [OF assms(2) n] new_event_row_Some(3) [OF n] by (auto simp: ordinary_def)
    with assms(1) n show ?thesis
      by (simp add: load_event_def persist_event_def loader_row_eq ordinary_def after_insert_def Let_def)
  qed (use assms Inr in \<open>simp add: load_event_def persist_event_def loader_row_eq ordinary_def Let_def\<close>)
qed (use assms in \<open>simp add: load_event_def persist_event_def loader_row_eq ordinary_def Let_def\<close>)

end
