(* ===== verification/Authz.thy ===== *)
theory Authz
  imports Db_Writer
begin

text \<open>
  The connection to the admission service (\<open>src/src/nauthz.rs\<close>). It is made when the writer starts
  and, as long as it is missing, again before each event; once made it is kept. \<open>dial\<close> stands for
  the client of the \<open>tonic\<close> crate: for an address, the call if the connection can be made.
\<close>

type_synonym grpc_call = "grpc_request \<Rightarrow> string + int \<times> string option"

record authz_service =
  az_addr :: string
  az_conn :: "grpc_call option"

definition ready_connection :: "(string \<Rightarrow> grpc_call option) \<Rightarrow> authz_service \<Rightarrow> authz_service" where
  "ready_connection dial az =
     (case az_conn az of Some c \<Rightarrow> az | None \<Rightarrow> az\<lparr>az_conn := dial (az_addr az)\<rparr>)"

definition authz_connect :: "(string \<Rightarrow> grpc_call option) \<Rightarrow> string \<Rightarrow> authz_service" where
  "authz_connect dial addr = ready_connection dial \<lparr>az_addr = addr, az_conn = None\<rparr>"

text \<open>The service that the writer has, if one is configured.\<close>

definition writer_authz :: "(string \<Rightarrow> grpc_call option) \<Rightarrow> settings \<Rightarrow> authz_service option" where
  "writer_authz dial st = map_option (authz_connect dial) (event_admission_server (st_grpc st))"

text \<open>\<open>admit_event\<close>, and the writer's stage around it, with the service afterwards.\<close>

definition admit_event ::
  "('db, 'g) writer_env \<Rightarrow> (string \<Rightarrow> grpc_call option) \<Rightarrow> submitted_event \<Rightarrow> nip05_name option \<Rightarrow> authz_service
     \<Rightarrow> authz_service \<times> (error + bool \<times> string option)" where
  "admit_event env dial su nip05 az =
     (let az' = ready_connection dial az in (az', grpc_admit (env\<lparr>we_grpc_call := az_conn az'\<rparr>) su nip05))"

definition authz_stage ::
  "('db, 'g) writer_env \<Rightarrow> (string \<Rightarrow> grpc_call option) \<Rightarrow> submitted_event \<Rightarrow> nip05_name option \<Rightarrow> authz_service option
     \<Rightarrow> authz_service option \<times> unit stage" where
  "authz_stage env dial su nip05 svc =
     (case svc of
        None \<Rightarrow> (None, Proceed ())
      | Some az \<Rightarrow>
          (case admit_event env dial su nip05 az of
             (az', Inl _) \<Rightarrow> (Some az', Proceed ())
           | (az', Inr (permitted, m)) \<Rightarrow>
               (Some az', if permitted then Proceed ()
                else Reject [Notify (notice_blocked (e_id (su_event su)) (case m of Some s \<Rightarrow> s | None \<Rightarrow> []))])))"

text \<open>The stage of each event of a run; every event finds the network as it is then.\<close>

fun authz_run ::
  "('db, 'g) writer_env \<Rightarrow> ((string \<Rightarrow> grpc_call option) \<times> submitted_event \<times> nip05_name option) list
     \<Rightarrow> authz_service option \<Rightarrow> unit stage list" where
  "authz_run env [] svc = []"
| "authz_run env ((dial, su, nip05) # es) svc =
     (case authz_stage env dial su nip05 svc of (svc', r) \<Rightarrow> r # authz_run env es svc')"

section \<open>Lemmas\<close>

lemma ready_connection_sel [simp]:
  "az_addr (ready_connection dial az) = az_addr az"
  "az_conn (ready_connection dial az) = (case az_conn az of Some c \<Rightarrow> Some c | None \<Rightarrow> dial (az_addr az))"
  by (simp_all add: ready_connection_def split: option.split)

text \<open>
  With the connection fixed, this is the stage of \<open>Db_Writer\<close>: its environment holds what the
  connection is for the event.
\<close>

lemma authz_stage_grpc:
  assumes "event_admission_server (st_grpc (we_settings env)) = map_option az_addr svc"
  shows "snd (authz_stage env dial su nip05 svc)
    = grpc_stage (env\<lparr>we_grpc_call := Option.bind svc (\<lambda>az. az_conn (ready_connection dial az))\<rparr>) su nip05"
  using assms
  by (cases svc) (auto simp: authz_stage_def grpc_stage_def admit_event_def Let_def split: sum.split)

text \<open>A connection that is made stays: later events do not dial again.\<close>

lemma authz_stage_keeps:
  assumes "authz_stage env dial su nip05 (Some az) = (svc', r)"
  shows "\<exists>az'. svc' = Some az' \<and> az_addr az' = az_addr az \<and> (az_conn az \<noteq> None \<longrightarrow> az' = az)
    \<and> (az_conn az = None \<longrightarrow> az_conn az' = dial (az_addr az))"
  using assms by (auto simp: authz_stage_def admit_event_def ready_connection_def Let_def split: sum.splits option.splits)

text \<open>As long as the service cannot be reached, every event goes on.\<close>

lemma authz_unreachable:
  assumes "list_all (\<lambda>(dial, su, nip05). dial addr = None) es"
  shows "authz_run env es (Some \<lparr>az_addr = addr, az_conn = None\<rparr>) = replicate (length es) (Proceed ())"
  using assms
proof (induction es)
  case (Cons x es)
  obtain dial su nip05 where x: "x = (dial, su, nip05)" by (cases x)
  with Cons.prems have "ready_connection dial \<lparr>az_addr = addr, az_conn = None\<rparr> = \<lparr>az_addr = addr, az_conn = None\<rparr>"
    by (simp add: ready_connection_def)
  then have "authz_stage env dial su nip05 (Some \<lparr>az_addr = addr, az_conn = None\<rparr>)
      = (Some \<lparr>az_addr = addr, az_conn = None\<rparr>, Proceed ())"
    by (auto simp: authz_stage_def admit_event_def grpc_admit_def Let_def split: option.split)
  with Cons x show ?case by simp
qed simp

text \<open>Once reached, it decides: exactly the events that it denies are rejected here.\<close>

lemma authz_decides:
  assumes "az_conn az = Some call"
  shows "(\<exists>outs. snd (authz_stage env dial su nip05 (Some az)) = Reject outs) \<longleftrightarrow>
    (\<exists>m. grpc_admit (env\<lparr>we_grpc_call := Some call\<rparr>) su nip05 = Inr (False, m))"
  using assms by (auto simp: authz_stage_def admit_event_def Let_def split: sum.split)

end
