(* ===== verification/Admission_Examples.thy ===== *)
theory Admission_Examples
  imports Db_Writer_Props
begin

text \<open>
  The admission servers that come with the relay, \<open>examples/nauthz\<close> and
  \<open>examples/nauthz-advanced\<close>: programs of their own that answer the requests of \<open>Db_Writer\<close>
  over gRPC. A server is a function of its rules and the request; what it prints is left out.
  With a server in the place of the admission service, its rules hold for every event that the
  writer broadcasts.

  A text is put into quotes by Rust's \<open>{:?}\<close>; which characters outside ASCII this escapes is
  the argument \<open>esc\<close>. The transport of the \<open>tonic\<close> crate hands the request over and, when the
  answer to it panics, reports a status.
\<close>

definition decision_deny :: int where
  "decision_deny = 2"

record event_reply =
  er_decision :: int
  er_message :: "string option"

section \<open>The plain server\<close>

text \<open>It permits a list of kinds; a request without an event panics.\<close>

definition kind_admit :: "u64 list \<Rightarrow> grpc_request option \<Rightarrow> event_reply exec" where
  "kind_admit allowed_kinds ev =
     (case ev of
        None \<Rightarrow> Panic
      | Some g \<Rightarrow>
          Done (if g_kind g \<in> set allowed_kinds
                then \<lparr>er_decision = decision_permit, er_message = None\<rparr>
                else \<lparr>er_decision = decision_deny,
                  er_message = Some (''kind '' @ u64_to_string (g_kind g) @ '' not permitted'')\<rparr>))"

definition kind_checker :: "u64 list" where
  "kind_checker = [0, 1, 2, 3]"

section \<open>The advanced server\<close>

text \<open>Keys with kinds, as \<open>key:kind\<close>, and for a kind the tags it needs, each with its values.\<close>

record admit_rules =
  allowed_pubkey_kinds :: "string list"
  required_tags :: "(u64 \<times> (string \<times> string list) list) list"

definition advanced_rules :: admit_rules where
  "advanced_rules =
     \<lparr>allowed_pubkey_kinds =
        [''35d26e4690cbe1a898af61cc3515661eb5fa763b57bd0b42e45099c8b32fd50f:30000'',
         ''887645fef0ce0c3c1218d2f5d8e6132a19304cdc57cd20281d082f38cfea0072:30000'',
         ''35d26e4690cbe1a898af61cc3515661eb5fa763b57bd0b42e45099c8b32fd50f:30001''],
      required_tags =
        [(30023, [(''d'', [])]), (30000, [(''p'', [''recipient1'', ''recipient2''])]), (4, [(''p'', [])])]\<rparr>"

definition is_pubkey_allowed_for_kind :: "admit_rules \<Rightarrow> string \<Rightarrow> u64 \<Rightarrow> bool" where
  "is_pubkey_allowed_for_kind R pk k \<longleftrightarrow> pk @ '':'' @ u64_to_string k \<in> set (allowed_pubkey_kinds R)"

text \<open>The debug form of a list of texts.\<close>

definition escape_char :: "(string \<Rightarrow> string) \<Rightarrow> string \<Rightarrow> string" where
  "escape_char esc c =
     (if c = [CHR 0x22] then [CHR 0x5C, CHR 0x22]
      else if c = [CHR 0x5C] then [CHR 0x5C, CHR 0x5C]
      else if c = [CHR 0x0A] then [CHR 0x5C, CHR ''n'']
      else if c = [CHR 0x0D] then [CHR 0x5C, CHR ''r'']
      else if c = [CHR 0x09] then [CHR 0x5C, CHR ''t'']
      else if c = [CHR 0x00] then [CHR 0x5C, CHR ''0'']
      else if length c = 1 \<and> 32 \<le> (of_char (hd c) :: nat) \<and> (of_char (hd c) :: nat) < 127 then c
      else esc c)"

definition debug_string :: "(string \<Rightarrow> string) \<Rightarrow> string \<Rightarrow> string" where
  "debug_string esc s = [CHR 0x22] @ concat (map (escape_char esc) (chars s)) @ [CHR 0x22]"

definition debug_strings :: "(string \<Rightarrow> string) \<Rightarrow> string list \<Rightarrow> string" where
  "debug_strings esc ss = ''['' @ join_with '', '' (map (debug_string esc) ss) @ '']''"

text \<open>Only the first tag with a name is looked at.\<close>

definition required_tag_error :: "(string \<Rightarrow> string) \<Rightarrow> u64 \<Rightarrow> tag list \<Rightarrow> string \<times> string list \<Rightarrow> string option" where
  "required_tag_error esc k ts nv =
     (case nv of (tag_name, required_values) \<Rightarrow>
       (case find (\<lambda>t. t \<noteq> [] \<and> hd t = tag_name) ts of
          Some t \<Rightarrow>
            if required_values = [] then None
            else if list_ex (\<lambda>r. r \<in> set (drop 1 t)) required_values then None
            else Some (''Kind '' @ u64_to_string k @ '' requires tag '' @ [CHR 0x27] @ tag_name @ [CHR 0x27]
                   @ '' with one of these values: '' @ debug_strings esc required_values)
        | None \<Rightarrow> Some (''Kind '' @ u64_to_string k @ '' requires tag '' @ [CHR 0x27] @ tag_name @ [CHR 0x27])))"

definition has_required_tags :: "admit_rules \<Rightarrow> (string \<Rightarrow> string) \<Rightarrow> u64 \<Rightarrow> tag list \<Rightarrow> bool \<times> string option" where
  "has_required_tags R esc k ts =
     (case map_of (required_tags R) k of
        None \<Rightarrow> (True, None)
      | Some required \<Rightarrow>
          (case first_some (map (required_tag_error esc k ts) required) of
             None \<Rightarrow> (True, None)
           | Some m \<Rightarrow> (False, Some m)))"

definition kind_has_restriction :: "admit_rules \<Rightarrow> u64 \<Rightarrow> bool" where
  "kind_has_restriction R k \<longleftrightarrow> list_ex (\<lambda>key. ends_with key ('':'' @ u64_to_string k)) (allowed_pubkey_kinds R)"

definition rules_admit :: "ext \<Rightarrow> (string \<Rightarrow> string) \<Rightarrow> admit_rules \<Rightarrow> grpc_request option \<Rightarrow> event_reply" where
  "rules_admit X esc R ev =
     (case ev of
        None \<Rightarrow> \<lparr>er_decision = decision_deny, er_message = Some ''Event data missing''\<rparr>
      | Some g \<Rightarrow>
          (let pubkey_hex = hex_encode X (g_pubkey g) in
           if \<not> is_pubkey_allowed_for_kind R pubkey_hex (g_kind g) \<and> kind_has_restriction R (g_kind g)
           then \<lparr>er_decision = decision_deny,
                 er_message = Some (''Pubkey '' @ concat (take 16 (chars pubkey_hex))
                   @ '' is not authorized to write kind '' @ u64_to_string (g_kind g))\<rparr>
           else (case has_required_tags R esc (g_kind g) (g_tags g) of
                   (False, tag_error) \<Rightarrow> \<lparr>er_decision = decision_deny, er_message = tag_error\<rparr>
                 | (True, _) \<Rightarrow> \<lparr>er_decision = decision_permit, er_message = None\<rparr>)))"

text \<open>The servers as the admission service of a relay: its requests always have an event.\<close>

definition reply_result :: "event_reply exec \<Rightarrow> string + int \<times> string option" where
  "reply_result r = (case r of Panic \<Rightarrow> Inl ''status'' | Done er \<Rightarrow> Inr (er_decision er, er_message er))"

definition kind_service :: "u64 list \<Rightarrow> grpc_request \<Rightarrow> string + int \<times> string option" where
  "kind_service ks g = reply_result (kind_admit ks (Some g))"

definition rules_service :: "ext \<Rightarrow> (string \<Rightarrow> string) \<Rightarrow> admit_rules \<Rightarrow> grpc_request \<Rightarrow> string + int \<times> string option" where
  "rules_service X esc R g = reply_result (Done (rules_admit X esc R (Some g)))"

section \<open>What the rules ask for\<close>

definition tag_present :: "tag list \<Rightarrow> string \<times> string list \<Rightarrow> bool" where
  "tag_present ts nv \<longleftrightarrow>
     (case find (\<lambda>t. t \<noteq> [] \<and> hd t = fst nv) ts of
        None \<Rightarrow> False
      | Some t \<Rightarrow> snd nv = [] \<or> set (snd nv) \<inter> set (drop 1 t) \<noteq> {})"

definition rules_hold :: "admit_rules \<Rightarrow> string \<Rightarrow> u64 \<Rightarrow> tag list \<Rightarrow> bool" where
  "rules_hold R pk k ts \<longleftrightarrow>
     (kind_has_restriction R k \<longrightarrow> is_pubkey_allowed_for_kind R pk k)
     \<and> list_all (tag_present ts) (case map_of (required_tags R) k of None \<Rightarrow> [] | Some req \<Rightarrow> req)"

lemma rules_hold_author: "rules_hold R pk k ts \<Longrightarrow> kind_has_restriction R k \<Longrightarrow> is_pubkey_allowed_for_kind R pk k"
  by (simp add: rules_hold_def)

lemma rules_hold_tag:
  assumes "rules_hold R pk k ts" and "map_of (required_tags R) k = Some req" and "(name, vals) \<in> set req"
  shows "\<exists>t. find (\<lambda>t. t \<noteq> [] \<and> hd t = name) ts = Some t \<and> (vals = [] \<or> set vals \<inter> set (drop 1 t) \<noteq> {})"
proof -
  from assms have "tag_present ts (name, vals)" by (auto simp: rules_hold_def list_all_iff)
  then show ?thesis by (simp add: tag_present_def split: option.splits)
qed

lemma required_tag_error_None: "required_tag_error esc k ts nv = None \<longleftrightarrow> tag_present ts nv"
  by (cases nv) (auto simp: required_tag_error_def tag_present_def list_ex_iff split: option.split)

lemma has_required_tags_iff:
  "fst (has_required_tags R esc k ts) \<longleftrightarrow>
     list_all (tag_present ts) (case map_of (required_tags R) k of None \<Rightarrow> [] | Some req \<Rightarrow> req)"
proof (cases "map_of (required_tags R) k")
  case (Some req)
  have "first_some (map (required_tag_error esc k ts) req) = None \<longleftrightarrow> list_all (tag_present ts) req"
    by (simp add: first_some_None required_tag_error_None list_all_iff)
  with Some show ?thesis
    by (cases "first_some (map (required_tag_error esc k ts) req)") (simp_all add: has_required_tags_def)
qed (simp add: has_required_tags_def)

lemma rules_admit_iff:
  "er_decision (rules_admit X esc R (Some g)) = decision_permit \<longleftrightarrow>
     rules_hold R (hex_encode X (g_pubkey g)) (g_kind g) (g_tags g)"
  using has_required_tags_iff [of R esc "g_kind g" "g_tags g"]
  by (auto simp: rules_admit_def rules_hold_def decision_permit_def decision_deny_def Let_def
      split: prod.splits bool.splits)

text \<open>
  The end of a key is its kind: the test for a restriction does not confuse kinds whose decimal
  forms end alike, such as 1 and 30001.
\<close>

lemma first_mark:
  "d @ c # x = d' @ c # y \<Longrightarrow> c \<notin> set d \<Longrightarrow> c \<notin> set d' \<Longrightarrow> d = d' \<and> x = y"
proof (induction d arbitrary: d')
  case Nil
  then show ?case by (cases d') auto
next
  case (Cons a d)
  then show ?case by (cases d') auto
qed

lemma last_colon:
  assumes "x @ '':'' @ d = y @ '':'' @ d'" and "CHR '':'' \<notin> set d" and "CHR '':'' \<notin> set d'"
  shows "x = y \<and> d = d'"
proof -
  from assms(1) have "rev d @ CHR '':'' # rev x = rev d' @ CHR '':'' # rev y"
    by (metis append.assoc append_Cons append_Nil rev.simps(2) rev_append)
  from first_mark [OF this] assms(2,3) show ?thesis by simp
qed

lemma u64_to_string_inj: "u64_to_string k = u64_to_string k' \<Longrightarrow> k = k'"
  by (metis parse_u64_to_string option.inject)

lemma u64_no_colon: "CHR '':'' \<notin> set (u64_to_string k)"
proof
  assume "CHR '':'' \<in> set (u64_to_string k)"
  with nat_to_dec_digits [of "unat k"] have "is_ascii_digit (CHR '':'')"
    by (auto simp: u64_to_string_def list_all_iff)
  then show False by (simp add: is_ascii_digit_def)
qed

lemma ends_with_iff: "ends_with s p \<longleftrightarrow> (\<exists>r. s = r @ p)"
proof
  assume "ends_with s p"
  then show "\<exists>r. s = r @ p"
    by (intro exI [of _ "take (length s - length p) s"]) (simp add: ends_with_def, metis append_take_drop_id)
qed (auto simp: ends_with_def)

lemma restriction_is_of_kind:
  assumes "set (allowed_pubkey_kinds R) = (\<lambda>(pk, k). pk @ '':'' @ u64_to_string k) ` ps"
  shows "kind_has_restriction R k \<longleftrightarrow> (\<exists>pk. (pk, k) \<in> ps)"
    and "is_pubkey_allowed_for_kind R pk k \<longleftrightarrow> (pk, k) \<in> ps"
proof -
  have *: "pk @ '':'' @ u64_to_string k = pk' @ '':'' @ u64_to_string k' \<longleftrightarrow> pk = pk' \<and> k = k'" for pk k pk' k'
    using last_colon [of pk "u64_to_string k" pk' "u64_to_string k'"] u64_no_colon u64_to_string_inj by blast
  show "kind_has_restriction R k \<longleftrightarrow> (\<exists>pk. (pk, k) \<in> ps)"
    unfolding kind_has_restriction_def list_ex_iff assms ends_with_iff using * by fastforce
  show "is_pubkey_allowed_for_kind R pk k \<longleftrightarrow> (pk, k) \<in> ps"
    unfolding is_pubkey_allowed_for_kind_def assms using * by fastforce
qed

section \<open>The writer with such a service\<close>

text \<open>The request that the relay makes of an event, if its fields are hexadecimal.\<close>

lemma admissible_asks:
  assumes "admissible env now clk su w" and "event_admission_server (st_grpc (we_settings env)) \<noteq> None"
    and "we_grpc_call env = Some call"
    and "hex_decode (we_ext env) (e_id (su_event su)) \<noteq> None" and "hex_decode (we_ext env) (e_sig (su_event su)) \<noteq> None"
    and "hex_decode (we_ext env) (e_pubkey (su_event su)) = Some pk"
  shows "\<exists>g. g_pubkey g = pk \<and> g_kind g = e_kind (su_event su) \<and> g_tags g = e_tags (su_event su)
    \<and> (case call g of Inl _ \<Rightarrow> True | Inr (d, _) \<Rightarrow> d = decision_permit)"
proof -
  let ?n = "case nip05_validation env now (su_event su) (w_db w) of Some (Inr uv) \<Rightarrow> Some (v_name uv) | _ \<Rightarrow> None"
  have "grpc_stage env su ?n = Proceed ()" using assms(1) by (simp add: admissible_def Let_def)
  moreover obtain i sg where "hex_decode (we_ext env) (e_id (su_event su)) = Some i"
    "hex_decode (we_ext env) (e_sig (su_event su)) = Some sg" using assms(4,5) by blast
  ultimately show ?thesis
    using assms(2,3,6)
    by (intro exI [of _ "\<lparr>g_id = i, g_pubkey = pk, g_sig = sg, g_created_at = e_created_at (su_event su),
          g_kind = e_kind (su_event su), g_content = e_content (su_event su), g_tags = e_tags (su_event su),
          g_ip_addr = Some (su_source_ip su), g_origin = su_origin su,
          g_user_agent = su_user_agent su, g_auth_pubkey = su_auth_pubkey su, g_nip05 = ?n\<rparr>"])
      (auto simp: grpc_stage_def grpc_admit_def Let_def split: sum.splits if_splits)
qed

lemma rules_service_result:
  "(case rules_service X esc R g of Inl _ \<Rightarrow> True | Inr (d, _) \<Rightarrow> d = decision_permit) \<longleftrightarrow>
     rules_hold R (hex_encode X (g_pubkey g)) (g_kind g) (g_tags g)"
  by (simp add: rules_service_def reply_result_def rules_admit_iff)

lemma kind_service_result:
  "(case kind_service ks g of Inl _ \<Rightarrow> True | Inr (d, _) \<Rightarrow> d = decision_permit) \<longleftrightarrow> g_kind g \<in> set ks"
  by (simp add: kind_service_def reply_result_def kind_admit_def decision_permit_def decision_deny_def)

lemma kind_service_enforced:
  assumes "process_event env now clk su w = Done (w1, outs, err)" and "Broadcast e \<in> set outs"
    and "event_admission_server (st_grpc (we_settings env)) \<noteq> None" and "we_grpc_call env = Some (kind_service ks)"
    and "\<forall>s \<in> {e_id e, e_pubkey e, e_sig e}. hex_decode (we_ext env) s \<noteq> None"
  shows "e_kind e \<in> set ks"
proof -
  note b = process_event_broadcast [OF assms(1,2)]
  obtain pk where "hex_decode (we_ext env) (e_pubkey (su_event su)) = Some pk" using assms(5) b(1) by auto
  from admissible_asks [OF b(2) assms(3,4) _ _ this] assms(5) b(1) show ?thesis
    by (auto simp: kind_service_result)
qed

text \<open>The advanced server denies a list for its second recipient only: the first tag decides.\<close>

lemma second_tag_ignored:
  "\<not> rules_hold advanced_rules (take 64 (hd (allowed_pubkey_kinds advanced_rules))) 30000
     [[''p'', ''other''], [''p'', ''recipient1'']]"
  "rules_hold advanced_rules (take 64 (hd (allowed_pubkey_kinds advanced_rules))) 30000
     [[''p'', ''recipient1''], [''p'', ''other'']]"
  by code_simp+

end
