(* ===== verification/Read_Example.thy ===== *)
theory Read_Example
  imports Server
begin

text \<open>
  The example \<open>docs/case3-read-access-example.rs\<close>: an \<open>allowed_to_send\<close> with a list of kinds
  that only their author and those tagged in them may read. It is compared with the function
  of \<open>src/src/server.rs\<close> that it would replace.
\<close>

definition is_receiver :: "event \<Rightarrow> string \<Rightarrow> bool" where
  "is_receiver e pk =
     (let tagged = pk \<in> set (tag_values_by_name e ''p'') in
      if e_kind e = 4 \<or> e_kind e = 44 \<or> e_kind e = 1059 then tagged
      else if e_kind e = 1 then tagged
      else if e_kind e = 6 then tagged
      else tagged)"

definition example_allowed_to_send ::
  "ext \<Rightarrow> u64 list option \<Rightarrow> string \<Rightarrow> client_conn \<Rightarrow> settings \<Rightarrow> bool" where
  "example_allowed_to_send X restricted_read_kinds event_str c st =
     (case Option.bind (json_from_str X event_str) event_from_json of
        None \<Rightarrow> False
      | Some e \<Rightarrow>
          if (case restricted_read_kinds of Some ks \<Rightarrow> e_kind e \<in> set ks | None \<Rightarrow> False)
          then (case auth_pubkey c of
                  Some auth_pk \<Rightarrow>
                    if auth_pk = e_pubkey e then True else if is_receiver e auth_pk then True else False
                | None \<Rightarrow> False)
          else if nip42_dms (st_authorization st) then
            (if e_kind e = 4 \<or> e_kind e = 44 \<or> e_kind e = 1059 then
               (case (auth_pubkey c, tag_values_by_name e ''p'') of
                  (Some a, recipient # _) \<Rightarrow> recipient = a \<or> e_pubkey e = a
                | _ \<Rightarrow> False)
             else True)
          else True)"

section \<open>What the example admits\<close>

lemma is_receiver_iff: "is_receiver e pk \<longleftrightarrow> (\<exists>t \<in> set (e_tags e). 1 < length t \<and> hd t = ''p'' \<and> t ! 1 = pk)"
  by (simp add: is_receiver_def Let_def tag_values_by_name_iff)

text \<open>A restricted kind is read by its author and by everyone tagged in it, and by nobody else.\<close>

lemma restricted_read:
  assumes "json_from_str X s = Some v" and "event_from_json v = Some e" and "e_kind e \<in> set ks"
  shows "example_allowed_to_send X (Some ks) s c st \<longleftrightarrow>
    (\<exists>pk. auth_pubkey c = Some pk \<and> (pk = e_pubkey e
       \<or> (\<exists>t \<in> set (e_tags e). 1 < length t \<and> hd t = ''p'' \<and> t ! 1 = pk)))"
  using assms by (auto simp: example_allowed_to_send_def is_receiver_iff split: option.split)

text \<open>For a list of private messages it admits every recipient, the relay's function the first only.\<close>

lemma other_kinds_as_before:
  assumes "json_from_str X s = Some v" and "event_from_json v = Some e"
    and "\<forall>ks. rk = Some ks \<longrightarrow> e_kind e \<notin> set ks"
  shows "example_allowed_to_send X rk s c st \<longleftrightarrow> dm_allowed e c st"
  using assms by (cases rk) (simp_all add: example_allowed_to_send_def dm_allowed_def)

text \<open>
  It has none of the other checks of the relay: what the relay may send, the example sends when
  the kind is not restricted, but it also sends kinds that are not allowed and expired events.
\<close>

lemma example_is_weaker:
  assumes "allowed_to_send X now s c st" shows "example_allowed_to_send X None s c st"
  using assms
  by (auto simp: allowed_to_send_def example_allowed_to_send_def dm_allowed_def split: option.splits if_splits)

lemma example_sends_expired:
  assumes "json_from_str X s = Some v" and "event_from_json v = Some e" and "is_expired now e"
    and "\<not> nip42_dms (st_authorization st)"
  shows "example_allowed_to_send X None s c st \<and> \<not> allowed_to_send X now s c st"
  using assms by (simp add: example_allowed_to_send_def allowed_to_send_def)

end
