(* ===== verification/Postgres_Delivery.thy ===== *)
theory Postgres_Delivery
  imports Postgres_Query Postgres_Props
begin

text \<open>
  How the rows of a query reach the client (\<open>query_subscription\<close> of \<open>src/src/repo/postgres.rs\<close>),
  and the clean-up of expired events. Rows go into a channel of the connection with room for
  20000 results (\<open>src/src/server.rs\<close>); a query that finds it full looks again after a pause and
  gives up after a while.

  The SQLite query runs on a thread of its own (\<open>Sqlite_Locks\<close>). The PostgreSQL query is a
  part of the connection's own task: \<open>nostr_server\<close> waits for it in the arm of its loop that
  reads messages. As long as it runs, nobody takes anything out of the channel, and nobody can
  cancel it. So what it does is decided by the number of rows and the room at the start.
\<close>

section \<open>Waiting for room\<close>

datatype room_wait = Room | TooSlow | Stopped

text \<open>
  The loop before each send. The time is in milliseconds from the last send; \<open>room\<close> and \<open>stop\<close>
  are what a look at that time finds: a place in the channel, and a checkpoint (SQLite only).
\<close>

function wait_for_room :: "nat \<Rightarrow> nat \<Rightarrow> (nat \<Rightarrow> bool) \<Rightarrow> (nat \<Rightarrow> bool) \<Rightarrow> nat \<Rightarrow> room_wait" where
  "wait_for_room pause cutoff room stop t =
     (if room t then Room
      else if cutoff < t then TooSlow
      else if stop t then Stopped
      else wait_for_room pause cutoff room stop (t + max 1 pause))"
  by pat_completeness auto
termination
  by (relation "measure (\<lambda>(pause, cutoff, room, stop, t). cutoff + 1 - t)") auto

declare wait_for_room.simps [simp del]

definition sqlite_wait :: "(nat \<Rightarrow> bool) \<Rightarrow> (nat \<Rightarrow> bool) \<Rightarrow> nat \<Rightarrow> room_wait" where
  "sqlite_wait room checkpoint t = wait_for_room 500 2000 room checkpoint t"

definition pg_wait :: "(nat \<Rightarrow> bool) \<Rightarrow> nat \<Rightarrow> room_wait" where
  "pg_wait room t = wait_for_room 100 5000 room (\<lambda>_. False) t"

lemma wait_room_now: "room t \<Longrightarrow> wait_for_room pause cutoff room stop t = Room"
  by (simp add: wait_for_room.simps)

lemma wait_never:
  "(\<And>t. \<not> room t) \<Longrightarrow> (\<And>t. \<not> stop t) \<Longrightarrow> wait_for_room pause cutoff room stop t = TooSlow"
  by (induction pause cutoff room stop t rule: wait_for_room.induct)
    (subst wait_for_room.simps, simp)

text \<open>The wait finds room exactly if a look before the deadline, or the first after it, does.\<close>

lemma wait_finds_room:
  "(\<And>t. \<not> stop t) \<Longrightarrow> 0 < pause \<Longrightarrow> wait_for_room pause cutoff room stop t = Room \<longleftrightarrow>
     (\<exists>k. room (t + k * pause) \<and> (\<forall>j < k. t + j * pause \<le> cutoff))"
proof (induction pause cutoff room stop t rule: wait_for_room.induct)
  case (1 pause cutoff room stop t)
  have split: "(\<exists>k. Q k) \<longleftrightarrow> Q 0 \<or> (\<exists>k. Q (Suc k))" for Q :: "nat \<Rightarrow> bool"
    by (metis not0_implies_Suc)
  have shift: "(\<exists>k. room (t + k * pause) \<and> (\<forall>j < k. t + j * pause \<le> cutoff)) \<longleftrightarrow>
      room t \<or> t \<le> cutoff \<and> (\<exists>k. room (t + pause + k * pause) \<and> (\<forall>j < k. t + pause + j * pause \<le> cutoff))"
    by (subst split) (auto simp: All_less_Suc2 add.assoc)
  have m: "max 1 pause = pause" using 1(3) by simp
  show ?case
  proof (cases "room t \<or> cutoff < t")
    case True
    then show ?thesis unfolding shift by (subst wait_for_room.simps) auto
  next
    case False
    have "wait_for_room pause cutoff room stop t = wait_for_room pause cutoff room stop (t + pause)"
      using False 1(2) m by (subst wait_for_room.simps) simp
    moreover have "\<not> room t" "\<not> cutoff < t" "\<not> stop t" using False 1(2) by auto
    note 1(1) [OF this 1(2,3), unfolded m]
    ultimately show ?thesis unfolding shift using False by auto
  qed
qed

section \<open>A query in the task of its connection\<close>

definition query_channel_capacity :: nat where
  "query_channel_capacity = 20000"

text \<open>The channel does not change while its reader waits for the query.\<close>

fun pg_send_rows :: "nat \<Rightarrow> 'a list \<Rightarrow> 'a list \<Rightarrow> 'a list \<times> bool" where
  "pg_send_rows cap queue [] = (queue, True)"
| "pg_send_rows cap queue (r # rs) =
     (case pg_wait (\<lambda>t. length queue < cap) 0 of
        Room \<Rightarrow> pg_send_rows cap (queue @ [r]) rs
      | _ \<Rightarrow> (queue, False))"

text \<open>
  What becomes of the query, with the contents of the channel then: answered, given up without
  an end mark, or waiting for room that only its own task could make; a date that has no
  representation panics the task.
\<close>

datatype 'a delivery = Answered "'a list" | GivenUp "'a list" | WaitsForever "'a list" | TaskPanics

definition pg_subscription_turn ::
  "nat \<Rightarrow> ext \<Rightarrow> (int \<Rightarrow> bool) \<Rightarrow> u64 \<Rightarrow> (pg_event list \<Rightarrow> pg_event list) \<Rightarrow> pg_db \<Rightarrow> query_result list
     \<Rightarrow> subscription \<Rightarrow> query_result delivery" where
  "pg_subscription_turn cap X ts_ok now scan db queue sub =
     (let (evs, ok) = pg_run_filters X ts_ok now scan db (s_filters sub) in
      case pg_send_rows cap queue (map (\<lambda>s. \<lparr>qr_sub_id = s_id sub, qr_event = s\<rparr>) evs) of
        (queue', False) \<Rightarrow> GivenUp queue'
      | (queue', True) \<Rightarrow>
          if \<not> ok then TaskPanics
          else if length queue' < cap
          then Answered (queue' @ [\<lparr>qr_sub_id = s_id sub, qr_event = ''EOSE''\<rparr>])
          else WaitsForever queue')"

lemma pg_wait_constant: "pg_wait (\<lambda>t. b) t = (if b then Room else TooSlow)"
  by (simp add: pg_wait_def wait_room_now wait_never)

lemma pg_send_rows_eq:
  "length queue \<le> cap \<Longrightarrow> pg_send_rows cap queue rs =
     (if length queue + length rs \<le> cap then (queue @ rs, True) else (take cap (queue @ rs), False))"
  by (induction rs arbitrary: queue) (auto simp: pg_wait_constant)

lemma pg_subscription_turn_eq:
  assumes "pg_run_filters X ts_ok now scan db (s_filters sub) = (evs, True)" and "length queue \<le> cap"
  shows "pg_subscription_turn cap X ts_ok now scan db queue sub =
    (let rows = map (\<lambda>s. \<lparr>qr_sub_id = s_id sub, qr_event = s\<rparr>) evs; n = length queue + length evs in
     if n < cap then Answered (queue @ rows @ [\<lparr>qr_sub_id = s_id sub, qr_event = ''EOSE''\<rparr>])
     else if n = cap then WaitsForever (queue @ rows)
     else GivenUp (take cap (queue @ rows)))"
  using assms by (auto simp: pg_subscription_turn_def pg_send_rows_eq Let_def)

text \<open>No filter has more than 1000 rows.\<close>

lemma pg_run_filter_length: "pg_run_filter X ts_ok now scan db f = Done rs \<Longrightarrow> length rs \<le> 1000"
proof -
  have "unat (min n 1000) \<le> 1000" for n :: u64
    using word_le_nat_alt [of "min n 1000" 1000] by simp
  then have "pg_rows X now db' db'' cs lim = Some rs' \<Longrightarrow> length rs' \<le> 1000" for db' db'' cs lim rs'
    by (cases lim) (auto simp: pg_rows_def Let_def min.coboundedI2 split: if_splits)
  then show "pg_run_filter X ts_ok now scan db f = Done rs \<Longrightarrow> length rs \<le> 1000"
    by (auto simp: pg_run_filter_def split: if_splits option.splits)
qed

lemma pg_run_filters_length:
  "length (fst (pg_run_filters X ts_ok now scan db fs)) \<le> 1000 * length fs"
proof (induction fs)
  case (Cons f fs)
  then show ?case
    by (auto simp: Let_def case_prod_beta dest: pg_run_filter_length split: exec.split)
qed simp

lemma pg_nineteen_filters:
  assumes "pg_run_filters X ts_ok now scan db (s_filters sub) = (evs, True)" and "length (s_filters sub) < 20"
  shows "pg_subscription_turn query_channel_capacity X ts_ok now scan db [] sub =
    Answered (pg_query_subscription X ts_ok now scan None db sub)"
proof -
  have "length evs < 20000" using pg_run_filters_length [of X ts_ok now scan db "s_filters sub"] assms by simp
  with assms(1) show ?thesis
    by (simp add: pg_subscription_turn_eq [OF assms(1)] query_channel_capacity_def pg_query_subscription_def Let_def)
qed

section \<open>Twenty filters\<close>

text \<open>A database with a thousand notes, and a filter that has them all.\<close>

definition pg_note :: "nat \<Rightarrow> pg_event" where
  "pg_note i = \<lparr>pe_id = replicate i (CHR ''a''), pe_pub_key = ''b'', pe_created = int i, pe_kind = 1, pe_content = ''n'',
     pe_hidden = False, pe_delegated = None, pe_first_seen = 0, pe_expires = None\<rparr>"

definition pg_notes :: "nat \<Rightarrow> pg_db" where
  "pg_notes n = empty_pg\<lparr>pg_events := map pg_note [0..<n]\<rparr>"

definition every_note :: req_filter where
  "every_note = \<lparr>f_ids = None, f_kinds = None, f_since = None, f_until = None, f_authors = None,
     f_limit = None, f_tags = None, force_no_match = False\<rparr>"

text \<open>Filters for all notes that differ only in limits above what the query allows.\<close>

definition wide_filter :: "req_filter \<Rightarrow> bool" where
  "wide_filter f \<longleftrightarrow> f = every_note\<lparr>f_limit := f_limit f\<rparr> \<and> opt_all (\<lambda>n. 1000 \<le> n) (f_limit f)"

lemma pg_notes_inv: "pg_inv (pg_notes n)"
proof -
  have "inj_on (\<lambda>i. pe_id (pg_note i)) {0..<n}"
    by (rule inj_onI) (metis (mono_tags) length_replicate pg_event.select_convs(1) pg_note_def)
  then have "pg_keys (pg_notes n)" by (simp add: pg_keys_def pg_notes_def distinct_map comp_def)
  moreover have "pg_unique (pg_notes n)"
    by (auto simp: pg_unique_def pg_notes_def pg_note_def replaceable_kind_def)
  moreover have "pg_refs (pg_notes n)" by (simp add: pg_refs_def pg_notes_def empty_pg_def)
  ultimately show ?thesis by (simp add: pg_inv_def)
qed

lemma pg_notes_hits:
  "filter (\<lambda>r. \<not> pe_hidden r \<and> opt_all (\<lambda>x. uint now < x) (pe_expires r)) (pg_events (pg_notes m)) = pg_events (pg_notes m)"
  by (intro filter_True) (auto simp: pg_notes_def pg_note_def opt_all_def)

lemma pg_run_wide:
  assumes "wide_filter f"
  shows "\<exists>rs. pg_run_filter X ts_ok now (\<lambda>es. es) (pg_notes m) f = Done rs
    \<and> map pe_content rs = replicate (min 1000 m) ''n''"
proof -
  let ?hs = "pg_events (pg_notes m)"
  define rs where "rs = (if f_limit f = None then take 1000 (sort_key pe_created ?hs)
    else take 1000 (order_desc pe_created ?hs))"
  from assms have w: "f = every_note\<lparr>f_limit := f_limit f\<rparr>" by (simp add: wide_filter_def)
  have c: "pg_conds X f = []" "\<not> pg_no_match f" "pg_dates_ok ts_ok f"
    by (subst w; simp add: pg_conds_def pg_no_match_def pg_dates_ok_def every_note_def opt_all_def)+
  have "unat (min n 1000) = 1000" if "f_limit f = Some n" for n
    using assms that by (simp add: wide_filter_def opt_all_def min_absorb2)
  then have r: "pg_run_filter X ts_ok now (\<lambda>es. es) (pg_notes m) f = Done rs"
    by (cases "f_limit f") (simp_all add: pg_run_filter_def c pg_rows_def rs_def pg_notes_hits)
  have "set rs \<subseteq> set ?hs" and l: "length rs = min 1000 m"
    by (auto simp: rs_def order_desc_def pg_notes_def dest!: in_set_takeD)
  then have "\<forall>r \<in> set rs. pe_content r = ''n''" by (auto simp: pg_notes_def pg_note_def)
  with l have "map pe_content rs = replicate (min 1000 m) ''n''" by (intro replicate_eqI) auto
  with r show ?thesis by blast
qed

lemma pg_run_wide_filters:
  "list_all wide_filter fs \<Longrightarrow> pg_run_filters X ts_ok now (\<lambda>es. es) (pg_notes m) fs
     = (replicate (length fs * min 1000 m) ''n'', True)"
proof (induction fs)
  case (Cons f fs)
  from Cons.prems obtain rs where "pg_run_filter X ts_ok now (\<lambda>es. es) (pg_notes m) f = Done rs"
    "map pe_content rs = replicate (min 1000 m) ''n''" using pg_run_wide by fastforce
  with Cons show ?case by (simp add: replicate_add)
qed simp

text \<open>The limits that twenty such filters can have.\<close>

definition twenty_filters :: "req_filter list" where
  "twenty_filters = map (\<lambda>i. every_note\<lparr>f_limit := Some (1000 + i)\<rparr>)
     [0, 1, 2, 3, 4, 5, 6, 7, 8, 9, 10, 11, 12, 13, 14, 15, 16, 17, 18, 19]"

lemma twenty_filters_wide: "list_all wide_filter twenty_filters"
  by (simp add: twenty_filters_def wide_filter_def every_note_def opt_all_def)

lemma twenty_filters_parsed: "dedup filter_eq twenty_filters = twenty_filters" "length twenty_filters = 20"
  by (simp_all add: twenty_filters_def filter_eq_def)

section \<open>The clean-up\<close>

text \<open>
  A round of \<open>cleanup_expired\<close>, every ten minutes; \<open>down\<close> is the error of a failed connection. An
  error is only logged. A time without a date panics the task, and then no further round comes.
\<close>

definition pg_cleanup_period_secs :: nat where
  "pg_cleanup_period_secs = 600"

definition pg_cleanup_round :: "(int \<Rightarrow> bool) \<Rightarrow> u64 \<Rightarrow> error option \<Rightarrow> pg_db \<Rightarrow> pg_db exec" where
  "pg_cleanup_round ts_ok now down db =
     (case down of Some _ \<Rightarrow> Done db | None \<Rightarrow> map_exec fst (pg_delete_expired ts_ok now db))"

lemma pg_cleanup_round_inv: "pg_inv db \<Longrightarrow> pg_cleanup_round ts_ok now down db = Done db' \<Longrightarrow> pg_inv db'"
  using pg_delete_expired_inv by (auto simp: pg_cleanup_round_def split: option.splits)

lemma pg_cleanup_round_removes:
  assumes "pg_cleanup_round ts_ok now None db = Done db'" and "pg_date (sint now)"
  shows "pg_events db' = filter (\<lambda>r. opt_all (\<lambda>x. sint now < x) (pe_expires r)) (pg_events db)"
  using assms
  by (auto simp: pg_cleanup_round_def pg_delete_expired_def Let_def opt_all_def not_le intro!: filter_cong
      split: option.split if_splits)

end
