(* ===== verification/Relay_Bounded.thy ===== *)
theory Relay_Bounded
  imports Relay_Props
begin

text \<open>
  The relay with the limits of its channels, as \<open>start_server\<close> and \<open>nostr_server\<close> of
  \<open>src/src/server.rs\<close> create them. A connection that hands an event to the writer waits until the
  queue of events has room. The writer never waits: it offers a notice to a connection and drops
  it when the queue is full (\<open>try_send\<close>), and a broadcast channel keeps its latest messages for
  each receiver. When the writer has ended, what is submitted is lost. The rows of a query are put
  into their channel at once, as in \<open>Relay\<close>; what a full channel does to a query is in
  \<open>Postgres_Delivery\<close> and \<open>Sqlite_Locks\<close>.

  Each step is a step of \<open>Relay\<close> that keeps the queue of events within its limit, followed by the
  loss of what does not fit in the other channels. So every state that is reachable here is
  reachable without limits. What is shown here is what the limits must not break: no submitted
  event is lost or overtaken while the writer runs, and no client waits for good.
\<close>

record channel_limits =
  ch_bcast :: nat
  ch_notices :: nat
  ch_events :: nat
  ch_meta :: nat
  ch_pay :: nat

definition relay_channels :: "settings \<Rightarrow> channel_limits" where
  "relay_channels st =
     \<lparr>ch_bcast = unat (broadcast_buffer (st_limits st)), ch_notices = 128,
      ch_events = unat (event_persist_buffer (st_limits st)), ch_meta = 4096, ch_pay = 4096\<rparr>"

section \<open>Steps\<close>

definition settle :: "channel_limits \<Rightarrow> 'g relay \<Rightarrow> 'g relay" where
  "settle C s =
     overflow (ch_bcast C) (ch_notices C) (if rl_writing s then length (rl_events s) else 0) (ch_meta C) (ch_pay C) s"

definition must_wait :: "channel_limits \<Rightarrow> 'g relay \<Rightarrow> bool" where
  "must_wait C s' \<longleftrightarrow> rl_writing s' \<and> ch_events C < length (rl_events s')"

fun is_loss :: "relay_action \<Rightarrow> bool" where
  "is_loss (Lag i n) = True"
| "is_loss (Overflow b n e m p) = True"
| "is_loss _ = False"

definition bounded_apply :: "channel_limits \<Rightarrow> 'g relay_env \<Rightarrow> relay_action \<Rightarrow> 'g relay \<Rightarrow> 'g relay option" where
  "bounded_apply C env a s =
     (if is_loss a then None
      else (case relay_apply env a s of
              None \<Rightarrow> None
            | Some s' \<Rightarrow> if must_wait C s' then None else Some (settle C s')))"

inductive bounded_reachable :: "channel_limits \<Rightarrow> 'g relay_env \<Rightarrow> db \<Rightarrow> 'g relay \<Rightarrow> bool" for C env db where
  bounded_init: "relay_start env db = Done s \<Longrightarrow> bounded_reachable C env db s"
| bounded_step: "bounded_reachable C env db s \<Longrightarrow> bounded_apply C env a s = Some s' \<Longrightarrow> bounded_reachable C env db s'"

definition within :: "channel_limits \<Rightarrow> 'g relay \<Rightarrow> bool" where
  "within C s \<longleftrightarrow>
     (\<forall>l \<in> set (rl_links s). length (ln_bcast l) \<le> ch_bcast C \<and> length (ln_notices l) \<le> ch_notices C)
     \<and> length (rl_events s) \<le> ch_events C \<and> (\<not> rl_writing s \<longrightarrow> rl_events s = [])
     \<and> length (rl_meta s) \<le> ch_meta C \<and> length (rl_pay s) \<le> ch_pay C"

fun bounded_exec :: "channel_limits \<Rightarrow> 'g relay_env \<Rightarrow> relay_action list \<Rightarrow> 'g relay \<Rightarrow> 'g relay option" where
  "bounded_exec C env [] s = Some s"
| "bounded_exec C env (a # acts) s = Option.bind (bounded_apply C env a s) (bounded_exec C env acts)"

definition bounded_run :: "channel_limits \<Rightarrow> 'g relay_env \<Rightarrow> db \<Rightarrow> relay_action list \<Rightarrow> 'g relay option" where
  "bounded_run C env db acts = (case relay_start env db of Panic \<Rightarrow> None | Done s \<Rightarrow> bounded_exec C env acts s)"

lemma bounded_exec_reachable:
  "bounded_reachable C env db s \<Longrightarrow> bounded_exec C env acts s = Some s' \<Longrightarrow> bounded_reachable C env db s'"
proof (induction acts arbitrary: s)
  case (Cons a acts)
  then obtain s1 where "bounded_apply C env a s = Some s1" "bounded_exec C env acts s1 = Some s'"
    by (auto simp: bind_eq_Some_conv)
  with Cons bounded_step show ?case by blast
qed simp

lemma bounded_run_reachable: "bounded_run C env db acts = Some s \<Longrightarrow> bounded_reachable C env db s"
  by (auto simp: bounded_run_def split: exec.splits intro: bounded_init bounded_exec_reachable)

section \<open>The limits hold, and nothing else is new\<close>

inductive_cases bounded_reachableE: "bounded_reachable C env db s"

lemma bounded_apply_Some:
  "bounded_apply C env a s = Some s' \<longleftrightarrow>
     \<not> is_loss a \<and> (\<exists>s1. relay_apply env a s = Some s1 \<and> \<not> must_wait C s1 \<and> s' = settle C s1)"
  by (auto simp: bounded_apply_def split: option.split)

lemma settle_sel [simp]:
  "rl_writing (settle C s) = rl_writing s" "rl_writer (settle C s) = rl_writer s" "rl_paying (settle C s) = rl_paying s"
  "rl_db (settle C s) = rl_db s" "rl_log (settle C s) = rl_log s"
  "rl_events (settle C s) = (if rl_writing s then rl_events s else [])"
  "length (rl_links (settle C s)) = length (rl_links s)"
  by (simp_all add: settle_def) (simp_all add: overflow_def)

lemma settle_within: "\<not> must_wait C s \<Longrightarrow> within C (settle C s)"
  by (auto simp: within_def must_wait_def) (auto simp: settle_def overflow_def)

text \<open>Where everything fits nothing is lost.\<close>

lemma settle_id: "within C s \<Longrightarrow> settle C s = s"
proof -
  assume w: "within C s"
  then have "map (\<lambda>l. l\<lparr>ln_bcast := keep_latest (ch_bcast C) (ln_bcast l), ln_notices := take (ch_notices C) (ln_notices l)\<rparr>)
      (rl_links s) = rl_links s"
    by (intro map_idI) (auto simp: within_def keep_latest_all)
  moreover have "take (if rl_writing s then length (rl_events s) else 0) (rl_events s) = rl_events s"
    using w by (auto simp: within_def)
  ultimately show ?thesis using w by (simp add: settle_def overflow_def within_def keep_latest_all)
qed

lemma relay_start_within: "relay_start env db = Done s \<Longrightarrow> within C s"
  by (auto simp: relay_start_def within_def)

lemma bounded_within: "bounded_reachable C env db s \<Longrightarrow> within C s"
  by (erule bounded_reachableE) (auto simp: relay_start_within bounded_apply_Some settle_within)

lemma bounded_relay: "bounded_reachable C env db s \<Longrightarrow> relay_reachable env db s"
proof (induction rule: bounded_reachable.induct)
  case (bounded_step s a s')
  then obtain s1 where s1: "relay_apply env a s = Some s1" "s' = settle C s1" by (auto simp: bounded_apply_Some)
  from relay_step [OF bounded_step.IH s1(1)] have "relay_reachable env db s1" .
  then show ?case
    by (rule relay_step [where a = "Overflow (ch_bcast C) (ch_notices C) (if rl_writing s1 then length (rl_events s1) else 0)
          (ch_meta C) (ch_pay C)"]) (simp add: s1(2) settle_def)
qed (rule relay_init)

text \<open>As long as the channels have room, the relay does what it does without limits.\<close>

lemma bounded_same:
  assumes "relay_apply env a s = Some s'" and "\<not> is_loss a" and "within C s'"
  shows "bounded_apply C env a s = Some s'"
  using assms by (auto simp: bounded_apply_Some settle_id must_wait_def within_def)

section \<open>Nobody waits for good\<close>

lemma map_filter_length: "length (List.map_filter f xs) = length (filter (\<lambda>x. f x \<noteq> None) xs)"
  by (simp add: List.map_filter_def comp_def)

lemma submissions_append [simp]: "submissions (xs @ ys) = submissions xs @ submissions ys"
  by (simp add: submissions_def List.map_filter_def)

lemma submissions_simps [simp]:
  "submissions [] = []" "submissions (Submit su # xs) = su # submissions xs"
  "submissions (SendJson j # xs) = submissions xs" "submissions (SendText t # xs) = submissions xs"
  "submissions (SendPing # xs) = submissions xs" "submissions (StartQuery n sub # xs) = submissions xs"
  "submissions (Cancel n # xs) = submissions xs"
  by (simp_all add: submissions_def List.map_filter_simps)

text \<open>A turn of a connection submits at most one event.\<close>

lemma turn_submissions:
  "length (submissions (on_event X st info now e cl)) \<le> 1" "submissions (snd (on_auth X st now evid e cl)) = []"
  "submissions (snd (on_sub_msg st sub cl)) = []" "submissions (snd (on_close_msg cc cl)) = []"
  by (simp_all add: on_event_def on_auth_def on_sub_msg_def on_close_msg_def Let_def
      split: option.split sum.split prod.split)

lemma on_event_msg_submits: "on_event_msg X st info now ec cl = Done (cl', outs) \<Longrightarrow> length (submissions outs) \<le> 1"
proof -
  assume "on_event_msg X st info now ec cl = Done (cl', outs)"
  then obtain r where r: "(cl', outs) = (case r of
          Inr (WrappedEvent e) \<Rightarrow> (cl, on_event X st info now e cl)
        | Inr (WrappedAuth e) \<Rightarrow> on_auth X st now (event_id ec) e cl
        | Inl err \<Rightarrow> (cl, [SendJson (make_notice_message (notice_invalid (event_id ec) (error_text err)))]))"
    unfolding on_event_msg_def map_exec_eq_Done by blast
  show ?thesis
  proof (cases r)
    case (Inr x)
    with r turn_submissions(1) [of X st info now _ cl] turn_submissions(2) [of X st now "event_id ec" _ cl]
    show ?thesis by (cases x) (simp, metis le_zero_eq list.size(3) nat_le_linear snd_conv event_wrapper.simps(6) sum.simps(6))
  qed (use r in simp)
qed

lemma on_text_submits: "on_text X st info now m cl = Done (cl', outs) \<Longrightarrow> length (submissions outs) \<le> 1"
  using on_event_msg_submits turn_submissions(3) [of st _ cl] turn_submissions(4) [of _ cl]
  by (auto simp: on_text_def split: sum.splits nostr_message.splits error.splits) (metis le_zero_eq list.size(3) nat_le_linear snd_conv)+

lemma client_turn_submits:
  assumes "client_turn X st info now inp cl = Done (cl', outs, go)"
  shows "length (submissions outs) \<le> 1"
proof (cases "submissions outs")
  case (Cons su rest)
  then have "Submit su \<in> set outs" using in_submissions [of su outs] by simp
  with assms obtain m ec where i: "inp = FromClient (WsText m)" by (rule client_turn_submit)
  with assms have "\<exists>c. on_text X st info now m cl = Done (c, outs)" by (auto simp: client_turn_def Let_def)
  with on_text_submits show ?thesis by blast
qed simp

lemma link_turn_events: "length (rl_events (link_turn env i now inp s)) \<le> Suc (length (rl_events s))"
  using client_turn_submits by (auto simp: link_turn_def Let_def split: exec.split prod.split)

lemma link_turn_writing [simp]: "rl_writing (link_turn env i now inp s) = rl_writing s"
  by (auto simp: link_turn_def Let_def with_link_def split: exec.split)

lemma log_text_sel [simp]: "rl_events (log_text i now w s) = rl_events s" "rl_writing (log_text i now w s) = rl_writing s"
  by (simp_all add: log_text_def split: ws_input.split)

text \<open>With a free place a message of a client is taken.\<close>

lemma receive_with_room:
  assumes "open_link s i = Some l" and "rl_writing s \<longrightarrow> length (rl_events s) < ch_events C"
  shows "\<exists>s'. bounded_apply C env (Receive i now w) s = Some s'"
  using assms link_turn_events [of env i now "FromClient w" "log_text i now w s"]
  by (auto simp: bounded_apply_Some must_wait_def)

lemma writer_step_sel [simp]:
  "rl_events (writer_step env now clk isu s) = rl_events s"
  by (auto simp: writer_step_def broadcast_def with_link_def split: exec.split)

lemma with_link_open: "(\<And>l. ln_open (f l) = ln_open l) \<Longrightarrow> open_link (with_link j f s) i = None \<longleftrightarrow> open_link s i = None"
  by (auto simp: open_link_def with_link_def nth_list_update)

lemma broadcast_open: "open_link (broadcast es s) i = None \<longleftrightarrow> open_link s i = None"
  by (auto simp: open_link_def broadcast_def)

lemma open_link_upd:
  "open_link (s\<lparr>rl_writer := w, rl_writing := b, rl_meta := m, rl_pay := p\<rparr>) i = open_link s i"
  "open_link (s\<lparr>rl_writing := b\<rparr>) i = open_link s i" "open_link (s\<lparr>rl_events := es\<rparr>) i = open_link s i"
  by (simp_all add: open_link_def)

lemma writer_step_open: "open_link (writer_step env now clk isu s) i = None \<longleftrightarrow> open_link s i = None"
  by (auto simp: writer_step_def open_link_upd broadcast_open with_link_open split: exec.split)

lemma settle_open: "open_link (settle C s) i = None \<longleftrightarrow> open_link s i = None"
  by (auto simp: open_link_def settle_def overflow_link)

text \<open>The writer takes an event whatever is in the queues of the connections.\<close>

lemma writer_takes:
  assumes "within C s" and "rl_writing s" and "rl_events s = isu # rest"
  shows "bounded_apply C env (WriteNext now clk) s = Some (settle C (writer_step env now clk isu (s\<lparr>rl_events := rest\<rparr>)))"
  using assms by (auto simp: bounded_apply_Some must_wait_def within_def)

lemma writer_step_links: "length (rl_links (writer_step env now clk isu s)) = length (rl_links s)"
  by (auto simp: writer_step_def broadcast_def with_link_def split: exec.split)

lemma writer_sent:
  "i < length (rl_links s) \<Longrightarrow> ln_sent (rl_links (writer_step env now clk isu s) ! i) = ln_sent (rl_links s ! i)"
  by (auto simp: writer_step_def broadcast_def with_link_def nth_list_update split: exec.split)

lemma writer_turn:
  assumes "within C s" and "bounded_apply C env (WriteNext now clk) s = Some s'" and "rl_events s = isu # rest"
  shows "rl_db s' = rl_db (writer_step env now clk isu (s\<lparr>rl_events := rest\<rparr>))"
    and "i < length (rl_links s) \<Longrightarrow> ln_sent (rl_links s' ! i) = ln_sent (rl_links s ! i)"
proof -
  have "rl_writing s" using assms(2) by (auto simp: bounded_apply_Some split: if_splits)
  from writer_takes [OF assms(1) this assms(3)] assms(2)
  have s': "s' = settle C (writer_step env now clk isu (s\<lparr>rl_events := rest\<rparr>))" by simp
  then show "rl_db s' = rl_db (writer_step env now clk isu (s\<lparr>rl_events := rest\<rparr>))" by simp
  show "i < length (rl_links s) \<Longrightarrow> ln_sent (rl_links s' ! i) = ln_sent (rl_links s ! i)"
    using writer_sent [of i "s\<lparr>rl_events := rest\<rparr>" env now clk isu]
    by (auto simp: s' settle_def overflow_link writer_step_links)
qed

lemma receive_or_write:
  assumes "within C s" and "0 < ch_events C" and "open_link s i = Some l"
  shows "(\<exists>s'. bounded_apply C env (Receive i now w) s = Some s')
    \<or> (\<forall>t clk. \<exists>s1 s2. bounded_apply C env (WriteNext t clk) s = Some s1 \<and> length (rl_events s1) < length (rl_events s)
        \<and> bounded_apply C env (Receive i now w) s1 = Some s2)"
proof (cases "rl_writing s \<longrightarrow> length (rl_events s) < ch_events C")
  case True
  from receive_with_room [OF assms(3) this] show ?thesis by blast
next
  case False
  with assms(1,2) obtain isu rest where q: "rl_events s = isu # rest" "length rest < ch_events C" and wr: "rl_writing s"
    by (cases "rl_events s") (auto simp: within_def)
  show ?thesis
  proof (rule disjI2, intro allI)
    fix t clk
    let ?s = "settle C (writer_step env t clk isu (s\<lparr>rl_events := rest\<rparr>))"
    have "open_link ?s i \<noteq> None" using assms(3) by (simp add: settle_open writer_step_open open_link_upd)
    then obtain l' where l': "open_link ?s i = Some l'" by blast
    have "rl_writing ?s \<longrightarrow> length (rl_events ?s) < ch_events C" using q(2) by auto
    from receive_with_room [OF l' this] writer_takes [OF assms(1) wr q(1)]
    have "\<exists>s2. bounded_apply C env (WriteNext t clk) s = Some ?s \<and> bounded_apply C env (Receive i now w) ?s = Some s2"
      by blast
    moreover have "length (rl_events ?s) < length (rl_events s)" using q(1) by (simp add: less_Suc_eq_le)
    ultimately show "\<exists>s1 s2. bounded_apply C env (WriteNext t clk) s = Some s1 \<and> length (rl_events s1) < length (rl_events s)
        \<and> bounded_apply C env (Receive i now w) s1 = Some s2"
      by blast
  qed
qed

section \<open>Submitted events: none is lost, none is overtaken\<close>

text \<open>What an action hands to the writer, and what all the actions of a run do, in order.\<close>

definition turn_submits :: "'g relay_env \<Rightarrow> relay_action \<Rightarrow> 'g relay \<Rightarrow> (nat \<times> submitted_event) list" where
  "turn_submits env a s =
     (case a of
        Receive i now w \<Rightarrow>
          (case client_turn (re_ext env) (re_settings env) (ln_info (rl_links s ! i)) now (FromClient w)
                  (ln_client (rl_links s ! i)) of
             Panic \<Rightarrow> []
           | Done (cl, outs, go) \<Rightarrow> map (Pair i) (submissions outs))
      | _ \<Rightarrow> [])"

fun submitted_in :: "channel_limits \<Rightarrow> 'g relay_env \<Rightarrow> relay_action list \<Rightarrow> 'g relay \<Rightarrow> (nat \<times> submitted_event) list" where
  "submitted_in C env [] s = []"
| "submitted_in C env (a # acts) s =
     (case bounded_apply C env a s of
        None \<Rightarrow> []
      | Some s' \<Rightarrow> turn_submits env a s @ submitted_in C env acts s')"

fun writer_turn_count :: "relay_action list \<Rightarrow> nat" where
  "writer_turn_count [] = 0"
| "writer_turn_count (WriteNext now clk # acts) = Suc (writer_turn_count acts)"
| "writer_turn_count (_ # acts) = writer_turn_count acts"

lemma link_turn_events_eq:
  "rl_events (link_turn env i now inp s) = rl_events s @
     (case client_turn (re_ext env) (re_settings env) (ln_info (rl_links s ! i)) now inp (ln_client (rl_links s ! i)) of
        Panic \<Rightarrow> [] | Done (cl, outs, go) \<Rightarrow> map (Pair i) (submissions outs))"
  by (auto simp: link_turn_def Let_def with_link_def split: exec.split)

lemma link_turn_other:
  assumes "\<And>w. inp \<noteq> FromClient w"
  shows "rl_events (link_turn env i now inp s) = rl_events s"
proof -
  have "submissions outs = []" if "client_turn X st info now inp cl = Done (cl', outs, go)" for X st info cl cl' outs go
  proof (rule ccontr)
    assume "submissions outs \<noteq> []"
    then obtain su where "su \<in> set (submissions outs)" by (meson list.set_sel(1))
    with that assms show False by (auto simp: in_submissions elim: client_turn_submit)
  qed
  then show ?thesis by (auto simp: link_turn_events_eq split: exec.split)
qed

lemma log_text_links [simp]: "rl_links (log_text i now w s) = rl_links s"
  by (simp add: log_text_def split: ws_input.split)

lemma with_link_writing [simp]: "rl_writing (with_link i f s) = rl_writing s"
  by (simp add: with_link_def)

lemma broadcast_sel [simp]: "rl_events (broadcast es s) = rl_events s" "rl_writing (broadcast es s) = rl_writing s"
  by (simp_all add: broadcast_def)

lemma apply_other:
  assumes "relay_apply env a s = Some s'" and "\<not> is_loss a"
    and "\<And>i now w. a \<noteq> Receive i now w" and "\<And>now clk. a \<noteq> WriteNext now clk"
  shows "rl_events s' = rl_events s \<and> rl_writing s' = rl_writing s"
proof (cases a)
  case (RunQuery i now scan connected abort)
  with assms(1) have "\<exists>q. s' = query_step env i now scan connected abort q s"
    by (cases "open_link s i") (auto split: list.splits if_splits)
  then show ?thesis by (auto simp: query_step_def)
qed (use assms in \<open>auto simp: link_turn_other connect_step_def verifier_step_def payment_step_def
    set_db_def case_prod_beta Let_def bind_eq_Some_conv neq_Nil_conv split: list.splits if_splits exec.splits prod.splits\<close>)

lemma apply_events:
  assumes "relay_apply env a s = Some s'" and "\<not> is_loss a"
  shows "rl_events s @ turn_submits env a s = (case a of WriteNext now clk \<Rightarrow> [hd (rl_events s)] | _ \<Rightarrow> []) @ rl_events s'
    \<and> (rl_writing s' \<longrightarrow> rl_writing s)"
proof (cases a)
  case (Receive i now w)
  with assms(1) show ?thesis by (auto simp: turn_submits_def link_turn_events_eq)
next
  case (WriteNext now clk)
  with assms(1) show ?thesis by (auto simp: turn_submits_def split: list.splits if_splits)
qed (use apply_other [OF assms] in \<open>simp_all add: turn_submits_def\<close>)

lemma bounded_events:
  assumes "bounded_apply C env a s = Some s'" and "rl_writing s'"
  shows "rl_writing s"
    and "rl_events s @ turn_submits env a s = (case a of WriteNext now clk \<Rightarrow> [hd (rl_events s)] | _ \<Rightarrow> []) @ rl_events s'"
proof -
  from assms(1) obtain s1 where s1: "relay_apply env a s = Some s1" "\<not> is_loss a" "s' = settle C s1"
    by (auto simp: bounded_apply_Some)
  with assms(2) have w: "rl_writing s1" by simp
  with apply_events [OF s1(1,2)] show "rl_writing s" by blast
  from apply_events [OF s1(1,2)] s1(3) w
  show "rl_events s @ turn_submits env a s = (case a of WriteNext now clk \<Rightarrow> [hd (rl_events s)] | _ \<Rightarrow> []) @ rl_events s'"
    by simp
qed

lemma exec_events:
  assumes "bounded_exec C env acts s = Some s'" and "rl_writing s'"
  shows "rl_writing s \<and> (\<exists>taken. length taken = writer_turn_count acts
    \<and> rl_events s @ submitted_in C env acts s = taken @ rl_events s')"
  using assms
proof (induction acts arbitrary: s)
  case (Cons a acts)
  then obtain s1 where s1: "bounded_apply C env a s = Some s1" "bounded_exec C env acts s1 = Some s'"
    by (auto simp: bind_eq_Some_conv)
  from Cons.IH [OF s1(2) Cons.prems(2)] obtain taken where w: "rl_writing s1"
    and t: "length taken = writer_turn_count acts" "rl_events s1 @ submitted_in C env acts s1 = taken @ rl_events s'" by blast
  note b = bounded_events [OF s1(1) w]
  let ?first = "case a of WriteNext now clk \<Rightarrow> [hd (rl_events s)] | _ \<Rightarrow> []"
  have "rl_events s @ submitted_in C env (a # acts) s = (rl_events s @ turn_submits env a s) @ submitted_in C env acts s1"
    using s1(1) by simp
  also have "\<dots> = (?first @ taken) @ rl_events s'" using t(2) by (simp only: b(2) append_assoc)
  finally have "rl_events s @ submitted_in C env (a # acts) s = (?first @ taken) @ rl_events s'" .
  moreover have "length (?first @ taken) = writer_turn_count (a # acts)" using t(1) by (cases a) simp_all
  ultimately show ?case using b(1) by blast
qed simp

lemma bounded_exec_append:
  "bounded_exec C env (as @ bs) s = Option.bind (bounded_exec C env as s) (bounded_exec C env bs)"
  by (induction as arbitrary: s) (simp_all split: bind_splits)

lemma submitted_in_append:
  "bounded_exec C env as s = Some s1 \<Longrightarrow> submitted_in C env (as @ bs) s = submitted_in C env as s @ submitted_in C env bs s1"
  by (induction as arbitrary: s) (auto simp: bind_eq_Some_conv)

text \<open>From the start: the first events that were submitted are those the writer took, the others wait.\<close>

lemma queue_is_rest:
  assumes "relay_start env db = Done s0" and "bounded_exec C env acts s0 = Some s" and "rl_writing s"
  shows "rl_events s = drop (writer_turn_count acts) (submitted_in C env acts s0)"
    and "writer_turn_count acts \<le> length (submitted_in C env acts s0)"
proof -
  have "rl_events s0 = []" using assms(1) by (auto simp: relay_start_def map_exec_eq_Done)
  with exec_events [OF assms(2,3)] obtain taken where "length taken = writer_turn_count acts"
    "submitted_in C env acts s0 = taken @ rl_events s" by auto
  then show "rl_events s = drop (writer_turn_count acts) (submitted_in C env acts s0)"
    and "writer_turn_count acts \<le> length (submitted_in C env acts s0)" by auto
qed

lemma turn_takes_next:
  assumes "relay_start env db = Done s0" and "bounded_exec C env (pre @ WriteNext now clk # post) s0 = Some s"
    and "rl_writing s"
  shows "\<exists>s1 rest. bounded_exec C env pre s0 = Some s1
    \<and> rl_events s1 = submitted_in C env (pre @ WriteNext now clk # post) s0 ! writer_turn_count pre # rest
    \<and> bounded_apply C env (WriteNext now clk) s1 = Some (settle C (writer_step env now clk
        (submitted_in C env (pre @ WriteNext now clk # post) s0 ! writer_turn_count pre) (s1\<lparr>rl_events := rest\<rparr>)))"
proof -
  from assms(2) obtain s1 s2 where s1: "bounded_exec C env pre s0 = Some s1"
    and s2: "bounded_apply C env (WriteNext now clk) s1 = Some s2" "bounded_exec C env post s2 = Some s"
    by (auto simp: bounded_exec_append bind_eq_Some_conv)
  have "bounded_exec C env (WriteNext now clk # post) s1 = Some s" using s2 by simp
  from exec_events [OF this assms(3)] have w: "rl_writing s1" by blast
  from s2(1) obtain isu rest where q: "rl_events s1 = isu # rest"
    and n: "s2 = settle C (writer_step env now clk isu (s1\<lparr>rl_events := rest\<rparr>))"
    by (auto simp: bounded_apply_Some split: if_splits list.splits)
  have "submitted_in C env pre s0 = take (writer_turn_count pre) (submitted_in C env pre s0) @ isu # rest"
    using queue_is_rest(1) [OF assms(1) s1 w] q by (metis append_take_drop_id)
  moreover have "length (take (writer_turn_count pre) (submitted_in C env pre s0)) = writer_turn_count pre"
    using queue_is_rest(2) [OF assms(1) s1 w] by simp
  ultimately have "submitted_in C env (pre @ WriteNext now clk # post) s0 ! writer_turn_count pre = isu"
    unfolding submitted_in_append [OF s1] by (metis append_assoc append_Cons nth_append_length)
  with s1 s2(1) q n show ?thesis by blast
qed

section \<open>What is lost\<close>

text \<open>A full queue of notices: whatever the writer decides, the author is not told.\<close>

lemma full_notices:
  assumes "i < length (rl_links s)" and "length (ln_notices (rl_links s ! i)) = ch_notices C"
    and "bounded_apply C env (WriteNext now clk) s = Some s'" and "fst (hd (rl_events s)) = i"
  shows "ln_notices (rl_links s' ! i) = ln_notices (rl_links s ! i)"
proof -
  from assms(3) obtain isu rest where q: "rl_events s = isu # rest"
    and s': "s' = settle C (writer_step env now clk isu (s\<lparr>rl_events := rest\<rparr>))"
    by (auto simp: bounded_apply_Some split: if_splits list.splits)
  let ?s = "writer_step env now clk isu (s\<lparr>rl_events := rest\<rparr>)"
  have "\<exists>ns. length (rl_links ?s) = length (rl_links s)
      \<and> ln_notices (rl_links ?s ! i) = ln_notices (rl_links s ! i) @ ns"
    using assms(1,4) q by (auto simp: writer_step_def broadcast_def with_link_def split: exec.split)
  with assms(1,2) show ?thesis by (auto simp: s' settle_def overflow_link)
qed

text \<open>
  A connection that is behind keeps the latest events of what was broadcast; this is what the
  receiver of a broadcast channel sees (\<open>bc_send\<close>).
\<close>

lemma broadcast_kept:
  assumes "i < length (rl_links s)"
  shows "ln_bcast (rl_links (settle C (broadcast es s)) ! i) = keep_latest (ch_bcast C) (ln_bcast (rl_links s ! i) @ es)"
  using assms by (simp add: settle_def overflow_link broadcast_def)

end
