(* ===== verification/Metrics.thy ===== *)
theory Metrics
  imports Server_Props
begin

text \<open>
  The metrics: what \<open>create_metrics\<close> of \<open>src/src/server.rs\<close> registers, and which counters a turn
  of a connection increments. The Prometheus crate is a parameter: whether it accepts the options
  of a metric, and whether it registers one beside those that it has. Times are not modelled.
\<close>

section \<open>The registry\<close>

datatype metric_kind = Histogram | CounterVec string | Counter | Gauge

record metric =
  mt_kind :: metric_kind
  mt_name :: string
  mt_help :: string

definition nostr_metrics :: "metric list" where
  "nostr_metrics =
     [\<lparr>mt_kind = Histogram, mt_name = ''nostr_query_seconds'', mt_help = ''Subscription response times''\<rparr>,
      \<lparr>mt_kind = Histogram, mt_name = ''nostr_filter_seconds'', mt_help = ''Filter SQL query times''\<rparr>,
      \<lparr>mt_kind = Histogram, mt_name = ''nostr_events_write_seconds'', mt_help = ''Event writing response times''\<rparr>,
      \<lparr>mt_kind = CounterVec ''source'', mt_name = ''nostr_events_sent_total'', mt_help = ''Events sent to clients''\<rparr>,
      \<lparr>mt_kind = Counter, mt_name = ''nostr_connections_total'', mt_help = ''New connections''\<rparr>,
      \<lparr>mt_kind = Gauge, mt_name = ''nostr_db_connections'', mt_help = ''Active database connections''\<rparr>,
      \<lparr>mt_kind = CounterVec ''reason'', mt_name = ''nostr_query_abort_total'', mt_help = ''Aborted queries''\<rparr>,
      \<lparr>mt_kind = Counter, mt_name = ''nostr_cmd_req_total'', mt_help = ''REQ commands''\<rparr>,
      \<lparr>mt_kind = Counter, mt_name = ''nostr_cmd_event_total'', mt_help = ''EVENT commands''\<rparr>,
      \<lparr>mt_kind = Counter, mt_name = ''nostr_cmd_close_total'', mt_help = ''CLOSE commands''\<rparr>,
      \<lparr>mt_kind = Counter, mt_name = ''nostr_cmd_auth_total'', mt_help = ''AUTH commands''\<rparr>,
      \<lparr>mt_kind = CounterVec ''reason'', mt_name = ''nostr_disconnects_total'', mt_help = ''Client disconnects''\<rparr>]"

text \<open>All metrics are made before the first is registered; the order of both is the same.\<close>

fun register_all :: "(metric list \<Rightarrow> metric \<Rightarrow> bool) \<Rightarrow> metric list \<Rightarrow> metric list \<Rightarrow> metric list exec" where
  "register_all reg done [] = Done done"
| "register_all reg done (m # ms) = (if reg done m then register_all reg (done @ [m]) ms else Panic)"

definition create_metrics :: "(metric \<Rightarrow> bool) \<Rightarrow> (metric list \<Rightarrow> metric \<Rightarrow> bool) \<Rightarrow> metric list exec" where
  "create_metrics accepts reg =
     (if list_all accepts nostr_metrics then register_all reg [] nostr_metrics else Panic)"

text \<open>
  If the crate accepts what is well formed (a name of letters, digits, underscores and colons that
  does not start with a digit, a help text) and registers every new name, no call panics.
\<close>

definition metric_name_ok :: "string \<Rightarrow> bool" where
  "metric_name_ok s \<longleftrightarrow> s \<noteq> [] \<and> \<not> is_ascii_digit (hd s)
     \<and> list_all (\<lambda>c. is_ascii_lowercase c \<or> is_ascii_uppercase c \<or> is_ascii_digit c \<or> c \<in> {CHR ''_'', CHR '':''}) s"

lemma metrics_well_formed: "distinct (map mt_name nostr_metrics)"
  "list_all (\<lambda>m. metric_name_ok (mt_name m) \<and> mt_help m \<noteq> []) nostr_metrics"
  by code_simp+

lemma register_all_fresh:
  assumes "\<And>ds m. mt_name m \<notin> mt_name ` set ds \<Longrightarrow> reg ds m"
  shows "distinct (map mt_name (ds @ ms)) \<Longrightarrow> register_all reg ds ms = Done (ds @ ms)"
proof (induction ms arbitrary: ds)
  case (Cons m ms)
  from Cons.prems have "reg ds m" by (intro assms) auto
  with Cons show ?case by simp
qed simp

lemma create_metrics_ok:
  assumes "\<And>m. metric_name_ok (mt_name m) \<Longrightarrow> mt_help m \<noteq> [] \<Longrightarrow> accepts m"
    and "\<And>ds m. mt_name m \<notin> mt_name ` set ds \<Longrightarrow> reg ds m"
  shows "create_metrics accepts reg = Done nostr_metrics"
proof -
  have "list_all accepts nostr_metrics"
    using metrics_well_formed(2) assms(1) by (auto simp: list_all_iff)
  with register_all_fresh [OF assms(2), where ds = "[]" and ms = nostr_metrics] metrics_well_formed(1) show ?thesis
    by (simp add: create_metrics_def)
qed

section \<open>What a turn counts\<close>

datatype counter = Connections | CmdReq | CmdEvent | CmdClose | CmdAuth | SentEvents string | Disconnects string

definition event_counts :: "ext \<Rightarrow> event_cmd \<Rightarrow> counter list" where
  "event_counts X ec =
     (case wrap_event_cmd X ec of
        Panic \<Rightarrow> []
      | Done (Inr (WrappedEvent e)) \<Rightarrow> [CmdEvent]
      | Done (Inr (WrappedAuth e)) \<Rightarrow> [CmdAuth]
      | Done (Inl err) \<Rightarrow> [CmdEvent])"

definition text_counts :: "ext \<Rightarrow> settings \<Rightarrow> string \<Rightarrow> client \<Rightarrow> counter list" where
  "text_counts X st m cl =
     (case convert_to_msg X m (max_event_bytes (st_limits st)) of
        Inr (EventMsg ec) \<Rightarrow> event_counts X ec
      | Inr (SubMsg s) \<Rightarrow> if has_subscription (cl_conn cl) s then [] else [CmdReq]
      | Inr (CloseMsg cc) \<Rightarrow> (case close_from_cmd cc of Inr c \<Rightarrow> [CmdClose] | Inl _ \<Rightarrow> [])
      | Inl _ \<Rightarrow> [])"

definition realtime_counts :: "ext \<Rightarrow> settings \<Rightarrow> u64 \<Rightarrow> event \<Rightarrow> client \<Rightarrow> counter list" where
  "realtime_counts X st now e cl =
     concat (map (\<lambda>(k, sub).
       if \<not> interested_in_event sub e then []
       else (case json_to_string X (event_to_json e) of
               None \<Rightarrow> []
             | Some s \<Rightarrow> if allowed_to_send X now s (cl_conn cl) st then [SentEvents ''realtime''] else []))
       (subscriptions (cl_conn cl)))"

definition turn_counts :: "ext \<Rightarrow> settings \<Rightarrow> u64 \<Rightarrow> client_input \<Rightarrow> client \<Rightarrow> counter list" where
  "turn_counts X st now inp cl =
     (case inp of
        Shutdown \<Rightarrow> [Disconnects ''shutdown'']
      | PingTick quiet \<Rightarrow> if quiet then [Disconnects ''timeout''] else []
      | NoticeIn n \<Rightarrow> []
      | QueryRow sub ev \<Rightarrow>
          if ev = ''EOSE'' then []
          else if allowed_to_send X now ev (cl_conn cl) st then [SentEvents ''db''] else []
      | GlobalEvent e \<Rightarrow> realtime_counts X st now e cl
      | FromClient w \<Rightarrow>
          (case w of
             WsText m \<Rightarrow> text_counts X st m cl
           | WsClosed \<Rightarrow> [Disconnects ''normal'']
           | WsFailed \<Rightarrow> [Disconnects ''error'']
           | _ \<Rightarrow> []))"

definition connection_counts :: "counter list" where
  "connection_counts = [Connections]"

text \<open>The counters of a connection over a run: its start and then its turns.\<close>

inductive counted_run ::
  "ext \<Rightarrow> settings \<Rightarrow> client_info \<Rightarrow> client \<Rightarrow> client_output list \<Rightarrow> counter list \<Rightarrow> bool \<Rightarrow> bool"
  for X st info
  where
    counted_start: "start_client uuid challenge info st = (cl, outs) \<Longrightarrow> counted_run X st info cl outs connection_counts True"
  | counted_turn: "counted_run X st info cl outs cs True \<Longrightarrow> client_turn X st info now inp cl = Done (cl', outs', go)
      \<Longrightarrow> counted_run X st info cl' (outs @ outs') (cs @ turn_counts X st now inp cl) go"

section \<open>The counters agree with what is sent\<close>

definition is_sent_event :: "client_output \<Rightarrow> bool" where
  "is_sent_event out \<longleftrightarrow> (case out of SendText t \<Rightarrow> starts_with t (''['' @ quote @ ''EVENT'') | _ \<Rightarrow> False)"

definition is_sent_count :: "counter \<Rightarrow> bool" where
  "is_sent_count c \<longleftrightarrow> (case c of SentEvents s \<Rightarrow> True | _ \<Rightarrow> False)"

definition is_disconnect :: "counter \<Rightarrow> bool" where
  "is_disconnect c \<longleftrightarrow> (case c of Disconnects s \<Rightarrow> True | _ \<Rightarrow> False)"

lemma sent_event_texts [simp]:
  "is_sent_event (SendText (event_text sub s))" "\<not> is_sent_event (SendText (eose_text sub))"
  "\<not> is_sent_event (SendJson j)" "\<not> is_sent_event SendPing" "\<not> is_sent_event (Submit su)"
  "\<not> is_sent_event (StartQuery n sb)" "\<not> is_sent_event (Cancel n)"
  by (simp_all add: is_sent_event_def event_text_def eose_text_def starts_with_def quote_def)

lemma count_kinds [simp]:
  "is_sent_count (SentEvents s)" "\<not> is_sent_count CmdEvent" "\<not> is_sent_count CmdAuth" "\<not> is_sent_count CmdReq"
  "\<not> is_sent_count CmdClose" "\<not> is_sent_count Connections" "\<not> is_sent_count (Disconnects s)"
  "is_disconnect (Disconnects s)" "\<not> is_disconnect CmdEvent" "\<not> is_disconnect CmdAuth" "\<not> is_disconnect CmdReq"
  "\<not> is_disconnect CmdClose" "\<not> is_disconnect Connections" "\<not> is_disconnect (SentEvents s)"
  by (simp_all add: is_sent_count_def is_disconnect_def)

lemma count_concat:
  "(\<And>x. x \<in> set xs \<Longrightarrow> length (filter p (f x)) = length (filter q (g x))) \<Longrightarrow>
     length (filter p (concat (map f xs))) = length (filter q (concat (map g xs)))"
  by (induction xs) simp_all

lemma realtime_counts_sent:
  "length (filter is_sent_count (realtime_counts X st now e cl)) = length (filter is_sent_event (on_global_event X st now e cl))"
  "filter is_disconnect (realtime_counts X st now e cl) = []"
proof -
  show "length (filter is_sent_count (realtime_counts X st now e cl))
      = length (filter is_sent_event (on_global_event X st now e cl))"
    unfolding realtime_counts_def on_global_event_def
    by (rule count_concat) (auto simp: case_prod_beta split: option.split)
  show "filter is_disconnect (realtime_counts X st now e cl) = []"
    by (auto simp: realtime_counts_def filter_empty_conv split: option.splits if_splits)
qed

lemma text_counts_other: "filter is_sent_count (text_counts X st m cl) = []" "filter is_disconnect (text_counts X st m cl) = []"
  by (auto simp: text_counts_def event_counts_def split: sum.split nostr_message.split exec.split event_wrapper.split)

text \<open>The answer to a text of the client has no event; only its end mark can be a text.\<close>

lemma text_no_events: "on_text X st info now m cl = Done (cl', outs) \<Longrightarrow> filter is_sent_event outs = []"
proof -
  assume t: "on_text X st info now m cl = Done (cl', outs)"
  have "\<not> is_sent_event out" if "out \<in> set outs" for out
    using on_text_sends_eose [OF t] that by (cases out) (auto, metis sent_event_texts(2))
  then show ?thesis by (simp add: filter_empty_conv)
qed

lemma turn_counts_sent:
  assumes "client_turn X st info now inp cl = Done (cl', outs, go)"
  shows "length (filter is_sent_count (turn_counts X st now inp cl)) = length (filter is_sent_event outs)"
    and "length (filter is_disconnect (turn_counts X st now inp cl)) = (if go then 0 else 1)"
  using assms text_no_events text_counts_other realtime_counts_sent
  by (cases inp; fastforce simp: client_turn_def turn_counts_def on_query_row_def Let_def filter_empty_conv
      split: ws_input.splits if_splits)+

lemma counted_run_sent:
  "counted_run X st info cl outs cs go \<Longrightarrow>
     length (filter is_sent_count cs) = length (filter is_sent_event outs)
     \<and> length (filter is_disconnect cs) = (if go then 0 else 1) \<and> count_list cs Connections = 1"
proof (induction rule: counted_run.induct)
  case (counted_start uuid challenge cl outs)
  then show ?case by (auto simp: start_client_def Let_def connection_counts_def split: if_splits)
next
  case (counted_turn cl outs cs now inp cl' outs' go)
  have "Connections \<notin> set (turn_counts X st now inp cl)"
    by (auto simp: turn_counts_def text_counts_def event_counts_def realtime_counts_def
        split: client_input.splits ws_input.splits sum.splits nostr_message.splits exec.splits event_wrapper.splits
          option.splits if_splits)
  with counted_turn turn_counts_sent [OF counted_turn(2)] show ?case by (simp add: count_list_0_iff)
qed

end
