(* ===== verification/Sqlite_Pools.thy ===== *)
theory Sqlite_Pools
  imports Sqlite_Locks Startup Sqlite_Query
begin

text \<open>
  The connection pools of the SQLite repository (\<open>build_pool\<close> and \<open>SqliteRepo::new\<close> of
  \<open>src/src/repo/sqlite.rs\<close>), what is logged about them, and the query for a whole subscription
  that nothing uses. Times are in milliseconds; whether the file of the database exists at a time
  and whether connections can be opened are arguments. A pool of the \<open>r2d2\<close> crate panics if it may
  have no connection, or fewer than it must keep.
\<close>

section \<open>Pools\<close>

record sqlite_pool =
  pl_name :: string
  pl_path :: "string option"          \<comment> \<open>\<open>None\<close> for a database in memory\<close>
  pl_min :: nat
  pl_max :: nat
  pl_idle_secs :: nat
  pl_life_secs :: nat

definition db_file :: string where
  "db_file = ''nostr.db''"

text \<open>\<open>Path::join\<close> of a directory and a relative name.\<close>

definition path_join :: "string \<Rightarrow> string \<Rightarrow> string" where
  "path_join d f = (if d = [] then f else if ends_with d ''/'' then d @ f else d @ ''/'' @ f)"

text \<open>Readers wait for the writer to create the file: the loop need not end.\<close>

partial_function (option) wait_for_file :: "(nat \<Rightarrow> bool) \<Rightarrow> nat \<Rightarrow> nat option" where
  "wait_for_file file_exists t = (if file_exists t then Some t else wait_for_file file_exists (t + 500))"

definition build_pool ::
  "(nat \<Rightarrow> bool) \<Rightarrow> bool \<Rightarrow> settings \<Rightarrow> string \<Rightarrow> nat \<Rightarrow> nat \<Rightarrow> bool \<Rightarrow> nat \<Rightarrow> (sqlite_pool exec \<times> nat) option" where
  "build_pool file_exists opens st name min_size max_size wait_for_db t =
     map_option
       (\<lambda>t'. (if max_size = 0 \<or> max_size < min_size \<or> \<not> opens then Panic
              else Done \<lparr>pl_name = name,
                pl_path = (if in_memory (st_database st) then None
                           else Some (path_join (data_directory (st_database st)) db_file)),
                pl_min = min_size, pl_max = max_size, pl_idle_secs = 10, pl_life_secs = 30\<rparr>, t'))
       (if in_memory (st_database st) \<or> \<not> wait_for_db then Some t else wait_for_file file_exists t)"

record sqlite_pools =
  ps_write :: sqlite_pool
  ps_maint :: sqlite_pool
  ps_read :: sqlite_pool
  ps_reader_permits :: nat

text \<open>The three pools, one after the other; \<open>None\<close> if the wait never ends.\<close>

definition new_sqlite_repo :: "(nat \<Rightarrow> bool) \<Rightarrow> bool \<Rightarrow> settings \<Rightarrow> nat \<Rightarrow> sqlite_pools exec option" where
  "new_sqlite_repo file_exists opens st t =
     (let maxc = unat (max_conn (st_database st)); minc = unat (min_conn (st_database st)) in
      case build_pool file_exists opens st ''writer'' 0 2 False t of
        None \<Rightarrow> None
      | Some (Panic, _) \<Rightarrow> Some Panic
      | Some (Done w, t1) \<Rightarrow>
          (case build_pool file_exists opens st ''maintenance'' 0 2 True t1 of
             None \<Rightarrow> None
           | Some (Panic, _) \<Rightarrow> Some Panic
           | Some (Done m, t2) \<Rightarrow>
               map_option
                 (\<lambda>(r, t3). map_exec (\<lambda>r. \<lparr>ps_write = w, ps_maint = m, ps_read = r, ps_reader_permits = maxc\<rparr>) r)
                 (build_pool file_exists opens st ''reader'' minc maxc True t2)))"

text \<open>The state of a pool, as the crate reports it, and what is made of it.\<close>

record pool_state =
  po_connections :: u32
  po_idle :: u32

definition log_pool_stats :: "pool_state \<Rightarrow> u32" where
  "log_pool_stats s = po_connections s - po_idle s"

definition pool_at_capacity :: "pool_state \<Rightarrow> bool" where
  "pool_at_capacity s \<longleftrightarrow> po_idle s = 0"

section \<open>A query for a subscription\<close>

definition query_from_sub :: "ext \<Rightarrow> u64 \<Rightarrow> subscription \<Rightarrow> string \<times> sql_param list \<times> string list" where
  "query_from_sub X now sub =
     (let qs = map (query_from_filter X now) (s_filters sub) in
      (join_with '' UNION '' (map (\<lambda>(q, _). ''SELECT distinct content, created_at FROM ('' @ q @ '')'') qs),
       concat (map (\<lambda>(_, ps, _). ps) qs), List.map_filter (\<lambda>(_, _, i). i) qs))"

section \<open>Lemmas\<close>

text \<open>The wait ends with the first look that finds the file, and only then.\<close>

lemma wait_for_file_Some: "wait_for_file file_exists t = Some t' \<Longrightarrow> \<exists>k. t' = t + k * 500 \<and> file_exists t'"
proof (induction rule: wait_for_file.raw_induct [rotated 1, consumes 1])
  case (1 wait file_exists t t')
  show ?case
  proof (cases "file_exists t")
    case False
    with 1(2) have "wait file_exists (t + 500) = Some t'" by simp
    from 1(1) [OF this] obtain k where "t' = t + 500 + k * 500" "file_exists t'" by blast
    then show ?thesis by (intro exI [of _ "Suc k"]) simp
  qed (use 1 in \<open>auto intro: exI [of _ 0]\<close>)
qed

lemma wait_for_file_ends: "file_exists (t + k * 500) \<Longrightarrow> \<exists>t'. wait_for_file file_exists t = Some t'"
proof (induction k arbitrary: t)
  case 0
  then show ?case by (simp add: wait_for_file.simps)
next
  case (Suc k)
  from Suc.IH [of "t + 500"] Suc.prems show ?case by (simp add: wait_for_file.simps [of _ t] algebra_simps)
qed

lemma wait_for_file_iff: "(\<exists>t'. wait_for_file file_exists t = Some t') \<longleftrightarrow> (\<exists>k. file_exists (t + k * 500))"
  using wait_for_file_Some wait_for_file_ends by blast

text \<open>
  As soon as the writer has created the file, or in memory, the repository is built, with the
  limits that \<open>Sqlite_Locks\<close> gives its resources; a relay without reader connections, or with
  fewer than it must keep, panics.
\<close>

lemma build_pool_ready:
  assumes "in_memory (st_database st) \<or> \<not> wait_for_db \<or> file_exists t"
  shows "build_pool file_exists opens st name lo hi wait_for_db t =
    Some (if hi = 0 \<or> hi < lo \<or> \<not> opens then Panic
          else Done \<lparr>pl_name = name, pl_path = (if in_memory (st_database st) then None
              else Some (path_join (data_directory (st_database st)) db_file)),
            pl_min = lo, pl_max = hi, pl_idle_secs = 10, pl_life_secs = 30\<rparr>, t)"
proof -
  have "file_exists t \<Longrightarrow> wait_for_file file_exists t = Some t" by (subst wait_for_file.simps) simp
  with assms show ?thesis by (auto simp: build_pool_def)
qed

lemma new_sqlite_repo_result:
  assumes "in_memory (st_database st) \<or> file_exists t"
  shows "\<exists>R. new_sqlite_repo file_exists True st t = Some R \<and>
    (case R of
       Panic \<Rightarrow> max_conn (st_database st) = 0 \<or> max_conn (st_database st) < min_conn (st_database st)
     | Done p \<Rightarrow> pl_max (ps_write p) = capacity (limits_of st) WritePool \<and> pl_max (ps_maint p) = capacity (limits_of st) MaintPool
         \<and> pl_max (ps_read p) = capacity (limits_of st) ReadPool
         \<and> ps_reader_permits p = capacity (limits_of st) ReaderPermit
         \<and> pl_path (ps_write p) = pl_path (ps_read p) \<and> pl_path (ps_maint p) = pl_path (ps_read p))"
proof -
  have b: "build_pool file_exists True st name lo hi w t =
      Some (if hi = 0 \<or> hi < lo then Panic
          else Done \<lparr>pl_name = name, pl_path = (if in_memory (st_database st) then None
              else Some (path_join (data_directory (st_database st)) db_file)),
            pl_min = lo, pl_max = hi, pl_idle_secs = 10, pl_life_secs = 30\<rparr>, t)" for name lo hi w
    using build_pool_ready [of st w file_exists t True name lo hi] assms by simp
  show ?thesis
    by (simp add: new_sqlite_repo_def Let_def b capacity_def limits_of_def word_less_nat_alt unat_eq_zero)
qed

text \<open>No connection is in use beyond those that there are.\<close>

lemma pool_in_use: "po_idle s \<le> po_connections s \<Longrightarrow> unat (log_pool_stats s) + unat (po_idle s) = unat (po_connections s)"
  by (simp add: log_pool_stats_def unat_sub word_le_nat_alt)

text \<open>
  The unused query: its parameters are those of the filters in order. It would not run, as the
  inner query has no column \<open>created_at\<close>.
\<close>

lemma query_from_sub_params:
  "fst (snd (query_from_sub X now sub)) = concat (map (\<lambda>f. fst (snd (query_from_filter X now f))) (s_filters sub))"
  by (simp add: query_from_sub_def Let_def comp_def case_prod_beta)

lemma query_from_sub_one:
  "s_filters sub = [f] \<Longrightarrow> fst (query_from_sub X now sub) =
     ''SELECT distinct content, created_at FROM (SELECT e.content FROM event e '' @
       drop 30 (fst (query_from_filter X now f)) @ '')''"
  by (simp add: query_from_sub_def query_from_filter_def Let_def)

end
