(* ===== verification/Crate_Errors.thy ===== *)
theory Crate_Errors
  imports Postgres_Accounts
begin

text \<open>
  The conversions of \<open>src/src/error.rs\<close>, which \<open>?\<close> applies to the errors of other crates: each of
  them has a constructor of its own. An error of a crate is its kind and its text.
\<close>

datatype crate_error =
    FromHexErr string | HyperErr string | PoolErr string | TaskJoinErr string | RusqliteErr string | SqlxErr string
  | SerdeJsonErr string | WsErr string | ConfigErr string | TonicStatus string | StdIoErr string
  | EventBuilderErr string | NostrKeyErr string | UrlParseErr string | HttpErr string

fun into_error :: "crate_error \<Rightarrow> error" where
  "into_error (FromHexErr s) = HexError s"
| "into_error (HyperErr s) = HyperError s"
| "into_error (PoolErr s) = DatabasePoolError s"
| "into_error (TaskJoinErr s) = JoinError"
| "into_error (RusqliteErr s) = SqlError s"
| "into_error (SqlxErr s) = SqlxDatabasePoolError s"
| "into_error (SerdeJsonErr s) = JsonParseFailed s"
| "into_error (WsErr s) = WebsocketError s"
| "into_error (ConfigErr s) = ConfigError s"
| "into_error (TonicStatus s) = TonicError s"
| "into_error (StdIoErr s) = IoError s"
| "into_error (EventBuilderErr s) = EventError s"
| "into_error (NostrKeyErr s) = NostrKeyError s"
| "into_error (UrlParseErr s) = URLParseError s"
| "into_error (HttpErr s) = HTTPError s"

text \<open>Only the error of a task that has ended loses its text.\<close>

lemma into_error_inject:
  "into_error a = into_error b \<longleftrightarrow> a = b \<or> (\<exists>s t. a = TaskJoinErr s \<and> b = TaskJoinErr t)"
  by (cases a; cases b) auto

text \<open>
  A missing row of SQLite is recognised when it comes through \<open>?\<close>; one of PostgreSQL is not, as the
  conversion uses another constructor. So the functions of \<open>repo/postgres.rs\<close> ask for an optional row
  and make the error that is recognised themselves.
\<close>

lemma converted_missing_row:
  "is_no_rows (into_error c) \<longleftrightarrow> c = RusqliteErr query_returned_no_rows"
  by (cases c) (auto simp: is_no_rows_def)

lemma missing_account_recognised:
  "(case pg_account_balance k db of Inl err \<Rightarrow> is_no_rows err | Inr _ \<Rightarrow> True)"
  by (simp add: pg_account_balance_def pg_no_rows_recognised split: list.split)

end
