(* ===== verification/Shutdown.thy ===== *)
theory Shutdown
  imports Channels
begin

text \<open>
  How the relay stops (\<open>start_server\<close> and \<open>ctrl_c_or_signal\<close> of \<open>src/src/server.rs\<close>). A broadcast
  channel with room for one message tells the writer, every connection and the web server to stop.
  Two tasks send to it: one on a request from outside, which the program itself never makes, and one
  on the first SIGINT. The web server also stops at SIGINT and SIGTERM by itself; the program ends
  with it. The writer looks for a message before each event, and stops if it gets one.
\<close>

datatype stop_signal = StopRequest | RequesterGone | Sigint | Sigterm

record stopping =
  sp_request :: bool         \<comment> \<open>the task for requests still waits\<close>
  sp_sigint :: bool          \<comment> \<open>the task for SIGINT still waits\<close>
  sp_web :: bool             \<comment> \<open>the web server accepts connections\<close>
  sp_sent :: "unit list"     \<comment> \<open>what was sent on \<open>invoke_shutdown\<close>\<close>

definition stop_start :: stopping where
  "stop_start = \<lparr>sp_request = True, sp_sigint = True, sp_web = True, sp_sent = []\<rparr>"

definition shutdown_capacity :: nat where
  "shutdown_capacity = 1"

text \<open>The task that waits for a request, and the one that waits for SIGINT; each ends with its first signal.\<close>

definition control_task :: "stop_signal \<Rightarrow> stopping \<Rightarrow> stopping" where
  "control_task sig s =
     (if sp_request s \<and> sig = StopRequest then s\<lparr>sp_request := False, sp_sent := sp_sent s @ [()]\<rparr>
      else if sp_request s \<and> sig = RequesterGone then s\<lparr>sp_request := False\<rparr>
      else s)"

definition sigint_task :: "stop_signal \<Rightarrow> stopping \<Rightarrow> stopping" where
  "sigint_task sig s =
     (if sp_sigint s \<and> sig = Sigint then s\<lparr>sp_sigint := False, sp_sent := sp_sent s @ [()]\<rparr> else s)"

definition ctrl_c_or_signal :: "stop_signal \<Rightarrow> stopping \<Rightarrow> bool" where
  "ctrl_c_or_signal sig s \<longleftrightarrow> sp_sent s \<noteq> [] \<or> sig = Sigint \<or> sig = Sigterm"

definition stop_step :: "stop_signal \<Rightarrow> stopping \<Rightarrow> stopping" where
  "stop_step sig s =
     (let s' = sigint_task sig (control_task sig s) in s'\<lparr>sp_web := sp_web s' \<and> \<not> ctrl_c_or_signal sig s'\<rparr>)"

text \<open>The writer's look at its receiver: whether it stops. A report of a lag is no message.\<close>

definition writer_looks :: "stopping \<Rightarrow> nat \<Rightarrow> bool \<times> nat" where
  "writer_looks s pos =
     (case bc_recv shutdown_capacity (sp_sent s, pos) of (r, (_, pos')) \<Rightarrow> (r = Received (), pos'))"

text \<open>A connection stops at whatever its receiver returns, a report of a lag included.\<close>

definition connection_looks :: "stopping \<Rightarrow> nat \<Rightarrow> bool" where
  "connection_looks s pos \<longleftrightarrow> fst (bc_recv shutdown_capacity (sp_sent s, pos)) \<noteq> NoMessage"

section \<open>Lemmas\<close>

definition stop_run :: "stop_signal list \<Rightarrow> stopping" where
  "stop_run sigs = fold stop_step sigs stop_start"

fun asked :: "stop_signal list \<Rightarrow> bool" where
  "asked [] = False"
| "asked (sig # sigs) = (sig \<noteq> RequesterGone \<and> (sig = StopRequest \<or> asked sigs))"

lemma asked_snoc: "asked (sigs @ [sig]) \<longleftrightarrow> asked sigs \<or> sig = StopRequest \<and> RequesterGone \<notin> set sigs"
  by (induction sigs) auto

lemma asked_needs_request: "asked sigs \<Longrightarrow> StopRequest \<in> set sigs"
  by (induction sigs) auto

lemma stop_run_state:
  "sp_sent (stop_run sigs) = replicate ((if asked sigs then 1 else 0) + (if Sigint \<in> set sigs then 1 else 0)) ()
   \<and> (sp_sigint (stop_run sigs) \<longleftrightarrow> Sigint \<notin> set sigs)
   \<and> (sp_request (stop_run sigs) \<longleftrightarrow> \<not> asked sigs \<and> RequesterGone \<notin> set sigs)
   \<and> (sp_web (stop_run sigs) \<longleftrightarrow> sp_sent (stop_run sigs) = [] \<and> Sigint \<notin> set sigs \<and> Sigterm \<notin> set sigs)"
proof (induction sigs rule: rev_induct)
  case Nil
  then show ?case by (simp add: stop_run_def stop_start_def)
next
  case (snoc sig sigs)
  have s: "stop_run (sigs @ [sig]) = stop_step sig (stop_run sigs)" by (simp add: stop_run_def)
  from snoc show ?case
    unfolding s asked_snoc
    by (cases sig) (auto simp: stop_step_def control_task_def sigint_task_def ctrl_c_or_signal_def Let_def)
qed

text \<open>SIGTERM alone stops the web server, and with it the program, but tells no other task.\<close>

lemma sigterm_tells_nobody:
  assumes "set sigs \<subseteq> {Sigterm, RequesterGone}"
  shows "sp_sent (stop_run sigs) = []" and "Sigterm \<in> set sigs \<longrightarrow> \<not> sp_web (stop_run sigs)"
    and "\<not> connection_looks (stop_run sigs) 0" and "\<not> fst (writer_looks (stop_run sigs) 0)"
proof -
  have n: "\<not> asked sigs" "Sigint \<notin> set sigs"
    using assms by (auto dest: asked_needs_request)
  with stop_run_state [of sigs] show s: "sp_sent (stop_run sigs) = []" by simp
  from stop_run_state [of sigs] show "Sigterm \<in> set sigs \<longrightarrow> \<not> sp_web (stop_run sigs)" by blast
  from s show "\<not> connection_looks (stop_run sigs) 0" "\<not> fst (writer_looks (stop_run sigs) 0)"
    by (simp_all add: connection_looks_def writer_looks_def bc_recv_def)
qed

text \<open>One message stops everybody at the next look; with two, the writer first takes another event.\<close>

lemma one_message: "sp_sent s = [()] \<Longrightarrow> connection_looks s 0 \<and> writer_looks s 0 = (True, 1)"
  by (simp add: connection_looks_def writer_looks_def bc_recv_def shutdown_capacity_def)

lemma two_messages:
  "sp_sent s = [(), ()] \<Longrightarrow> connection_looks s 0 \<and> writer_looks s 0 = (False, 1) \<and> writer_looks s 1 = (True, 2)"
  by (simp add: connection_looks_def writer_looks_def bc_recv_def shutdown_capacity_def)

lemma request_and_sigint: "sp_sent (stop_run [StopRequest, Sigint]) = [(), ()]"
  by (simp add: stop_run_def stop_step_def stop_start_def control_task_def sigint_task_def Let_def)

end
