(* ===== verification/Event_Tests.thy ===== *)
theory Event_Tests
  imports Subscription Delegation
begin

text \<open>
  The unit tests of \<open>src/src/event.rs\<close>, \<open>src/src/subscription.rs\<close> and \<open>src/src/delegation.rs\<close>: each
  test is the conjunction of what it asserts of the model, and the lemmas show that the model
  passes. Where a test parses a text, the definition has the JSON value of the text; where one
  compares a text with JSON, the printer is \<open>compact_json\<close>, as \<open>serde_json\<close> prints values without
  characters that it escapes.
\<close>

primrec compact_number :: "jnumber \<Rightarrow> string" where
  "compact_number (PosInt n) = u64_to_string n"
| "compact_number (NegInt n) = ''-'' @ u64_to_string (- n)"
| "compact_number (JFloat n) = []"

fun compact_json :: "json \<Rightarrow> string" where
  "compact_json JNull = ''null''"
| "compact_json (JBool b) = (if b then ''true'' else ''false'')"
| "compact_json (JNumber n) = compact_number n"
| "compact_json (JString s) = [CHR 0x22] @ s @ [CHR 0x22]"
| "compact_json (JArray vs) = ''['' @ join_with '','' (map compact_json vs) @ '']''"
| "compact_json (JObject m) =
     ''{'' @ join_with '','' (map (\<lambda>(k, v). [CHR 0x22] @ k @ [CHR 0x22] @ '':'' @ compact_json v) m) @ ''}''"

definition test_ext :: ext where
  "test_ext = ext0\<lparr>json_to_string := Some \<circ> compact_json\<rparr>"

definition simple_event :: event where
  "simple_event = \<lparr>e_id = ''0'', e_pubkey = ''0'', e_delegated_by = None, e_created_at = 0, e_kind = 0, e_tags = [],
     e_content = [], e_sig = ''0'', e_tagidx = None\<rparr>"

abbreviation of_kind :: "u64 \<Rightarrow> event" where
  "of_kind k \<equiv> simple_event\<lparr>e_kind := k\<rparr>"

abbreviation tagged :: "u64 \<Rightarrow> tag list \<Rightarrow> event" where
  "tagged k ts \<equiv> simple_event\<lparr>e_kind := k, e_tags := ts\<rparr>"

section \<open>Events\<close>

definition test_event_creation :: "bool" where
  "test_event_creation \<longleftrightarrow> e_id simple_event = ''0''"

definition test_event_serialize :: "bool" where
  "test_event_serialize
    \<longleftrightarrow> json_to_string test_ext (event_to_json simple_event) = Some (''{\"id\":\"0\",\"pubkey\":\"0\",\"created_at\":0,\"kind\":0,\"tags\":[],\"content\":\"\",''
    @ ''\"sig\":\"0\"}'')"

definition test_empty_event_tag_match :: "bool" where
  "test_empty_event_tag_match
    \<longleftrightarrow> \<not> generic_tag_val_intersect simple_event ''e'' [''foo'', ''bar'']"

definition test_single_event_tag_match :: "bool" where
  "test_single_event_tag_match
    \<longleftrightarrow> generic_tag_val_intersect (build_index (simple_event\<lparr>e_tags := [[''e'',
    ''foo'']]\<rparr>)) ''e'' [''foo'', ''bar'']"

definition test_event_tags_serialize :: "bool" where
  "test_event_tags_serialize
    \<longleftrightarrow> json_to_string test_ext (event_to_json (simple_event\<lparr>e_tags := [[''e'',
    ''xxxx'', ''wss://example.com''], [''p'', ''yyyyy'',
    ''wss://example.com:3033'']]\<rparr>)) = Some (''{\"id\":\"0\",\"pubkey\":\"0\",\"created_at\":0,\"kind\":0,\"tags\":[[\"e\",\"xxxx\",\"w''
    @ ''ss://example.com\"],[\"p\",\"yyyyy\",\"wss://example.com:3033\"]],\"content\":\"\",\"sig''
    @ ''\":\"0\"}'')"

definition test_event_deserialize :: "bool" where
  "test_event_deserialize \<longleftrightarrow> map_option (\<lambda>e. (e_kind e,
    length (e_tags e))) (event_from_json (JObject [(''id'',
    JString ''1384757da583e6129ce831c3d7afc775a33a090578f888dd0d010328ad047d0c''), (''pubkey'',
    JString ''bbbd9711d357df4f4e498841fd796535c95c8e751fa35355008a911c41265fca''), (''created_at'',
    JNumber (PosInt 1612650459)), (''kind'', JNumber (PosInt 1)), (''tags'', JNull), (''content'',
    JString ''hello world''), (''sig'',
    JString (''59d0cc47ab566e81f72fe5f430bcfb9b3c688cb0093d1e6daa49201c00d28ecc3651468b7938642869ed98c0''
    @ ''f1b262998e49a05a6ed056c0d92b193f4e93bc21''))])) = Some (1, 0)"

definition test_event_canonical :: "bool" where
  "test_event_canonical \<longleftrightarrow> to_canonical test_ext \<lparr>e_id = ''999'',
    e_pubkey = ''012345'', e_delegated_by = None, e_created_at = 501234, e_kind = 1, e_tags = [],
    e_content = ''this is a test'', e_sig = ''abcde'',
    e_tagidx = None\<rparr> = Some ''[0,\"012345\",501234,1,[],\"this is a test\"]''"

definition test_event_tag_select :: "bool" where
  "test_event_tag_select \<longleftrightarrow> tag_values_by_name \<lparr>e_id = ''999'',
    e_pubkey = ''012345'', e_delegated_by = None, e_created_at = 501234, e_kind = 1, e_tags = [[''j'',
    ''abc''], [''e'', ''foo''], [''e'', ''bar''], [''e'', ''baz''], [''p'', ''aaaa'',
    ''ws://example.com'']], e_content = ''this is a test'', e_sig = ''abcde'',
    e_tagidx = None\<rparr> ''e'' = [''foo'', ''bar'', ''baz'']"

definition test_event_no_tag_select :: "bool" where
  "test_event_no_tag_select \<longleftrightarrow> length (tag_values_by_name \<lparr>e_id = ''999'',
    e_pubkey = ''012345'', e_delegated_by = None, e_created_at = 501234, e_kind = 1, e_tags = [[''j'',
    ''abc''], [''e'', ''foo''], [''e'', ''baz''], [''p'', ''aaaa'', ''ws://example.com'']],
    e_content = ''this is a test'', e_sig = ''abcde'', e_tagidx = None\<rparr> ''x'') = 0"

definition test_event_canonical_with_tags :: "bool" where
  "test_event_canonical_with_tags \<longleftrightarrow> to_canonical test_ext \<lparr>e_id = ''999'',
    e_pubkey = ''012345'', e_delegated_by = None, e_created_at = 501234, e_kind = 1, e_tags = [[''#e'',
    ''aoeu''], [''#p'', ''aaaa'', ''ws://example.com'']], e_content = ''this is a test'',
    e_sig = ''abcde'',
    e_tagidx = None\<rparr> = Some (''[0,\"012345\",501234,1,[[\"#e\",\"aoeu\"],[\"#p\",\"aaaa\",\"ws://example.com\"]],\"this''
    @ '' is a test\"]'')"

definition test_ephemeral_event :: "bool" where
  "test_ephemeral_event \<longleftrightarrow> is_ephemeral (of_kind 20000)
    \<and> is_ephemeral (of_kind 29999) \<and> \<not> is_ephemeral (of_kind 30000)
    \<and> \<not> is_ephemeral (of_kind 19999)"

definition test_replaceable_event :: "bool" where
  "test_replaceable_event \<longleftrightarrow> is_replaceable (of_kind 0)
    \<and> is_replaceable (of_kind 3) \<and> is_replaceable (of_kind 10000)
    \<and> is_replaceable (of_kind 19999) \<and> \<not> is_replaceable (of_kind 20000)"

definition test_param_replaceable_event :: "bool" where
  "test_param_replaceable_event \<longleftrightarrow> is_param_replaceable (of_kind 30000)
    \<and> is_param_replaceable (of_kind 39999) \<and> \<not> is_param_replaceable (of_kind 29999)
    \<and> \<not> is_param_replaceable (of_kind 40000)"

definition test_param_replaceable_value_case_1 :: "bool" where
  "test_param_replaceable_value_case_1 \<longleftrightarrow> distinct_param (tagged 30000 [[''d'',
    []]]) = Some []"

definition test_param_replaceable_value_case_2 :: "bool" where
  "test_param_replaceable_value_case_2 \<longleftrightarrow> distinct_param (of_kind 30000) = Some []"

definition test_param_replaceable_value_case_3 :: "bool" where
  "test_param_replaceable_value_case_3
    \<longleftrightarrow> distinct_param (tagged 30000 [[''d'']]) = Some []"

definition test_param_replaceable_value_case_4 :: "bool" where
  "test_param_replaceable_value_case_4 \<longleftrightarrow> distinct_param (tagged 30000 [[''d'', []],
    [''d'', ''not empty'']]) = Some []"

definition test_param_replaceable_value_case_4b :: "bool" where
  "test_param_replaceable_value_case_4b \<longleftrightarrow> distinct_param (tagged 30000 [[''d'',
    ''not empty''], [''d'', []]]) = Some ''not empty''"

definition test_param_replaceable_value_case_5 :: "bool" where
  "test_param_replaceable_value_case_5 \<longleftrightarrow> distinct_param (tagged 30000 [[''d''],
    [''d'', ''second value''], [''d'', ''third value'']]) = Some []"

definition test_param_replaceable_value_case_6 :: "bool" where
  "test_param_replaceable_value_case_6
    \<longleftrightarrow> distinct_param (tagged 30000 [[''e'']]) = Some []"

definition test_expiring_event_none :: "bool" where
  "test_expiring_event_none \<longleftrightarrow> expiration (tagged 7 [[''test'', ''foo'']]) = None"

definition test_expiring_event_empty :: "bool" where
  "test_expiring_event_empty \<longleftrightarrow> expiration (tagged 7 [[''expiration'']]) = None"

definition test_expiring_event_future :: "bool" where
  "test_expiring_event_future \<longleftrightarrow> expiration (tagged 1 [[''expiration'',
    u64_to_string 1676264138]]) = Some 1676264138"

definition test_expiring_event_negative :: "bool" where
  "test_expiring_event_negative \<longleftrightarrow> expiration (tagged 1 [[''expiration'',
    ''-90'']]) = None"

definition test_expiring_event_zero :: "bool" where
  "test_expiring_event_zero \<longleftrightarrow> expiration (tagged 1 [[''expiration'',
    ''0'']]) = Some 0"

definition test_expiring_event_fraction :: "bool" where
  "test_expiring_event_fraction \<longleftrightarrow> expiration (tagged 1 [[''expiration'',
    ''23.334'']]) = None"

definition test_expiring_event_multiple :: "bool" where
  "test_expiring_event_multiple \<longleftrightarrow> expiration (tagged 1 [[''expiration'', ''10''],
    [''expiration'', ''20'']]) = Some 10"

lemma event_tests:
  "test_event_creation" "test_event_serialize" "test_empty_event_tag_match"
  "test_single_event_tag_match" "test_event_tags_serialize" "test_event_deserialize"
  "test_event_canonical" "test_event_tag_select" "test_event_no_tag_select"
  "test_event_canonical_with_tags" "test_ephemeral_event" "test_replaceable_event"
  "test_param_replaceable_event" "test_param_replaceable_value_case_1"
  "test_param_replaceable_value_case_2" "test_param_replaceable_value_case_3"
  "test_param_replaceable_value_case_4" "test_param_replaceable_value_case_4b"
  "test_param_replaceable_value_case_5" "test_param_replaceable_value_case_6" "test_expiring_event_none"
  "test_expiring_event_empty" "test_expiring_event_future" "test_expiring_event_negative"
  "test_expiring_event_zero" "test_expiring_event_fraction" "test_expiring_event_multiple"
  by code_simp+

section \<open>Subscriptions\<close>

definition test_empty_request_parse :: "bool" where
  "test_empty_request_parse \<longleftrightarrow> map_option (\<lambda>s. (s_id s,
    map f_authors (s_filters s))) (subscription_from_json (JArray [JString ''REQ'', JString ''some-id'',
    JObject []])) = Some (''some-id'', [None])"

definition test_incorrect_header :: "bool" where
  "test_incorrect_header \<longleftrightarrow> subscription_from_json (JArray [JString ''REQUEST'',
    JString ''some-id'', JString ''{}'']) = None"

definition test_req_missing_filters :: "bool" where
  "test_req_missing_filters \<longleftrightarrow> subscription_from_json (JArray [JString ''REQ'',
    JString ''some-id'']) = None"

definition test_req_empty_authors_prefix :: "bool" where
  "test_req_empty_authors_prefix \<longleftrightarrow> subscription_from_json (JArray [JString ''REQ'',
    JString ''some-id'', JObject [(''authors'', JArray [JString []])]]) = None"

definition test_req_empty_ids_prefix :: "bool" where
  "test_req_empty_ids_prefix \<longleftrightarrow> subscription_from_json (JArray [JString ''REQ'',
    JString ''some-id'', JObject [(''ids'', JArray [JString []])]]) = None"

definition test_req_empty_ids_prefix_mixed :: "bool" where
  "test_req_empty_ids_prefix_mixed \<longleftrightarrow> subscription_from_json (JArray [JString ''REQ'',
    JString ''some-id'', JObject [(''ids'', JArray [JString [], JString ''aaa''])]]) = None"

definition test_legacy_filter :: "bool" where
  "test_legacy_filter \<longleftrightarrow> subscription_from_json (JArray [JString ''REQ'',
    JString ''some-id'', JObject [(''kind'', JNumber (PosInt 3))]]) \<noteq> None"

definition test_dupe_filter :: "bool" where
  "test_dupe_filter
    \<longleftrightarrow> map_option (\<lambda>s. length (s_filters s)) (subscription_from_json (JArray [JString ''REQ'',
    JString ''some-id'', JObject [(''kinds'', JArray [JNumber (PosInt 1984)])], JObject [(''kinds'',
    JArray [JNumber (PosInt 1984)])]])) = Some 1"

definition test_dupe_filter_many :: "bool" where
  "test_dupe_filter_many
    \<longleftrightarrow> map_option (\<lambda>s. length (s_filters s)) (subscription_from_json (JArray [JString ''REQ'',
    JString ''some-id'', JObject [(''kinds'', JArray [JNumber (PosInt 1984)])], JObject [(''kinds'',
    JArray [JNumber (PosInt 1984)])], JObject [(''kinds'', JArray [JNumber (PosInt 1984)])],
    JObject [(''kinds'', JArray [JNumber (PosInt 1984)])]])) = Some 1"

definition test_author_filter :: "bool" where
  "test_author_filter \<longleftrightarrow> map_option (\<lambda>s. (s_id s,
    map f_authors (s_filters s))) (subscription_from_json (JArray [JString ''REQ'', JString ''some-id'',
    JObject [(''authors'', JArray [JString ''test-author-id''])]])) = Some (''some-id'',
    [Some [''test-author-id'']])"

definition test_interest_author_prefix_match :: "bool" where
  "test_interest_author_prefix_match
    \<longleftrightarrow> map_option (\<lambda>s. interested_in_event s \<lparr>e_id = ''foo'',
    e_pubkey = ''abcd'', e_delegated_by = None, e_created_at = 0, e_kind = 0, e_tags = [], e_content = [],
    e_sig = [], e_tagidx = None\<rparr>) (subscription_from_json (JArray [JString ''REQ'',
    JString ''xyz'', JObject [(''authors'', JArray [JString ''abc''])]])) = Some True"

definition test_interest_id_prefix_match :: "bool" where
  "test_interest_id_prefix_match
    \<longleftrightarrow> map_option (\<lambda>s. interested_in_event s \<lparr>e_id = ''abcd'',
    e_pubkey = [], e_delegated_by = None, e_created_at = 0, e_kind = 0, e_tags = [], e_content = [],
    e_sig = [], e_tagidx = None\<rparr>) (subscription_from_json (JArray [JString ''REQ'',
    JString ''xyz'', JObject [(''ids'', JArray [JString ''abc''])]])) = Some True"

definition test_interest_id_nomatch :: "bool" where
  "test_interest_id_nomatch
    \<longleftrightarrow> map_option (\<lambda>s. interested_in_event s \<lparr>e_id = ''abcde'',
    e_pubkey = [], e_delegated_by = None, e_created_at = 0, e_kind = 0, e_tags = [], e_content = [],
    e_sig = [], e_tagidx = None\<rparr>) (subscription_from_json (JArray [JString ''REQ'',
    JString ''xyz'', JObject [(''ids'', JArray [JString ''xyz''])]])) = Some False"

definition test_interest_until :: "bool" where
  "test_interest_until
    \<longleftrightarrow> map_option (\<lambda>s. interested_in_event s \<lparr>e_id = ''abc'',
    e_pubkey = [], e_delegated_by = None, e_created_at = 50, e_kind = 0, e_tags = [], e_content = [],
    e_sig = [], e_tagidx = None\<rparr>) (subscription_from_json (JArray [JString ''REQ'',
    JString ''xyz'', JObject [(''ids'', JArray [JString ''abc'']), (''until'',
    JNumber (PosInt 1000))]])) = Some True"

definition test_interest_range :: "bool" where
  "test_interest_range
    \<longleftrightarrow> map_option (\<lambda>s. interested_in_event s \<lparr>e_id = ''abc'',
    e_pubkey = [], e_delegated_by = None, e_created_at = 150, e_kind = 0, e_tags = [], e_content = [],
    e_sig = [], e_tagidx = None\<rparr>) (subscription_from_json (JArray [JString ''REQ'',
    JString ''xyz'', JObject [(''ids'', JArray [JString ''abc'']), (''since'', JNumber (PosInt 100)),
    (''until'', JNumber (PosInt 200))]])) = Some True
    \<and> map_option (\<lambda>s. interested_in_event s \<lparr>e_id = ''abc'', e_pubkey = [],
    e_delegated_by = None, e_created_at = 150, e_kind = 0, e_tags = [], e_content = [], e_sig = [],
    e_tagidx = None\<rparr>) (subscription_from_json (JArray [JString ''REQ'', JString ''xyz'',
    JObject [(''ids'', JArray [JString ''abc'']), (''since'', JNumber (PosInt 100)), (''until'',
    JNumber (PosInt 140))]])) = Some False
    \<and> map_option (\<lambda>s. interested_in_event s \<lparr>e_id = ''abc'', e_pubkey = [],
    e_delegated_by = None, e_created_at = 150, e_kind = 0, e_tags = [], e_content = [], e_sig = [],
    e_tagidx = None\<rparr>) (subscription_from_json (JArray [JString ''REQ'', JString ''xyz'',
    JObject [(''ids'', JArray [JString ''abc'']), (''since'', JNumber (PosInt 160)), (''until'',
    JNumber (PosInt 200))]])) = Some False"

definition test_interest_time_and_id :: "bool" where
  "test_interest_time_and_id
    \<longleftrightarrow> map_option (\<lambda>s. interested_in_event s \<lparr>e_id = ''abc'',
    e_pubkey = [], e_delegated_by = None, e_created_at = 50, e_kind = 0, e_tags = [], e_content = [],
    e_sig = [], e_tagidx = None\<rparr>) (subscription_from_json (JArray [JString ''REQ'',
    JString ''xyz'', JObject [(''ids'', JArray [JString ''abc'']), (''since'',
    JNumber (PosInt 1000))]])) = Some False"

definition test_interest_time_and_id2 :: "bool" where
  "test_interest_time_and_id2
    \<longleftrightarrow> map_option (\<lambda>s. interested_in_event s \<lparr>e_id = ''abc'',
    e_pubkey = [], e_delegated_by = None, e_created_at = 1001, e_kind = 0, e_tags = [], e_content = [],
    e_sig = [], e_tagidx = None\<rparr>) (subscription_from_json (JArray [JString ''REQ'',
    JString ''xyz'', JObject [(''id'', JString ''abc''), (''since'',
    JNumber (PosInt 1000))]])) = Some True"

definition test_interest_id :: "bool" where
  "test_interest_id
    \<longleftrightarrow> map_option (\<lambda>s. interested_in_event s \<lparr>e_id = ''abc'',
    e_pubkey = [], e_delegated_by = None, e_created_at = 0, e_kind = 0, e_tags = [], e_content = [],
    e_sig = [], e_tagidx = None\<rparr>) (subscription_from_json (JArray [JString ''REQ'',
    JString ''xyz'', JObject [(''id'', JString ''abc'')]])) = Some True"

definition test_authors_single :: "bool" where
  "test_authors_single
    \<longleftrightarrow> map_option (\<lambda>s. interested_in_event s \<lparr>e_id = ''123'',
    e_pubkey = ''abc'', e_delegated_by = None, e_created_at = 0, e_kind = 0, e_tags = [], e_content = [],
    e_sig = [], e_tagidx = None\<rparr>) (subscription_from_json (JArray [JString ''REQ'',
    JString ''xyz'', JObject [(''authors'', JArray [JString ''abc''])]])) = Some True"

definition test_authors_multi_pubkey :: "bool" where
  "test_authors_multi_pubkey
    \<longleftrightarrow> map_option (\<lambda>s. interested_in_event s \<lparr>e_id = ''123'',
    e_pubkey = ''bcd'', e_delegated_by = None, e_created_at = 0, e_kind = 0, e_tags = [], e_content = [],
    e_sig = [], e_tagidx = None\<rparr>) (subscription_from_json (JArray [JString ''REQ'',
    JString ''xyz'', JObject [(''authors'', JArray [JString ''abc'', JString ''bcd''])]])) = Some True"

definition test_authors_multi_no_match :: "bool" where
  "test_authors_multi_no_match
    \<longleftrightarrow> map_option (\<lambda>s. interested_in_event s \<lparr>e_id = ''123'',
    e_pubkey = ''xyz'', e_delegated_by = None, e_created_at = 0, e_kind = 0, e_tags = [], e_content = [],
    e_sig = [], e_tagidx = None\<rparr>) (subscription_from_json (JArray [JString ''REQ'',
    JString ''xyz'', JObject [(''authors'', JArray [JString ''abc'', JString ''bcd''])]])) = Some False"

definition test_serialize_filter :: "bool" where
  "test_serialize_filter
    \<longleftrightarrow> Option.bind (subscription_from_json (JArray [JString ''REQ'', JString ''xyz'',
    JObject [(''authors'', JArray [JString ''abc'', JString ''bcd'']), (''since'', JNumber (PosInt 10)),
    (''until'', JNumber (PosInt 20)), (''limit'', JNumber (PosInt 100)), (''#e'', JArray [JString ''foo'',
    JString ''bar'']), (''#d'',
    JArray [JString ''test''])]])) (\<lambda>s. map_option (\<lambda>p. map (\<lambda>f. (f_since f,
    f_until f, f_limit f)) (s_filters p)) (subscription_from_json (JArray [JString ''REQ'',
    JString ''xyz'', filter_to_json (hd (s_filters s))]))) = Some [(Some 10, Some 20, Some 100)]"

definition test_is_scraper :: "bool" where
  "test_is_scraper
    \<longleftrightarrow> map_option is_scraper (subscription_from_json (JArray [JString ''REQ'',
    JString ''some-id'', JObject [(''kinds'', JArray [JNumber (PosInt 1984)]), (''since'',
    JNumber (PosInt 123)), (''limit'', JNumber (PosInt 1))]])) = Some True
    \<and> map_option is_scraper (subscription_from_json (JArray [JString ''REQ'', JString ''some-id'',
    JObject [(''kinds'', JArray [JNumber (PosInt 1984)])], JObject [(''kinds'',
    JArray [JNumber (PosInt 1984)]), (''authors'', JArray [JString ''aaaa''])]])) = Some True
    \<and> map_option is_scraper (subscription_from_json (JArray [JString ''REQ'', JString ''some-id'',
    JObject [(''kinds'', JArray [JNumber (PosInt 1984)]), (''authors'',
    JArray [JString ''aaaa''])]])) = Some False
    \<and> map_option is_scraper (subscription_from_json (JArray [JString ''REQ'', JString ''some-id'',
    JObject [(''ids'', JArray [JString ''aaaa''])]])) = Some False
    \<and> map_option is_scraper (subscription_from_json (JArray [JString ''REQ'', JString ''some-id'',
    JObject [(''#p'', JArray [JString ''aaaa'']), (''kinds'', JArray [JNumber (PosInt 1),
    JNumber (PosInt 4)])]])) = Some False"

lemma subscription_tests:
  "test_empty_request_parse" "test_incorrect_header" "test_req_missing_filters"
  "test_req_empty_authors_prefix" "test_req_empty_ids_prefix" "test_req_empty_ids_prefix_mixed"
  "test_legacy_filter" "test_dupe_filter" "test_dupe_filter_many" "test_author_filter"
  "test_interest_author_prefix_match" "test_interest_id_prefix_match" "test_interest_id_nomatch"
  "test_interest_until" "test_interest_range" "test_interest_time_and_id" "test_interest_time_and_id2"
  "test_interest_id" "test_authors_single" "test_authors_multi_pubkey" "test_authors_multi_no_match"
  "test_serialize_filter" "test_is_scraper"
  by code_simp+

section \<open>Delegation\<close>

definition test_parse_empty :: "bool" where
  "test_parse_empty \<longleftrightarrow> query_from_str [] = Inr []"

definition test_kind_field_parse :: "bool" where
  "test_kind_field_parse \<longleftrightarrow> field_from_str ''kind'' = Inr Kind"

definition test_created_at_field_parse :: "bool" where
  "test_created_at_field_parse \<longleftrightarrow> field_from_str ''created_at'' = Inr CreatedAt"

definition test_unknown_field_parse :: "bool" where
  "test_unknown_field_parse \<longleftrightarrow> result_ok (field_from_str ''unk'') = None"

definition test_parse_kind_equals_empty :: "bool" where
  "test_parse_kind_equals_empty
    \<longleftrightarrow> query_from_str ''kind='' = Inr [\<lparr>c_field = Kind, c_operator = Equals,
    c_values = []\<rparr>]"

definition test_parse_kind_equals_singleval :: "bool" where
  "test_parse_kind_equals_singleval
    \<longleftrightarrow> query_from_str ''kind=1'' = Inr [\<lparr>c_field = Kind, c_operator = Equals,
    c_values = [1]\<rparr>]"

definition test_parse_kind_equals_multival :: "bool" where
  "test_parse_kind_equals_multival
    \<longleftrightarrow> query_from_str ''kind=1,2,4'' = Inr [\<lparr>c_field = Kind,
    c_operator = Equals, c_values = [1, 2, 4]\<rparr>]"

definition test_parse_multi_conditions :: "bool" where
  "test_parse_multi_conditions
    \<longleftrightarrow> query_from_str ''kind>10000&kind<20000&kind!10001&created_at<1665867123'' = Inr [\<lparr>c_field = Kind,
    c_operator = GreaterThan, c_values = [10000]\<rparr>, \<lparr>c_field = Kind, c_operator = LessThan,
    c_values = [20000]\<rparr>, \<lparr>c_field = Kind, c_operator = NotEquals,
    c_values = [10001]\<rparr>, \<lparr>c_field = CreatedAt, c_operator = LessThan,
    c_values = [1665867123]\<rparr>]"

definition test_condition_with_empty_values :: "bool" where
  "test_condition_with_empty_values \<longleftrightarrow> \<not> condition_allows \<lparr>c_field = Kind,
    c_operator = GreaterThan, c_values = []\<rparr> simple_event
    \<and> \<not> condition_allows \<lparr>c_field = Kind, c_operator = LessThan,
    c_values = []\<rparr> simple_event \<and> \<not> condition_allows \<lparr>c_field = Kind,
    c_operator = Equals, c_values = []\<rparr> simple_event
    \<and> condition_allows \<lparr>c_field = Kind, c_operator = NotEquals,
    c_values = []\<rparr> simple_event"

definition test_condition_kind_gt_event_single :: "bool" where
  "test_condition_kind_gt_event_single
    \<longleftrightarrow> \<not> condition_allows \<lparr>c_field = Kind, c_operator = GreaterThan,
    c_values = [10]\<rparr> (of_kind 1) \<and> condition_allows \<lparr>c_field = Kind,
    c_operator = GreaterThan, c_values = [10]\<rparr> (of_kind 100)
    \<and> \<not> condition_allows \<lparr>c_field = Kind, c_operator = GreaterThan,
    c_values = [10]\<rparr> (of_kind 10)"

definition test_condition_with_multi_values :: "bool" where
  "test_condition_with_multi_values \<longleftrightarrow> condition_allows \<lparr>c_field = Kind,
    c_operator = Equals, c_values = [0, 10, 20]\<rparr> (of_kind 10)
    \<and> \<not> condition_allows \<lparr>c_field = Kind, c_operator = Equals, c_values = [0, 10,
    20]\<rparr> (of_kind 11) \<and> \<not> condition_allows \<lparr>c_field = Kind,
    c_operator = NotEquals, c_values = [0, 10, 20]\<rparr> (of_kind 10)
    \<and> condition_allows \<lparr>c_field = Kind, c_operator = NotEquals, c_values = [0, 10,
    20]\<rparr> (of_kind 99) \<and> \<not> condition_allows \<lparr>c_field = Kind, c_operator = LessThan,
    c_values = [0, 10, 20]\<rparr> (of_kind 99) \<and> \<not> condition_allows \<lparr>c_field = Kind,
    c_operator = GreaterThan, c_values = [0, 10, 20]\<rparr> (of_kind 99)"

lemma delegation_tests:
  "test_parse_empty" "test_kind_field_parse" "test_created_at_field_parse" "test_unknown_field_parse"
  "test_parse_kind_equals_empty" "test_parse_kind_equals_singleval" "test_parse_kind_equals_multival"
  "test_parse_multi_conditions" "test_condition_with_empty_values" "test_condition_kind_gt_event_single"
  "test_condition_with_multi_values"
  by code_simp+

end
