(* ===== verification/Config_Tests.thy ===== *)
theory Config_Tests
  imports Event_Tests Kind_Filters Notice Nip05 Rate_Limit Postgres_Query
begin

text \<open>
  The unit tests of \<open>src/src/kind_filters.rs\<close>, \<open>src/src/config.rs\<close>, \<open>src/src/notice.rs\<close>,
  \<open>src/src/nip05.rs\<close>, \<open>src/src/utils.rs\<close>, \<open>src/src/db.rs\<close> and \<open>src/src/repo/postgres.rs\<close>, in the form
  of \<open>Event_Tests\<close>. The regular expressions and the duration in them are written out as functions;
  a clock reading is an argument or a number of nanoseconds.
\<close>

definition slug_text :: string where
  "slug_text = ''^[a-z0-9][a-z0-9-]{2,63}$''"

definition slug_char :: "char \<Rightarrow> bool" where
  "slug_char c \<longleftrightarrow> is_ascii_lowercase c \<or> is_ascii_digit c"

definition slug_match :: "string \<Rightarrow> bool" where
  "slug_match s \<longleftrightarrow> 3 \<le> length s \<and> length s \<le> 64 \<and> slug_char (hd s) \<and> list_all (\<lambda>c. slug_char c \<or> c = CHR ''-'') (tl s)"

definition config_ext :: ext where
  "config_ext = ext0\<lparr>
     is_match := (\<lambda>p v. if p = slug_text then slug_match v else p = ''^(web|mobile)$'' \<and> (v = ''web'' \<or> v = ''mobile'')),
     parse_duration := (\<lambda>s. if s = ''75h'' then Some 270000 else None)\<rparr>"

definition is_err :: "'a + 'b \<Rightarrow> bool" where
  "is_err r = (case r of Inl _ \<Rightarrow> True | Inr _ \<Rightarrow> False)"

definition author_a :: string where
  "author_a = replicate 64 (CHR ''a'')"

definition recipient_b :: string where
  "recipient_b = replicate 64 (CHR ''b'')"

definition stranger_c :: string where
  "stranger_c = replicate 64 (CHR ''c'')"

definition extra_d :: string where
  "extra_d = replicate 64 (CHR ''d'')"

definition test_event :: "string \<Rightarrow> string list \<Rightarrow> event" where
  "test_event author p_tags =
     \<lparr>e_id = replicate 64 (CHR ''0''), e_pubkey = author, e_delegated_by = None, e_created_at = 0, e_kind = 4,
      e_tags = map (\<lambda>p. [''p'', p]) p_tags, e_content = [], e_sig = [], e_tagidx = None\<rparr>"

definition privileged_read_config :: write_read_config where
  "privileged_read_config =
     \<lparr>wr_script = None, wr_allow = AllowAll, wr_deny = DenyAll, wr_privileged = True, wr_error = None\<rparr>"

section \<open>Kind filters\<close>

definition test_privileged_requires_auth :: "bool" where
  "test_privileged_requires_auth
    \<longleftrightarrow> \<not> check_write_read_config config_ext privileged_read_config (test_event author_a [recipient_b]) None None True"

definition test_privileged_allows_authenticated_author :: "bool" where
  "test_privileged_allows_authenticated_author
    \<longleftrightarrow> check_write_read_config config_ext privileged_read_config (test_event author_a [recipient_b]) (Some author_a) None True"

definition test_privileged_allows_authenticated_p_tag :: "bool" where
  "test_privileged_allows_authenticated_p_tag
    \<longleftrightarrow> check_write_read_config config_ext privileged_read_config (test_event author_a [recipient_b]) (Some recipient_b) None True"

definition test_privileged_denies_unrelated_authenticated_user :: "bool" where
  "test_privileged_denies_unrelated_authenticated_user
    \<longleftrightarrow> \<not> check_write_read_config config_ext privileged_read_config (test_event author_a [recipient_b]) (Some stranger_c) None True"

definition test_allow_takes_precedence_over_privileged :: "bool" where
  "test_allow_takes_precedence_over_privileged
    \<longleftrightarrow> check_write_read_config config_ext \<lparr>wr_script = None,
    wr_allow = Identifiers [extra_d], wr_deny = DenyAll, wr_privileged = True,
    wr_error = None\<rparr> (test_event author_a [recipient_b]) (Some extra_d) None True
    \<and> check_write_read_config config_ext \<lparr>wr_script = None, wr_allow = Identifiers [extra_d],
    wr_deny = DenyAll, wr_privileged = True,
    wr_error = None\<rparr> (test_event author_a [recipient_b]) (Some author_a) None True
    \<and> \<not> check_write_read_config config_ext \<lparr>wr_script = None,
    wr_allow = Identifiers [extra_d], wr_deny = DenyAll, wr_privileged = True,
    wr_error = None\<rparr> (test_event author_a [recipient_b]) (Some stranger_c) None True"

definition test_privileged_ignored_on_write :: "bool" where
  "test_privileged_ignored_on_write
    \<longleftrightarrow> check_write_read_config config_ext privileged_read_config (test_event author_a []) None None False"

definition test_tag_patterns_require_present_matching_values :: "bool" where
  "test_tag_patterns_require_present_matching_values
    \<longleftrightarrow> validate_tag_patterns config_ext ((test_event author_a [])\<lparr>e_tags := []\<rparr>) [(''d'',
    slug_text)] = Inl ''d''
    \<and> validate_tag_patterns config_ext ((test_event author_a [])\<lparr>e_tags := [[''d'',
    ''valid-slug'']]\<rparr>) [(''d'', slug_text)] = Inr ()
    \<and> validate_tag_patterns config_ext ((test_event author_a [])\<lparr>e_tags := [[''d'',
    ''valid-slug''], [''d'', ''INVALID'']]\<rparr>) [(''d'', slug_text)] = Inl ''d''"

definition test_privileged_deny_still_applies :: "bool" where
  "test_privileged_deny_still_applies
    \<longleftrightarrow> \<not> check_write_read_config config_ext \<lparr>wr_script = None,
    wr_allow = AllowAll, wr_deny = Identifiers [recipient_b], wr_privileged = True,
    wr_error = None\<rparr> (test_event author_a [recipient_b]) (Some recipient_b) None True"

definition test_substitute_placeholders_replaces_known_keys :: "bool" where
  "test_substitute_placeholders_replaces_known_keys
    \<longleftrightarrow> substitute_placeholders ''kind {kind} tag {tag} size {size}/{limit}: {detail}'' \<lparr>ph_kind = Some 4,
    ph_tag = Some ''client'', ph_size = Some 5000, ph_limit = Some 4096,
    ph_detail = Some ''too many tags''\<rparr> = ''kind 4 tag client size 5000/4096: too many tags''"

definition test_resolve_error_prefers_kind_override :: "bool" where
  "test_resolve_error_prefers_kind_override
    \<longleftrightarrow> resolve_error_message ''blocked: kind {kind} is not in the kind whitelist'' (Some ''restricted: custom kind {kind}'') (Some ''blocked: global {kind}'') (no_placeholders\<lparr>ph_kind := Some 4\<rparr>) = ''restricted: custom kind 4''"

lemma kind_filter_tests:
  "test_privileged_requires_auth" "test_privileged_allows_authenticated_author"
  "test_privileged_allows_authenticated_p_tag" "test_privileged_denies_unrelated_authenticated_user"
  "test_allow_takes_precedence_over_privileged" "test_privileged_ignored_on_write"
  "test_tag_patterns_require_present_matching_values" "test_privileged_deny_still_applies"
  "test_substitute_placeholders_replaces_known_keys" "test_resolve_error_prefers_kind_override"
  by code_simp+

definition test_expiration_window_rejects_unparseable_tag :: "u64 \<Rightarrow> bool" where
  "test_expiration_window_rejects_unparseable_tag now
    \<longleftrightarrow> is_err (validate_expiration_window now ((test_event author_a [])\<lparr>e_tags := [[''expiration'',
    ''garbage'']]\<rparr>) 270000)"

definition test_expiration_window_ok_within_limit :: "u64 \<Rightarrow> bool" where
  "test_expiration_window_ok_within_limit now
    \<longleftrightarrow> validate_expiration_window now ((test_event author_a [])\<lparr>e_tags := [[''expiration'',
    u64_to_string (now + 3600)]]\<rparr>) 270000 = Inr ()"

definition test_expiration_window_rejects_far_future :: "u64 \<Rightarrow> bool" where
  "test_expiration_window_rejects_far_future now
    \<longleftrightarrow> is_err (validate_expiration_window now ((test_event author_a [])\<lparr>e_tags := [[''expiration'',
    u64_to_string (now + 360000)]]\<rparr>) 270000)"

text \<open>At any time that is not about to overflow, these pass.\<close>

lemma u64_le_plus: "unat now < 2 ^ 63 \<Longrightarrow> unat (now + 270000 :: u64) = unat now + 270000
    \<and> unat (now + 3600 :: u64) = unat now + 3600 \<and> unat (now + 360000 :: u64) = unat now + 360000"
  by (simp add: unat_word_ariths)

lemma expiration_window_tests:
  assumes "unat now < 2 ^ 63"
  shows "test_expiration_window_rejects_unparseable_tag now" "test_expiration_window_ok_within_limit now"
    "test_expiration_window_rejects_far_future now"
proof -
  have g: "parse_u64 ''garbage'' = None" by code_simp
  show "test_expiration_window_rejects_unparseable_tag now"
    by (simp add: test_expiration_window_rejects_unparseable_tag_def validate_expiration_window_def test_event_def
        expiration_def first_tag_value_def g is_err_def)
  show "test_expiration_window_ok_within_limit now" "test_expiration_window_rejects_far_future now"
    using u64_le_plus [OF assms]
    by (simp_all add: test_expiration_window_ok_within_limit_def test_expiration_window_rejects_far_future_def
        validate_expiration_window_def test_event_def expiration_def first_tag_value_def is_err_def word_less_nat_alt
        parse_u64_to_string)
qed

section \<open>Configuration\<close>

definition test_parse_kind_config_with_new_fields :: "bool" where
  "test_parse_kind_config_with_new_fields
    \<longleftrightarrow> (case kind_filter_from_json config_ext (JObject [(''description'',
    JString ''DM test''), (''write'', JObject [(''allow'', JString ''*'')]), (''read'',
    JObject [(''allow'', JString ''*''), (''privileged'', JBool True)]), (''require_auth'', JBool True),
    (''max_size'', JString ''4KB''), (''max_expiration'', JString ''75h''), (''p_tag'', JString ''hex''),
    (''required_tags'', JArray [JString ''expiration'', JString ''client'']), (''tag_patterns'',
    JObject [(''d'', JString ''^[a-z0-9][a-z0-9-]{2,63}$''), (''client'', JString ''^(web|mobile)$'')]),
    (''rate_limits'', JArray [JObject [(''limit'', JNumber (PosInt 300)), (''window'', JString ''1h''),
    (''scope'', JString ''npub'')], JObject [(''limit'', JNumber (PosInt 1000)), (''window'',
    JString ''1d''), (''scope'', JString ''ip'')], JObject [(''limit'', JNumber (PosInt 5)), (''window'',
    JString ''1m''), (''scope'', JString ''global'')]]), (''tag_limits'', JObject [(''max_tags'',
    JNumber (PosInt 32)), (''max_tag_name_chars'', JNumber (PosInt 16)), (''max_tag_value_chars'',
    JNumber (PosInt 128))])]) of Inl err \<Rightarrow> False | Inr cfg \<Rightarrow> k_require_auth cfg
    \<and> k_max_size cfg = Some (4 * 1024) \<and> x_duration (k_max_expiration cfg) = Some (75 * 3600)
    \<and> k_p_tag cfg = TagRequiredHex \<and> k_required_tags cfg = [''expiration'', ''client'']
    \<and> (\<lambda>p n v. case map_of (k_tag_patterns p) n of None \<Rightarrow> False | Some r \<Rightarrow> is_match config_ext r v) cfg ''d'' ''valid-slug''
    \<and> \<not> (\<lambda>p n v. case map_of (k_tag_patterns p) n of None \<Rightarrow> False | Some r \<Rightarrow> is_match config_ext r v) cfg ''d'' ''Invalid Slug''
    \<and> (\<lambda>p n v. case map_of (k_tag_patterns p) n of None \<Rightarrow> False | Some r \<Rightarrow> is_match config_ext r v) cfg ''client'' ''web''
    \<and> k_rate_limits cfg = [\<lparr>r_limit = 300, r_window = Hour, r_scope = ScopeNpub\<rparr>,
    \<lparr>r_limit = 1000, r_window = Day, r_scope = ScopeIp\<rparr>, \<lparr>r_limit = 5,
    r_window = Minute, r_scope = ScopeGlobal\<rparr>]
    \<and> (case k_tag_limits cfg of None \<Rightarrow> False | Some tls \<Rightarrow> max_tags tls = 32
    \<and> max_tag_name_chars tls = 16 \<and> max_tag_value_chars tls = 128
    \<and> tag_limits_enabled tls))"

definition test_reject_invalid_tag_pattern_config :: "bool" where
  "test_reject_invalid_tag_pattern_config
    \<longleftrightarrow> (case kind_filter_from_json config_ext (JObject [(''tag_patterns'',
    JObject [(''d'',
    JString ''['')])]) of Inl err \<Rightarrow> contains err ''invalid regex for tag_patterns.d'' | Inr cfg \<Rightarrow> False)
    \<and> (case kind_filter_from_json config_ext (JObject [(''tag_patterns'',
    JArray [JString ''d''])]) of Inl err \<Rightarrow> contains err ''tag_patterns must be an object'' | Inr cfg \<Rightarrow> False)"

definition test_parse_kind_config_with_errors_overrides :: "bool" where
  "test_parse_kind_config_with_errors_overrides
    \<longleftrightarrow> (case kind_filter_from_json config_ext (JObject [(''write'',
    JObject [(''allow'', JString ''*''), (''error'', JString ''restricted: custom write deny'')]),
    (''errors'', JObject [(''auth_required'', JString ''auth-required: please AUTH''), (''max_size'',
    JString ''blocked: too big ({size} > {limit})'')])]) of Inl err \<Rightarrow> False | Inr cfg \<Rightarrow> Option.bind (k_write cfg) wr_error = Some ''restricted: custom write deny''
    \<and> map_of (k_errors cfg) ''auth_required'' = Some ''auth-required: please AUTH''
    \<and> map_of (k_errors cfg) ''max_size'' = Some ''blocked: too big ({size} > {limit})'')"

definition test_rate_windows_parse :: "bool" where
  "test_rate_windows_parse \<longleftrightarrow> rate_window_from_str config_ext ''1h'' = Some Hour
    \<and> rate_window_from_str config_ext ''H'' = Some Hour
    \<and> rate_window_from_str config_ext ''1d'' = Some Day
    \<and> rate_window_from_str config_ext ''DAY'' = Some Day
    \<and> rate_window_from_str config_ext ''1m'' = Some Minute
    \<and> rate_window_from_str config_ext ''1w'' = None
    \<and> rate_scope_from_str config_ext ''npub'' = Some ScopeNpub
    \<and> rate_scope_from_str config_ext ''ip'' = Some ScopeIp
    \<and> rate_scope_from_str config_ext ''global'' = Some ScopeGlobal"

lemma config_tests:
  "test_parse_kind_config_with_new_fields" "test_reject_invalid_tag_pattern_config"
  "test_parse_kind_config_with_errors_overrides" "test_rate_windows_parse"
  by code_simp+

section \<open>Notices\<close>

definition test_parse_known_prefix :: "bool" where
  "test_parse_known_prefix
    \<longleftrightarrow> parse_reason ''invalid: missing required tag: e'' = (Some ''invalid'',
    ''missing required tag: e'', True)"

definition test_parse_unknown_prefix :: "bool" where
  "test_parse_unknown_prefix \<longleftrightarrow> parse_reason ''nope: something'' = (None,
    ''nope: something'', False)"

definition test_ensure_does_not_double_prefix :: "bool" where
  "test_ensure_does_not_double_prefix
    \<longleftrightarrow> ensure_reason ''invalid: missing required tag: e'' Blocked = ''invalid: missing required tag: e''"

definition test_ensure_prepends_fallback :: "bool" where
  "test_ensure_prepends_fallback
    \<longleftrightarrow> ensure_reason ''event has expired'' Blocked = ''blocked: event has expired''"

definition test_ensure_empty :: "bool" where
  "test_ensure_empty \<longleftrightarrow> ensure_reason [] Blocked = ''blocked: rejected''"

definition test_from_reason_uses_existing_prefix :: "bool" where
  "test_from_reason_uses_existing_prefix
    \<longleftrightarrow> (case from_reason ''abc'' ''auth-required: login first'' of EventResult r \<Rightarrow> er_msg r = ''auth-required: login first''
    \<and> er_status r = AuthRequired \<and> \<not> to_bool (er_status r) | _ \<Rightarrow> False)"

definition test_blocked_does_not_double_prefix :: "bool" where
  "test_blocked_does_not_double_prefix
    \<longleftrightarrow> (case notice_blocked ''abc'' ''invalid: missing required tag: e'' of EventResult r \<Rightarrow> er_msg r = ''invalid: missing required tag: e''
    \<and> er_status r = Invalid | _ \<Rightarrow> False)"

lemma notice_tests:
  "test_parse_known_prefix" "test_parse_unknown_prefix" "test_ensure_does_not_double_prefix"
  "test_ensure_prepends_fallback" "test_ensure_empty" "test_from_reason_uses_existing_prefix"
  "test_blocked_does_not_double_prefix"
  by code_simp+

section \<open>Addresses\<close>

definition test_local_from_inet :: "bool" where
  "test_local_from_inet
    \<longleftrightarrow> nip05_from_str config_ext ''bob@example.com'' = Inr \<lparr>n_local = ''bob'',
    n_domain = ''example.com''\<rparr>"

definition test_not_enough_sep :: "bool" where
  "test_not_enough_sep \<longleftrightarrow> is_err (nip05_from_str config_ext ''bob_example.com'')"

definition test_too_many_sep :: "bool" where
  "test_too_many_sep \<longleftrightarrow> is_err (nip05_from_str config_ext ''foo@bob@example.com'')"

definition test_invalid_local_name :: "bool" where
  "test_invalid_local_name \<longleftrightarrow> is_err (nip05_from_str config_ext ''foo!@example.com'')
    \<and> is_err (nip05_from_str config_ext ''foo @example.com'')
    \<and> is_err (nip05_from_str config_ext '' foo@example.com'')
    \<and> is_err (nip05_from_str config_ext ''f oo@example.com'')
    \<and> is_err (nip05_from_str config_ext ''foo<@example.com'')
    \<and> is_err (nip05_from_str config_ext (''foo'' @ [CHR 0xE2] @ [CHR 0x80] @ [CHR 0x90]
    @ ''bar@example.com'')) \<and> is_err (nip05_from_str config_ext (''foo'' @ [CHR 0xF0] @ [CHR 0x9F]
    @ [CHR 0x98] @ [CHR 0xAD] @ ''bar@example.com''))"

definition test_invalid_domain_name :: "bool" where
  "test_invalid_domain_name \<longleftrightarrow> is_err (nip05_from_str config_ext ''foo@examp!e.com'')
    \<and> is_err (nip05_from_str config_ext ''foo@ example.com'')
    \<and> is_err (nip05_from_str config_ext ''foo@exa mple.com'')
    \<and> is_err (nip05_from_str config_ext ''foo@example .com'')
    \<and> is_err (nip05_from_str config_ext ''foo@exa<mple.com'')
    \<and> is_err (nip05_from_str config_ext (''foobar@exa'' @ [CHR 0xE2] @ [CHR 0x80] @ [CHR 0x90]
    @ ''mple.com'')) \<and> is_err (nip05_from_str config_ext (''foobar@ex'' @ [CHR 0xF0] @ [CHR 0x9F]
    @ [CHR 0x98] @ [CHR 0xAD] @ ''ample.com''))"

definition test_to_url :: "bool" where
  "test_to_url
    \<longleftrightarrow> (case nip05_from_str config_ext ''foobar@example.com'' of Inl _ \<Rightarrow> False | Inr nip \<Rightarrow> to_url config_ext nip = Some ''https://example.com/.well-known/nostr.json?name=foobar'')"

lemma nip05_tests:
  "test_local_from_inet" "test_not_enough_sep" "test_too_many_sep" "test_invalid_local_name"
  "test_invalid_domain_name" "test_to_url"
  by code_simp+

section \<open>Keys\<close>

definition test_lower_hex :: "bool" where
  "test_lower_hex \<longleftrightarrow> is_lower_hex ''abcd0123''"

definition test_nip19 :: "bool" where
  "test_nip19
    \<longleftrightarrow> \<not> is_nip19 ''3bf0c63fcb93463407af97a5e5ee64fa883d107ef9e558472c4eb9aaaefa459d''
    \<and> is_nip19 ''npub180cvv07tjdrrgpa0j7j7tmnyl2yr6yr7l8j4s3evf6u64th6gkwsyjh6w6''"

lemma utils_tests:
  "test_lower_hex" "test_nip19"
  by code_simp+

section \<open>Rate limits\<close>

text \<open>The answers to checks at the given times, in nanoseconds.\<close>

fun answers_of :: "limiter \<Rightarrow> (nat \<times> string) list \<Rightarrow> bool list" where
  "answers_of l [] = []"
| "answers_of l ((t, key) # cs) = (case limiter_check t key l of (l', b) \<Rightarrow> b # answers_of l' cs)"

definition test_sliding_window_allows_up_to_limit :: "nat \<Rightarrow> bool" where
  "test_sliding_window_allows_up_to_limit t \<longleftrightarrow> answers_of (limiter_new 3600 3) [(t,
    ''npub1''), (t + 1, ''npub1''), (t + 2, ''npub1''), (t + 3, ''npub1'')] = [True, True, True, False]"

definition test_sliding_window_keys_are_independent :: "nat \<Rightarrow> bool" where
  "test_sliding_window_keys_are_independent t \<longleftrightarrow> answers_of (limiter_new 3600 2) [(t,
    ''alice''), (t + 1, ''alice''), (t + 2, ''alice''), (t + 3, ''bob'')] = [True, True, False, True]"

definition test_sliding_window_global_key_shares_bucket :: "nat \<Rightarrow> bool" where
  "test_sliding_window_global_key_shares_bucket t \<longleftrightarrow> answers_of (limiter_new 60 2) [(t,
    []), (t + 1, []), (t + 2, [])] = [True, True, False]"

definition test_sliding_window_resets_after_window :: "nat \<Rightarrow> bool" where
  "test_sliding_window_resets_after_window t \<longleftrightarrow> answers_of (limiter_new 1 2) [(t,
    ''k''), (t + 1, ''k''), (t + 2, ''k''), (t + 1100000002, ''k'')] = [True, True, False, True]"

lemma limiter_tests:
  "test_sliding_window_allows_up_to_limit t" "test_sliding_window_keys_are_independent t"
  "test_sliding_window_global_key_shares_bucket t" "test_sliding_window_resets_after_window t"
  by (simp_all add: test_sliding_window_allows_up_to_limit_def test_sliding_window_keys_are_independent_def
      test_sliding_window_global_key_shares_bucket_def test_sliding_window_resets_after_window_def
      limiter_new_def limiter_check_def bucket_def window_nanos_def Let_def)

section \<open>PostgreSQL queries\<close>

definition test_query_gen_tag_value_hex :: "bool" where
  "test_query_gen_tag_value_hex
    \<longleftrightarrow> map_exec (map_option (pg_sql 1)) (pg_query_from_filter config_ext (\<lambda>t. True) \<lparr>f_ids = None,
    f_kinds = Some [1000], f_since = None, f_until = None,
    f_authors = Some [''84de35e2584d2b144aae823c9ed0b0f3deda09648530b93d1a2a146d1dea9864''],
    f_limit = None, f_tags = Some [(''p'',
    [''63fe6318dc58583cfe16810f86dd09e18bfd76aabc24a0081ce2856f330504ed''])],
    force_no_match = False\<rparr>) = Done (Some (''SELECT e.\"content\", e.created_at FROM \"event\" e WHERE (e.pub_key in ($1) OR ''
    @ ''e.delegated_by in ($2)) AND e.kind in ($3) AND e.id IN (SELECT ee.id FROM \"event\" ee ''
    @ ''LEFT JOIN tag t on ee.id = t.event_id WHERE ee.hidden != 1::bit(1) and (t.\"name\" = $4 ''
    @ ''AND (value_hex in ($5)))) AND e.hidden != 1::bit(1) AND (e.expires_at IS NULL OR ''
    @ ''e.expires_at > now()) ORDER BY e.created_at ASC LIMIT 1000''))"

definition test_query_gen_tag_value :: "bool" where
  "test_query_gen_tag_value
    \<longleftrightarrow> map_exec (map_option (pg_sql 1)) (pg_query_from_filter config_ext (\<lambda>t. True) \<lparr>f_ids = None,
    f_kinds = Some [1000], f_since = None, f_until = None,
    f_authors = Some [''84de35e2584d2b144aae823c9ed0b0f3deda09648530b93d1a2a146d1dea9864''],
    f_limit = None, f_tags = Some [(''d'', [''test''])],
    force_no_match = False\<rparr>) = Done (Some (''SELECT e.\"content\", e.created_at FROM \"event\" e WHERE (e.pub_key in ($1) OR ''
    @ ''e.delegated_by in ($2)) AND e.kind in ($3) AND e.id IN (SELECT ee.id FROM \"event\" ee ''
    @ ''LEFT JOIN tag t on ee.id = t.event_id WHERE ee.hidden != 1::bit(1) and (t.\"name\" = $4 ''
    @ ''AND (value in ($5)))) AND e.hidden != 1::bit(1) AND (e.expires_at IS NULL OR ''
    @ ''e.expires_at > now()) ORDER BY e.created_at ASC LIMIT 1000''))"

definition test_query_gen_tag_value_and_value_hex :: "bool" where
  "test_query_gen_tag_value_and_value_hex
    \<longleftrightarrow> map_exec (map_option (pg_sql 1)) (pg_query_from_filter config_ext (\<lambda>t. True) \<lparr>f_ids = None,
    f_kinds = Some [1000], f_since = None, f_until = None,
    f_authors = Some [''84de35e2584d2b144aae823c9ed0b0f3deda09648530b93d1a2a146d1dea9864''],
    f_limit = None, f_tags = Some [(''d'', [''test'',
    ''63fe6318dc58583cfe16810f86dd09e18bfd76aabc24a0081ce2856f330504ed''])],
    force_no_match = False\<rparr>) = Done (Some (''SELECT e.\"content\", e.created_at FROM \"event\" e WHERE (e.pub_key in ($1) OR ''
    @ ''e.delegated_by in ($2)) AND e.kind in ($3) AND e.id IN (SELECT ee.id FROM \"event\" ee ''
    @ ''LEFT JOIN tag t on ee.id = t.event_id WHERE ee.hidden != 1::bit(1) and (t.\"name\" = $4 ''
    @ ''AND (value in ($5) OR value_hex in ($6)))) AND e.hidden != 1::bit(1) AND (e.expires_at ''
    @ ''IS NULL OR e.expires_at > now()) ORDER BY e.created_at ASC LIMIT 1000''))"

definition test_query_multiple_tags :: "bool" where
  "test_query_multiple_tags
    \<longleftrightarrow> map_exec (map_option (pg_sql 1)) (pg_query_from_filter config_ext (\<lambda>t. True) \<lparr>f_ids = None,
    f_kinds = Some [30001], f_since = None, f_until = None, f_authors = None, f_limit = None,
    f_tags = Some [(''d'', [''follow'']), (''t'', [''siamstr''])],
    force_no_match = False\<rparr>) = Done (Some (''SELECT e.\"content\", e.created_at FROM \"event\" e WHERE e.kind in ($1) AND e.id IN ''
    @ ''(SELECT ee.id FROM \"event\" ee LEFT JOIN tag t on ee.id = t.event_id WHERE ee.hidden ''
    @ ''!= 1::bit(1) and (t.\"name\" = $2 AND (value in ($3))) OR (t.\"name\" = $4 AND (value ''
    @ ''in ($5)))) AND e.hidden != 1::bit(1) AND (e.expires_at IS NULL OR e.expires_at > now()) ''
    @ ''ORDER BY e.created_at ASC LIMIT 1000''))"

definition test_query_empty_tags :: "bool" where
  "test_query_empty_tags
    \<longleftrightarrow> map_exec (map_option (pg_sql 1)) (pg_query_from_filter config_ext (\<lambda>t. True) \<lparr>f_ids = None,
    f_kinds = Some [1, 6, 16, 30023, 1063, 6969], f_since = Some 1700697846, f_until = None,
    f_authors = None, f_limit = None, f_tags = Some [(''a'', [])],
    force_no_match = False\<rparr>) = Done None"

lemma pg_query_tests:
  "test_query_gen_tag_value_hex" "test_query_gen_tag_value" "test_query_gen_tag_value_and_value_hex"
  "test_query_multiple_tags" "test_query_empty_tags"
  by code_simp+

end
