(* ===== verification/Throttle.thy ===== *)
theory Throttle
  imports Relay_Prelude
begin

text \<open>
  How the limit on events per second slows the writer down (the end of its loop in
  \<open>src/src/db.rs\<close>). After each event that was written, the writer asks the limiter of the
  \<open>governor\<close> crate; if the limiter refuses, the writer sleeps for the time it is told and goes on
  with the next event, without asking again. What the crate documents of a limiter is the contract
  \<open>rate_limiter\<close>: a refusal changes nothing and names the time until which requests are refused. The
  reference for it is the cell-rate algorithm with the quota that the writer asks for.
  Times are in nanoseconds.
\<close>

section \<open>The code\<close>

text \<open>The limiter answers at a time with its new state, and with the wait if it refuses.\<close>

type_synonym 'g limiter_fun = "nat \<Rightarrow> 'g \<Rightarrow> 'g \<times> nat option"

definition throttle :: "'g limiter_fun \<Rightarrow> nat \<Rightarrow> 'g \<Rightarrow> nat \<times> 'g" where
  "throttle chk now g = (case chk now g of (g', None) \<Rightarrow> (now, g') | (g', Some wait) \<Rightarrow> (now + wait, g'))"

text \<open>
  The loop on a list of events, each with the time it takes from the end of the one before: when
  each is written, and whether the limiter counted it.
\<close>

fun written :: "'g limiter_fun \<Rightarrow> nat list \<Rightarrow> nat \<Rightarrow> 'g \<Rightarrow> (nat \<times> bool) list" where
  "written chk [] now g = []"
| "written chk (d # ds) now g =
     ((now + d, snd (chk (now + d) g) = None) #
       (case throttle chk (now + d) g of (now', g') \<Rightarrow> written chk ds now' g'))"

section \<open>Half of the events are not counted\<close>

locale rate_limiter =
  fixes chk :: "'g limiter_fun"
  assumes refusal_keeps: "chk now g = (g', Some wait) \<Longrightarrow> g' = g"
    and wait_suffices: "chk now g = (g', Some wait) \<Longrightarrow> now + wait \<le> later \<Longrightarrow> snd (chk later g) = None"
begin

text \<open>After a refusal the next event is counted.\<close>

lemma no_two_refusals:
  assumes "snd (chk now g) \<noteq> None" and "throttle chk now g = (now', g')"
  shows "snd (chk (now' + d) g') = None"
proof -
  obtain g1 wait where c: "chk now g = (g1, Some wait)" using assms(1) by (cases "chk now g") auto
  with refusal_keeps have "g1 = g" by blast
  with c assms(2) have "now' = now + wait" "g' = g" by (simp_all add: throttle_def)
  with wait_suffices [OF c] show ?thesis by simp
qed

lemma half_counted: "length ds \<le> 2 * length (filter snd (written chk ds now g)) + 1"
proof (induction ds arbitrary: now g rule: induct_list012)
  case (3 d e ds)
  obtain now' g' where t: "throttle chk (now + d) g = (now', g')" by fastforce
  obtain now'' g'' where t': "throttle chk (now' + e) g' = (now'', g'')" by fastforce
  have "snd (chk (now + d) g) = None \<or> snd (chk (now' + e) g') = None" 
    using no_two_refusals [OF _ t, of e] by (cases "snd (chk (now + d) g) = None") simp_all
  with 3(1) [of now'' g''] t t' show ?case by auto
qed auto

end

section \<open>The limiter of the writer\<close>

text \<open>
  The cell-rate algorithm for \<open>n\<close> requests a minute: the theoretical time of the next request moves on
  by a minute's \<open>n\<close>-th part with each one, and may be a minute ahead of the clock.
\<close>

definition cell_limiter :: "nat \<Rightarrow> nat limiter_fun" where
  "cell_limiter n now tat =
     (let part = 60000000000 div n; earliest = tat - n * part in
      if now < earliest then (tat, Some (earliest - now)) else (max tat now + part, None))"

interpretation cell: rate_limiter "cell_limiter n" for n
  by unfold_locales (auto simp: cell_limiter_def Let_def split: if_splits)

text \<open>The quota of the writer for a number of events per second; the product wraps.\<close>

definition writer_quota :: "u32 \<Rightarrow> u32" where
  "writer_quota per_sec = per_sec * 60"

text \<open>
  Once the minute's worth of events is used up and more are waiting, two events are written for each
  one that the limiter allows: the second of each pair is refused after it was written.
\<close>

lemma pair_written:
  assumes "part = 60000000000 div n" and "0 < n" and "n \<le> 60000000000" and "tat = now + n * part"
  shows "written (cell_limiter n) (0 # 0 # ds) now tat =
    (now, True) # (now, False) # written (cell_limiter n) ds (now + part) (tat + part)"
proof -
  have "0 < part" using assms(1-3) by (simp add: div_greater_zero_iff)
  moreover have "now \<le> tat" using assms(4) by simp
  ultimately show ?thesis
    by (simp add: throttle_def cell_limiter_def Let_def assms(1) [symmetric] assms(4) max_def)
qed

lemma twice_the_rate:
  assumes "part = 60000000000 div n" and "0 < n" and "n \<le> 60000000000"
  shows "map fst (written (cell_limiter n) (replicate (2 * k) 0) now (now + n * part))
    = concat (map (\<lambda>i. [now + i * part, now + i * part]) [0..<k])"
proof (induction k arbitrary: now)
  case (Suc k)
  have "written (cell_limiter n) (replicate (2 * Suc k) 0) now (now + n * part) =
      (now, True) # (now, False) # written (cell_limiter n) (replicate (2 * k) 0) (now + part) (now + part + n * part)"
    using pair_written [OF assms refl, where ds = "replicate (2 * k) 0"] by (simp add: algebra_simps)
  with Suc [of "now + part"] show ?case
    by (simp add: map_upt_Suc del: upt_Suc) (simp add: algebra_simps)
qed simp

text \<open>So with one event per second allowed, 120 waiting events are written in less than a minute.\<close>

lemma one_per_second:
  "\<forall>t \<in> fst ` set (written (cell_limiter (unat (writer_quota 1))) (replicate 120 0) now (now + 60000000000)).
     t < now + 60000000000"
proof -
  have "unat (writer_quota 1) = 60" by (simp add: writer_quota_def)
  with twice_the_rate [of 1000000000 60 60 now] show ?thesis
    by (simp flip: set_map image_set)
qed

end
