(* ===== verification/Spec2Isabelle.thy ===== *)
theory Spec2Isabelle
  imports Relay_Notices Postgres_Refines Postgres_Accounts Postgres_Query Startup Pages Relay_Info
    Bulk_Load Authz
    Admission_Examples Read_Example Postgres_Delivery Relay_Bounded Metrics Sqlite_Pools Crate_Errors Shutdown Config_Tests Throttle
begin

text \<open>  A model of nostr-rs-relay, a relay for the Nostr protocol, with the theorems that make its
  parts correct. A relay keeps signed events in a database, sends the stored ones to clients
  that subscribe to them, and sends each new event to every client that waits for it.

  \<^bold>\<open>The program\<close>

  A client connects over a WebSocket and sends texts (\<open>src/src/server.rs\<close>): an event, a
  subscription, a close request or an authentication. A valid event goes through one channel
  to the writer (\<open>src/src/db.rs\<close>), the only task that stores events. The writer checks it
  against the kind lists, the author's account or address, the admission service, the kind
  filters and the rate limits, stores it (\<open>src/src/repo/\<close>), answers its author through the
  notice channel of the connection, and broadcasts it to all connections. A subscription runs
  as a query on the store; its rows come back through a channel of the connection, followed by
  an end mark. The NIP-05 verifier (\<open>src/src/nip05.rs\<close>) receives metadata events and asks web
  servers about their authors; the payment handler (\<open>src/src/payment/\<close>) creates and checks
  invoices for accounts; the HTTP routes of the relay send it messages; a timer deletes expired
  events. \<open>src/src/main.rs\<close> reads the arguments and the settings, and \<open>start_server\<close> builds the
  repository and starts the tasks. \<open>src/src/bin/bulkloader.rs\<close> is a program of its own that fills
  the database.

  \<^bold>\<open>The theories\<close>

  \<^item> \<open>Relay_Prelude\<close>: words, sums and options, decimal numbers, lists, sorting; the type \<open>exec\<close>
    of a computation that panics or returns. \<open>External\<close>: JSON values and the record \<open>ext\<close> of the
    functions of other crates (hexadecimal, hashes, signatures, JSON text, regular expressions,
    scripts, URLs), with the laws that are used of them and an executable instance \<open>ext0\<close>.
  \<^item> \<open>Notice\<close> (\<open>error.rs\<close>, \<open>notice.rs\<close>), \<open>Event_Data\<close> (\<open>event.rs\<close>, \<open>utils.rs\<close>), \<open>Delegation\<close>
    (\<open>delegation.rs\<close>), \<open>Subscription\<close> (\<open>subscription.rs\<close>, \<open>close.rs\<close>), \<open>Conn\<close> (\<open>conn.rs\<close>), \<open>Config\<close>
    (\<open>config.rs\<close>), \<open>Kind_Filters\<close> (\<open>kind_filters.rs\<close>), \<open>Rate_Limit\<close> (the sliding windows of
    \<open>db.rs\<close>): data types, parsers, checks and their functional lemmas.
  \<^item> \<open>Sqlite_Store\<close>, \<open>Sqlite_Props\<close>, \<open>Sqlite_Repo\<close>: the tables and \<open>write_event\<close> of
    \<open>repo/sqlite.rs\<close>, each statement a function on the rows in the order of the code; the
    invariant \<open>db_inv\<close> (keys, references, one row for each author and replaceable kind); the
    retries; the contract \<open>event_repo\<close>. \<open>Sqlite_Query\<close>, \<open>Query_Props\<close>: the text of a query as
    \<open>query_from_filter\<close> builds it, the conditions it prints, the rows they select, and their
    agreement with live matching. \<open>Sqlite_Accounts\<close>: verification records, accounts, invoices
    and the repository interface of \<open>repo/mod.rs\<close> as the record \<open>nostr_repo\<close>.
  \<^item> \<open>Store_Spec\<close>: the specification of a store of events, a partial function from identifiers to
    what is known of an event; one definition writes an event (\<open>spec_write\<close>), one deletes what
    has expired. The locale \<open>store_impl\<close> says what implementing it means; SQLite does, by
    \<open>persist_refines\<close>, with the view \<open>sql_view\<close> of its tables.
  \<^item> \<open>Sqlite_Locks\<close>: what each function of \<open>repo/sqlite.rs\<close> takes and gives back, as a list of
    instructions in the order of the code: write lock, checkpoint lock, reader permits, blocking
    threads and the connections of three pools. \<open>reach\<close> allows every interleaving of calls of
    every task; the lemmas bound what is held and show that no run gets stuck.
  \<^item> \<open>Nip05\<close>, \<open>Db_Writer\<close>, \<open>Db_Writer_Props\<close>: the verifier and the writer, one definition for
    each stage of its loop; the contract \<open>writer_repo\<close> and the lemmas proved from it. \<open>Authz\<close>: the
    connection to the admission service (\<open>nauthz.rs\<close>); an event goes on while it is not reached.
    \<open>Throttle\<close>: the pauses of the writer, and why they allow twice the configured rate.
    \<open>Admission_Examples\<close>: the two servers under \<open>examples/\<close> as that service, and what the
    writer lets through with them.
  \<^item> \<open>Server\<close>, \<open>Server_Props\<close>: one turn of a connection (\<open>nostr_server\<close>) for each arm of its
    loop. \<open>Read_Example\<close>: the variant of \<open>allowed_to_send\<close> under \<open>docs/\<close>. \<open>Metrics\<close>: the
    registry, and the counters of a turn. \<open>Web\<close>, \<open>Pages\<close>, \<open>Relay_Info\<close>: the routes, the text of the HTML pages and the
    information document (\<open>info.rs\<close>). \<open>Payment\<close>,
    \<open>Payment_Props\<close>: the handler and both processors; the contract \<open>payment_repo\<close>.
  \<^item> \<open>Relay\<close>, \<open>Relay_Props\<close>: the whole relay as a transition system. Its state has the
    connections, each with its queues and all it has sent, the channels, the state of the writer
    and the database. An action is one turn of one task; \<open>relay_reachable\<close> allows every order.
    The invariant \<open>relay_inv\<close> says where each event in a queue, in the store or in a message
    comes from. \<open>Relay_Store\<close>: every action is a sequence of a few operations on the tables, so
    their invariant and the origin of verification records carry over to the whole relay; and
    how a query is answered. \<open>Relay_Notices\<close>: who is told the result for an event. \<open>Channels\<close>:
    the contract \<open>receiver\<close>, which the broadcast channel meets. \<open>Relay_Bounded\<close>: the relay with
    the capacity of its channels; each step is a step of \<open>Relay\<close> and the loss of what does not
    fit (\<open>settle\<close>), so it refines the relay without limits. \<open>Shutdown\<close>: how signals stop the tasks.
  \<^item> \<open>Postgres_Store\<close>, \<open>Postgres_Props\<close>, \<open>Postgres_Accounts\<close>, \<open>Postgres_Query\<close>: the other
    store, \<open>repo/postgres.rs\<close>, in the same manner. \<open>Postgres_Refines\<close>: it implements \<open>Store_Spec\<close>
    too, for the events named by \<open>pg_plain\<close> and \<open>pg_fits\<close>, so both stores agree on these.
    \<open>Postgres_Delivery\<close>: the rows of a query on their way to the client, and the clean-up.
  \<^item> \<open>Schema\<close>, \<open>Sqlite_Migration\<close>, \<open>Postgres_Migration\<close>: statements that change a schema, and
    the upgrades of \<open>repo/sqlite_migration.rs\<close> and \<open>repo/postgres_migration.rs\<close> on schema and rows.
  \<^item> \<open>Bulk_Load\<close>: the loader of \<open>bin/bulkloader.rs\<close>. \<open>Startup\<close>: \<open>main.rs\<close>, \<open>cli.rs\<close>, \<open>build_repo\<close> and
    \<open>start_server\<close> up to the tasks, on a record for the machine, and the loop of the verifier.
    \<open>Sqlite_Pools\<close>: the pools of the SQLite repository. \<open>Crate_Errors\<close>: the conversions of
    \<open>error.rs\<close>.
  \<^item> \<open>Event_Tests\<close>, \<open>Config_Tests\<close>: the unit tests in the sources, stated of the model; it passes
    all of them.

  \<^bold>\<open>Conventions\<close>

  Numbers of the code are words of their width, so arithmetic wraps as in a release build;
  numbers in SQLite and PostgreSQL are integers with the range of their columns checked where
  a value is bound. Bytes and strings are lists of characters. A panic is the value \<open>Panic\<close>; an
  error is the left side of a sum; an operation on a store returns the new store and its
  result, and a failed transaction returns the old store. The clock, random numbers, the
  answers of servers and of the admission service, the moment at which a query is given up and
  the order in which a table is scanned are arguments, so the theorems hold for all of them. An
  asynchronous channel is a list; a broadcast channel is a queue for each receiver, which may
  lose its oldest entries (\<open>Lag\<close>). In \<open>Relay\<close> any channel may lose entries at any time
  (\<open>Overflow\<close>); \<open>Relay_Bounded\<close> says when they do.

  \<^bold>\<open>What the theorems show\<close>

  \<^item> The relay as a whole: what is sent has an origin (a valid event of a client, the relay's
    own messages, or the store at the start), a broadcast event reaches an interested client, a
    query sends every stored event that it asks for and then its end mark, the result for an
    event goes to the connection that sent it, nobody is admitted without a paid invoice, a verification record names an address that its server listed, and
    the tables stay consistent whatever the tasks do. With verification enabled nobody can
    become verified.
  \<^item> Channels: no channel holds more than its capacity, nobody waits for good for room, and a
    client that is far behind loses notices.
  \<^item> The store: both databases refine one specification, and agree when started empty; replaceable events keep only the
    latest version; deletions hide the author's own events and keep them hidden; other authors'
    rows are untouched; what becomes visible was broadcast; a rejected event changes nothing.
  \<^item> Queries: the text of a query means the selection, a limit returns the newest rows, and
    stored and live matching agree on filters with full identifiers; matching follows its
    specification; what a client is sent it may see; authentication needs a signed challenge.
  \<^item> Locks: no lock or pool is held beyond its capacity, and calls do not block each other for
    good if there are two blocking threads and three readers. A query may be cut short by
    another one, and the last send of a query holds a thread without a permit.
  \<^item> Accounts and admission: an event that must be paid for takes exactly its cost; repeated
    callbacks charge the admission again; the rules of the example server hold for what is
    broadcast; a page has no markup that comes from the key in its address.
  \<^item> PostgreSQL, the migrations and the start: the invariant and the types of the columns, the result of a
    query and when the client gets it, the balance that wraps, the deletion that is not recognised; an upgrade of an SQLite
    database ends at version 18 with the tags that storing the events anew would give; the
    PostgreSQL migrations run once; what the program does when it starts, and that SQLite is
    served even if its migration failed.
  \<^item> The parts: delegation needs a signature and its conditions, valid events have their hash as
    identifier, kind rules admit what they say, no window of a rate limit holds more events than
    its maximum, filters survive printing and parsing, subscription tables stay bounded.

  Several of the theorems state defects of the code; their text says so.

  \<^bold>\<open>Bounds and termination\<close>

  Every definition but one is total. The retries of a write are the code's own ten attempts
  (\<open>max_write_attempts\<close>); the batches of the loader are its 50000 events, and its loop ends as the
  list of events gets shorter; a run of the relay is a list of actions, of any length. A call of
  the repository ends because each step leaves fewer instructions (\<open>work_left\<close>); the number of
  times a query looks at the checkpoint lock is a parameter of the call. A wait for room ends at
  its deadline (\<open>wait_for_room\<close>). The wait of a pool for the file of the database need not end,
  and is a partial function. No definition has fuel.

  \<^bold>\<open>Not modelled\<close>

  The parsing of arguments by the \<open>clap\<close> crate, the output of the log, the times that are
  observed as metrics, the set-up of runtime and TLS; the pauses that slow down
  subscribers; the capacity of the channel of query results in the model of the whole relay; the
  time-outs of connection pools, which end a wait with an error where \<open>Sqlite_Locks\<close> waits on;
  load shedding (a query may be given up at any row instead); the limit on the number of values in
  a statement of PostgreSQL and the options of its pools; the crates themselves, which are
  parameters.
\<close>

section \<open>Data for the witnesses\<close>

definition sample :: "string \<Rightarrow> string \<Rightarrow> u64 \<Rightarrow> u64 \<Rightarrow> tag list \<Rightarrow> event" where
  "sample i pk t k ts =
     \<lparr>e_id = i, e_pubkey = pk, e_delegated_by = None, e_created_at = t, e_kind = k, e_tags = ts,
      e_content = ''hi'', e_sig = pk, e_tagidx = None\<rparr>"

definition stored :: "event \<Rightarrow> db \<Rightarrow> db" where
  "stored e db = fst (persist_event ext0 100 e db)"

definition sample_env :: "settings \<Rightarrow> (db, unit) writer_env" where
  "sample_env st =
     \<lparr>we_ext = ext0, we_settings = st, we_repo = (\<lambda>t. sqlite_repo ext0 0 t no_failures),
      we_quota = (\<lambda>n. ()), we_gov_check = (\<lambda>g. (g, True)), we_grpc_call = None\<rparr>"

definition sample_writer :: "(db, unit) writer" where
  "sample_writer = \<lparr>w_db = empty_db, w_kind_limiters = [], w_sliding = []\<rparr>"

definition submitted :: "event \<Rightarrow> submitted_event" where
  "submitted e = \<lparr>su_event = e, su_source_ip = ''10.0.0.1'', su_origin = None, su_user_agent = None,
     su_auth_pubkey = None\<rparr>"

definition metadata1 :: event where
  "metadata1 = sample ''a1'' ''bb'' 50 0 []"

definition metadata2 :: event where
  "metadata2 = sample ''a2'' ''bb'' 60 0 []"

definition note1 :: event where
  "note1 = sample ''a3'' ''bb'' 50 1 []"

text \<open>A connection, and external functions under which one message is a valid event.\<close>

definition sample_info :: client_info where
  "sample_info = \<lparr>ci_remote_ip = ''10.0.0.1'', ci_user_agent = None, ci_origin = None\<rparr>"

definition sample_client :: client where
  "sample_client = \<lparr>cl_conn = new_conn ''u'' ''10.0.0.1'', cl_running = [], cl_next_query = 0\<rparr>"

definition valid_event :: "u64 \<Rightarrow> tag list \<Rightarrow> event" where
  "valid_event k ts = sample ''5b6a736f'' ''bb'' 90 k ts"

text \<open>The message \<open>m\<close> holds the event, alone or in a command, as the reader asks.\<close>

definition valid_ext :: ext where
  "valid_ext = ext0\<lparr>json_from_str := (\<lambda>s. Some (event_to_json (valid_event 1 [])))\<rparr>"

definition cmd_ext :: ext where
  "cmd_ext = ext0\<lparr>json_from_str := (\<lambda>s. Some (JArray [JString ''EVENT'', event_to_json (valid_event 1 [])]))\<rparr>"

definition auth_ext :: ext where
  "auth_ext = ext0\<lparr>json_from_str := (\<lambda>s. Some (JArray [JString ''AUTH'',
     event_to_json (valid_event 22242 [[''challenge'', ''ch''], [''relay'', ''r'']])]))\<rparr>"

definition auth_settings :: settings where
  "auth_settings = default_settings\<lparr>
     st_authorization := (st_authorization default_settings)\<lparr>nip42_auth := True\<rparr>,
     st_info := (st_info default_settings)\<lparr>relay_url := Some ''r''\<rparr>\<rparr>"

definition plain_kind :: kind_filter_config where
  "plain_kind =
     \<lparr>k_description = None, k_write = None, k_read = None, k_max_size = None, k_rate_limit = None,
      k_require_auth = False, k_rate_limits = [], k_tag_limits = None,
      k_expiration = \<lparr>x_duration = None\<rparr>, k_max_expiration = \<lparr>x_duration = None\<rparr>,
      k_d_tag = TagNone, k_p_tag = TagNone, k_required_tags = [], k_tag_patterns = [], k_errors = []\<rparr>"

text \<open>An author with an account and an invoice, and a metadata event with an address.\<close>

definition paid_env :: "(db, unit) writer_env" where
  "paid_env = sample_env (default_settings\<lparr>st_pay_to_relay :=
     (st_pay_to_relay default_settings)\<lparr>pay_enabled := True, cost_per_event := 3\<rparr>\<rparr>)"

definition paid_writer :: "(db, unit) writer" where
  "paid_writer = sample_writer\<lparr>w_db := empty_db\<lparr>accounts :=
     [\<lparr>ac_pubkey = ''bb'', ac_admitted = True, ac_balance = 10, ac_tos = None\<rparr>]\<rparr>\<rparr>"

definition invoice_db :: db where
  "invoice_db = empty_db\<lparr>
     accounts := [\<lparr>ac_pubkey = ''bb'', ac_admitted = False, ac_balance = 7, ac_tos = None\<rparr>],
     invoices := [\<lparr>iv_hash = ''h'', iv_pubkey = ''bb'', iv_invoice = ''ln'', iv_amount = 5,
       iv_status = ''Unpaid'', iv_description = [], iv_created = 1, iv_confirmed = None\<rparr>]\<rparr>"

definition nip_event :: event where
  "nip_event = (sample ''a1'' ''bb'' 50 0 [])\<lparr>e_content := CHR 0x22 # ''nip05'' @ [CHR 0x22]\<rparr>"

definition nip_ext :: ext where
  "nip_ext = ext0\<lparr>json_from_str := (\<lambda>s.
     if s = ''b'' then Some (JObject [(''names'', JObject [(''joe'', JString ''bb'')])])
     else Some (JObject [(''nip05'', JString ''joe@x'')]))\<rparr>"

lemma db_inv_stored [simp]: "db_inv db \<Longrightarrow> db_inv (stored e db)"
  by (simp add: stored_def persist_event_inv)

lemma stored_result: "snd (persist_event ext0 100 e db) = r \<Longrightarrow> persist_event ext0 100 e db = (stored e db, r)"
  by (auto simp: stored_def prod_eq_iff)

lemmas sample_ok = db_inv_empty db_inv_stored hex_law_ext0

text \<open>A whole relay, with functions under which the texts \<open>q\<close> and \<open>e\<close> are a subscription and an event.\<close>

definition relay_ext :: ext where
  "relay_ext = ext0\<lparr>json_from_str := (\<lambda>s.
     if s = ''q'' then Some (JArray [JString ''REQ'', JString ''s'', JObject []])
     else if s = ''[json]'' then Some (event_to_json (valid_event 1 []))
     else Some (JArray [JString ''EVENT'', event_to_json (valid_event 1 [])]))\<rparr>"

definition sample_web :: "settings \<Rightarrow> db web_env" where
  "sample_web st =
     \<lparr>wb_ext = relay_ext, wb_settings = st, wb_balance = get_account_balance, wb_version = None,
      wb_favicon = None, wb_read_file = (\<lambda>p. Inl ''no file''), wb_handshake = (\<lambda>rq. Inr ()),
      wb_remote_addr = ''10.0.0.1'', wb_send_ok = True\<rparr>"

definition sample_relay :: "settings \<Rightarrow> unit relay_env" where
  "sample_relay st =
     \<lparr>re_ext = relay_ext, re_settings = st, re_jitter = (\<lambda>t. 0), re_busy = (\<lambda>t. no_failures),
      re_quota = (\<lambda>n. ()), re_gov_check = (\<lambda>g. (g, True)), re_grpc_call = None,
      re_fetch = (\<lambda>t u. Response 404 None None), re_keys = None,
      re_processor = (\<lambda>t. \<lparr>pp_get_invoice = (\<lambda>r k a. Done (Inl (CustomError []))),
        pp_check_invoice = (\<lambda>h. Done (Inr Paid))\<rparr>),
      re_dm = (\<lambda>t a b c. Inl []), re_web = (\<lambda>t. sample_web st)\<rparr>"

text \<open>The state after the start and some actions.\<close>

definition relay_run :: "'g relay_env \<Rightarrow> db \<Rightarrow> relay_action list \<Rightarrow> 'g relay option" where
  "relay_run env db acts = (case relay_start env db of Panic \<Rightarrow> None | Done s \<Rightarrow> relay_exec env acts s)"

lemma relay_exec_reachable:
  "relay_reachable env db s \<Longrightarrow> relay_exec env acts s = Some s' \<Longrightarrow> relay_reachable env db s'"
proof (induction acts arbitrary: s)
  case (Cons a acts)
  then obtain s1 where "relay_apply env a s = Some s1" "relay_exec env acts s1 = Some s'"
    by (auto simp: bind_eq_Some_conv)
  with Cons relay_step show ?case by blast
qed simp

lemma relay_run_reachable: "relay_run env db acts = Some s \<Longrightarrow> relay_reachable env db s"
  by (auto simp: relay_run_def split: exec.splits intro: relay_init relay_exec_reachable)

lemma has_origin_cases:
  assumes "has_origin env db0 log u"
  obtains (old) "u \<in> ev_content ` set (events db0)"
  | (own) now sk pk c n where "re_keys env = Some sk" "re_dm env now sk pk c = Inr n"
      "json_to_string (re_ext env) (event_to_json (event_of_nostr n)) = Some u"
  | (client) i now m ec where "(i, now, m) \<in> set log"
      "convert_to_msg (re_ext env) m (max_event_bytes (st_limits (re_settings env))) = Inr (EventMsg ec)"
      "validate (re_ext env) (cmd_event ec) = Inr ()"
      "json_to_string (re_ext env) (event_to_json (cmd_event ec)) = Some u"
proof -
  from assms consider "u \<in> ev_content ` set (events db0)"
    | e where "client_event env log e" "json_to_string (re_ext env) (event_to_json e) = Some u"
    | e now where "own_message (payment_of env now) e" "json_to_string (re_ext env) (event_to_json e) = Some u"
    unfolding has_origin_def origin_def by blast
  then show thesis
  proof cases
    case 2
    with client_event_valid [OF 2(1)] client show thesis by auto
  next
    case 3
    from 3(1) obtain sk pk c n where "pm_keys (payment_of env now) = Some sk"
      "pm_dm (payment_of env now) sk pk c = Inr n" "e = event_of_nostr n"
      unfolding own_message_def by blast
    with 3(2) own show thesis by (simp add: payment_of_def)
  qed (rule old)
qed

definition publish_actions :: "relay_action list" where
  "publish_actions = [Connect ''u'' ''ch'' sample_info, Connect ''v'' ''ch'' sample_info,
     Receive 0 100 (WsText ''q''), Receive 1 100 (WsText ''e'')]"

definition paid_settings :: settings where
  "paid_settings = default_settings\<lparr>st_pay_to_relay :=
     (st_pay_to_relay default_settings)\<lparr>pay_enabled := True, admission_cost := 5\<rparr>\<rparr>"

definition account_request :: web_request where
  "account_request = \<lparr>rq_path = ''/account'', rq_headers = [], rq_query = Some ''pubkey=bb'', rq_body = None\<rparr>"

text \<open>PostgreSQL databases, and an SQLite database of the first version.\<close>

definition pg_stored :: "event \<Rightarrow> pg_db \<Rightarrow> pg_db" where
  "pg_stored e db = (case pg_write_event ext0 (\<lambda>t. True) 100 None e db of Panic \<Rightarrow> db | Done (db', _) \<Rightarrow> db')"

lemma pg_inv_stored [simp]: "pg_inv db \<Longrightarrow> pg_inv (pg_stored e db)"
  by (auto simp: pg_stored_def intro: pg_write_inv split: exec.split)

lemma pg_stored_result:
  "map_exec snd (pg_write_event ext0 (\<lambda>t. True) 100 None e db) = Done r
     \<Longrightarrow> pg_write_event ext0 (\<lambda>t. True) 100 None e db = Done (pg_stored e db, r)"
  by (auto simp: pg_stored_def map_exec_eq_Done)

definition long_note :: event where
  "long_note = note1\<lparr>e_id := concat (replicate 32 ''a3'')\<rparr>"

definition long_deletion :: event where
  "long_deletion = sample ''d1'' ''bb'' 70 5 [[''e'', e_id long_note]]"

definition any_filter :: req_filter where
  "any_filter = \<lparr>f_ids = None, f_kinds = None, f_since = None, f_until = None, f_authors = None,
     f_limit = Some 1, f_tags = None, force_no_match = False\<rparr>"

definition poor_pg :: pg_db where
  "poor_pg = empty_pg\<lparr>pg_accounts := [\<lparr>pa_pubkey = ''bb'', pa_admitted = False, pa_balance = 2\<rparr>]\<rparr>"

definition old_row :: "nat \<Rightarrow> int \<Rightarrow> old_event" where
  "old_row i t = \<lparr>oe_id = i, oe_hash = [], oe_first_seen = 1, oe_created = t, oe_expires = None, oe_author = ''b'',
     oe_delegated = None, oe_kind = 0, oe_hidden = None, oe_content = ''m''\<rparr>"

definition first_db :: old_db where
  "first_db =
     \<lparr>od_version = 1,
      od_schema = \<lparr>sc_tables =
        [(''event'', [col ''id'' ''INTEGER'', col ''event_hash'' ''BLOB'', col ''first_seen'' ''INTEGER'',
           col ''created_at'' ''INTEGER'', col ''author'' ''BLOB'', col ''kind'' ''INTEGER'', col ''content'' ''TEXT'']),
         (''event_ref'', [col ''event_id'' ''INTEGER'', col ''referenced_event'' ''BLOB'']),
         (''pubkey_ref'', [col ''event_id'' ''INTEGER'', col ''referenced_pubkey'' ''BLOB''])],
        sc_indexes = [], sc_types = []\<rparr>,
      od_events = [old_row 1 10, old_row 2 20], od_tags = [], od_event_refs = [], od_pubkey_refs = [],
      od_verifications = []\<rparr>"

definition old_ext :: ext where
  "old_ext = ext0\<lparr>json_from_str := (\<lambda>s. Some (event_to_json (sample ''a1'' ''bb'' 20 0 [[''t'', ''x'']])))\<rparr>"

text \<open>A relay that verifies the addresses of authors; the server of one domain lists \<open>bb\<close>.\<close>

definition nip_note :: event where
  "nip_note = (valid_event 0 [])\<lparr>e_content := CHR 0x22 # ''nip05'' @ [CHR 0x22]\<rparr>"

definition nip_relay :: "unit relay_env" where
  "nip_relay = (sample_relay (default_settings\<lparr>st_verified_users :=
       (st_verified_users default_settings)\<lparr>vu_mode := VuPassive\<rparr>\<rparr>))\<lparr>
     re_ext := relay_ext\<lparr>json_from_str := (\<lambda>s.
       if s = ''e'' then Some (JArray [JString ''EVENT'', event_to_json nip_note])
       else if s = ''b'' then Some (JObject [(''names'', JObject [(''joe'', JString ''bb'')])])
       else Some (JObject [(''nip05'', JString ''joe@x'')]))\<rparr>,
     re_fetch := (\<lambda>t u. Response 200 (Some 10) (Some ''b''))\<rparr>"

definition stored_then_asked :: "relay_action list" where
  "stored_then_asked = [Connect ''u'' ''ch'' sample_info, Connect ''v'' ''ch'' sample_info,
     Receive 1 100 (WsText ''e''), WriteNext 100 (\<lambda>i. 0), Receive 0 100 (WsText ''q'')]"

definition enabled_relay :: "unit relay_env \<Rightarrow> unit relay_env" where
  "enabled_relay env = env\<lparr>re_settings := (re_settings env)\<lparr>st_verified_users :=
     (st_verified_users (re_settings env))\<lparr>vu_mode := VuEnabled\<rparr>\<rparr>\<rparr>"

text \<open>A key that may be shown, a machine with a new database and perhaps its directory, small pools.\<close>

definition key_web :: "settings \<Rightarrow> db web_env" where
  "key_web st = (sample_web st)\<lparr>wb_ext := relay_ext\<lparr>keys_from_pk := (\<lambda>s.
     if list_all letter_or_digit s then Some s else None)\<rparr>\<rparr>"

definition sample_host :: "bool \<Rightarrow> host" where
  "sample_host ok =
     \<lparr>h_exists = (\<lambda>p. ok), h_is_file = (\<lambda>p. ok), h_is_dir = (\<lambda>p. ok), h_metadata = (\<lambda>p. Inr ()), h_open = (\<lambda>p. Inr ()),
      h_read = (\<lambda>p. Inl ''no file''), h_log_init = True, h_socket_addr = (\<lambda>a. True), h_bind = (\<lambda>a. True),
      h_sqlite = (\<lambda>d. Some (first_db\<lparr>od_version := 19\<rparr>)), h_postgres = (\<lambda>c. None)\<rparr>"

definition no_args :: cli_args where
  "no_args = \<lparr>arg_db = None, arg_config = None\<rparr>"

definition small_limits :: limits where
  "small_limits = \<lparr>reader_conns = 3, blocking_threads = 2\<rparr>"

text \<open>The relay with small channels, and a relay with an admission service that has one key and one tag.\<close>

definition tiny_channels :: channel_limits where
  "tiny_channels = \<lparr>ch_bcast = 1, ch_notices = 1, ch_events = 1, ch_meta = 1, ch_pay = 1\<rparr>"

definition small_rules :: admit_rules where
  "small_rules = \<lparr>allowed_pubkey_kinds = [''bb:1''], required_tags = [(1, [(''t'', [''x'', ''y''])])]\<rparr>"

definition tagged_note :: event where
  "tagged_note = sample ''a3'' ''bb'' 50 1 [[''t'', ''y'']]"

definition ruled_env :: "(db, unit) writer_env" where
  "ruled_env = (sample_env (default_settings\<lparr>st_grpc :=
       (st_grpc default_settings)\<lparr>event_admission_server := Some ''http://admission''\<rparr>\<rparr>))\<lparr>
     we_grpc_call := Some (rules_service ext0 id small_rules)\<rparr>"

section \<open>The relay as a whole\<close>

text \<open>C1: Every message with an event that the relay sends to a client, in any order of its tasks, carries an event that was in the store at the start, one that the relay signed itself, or one that a client submitted and that was valid.\<close>

theorem sent_events_are_authentic:
  assumes "relay_reachable env db0 s" and "l \<in> set (rl_links s)" and "SendText t \<in> set (ln_sent l)"
  shows "(\<exists>sub. t = eose_text sub) \<or> (\<exists>sub tx. t = event_text sub tx
    \<and> (tx \<in> ev_content ` set (events db0)
       \<or> (\<exists>now sk pk c n. re_keys env = Some sk \<and> re_dm env now sk pk c = Inr n
            \<and> json_to_string (re_ext env) (event_to_json (event_of_nostr n)) = Some tx)
       \<or> (\<exists>i now m ec. (i, now, m) \<in> set (rl_log s)
            \<and> convert_to_msg (re_ext env) m (max_event_bytes (st_limits (re_settings env))) = Inr (EventMsg ec)
            \<and> validate (re_ext env) (cmd_event ec) = Inr ()
            \<and> json_to_string (re_ext env) (event_to_json (cmd_event ec)) = Some tx)))"
proof -
  have "sent_ok env db0 (rl_log s) t"
    using relay_reachable_inv [OF assms(1)] assms(2,3) by (auto simp: relay_inv_def link_ok_def)
  then consider sub where "t = eose_text sub"
    | sub tx where "t = event_text sub tx" "has_origin env db0 (rl_log s) tx"
    unfolding sent_ok_def by blast
  then show ?thesis
  proof cases
    case 2
    show ?thesis
      by (rule disjI2, rule exI [of _ sub], rule exI [of _ tx], rule conjI [OF 2(1)], rule has_origin_cases [OF 2(2)])
        (simp, rule disjI2, rule disjI1, fast, rule disjI2, rule disjI2, fast)
  qed blast
qed

theorem sent_events_are_authentic_witness:
  "\<exists>s l t. relay_reachable (sample_relay default_settings) empty_db s \<and> l \<in> set (rl_links s)
    \<and> SendText t \<in> set (ln_sent l) \<and> t = event_text ''s'' ''[json]''
    \<and> (\<exists>i now m ec. (i, now, m) \<in> set (rl_log s)
         \<and> convert_to_msg relay_ext m (Some 262144) = Inr (EventMsg ec) \<and> validate relay_ext (cmd_event ec) = Inr ())"
proof -
  let ?env = "sample_relay default_settings" and ?t = "event_text ''s'' ''[json]''"
  have "map_option (\<lambda>s. list_ex (\<lambda>l. SendText ?t \<in> set (ln_sent l)) (rl_links s))
      (relay_run ?env empty_db (publish_actions @ [WriteNext 100 (\<lambda>i. 0), TakeEvent 0 101])) = Some True"
    by code_simp
  then obtain s l where r: "relay_reachable ?env empty_db s" and l: "l \<in> set (rl_links s)"
      "SendText ?t \<in> set (ln_sent l)"
    by (auto simp: list_ex_iff dest!: relay_run_reachable)
  have "?t \<noteq> eose_text sub" for sub by (simp add: event_text_def eose_text_def quote_def)
  moreover have "re_ext ?env = relay_ext" "re_keys ?env = None"
    "max_event_bytes (st_limits (re_settings ?env)) = Some 262144" "events empty_db = []"
    by (simp_all add: sample_relay_def default_settings_def empty_db_def)
  ultimately have "\<exists>i now m ec. (i, now, m) \<in> set (rl_log s)
      \<and> convert_to_msg relay_ext m (Some 262144) = Inr (EventMsg ec) \<and> validate relay_ext (cmd_event ec) = Inr ()"
    using sent_events_are_authentic [OF r l] by auto
  with r l show ?thesis by blast
qed

text \<open>C2: A broadcast event reaches every subscriber: once the writer has taken it and an interested connection has taken what is in its queue, the message with the event has been sent to that client, provided it may see it.\<close>

theorem published_event_arrives:
  assumes "rl_writing s" and "rl_events s = isu # rest"
    and "process_event (writer_of env) now clk (snd isu) (rl_writer s) = Done (w1, outs, err)"
    and "Broadcast e \<in> set outs" and "open_link s j = Some l"
    and "(k, sub) \<in> set (subscriptions (cl_conn (ln_client l)))" and "interested_in_event sub e"
    and "json_to_string (re_ext env) (event_to_json e) = Some t"
    and "allowed_to_send (re_ext env) later t (cl_conn (ln_client l)) (re_settings env)"
  shows "\<exists>s' l'. relay_exec env (WriteNext now clk # replicate (Suc (length (ln_bcast l))) (TakeEvent j later)) s = Some s'
    \<and> open_link s' j = Some l' \<and> SendText (event_text (strip_quotes k) t) \<in> set (ln_sent l')"
  using assms by (rule published_is_delivered)

theorem published_event_arrives_witness:
  "\<exists>s s' l'. relay_run (sample_relay default_settings) empty_db publish_actions = Some s
    \<and> relay_exec (sample_relay default_settings) [WriteNext 100 (\<lambda>i. 0), TakeEvent 0 101] s = Some s'
    \<and> open_link s' 0 = Some l' \<and> SendText (event_text ''s'' ''[json]'') \<in> set (ln_sent l')"
proof -
  let ?env = "sample_relay default_settings"
  have "map_option (\<lambda>s. rl_writing s \<and> list_all (\<lambda>isu. snd isu = snd (hd (rl_events s))) (rl_events s)
      \<and> length (rl_events s) = 1
      \<and> map_exec (\<lambda>(w1, outs, err). Broadcast (su_event (snd (hd (rl_events s)))) \<in> set outs)
           (process_event (writer_of ?env) 100 (\<lambda>i. 0) (snd (hd (rl_events s))) (rl_writer s)) = Done True
      \<and> (case open_link s 0 of None \<Rightarrow> False | Some l \<Rightarrow> ln_bcast l = []
           \<and> list_ex (\<lambda>(k, sub). k = ''s'' \<and> interested_in_event sub (su_event (snd (hd (rl_events s)))))
                (subscriptions (cl_conn (ln_client l)))
           \<and> allowed_to_send (re_ext ?env) 101 ''[json]'' (cl_conn (ln_client l)) (re_settings ?env)))
      (relay_run ?env empty_db publish_actions) = Some True"
    by code_simp
  then obtain s where r: "relay_run ?env empty_db publish_actions = Some s" and w: "rl_writing s"
    and one: "length (rl_events s) = 1"
    and p: "map_exec (\<lambda>(w1, outs, err). Broadcast (su_event (snd (hd (rl_events s)))) \<in> set outs)
           (process_event (writer_of ?env) 100 (\<lambda>i. 0) (snd (hd (rl_events s))) (rl_writer s)) = Done True"
    and c: "case open_link s 0 of None \<Rightarrow> False | Some l \<Rightarrow> ln_bcast l = []
           \<and> list_ex (\<lambda>(k, sub). k = ''s'' \<and> interested_in_event sub (su_event (snd (hd (rl_events s)))))
                (subscriptions (cl_conn (ln_client l)))
           \<and> allowed_to_send (re_ext ?env) 101 ''[json]'' (cl_conn (ln_client l)) (re_settings ?env)"
    by (auto simp: map_option_case split: option.splits)
  from one obtain isu where e: "rl_events s = isu # []" by (auto simp: length_Suc_conv)
  from p e obtain w1 outs err where
    q: "process_event (writer_of ?env) 100 (\<lambda>i. 0) (snd isu) (rl_writer s) = Done (w1, outs, err)"
      "Broadcast (su_event (snd isu)) \<in> set outs" by (auto simp: map_exec_eq_Done)
  from c e obtain l sub where l: "open_link s 0 = Some l" "ln_bcast l = []"
      "(''s'', sub) \<in> set (subscriptions (cl_conn (ln_client l)))" "interested_in_event sub (su_event (snd isu))"
      "allowed_to_send (re_ext ?env) 101 ''[json]'' (cl_conn (ln_client l)) (re_settings ?env)"
    by (auto simp: list_ex_iff split: option.splits)
  have j: "json_to_string (re_ext ?env) (event_to_json (su_event (snd isu))) = Some ''[json]''"
    by (simp add: sample_relay_def relay_ext_def ext0_def)
  have "strip_quotes ''s'' = ''s''" by code_simp
  with published_event_arrives [OF w e q l(1,3,4) j l(5)] l(2) r show ?thesis by auto
qed

text \<open>C3: A query that is run to its end is answered: when a connection has a query waiting, the query gets a connection of the pool and is not given up on the way (the last argument of RunQuery is None), the limits of its filters are below 2^63 (limits_fit) and so is the time, then running it and taking its rows sends the client every visible, unexpired stored event that a filter without limit matches and that the client may see, and then the end of the stored events; nothing else is sent between. Queries that the code gives up, or whose limit is larger, end without the end mark: see the findings for sqlite.rs:430 and sqlite.rs:1094.\<close>

theorem subscription_answered:
  assumes "relay_reachable env db0 s" and "db_inv db0"
    and "open_link s i = Some l" and "ln_queries l = (n, sub) # qs"
    and "mset (scan (events (rl_db s))) = mset (events (rl_db s))" and "uint now < 2 ^ 63" and "limits_fit sub"
  shows "\<exists>k s' l' ans. relay_exec env (RunQuery i now scan True None # replicate k (TakeRow i later)) s = Some s'
    \<and> open_link s' i = Some l'
    \<and> ln_sent l' = ln_sent l @ row_outputs env later (ln_client l) (ln_rows l) @ ans
        @ [SendText (eose_text (strip_quotes (s_id sub)))]
    \<and> (\<forall>f \<in> set (s_filters sub). f_limit f = None \<longrightarrow>
        (\<forall>r \<in> set (events (rl_db s)). \<not> ev_hidden r \<and> (\<forall>x. ev_expires r = Some x \<longrightarrow> uint now < x)
           \<and> row_matches (re_ext env) (rl_db s) f r \<and> ev_content r \<noteq> ''EOSE''
           \<and> allowed_to_send (re_ext env) later (ev_content r) (cl_conn (ln_client l)) (re_settings env) \<longrightarrow>
          SendText (event_text (strip_quotes (s_id sub)) (ev_content r)) \<in> set ans))
    \<and> set ans \<subseteq> insert (SendText (eose_text (strip_quotes (s_id sub))))
        (\<Union>f \<in> set (s_filters sub). answers env now later (ln_client l) (rl_db s) sub f)"
proof -
  have "sql_u64 now \<noteq> None" using assms(6) by (simp add: sql_u64_def)
  from query_answered [where env = env and scan = scan and later = later, OF reachable_db_inv [OF assms(1,2)] assms(3-5) this assms(7)]
  obtain k s' l' ans where r: "relay_exec env (RunQuery i now scan True None # replicate k (TakeRow i later)) s = Some s'"
      "open_link s' i = Some l'"
      "ln_sent l' = ln_sent l @ row_outputs env later (ln_client l) (ln_rows l) @ ans
        @ [SendText (eose_text (strip_quotes (s_id sub)))]"
    and a: "\<forall>f \<in> set (s_filters sub). f_limit f = None \<longrightarrow> answers env now later (ln_client l) (rl_db s) sub f \<subseteq> set ans"
    and b: "set ans \<subseteq> insert (SendText (eose_text (strip_quotes (s_id sub))))
        (\<Union>f \<in> set (s_filters sub). answers env now later (ln_client l) (rl_db s) sub f)"
    by (elim exE conjE) (rule that)
  have "SendText (event_text (strip_quotes (s_id sub)) (ev_content r)) \<in> set ans"
    if f: "f \<in> set (s_filters sub)" "f_limit f = None" and r: "r \<in> set (events (rl_db s))"
      "\<not> ev_hidden r \<and> (\<forall>x. ev_expires r = Some x \<longrightarrow> uint now < x)" "row_matches (re_ext env) (rl_db s) f r"
      "ev_content r \<noteq> ''EOSE''"
      "allowed_to_send (re_ext env) later (ev_content r) (cl_conn (ln_client l)) (re_settings env)" for f r
  proof -
    have "r \<in> set (hits (re_ext env) now (rl_db s) f)"
      using r by (cases "ev_expires r") (auto simp: hits_def current_row_def opt_all_def)
    with r(4,5) have "SendText (event_text (strip_quotes (s_id sub)) (ev_content r)) \<in> answers env now later (ln_client l) (rl_db s) sub f"
      unfolding answers_def by blast
    with a f show ?thesis by blast
  qed
  with r b show ?thesis by blast
qed

theorem subscription_answered_witness:
  "\<exists>s k s' l'. relay_run (sample_relay default_settings) empty_db stored_then_asked = Some s
    \<and> relay_exec (sample_relay default_settings) (RunQuery 0 101 rev True None # replicate k (TakeRow 0 102)) s = Some s'
    \<and> open_link s' 0 = Some l' \<and> SendText (event_text ''s'' ''[json]'') \<in> set (ln_sent l')
    \<and> last (ln_sent l') = SendText (eose_text ''s'')"
proof -
  let ?env = "sample_relay default_settings"
  have "map_option (\<lambda>s. list_ex (\<lambda>r. \<not> ev_hidden r \<and> ev_expires r = None \<and> ev_content r = ''[json]'') (events (rl_db s))
      \<and> (case open_link s 0 of None \<Rightarrow> False | Some l \<Rightarrow>
           map (\<lambda>(n, sub). (s_id sub, s_filters sub)) (ln_queries l) = [(''s'', [any_filter\<lparr>f_limit := None\<rparr>])]
           \<and> allowed_to_send (re_ext ?env) 102 ''[json]'' (cl_conn (ln_client l)) (re_settings ?env)))
      (relay_run ?env empty_db stored_then_asked) = Some True"
    by code_simp
  then obtain s l r n sub where s: "relay_run ?env empty_db stored_then_asked = Some s"
    and r: "r \<in> set (events (rl_db s))" "\<not> ev_hidden r" "ev_expires r = None" "ev_content r = ''[json]''"
    and l: "open_link s 0 = Some l" "ln_queries l = [(n, sub)]"
    and f: "s_id sub = ''s''" "s_filters sub = [any_filter\<lparr>f_limit := None\<rparr>]"
    and a: "allowed_to_send (re_ext ?env) 102 ''[json]'' (cl_conn (ln_client l)) (re_settings ?env)"
    by (auto simp: list_ex_iff map_eq_Cons_conv split: option.splits)
  have "limits_fit sub" by (simp add: limits_fit_def f)
  with subscription_answered [where scan = rev and now = 101 and later = 102,
      OF relay_run_reachable [OF s] db_inv_empty l]
  obtain k s' l' ans where e: "relay_exec ?env (RunQuery 0 101 rev True None # replicate k (TakeRow 0 102)) s = Some s'"
      "open_link s' 0 = Some l'"
      "ln_sent l' = ln_sent l @ row_outputs ?env 102 (ln_client l) (ln_rows l) @ ans @ [SendText (eose_text (strip_quotes (s_id sub)))]"
    and m: "\<forall>r \<in> set (events (rl_db s)). \<not> ev_hidden r \<and> (\<forall>x. ev_expires r = Some x \<longrightarrow> uint (101 :: u64) < x)
           \<and> row_matches (re_ext ?env) (rl_db s) (any_filter\<lparr>f_limit := None\<rparr>) r \<and> ev_content r \<noteq> ''EOSE''
           \<and> allowed_to_send (re_ext ?env) 102 (ev_content r) (cl_conn (ln_client l)) (re_settings ?env) \<longrightarrow>
          SendText (event_text (strip_quotes (s_id sub)) (ev_content r)) \<in> set ans"
    unfolding f by auto
  have q: "strip_quotes ''s'' = ''s''" by code_simp
  have "row_matches (re_ext ?env) (rl_db s) (any_filter\<lparr>f_limit := None\<rparr>) r" by (simp add: row_matches_def any_filter_def)
  with m [THEN bspec, OF r(1)] r a have "SendText (event_text (strip_quotes (s_id sub)) ''[json]'') \<in> set ans" by simp
  then have "SendText (event_text ''s'' ''[json]'') \<in> set ans" unfolding f q .
  then have "SendText (event_text ''s'' ''[json]'') \<in> set (ln_sent l') \<and> last (ln_sent l') = SendText (eose_text ''s'')"
    using e(3) by (simp add: f q)
  with s e(1,2) show ?thesis by blast
qed

text \<open>C4: In every reachable state of the relay, an OK message that was sent on a connection is about an event that was sent on the same connection: nobody is told what became of the events of others.\<close>

theorem results_go_to_senders:
  assumes "relay_reachable env db0 s" and "k < length (rl_links s)"
    and "SendJson (JArray [JString ''OK'', JString i, JBool b, JString m]) \<in> set (ln_sent (rl_links s ! k))"
  shows "\<exists>now msg ec. (k, now, msg) \<in> set (rl_log s)
    \<and> convert_to_msg (re_ext env) msg (max_event_bytes (st_limits (re_settings env))) = Inr (EventMsg ec)
    \<and> event_id ec = i"
proof -
  have "ok_for i (JArray [JString ''OK'', JString i, JBool b, JString m])" by (simp add: ok_for_def)
  with reachable_told [OF assms(1)] assms(2,3) have "submitted_by env (rl_log s) k i"
    unfolding told_inv_def link_told_def by blast
  then show ?thesis by (simp add: submitted_by_def)
qed

theorem results_go_to_senders_witness:
  "\<exists>s m. relay_run (sample_relay default_settings) empty_db (publish_actions @ [WriteNext 100 (\<lambda>i. 0), TakeNotice 1 101]) = Some s
    \<and> SendJson (JArray [JString ''OK'', JString ''5b6a736f'', JBool True, JString m]) \<in> set (ln_sent (rl_links s ! 1))
    \<and> (\<exists>now msg ec. (1, now, msg) \<in> set (rl_log s)
        \<and> convert_to_msg (re_ext (sample_relay default_settings)) msg
            (max_event_bytes (st_limits (re_settings (sample_relay default_settings)))) = Inr (EventMsg ec)
        \<and> event_id ec = ''5b6a736f'')"
proof -
  let ?env = "sample_relay default_settings" and ?as = "publish_actions @ [WriteNext 100 (\<lambda>i. 0), TakeNotice 1 101]"
  have "map_option (\<lambda>s. 1 < length (rl_links s)
      \<and> SendJson (JArray [JString ''OK'', JString ''5b6a736f'', JBool True, JString []]) \<in> set (ln_sent (rl_links s ! 1)))
      (relay_run ?env empty_db ?as) = Some True" by code_simp
  then obtain s where s: "relay_run ?env empty_db ?as = Some s" and k: "1 < length (rl_links s)"
    and t: "SendJson (JArray [JString ''OK'', JString ''5b6a736f'', JBool True, JString []]) \<in> set (ln_sent (rl_links s ! 1))"
    by auto
  from results_go_to_senders [OF relay_run_reachable [OF s] k t] s t show ?thesis by blast
qed

text \<open>C5: Whatever requests, messages and callbacks arrive, an account is admitted only if it was at the start or the payment processor reported an invoice of that account as paid.\<close>

theorem admission_needs_payment:
  assumes "relay_reachable env db0 s" and "admitted (rl_db s) pk"
  shows "admitted db0 pk \<or> (\<exists>s1 now h p. relay_reachable env db0 s1
    \<and> (\<exists>v \<in> set (invoices (rl_db s1)). iv_hash v = h \<and> iv_pubkey v = p)
    \<and> (p = pk \<or> keys_from_pk (re_ext env) p = Some pk)
    \<and> pp_check_invoice (re_processor env now) h = Done (Inr Paid))"
  using reachable_admitted [OF assms] by (auto simp: reported_paid_def has_invoice_def)

theorem admission_needs_payment_witness:
  "\<exists>s s1 now h. relay_run (sample_relay paid_settings) invoice_db [Http 100 [] account_request, PayNext 101 0] = Some s
    \<and> admitted (rl_db s) ''bb'' \<and> pp_check_invoice (re_processor (sample_relay paid_settings) now) h = Done (Inr Paid)
    \<and> (\<exists>v \<in> set (invoices (rl_db s1)). iv_hash v = h \<and> iv_pubkey v = ''bb'')
    \<and> relay_reachable (sample_relay paid_settings) invoice_db s1"
proof -
  let ?env = "sample_relay paid_settings"
  have "map_option (\<lambda>s. map (\<lambda>a. (ac_pubkey a, ac_admitted a)) (accounts (rl_db s)))
      (relay_run ?env invoice_db [Http 100 [] account_request, PayNext 101 0]) = Some [(''bb'', True)]"
    by code_simp
  then obtain s where r: "relay_run ?env invoice_db [Http 100 [] account_request, PayNext 101 0] = Some s"
    and a: "map (\<lambda>a. (ac_pubkey a, ac_admitted a)) (accounts (rl_db s)) = [(''bb'', True)]" by auto
  have adm: "admitted (rl_db s) ''bb''" using a by (auto simp: admitted_def map_eq_Cons_conv)
  have "\<not> admitted invoice_db ''bb''" by (simp add: admitted_def invoice_db_def)
  moreover have "keys_from_pk (re_ext ?env) p = Some ''bb'' \<Longrightarrow> p = ''bb''" for p
    by (simp add: sample_relay_def relay_ext_def ext0_def split: if_splits)
  ultimately show ?thesis using admission_needs_payment [OF relay_run_reachable [OF r] adm] r adm by blast
qed

text \<open>C6: In every reachable state of the relay, each verification record belongs to a stored event, and, unless it was there at the start, its name is the address in a valid event that a client had sent, with the identifier and the author of that row, whose domain is allowed and whose server answered, with success and in at most a megabyte, that it lists this author under the name. The condition ids_name_authors says that no two of the events concerned have the same identifier and different authors, which is what the hash in the identifier is relied on for.\<close>

theorem names_were_listed:
  assumes "relay_reachable env db0 s" and "db_inv db0" and "ids_name_authors env db0 (rl_log s)"
    and "v \<in> set (verifications (rl_db s))"
  shows "\<exists>r \<in> set (events (rl_db s)). ev_id r = vr_event v
    \<and> ((ev_hash r, vr_name v) \<in> verified_names db0
     \<or> (\<exists>e i t m ec nip now url n b. (i, t, m) \<in> set (rl_log s)
          \<and> convert_to_msg (re_ext env) m (max_event_bytes (st_limits (re_settings env))) = Inr (EventMsg ec)
          \<and> validate (re_ext env) (cmd_event ec) = Inr () \<and> event_to_json e = event_to_json (cmd_event ec)
          \<and> hex_decode (re_ext env) (e_id e) = Some (ev_hash r)
          \<and> hex_decode (re_ext env) (e_pubkey e) = Some (ev_author r)
          \<and> get_nip05_addr (re_ext env) e = Some nip \<and> vr_name v = nip05_to_string nip
          \<and> is_domain_allowed (n_domain nip) (domain_whitelist (st_verified_users (re_settings env)))
              (domain_blacklist (st_verified_users (re_settings env)))
          \<and> to_url (re_ext env) nip = Some url \<and> re_fetch env now url = Response 200 (Some n) (Some b) \<and> n \<le> 1048576
          \<and> body_contains_user (re_ext env) (n_local nip) (e_pubkey e) b = Inr True))"
proof -
  have "db_inv (rl_db s)" by (rule reachable_db_inv [OF assms(1,2)])
  with assms(4) obtain r where r: "r \<in> set (events (rl_db s))" "ev_id r = vr_event v"
    unfolding db_inv_def refs_ok_def by blast
  with assms(4) have "(ev_hash r, vr_name v) \<in> verified_names (rl_db s)" unfolding verified_names_def by blast
  with reachable_names [OF assms(1,2)]
  consider "(ev_hash r, vr_name v) \<in> verified_names db0" | "listed_name env (rl_log s) (ev_hash r) (vr_name v)" by blast
  then show ?thesis
  proof cases
    case 2
    then obtain e nip now where c: "client_event env (rl_log s) e"
      and e: "hex_decode (re_ext env) (e_id e) = Some (ev_hash r)" "get_nip05_addr (re_ext env) e = Some nip"
        "vr_name v = nip05_to_string nip"
      and w: "get_web_verification (re_ext env) (st_verified_users (re_settings env)) (re_fetch env now) nip (e_pubkey e) = Verified"
      unfolding listed_name_def listed_event_def by blast
    from c have "origin env (rl_log s) e" by (simp add: origin_def)
    with assms(3) e(1) reachable_rows [OF assms(1) r(1)]
    have a: "hex_decode (re_ext env) (e_pubkey e) = Some (ev_author r)" unfolding ids_name_authors_def by blast
    from get_web_verification_Verified [OF w] obtain url n b where "is_domain_allowed (n_domain nip)
          (domain_whitelist (st_verified_users (re_settings env))) (domain_blacklist (st_verified_users (re_settings env)))"
        "to_url (re_ext env) nip = Some url" "re_fetch env now url = Response 200 (Some n) (Some b)" "n \<le> 1048576"
        "body_contains_user (re_ext env) (n_local nip) (e_pubkey e) b = Inr True" by auto
    with client_event_valid [OF c] r e a show ?thesis by blast
  qed (use r in blast)
qed

theorem names_were_listed_witness:
  "\<exists>s v r (e :: event) nip. relay_run nip_relay empty_db [Connect ''u'' ''ch'' sample_info, Receive 0 100 (WsText ''e''),
      WriteNext 100 (\<lambda>i. 0), VerifyNext 101] = Some s
    \<and> v \<in> set (verifications (rl_db s)) \<and> vr_name v = ''joe@x'' \<and> r \<in> set (events (rl_db s)) \<and> ev_id r = vr_event v
    \<and> hex_decode (re_ext nip_relay) (e_pubkey e) = Some (ev_author r)
    \<and> vr_name v = nip05_to_string nip \<and> body_contains_user (re_ext nip_relay) (n_local nip) (e_pubkey e) ''b'' = Inr True"
proof -
  let ?as = "[Connect ''u'' ''ch'' sample_info, Receive 0 100 (WsText ''e''), WriteNext 100 (\<lambda>i. 0), VerifyNext 101]"
  have "map_option (\<lambda>s. map vr_name (verifications (rl_db s)) = [''joe@x''] \<and> rl_log s = [(0, 100, ''e'')])
      (relay_run nip_relay empty_db ?as) = Some True"
    by code_simp
  then obtain s v where s: "relay_run nip_relay empty_db ?as = Some s" "rl_log s = [(0, 100, ''e'')]"
    and v: "v \<in> set (verifications (rl_db s))" "vr_name v = ''joe@x''" by (auto simp: map_eq_Cons_conv)
  have one: "e = e'" if "origin nip_relay (rl_log s) e" "origin nip_relay (rl_log s) e'" for e e'
    using that by (auto simp: origin_def client_event_def s(2) own_message_def payment_of_def nip_relay_def sample_relay_def)
  have ids: "ids_name_authors nip_relay empty_db (rl_log s)"
    unfolding ids_name_authors_def row_of_def empty_db_def using one by auto
  have none: "verified_names empty_db = {}" by (simp add: verified_names_def empty_db_def)
  from names_were_listed [OF relay_run_reachable [OF s(1)] db_inv_empty ids v(1)] show ?thesis
  proof (elim bexE conjE disjE exE, goal_cases)
    case (2 r e i t m ec nip now url n b)
    then have "b = ''b''" by (simp add: nip_relay_def)
    with 2 have "r \<in> set (events (rl_db s)) \<and> ev_id r = vr_event v
        \<and> hex_decode (re_ext nip_relay) (e_pubkey e) = Some (ev_author r)
        \<and> vr_name v = nip05_to_string nip \<and> body_contains_user (re_ext nip_relay) (n_local nip) (e_pubkey e) ''b'' = Inr True"
      by (intro conjI) simp_all
    with s(1) v show ?case
      by (intro exI [of _ s] exI [of _ v] exI [of _ r] exI [of _ e] exI [of _ nip] conjI) simp_all
  qed (simp add: none)
qed

text \<open>C7: In every reachable state of the relay, whatever its tasks do in whatever order, the tables keep their keys and references, and there is at most one row for each author and replaceable kind.\<close>

theorem relay_store_invariant:
  assumes "relay_reachable env db0 s" and "db_inv db0"
  shows "distinct (map ev_id (events (rl_db s))) \<and> distinct (map ev_hash (events (rl_db s)))
    \<and> (\<forall>t \<in> set (tags (rl_db s)). \<exists>r \<in> set (events (rl_db s)).
        ev_id r = tg_event t \<and> tg_created t = ev_created r \<and> tg_kind t = ev_kind r)
    \<and> (\<forall>v \<in> set (verifications (rl_db s)). \<exists>r \<in> set (events (rl_db s)). ev_id r = vr_event v)
    \<and> (\<forall>r \<in> set (events (rl_db s)). \<forall>t \<in> set (events (rl_db s)). replaceable_kind (ev_kind r)
        \<and> ev_kind r = ev_kind t \<and> ev_author r = ev_author t \<longrightarrow> r = t)
    \<and> db_inv (rl_db s)"
proof -
  have "db_inv (rl_db s)" by (rule reachable_db_inv [OF assms])
  then show ?thesis unfolding db_inv_def keys_ok_def refs_ok_def replaceable_unique_def by blast
qed

theorem relay_store_invariant_witness:
  "\<exists>s. relay_run nip_relay empty_db [Connect ''u'' ''ch'' sample_info, Receive 0 100 (WsText ''e''),
      WriteNext 100 (\<lambda>i. 0), VerifyNext 101] = Some s
    \<and> length (verifications (rl_db s)) = 1
    \<and> (\<forall>v \<in> set (verifications (rl_db s)). \<exists>r \<in> set (events (rl_db s)). ev_id r = vr_event v)"
proof -
  let ?as = "[Connect ''u'' ''ch'' sample_info, Receive 0 100 (WsText ''e''), WriteNext 100 (\<lambda>i. 0), VerifyNext 101]"
  have "map_option (\<lambda>s. length (verifications (rl_db s))) (relay_run nip_relay empty_db ?as) = Some 1" by code_simp
  then obtain s where s: "relay_run nip_relay empty_db ?as = Some s" "length (verifications (rl_db s)) = 1" by auto
  from relay_store_invariant [OF relay_run_reachable [OF s(1)] db_inv_empty] s show ?thesis by blast
qed

text \<open>C8: A defect: with address verification enabled the writer rejects the events of authors without a record before it hands metadata to the verifier, so the verifier is never asked. Started without records, a relay never has one, and it rejects every event of every client.\<close>

theorem nobody_becomes_verified:
  assumes "relay_reachable env db0 s" and "vu_is_enabled (st_verified_users (re_settings env))"
    and "verifications db0 = []"
  shows "verifications (rl_db s) = [] \<and> rl_meta s = []
    \<and> (process_event (writer_of env) now clk su (rl_writer s) = Done (w1, outs, err) \<longrightarrow>
        w_db w1 = rl_db s \<and> err = None \<and> writer_broadcasts outs = [] \<and> writer_metadata outs = []
        \<and> rejection (e_id (su_event su)) outs)"
proof -
  have u: "verifications (rl_db s) = [] \<and> rl_meta s = []"
    using reachable_unverified [OF assms] by (simp add: unverified_def)
  have "w_db w1 = rl_db s \<and> err = None \<and> writer_broadcasts outs = [] \<and> writer_metadata outs = []
      \<and> rejection (e_id (su_event su)) outs"
    if p: "process_event (writer_of env) now clk su (rl_writer s) = Done (w1, outs, err)"
    using unverified_event [OF assms(2) _ p] u by (simp add: rl_db_def rejection_outputs)
  with u show ?thesis by blast
qed

theorem nobody_becomes_verified_witness:
  "\<exists>s outs. relay_run (enabled_relay nip_relay) empty_db [Connect ''u'' ''ch'' sample_info, Receive 0 100 (WsText ''e''),
      WriteNext 100 (\<lambda>i. 0)] = Some s
    \<and> process_event (writer_of (enabled_relay nip_relay)) 101 (\<lambda>i. 0) (submitted nip_note) (rl_writer s)
       = Done (rl_writer s, outs, None)
    \<and> rejection (e_id nip_note) outs \<and> length outs = 1 \<and> verifications (rl_db s) = []"
proof -
  let ?env = "enabled_relay nip_relay"
  let ?as = "[Connect ''u'' ''ch'' sample_info, Receive 0 100 (WsText ''e''), WriteNext 100 (\<lambda>i. 0)]"
  have "map_option (\<lambda>s. map_exec (\<lambda>(w1, outs, err). (length outs, w_sliding w1, w_kind_limiters w1))
        (process_event (writer_of ?env) 101 (\<lambda>i. 0) (submitted nip_note) (rl_writer s))
      = Done (1, w_sliding (rl_writer s), w_kind_limiters (rl_writer s))) (relay_run ?env empty_db ?as) = Some True"
    by code_simp
  then obtain s w1 outs err where s: "relay_run ?env empty_db ?as = Some s"
    and p: "process_event (writer_of ?env) 101 (\<lambda>i. 0) (submitted nip_note) (rl_writer s) = Done (w1, outs, err)"
    and w: "length outs = 1" "w_sliding w1 = w_sliding (rl_writer s)" "w_kind_limiters w1 = w_kind_limiters (rl_writer s)"
    by (auto simp: map_exec_eq_Done)
  have e: "vu_is_enabled (st_verified_users (re_settings ?env))" "verifications empty_db = []" by code_simp+
  from nobody_becomes_verified [OF relay_run_reachable [OF s] e] p
  have "w_db w1 = rl_db s \<and> err = None \<and> rejection (e_id (su_event (submitted nip_note))) outs \<and> verifications (rl_db s) = []"
    by blast
  moreover from this w have "w1 = rl_writer s" by (cases w1, cases "rl_writer s") (simp add: rl_db_def)
  ultimately show ?thesis using s p w(1) by (auto simp: submitted_def)
qed

section \<open>Channels\<close>

text \<open>C9: No submitted event is lost or overtaken. In every run of the relay with the limits of its channels that starts at the start and in which the writer still runs, take all events that the connections handed to the queue of events, in order: each turn of the writer was for the next of them, those that no turn was for are exactly what waits in the queue, and the queue never has more than its capacity. A connection whose event does not fit waits.\<close>

theorem submitted_events_are_taken_in_order:
  assumes "relay_start env db = Done s0" and "bounded_exec C env acts s0 = Some s" and "rl_writing s"
    and "subs = submitted_in C env acts s0"
  shows "rl_events s = drop (writer_turn_count acts) subs \<and> writer_turn_count acts \<le> length subs
    \<and> length (rl_events s) \<le> ch_events C
    \<and> (\<forall>pre now clk post. acts = pre @ WriteNext now clk # post \<longrightarrow>
        (\<exists>s1 rest. bounded_exec C env pre s0 = Some s1 \<and> rl_events s1 = subs ! writer_turn_count pre # rest
          \<and> bounded_apply C env (WriteNext now clk) s1 = Some (settle C (writer_step env now clk
              (subs ! writer_turn_count pre) (s1\<lparr>rl_events := rest\<rparr>)))))"
proof -
  have "bounded_reachable C env db s" by (rule bounded_exec_reachable [OF bounded_init [OF assms(1)] assms(2)])
  then have "length (rl_events s) \<le> ch_events C" using bounded_within by (auto simp: within_def)
  moreover have "\<exists>s1 rest. bounded_exec C env pre s0 = Some s1 \<and> rl_events s1 = subs ! writer_turn_count pre # rest
      \<and> bounded_apply C env (WriteNext now clk) s1 = Some (settle C (writer_step env now clk
          (subs ! writer_turn_count pre) (s1\<lparr>rl_events := rest\<rparr>)))"
    if "acts = pre @ WriteNext now clk # post" for pre now clk post
    using turn_takes_next [OF assms(1) _ assms(3)] assms(2) unfolding assms(4) that by blast
  ultimately show ?thesis using queue_is_rest [OF assms(1-3)] unfolding assms(4) by blast
qed

theorem submitted_events_are_taken_in_order_witness:
  "\<exists>s0 s. relay_start (sample_relay default_settings) empty_db = Done s0
    \<and> bounded_exec tiny_channels (sample_relay default_settings)
        (publish_actions @ [WriteNext 100 (\<lambda>i. 0), Receive 1 101 (WsText ''e'')]) s0 = Some s
    \<and> length (submitted_in tiny_channels (sample_relay default_settings)
        (publish_actions @ [WriteNext 100 (\<lambda>i. 0), Receive 1 101 (WsText ''e'')]) s0) = 2
    \<and> rl_events s = drop 1 (submitted_in tiny_channels (sample_relay default_settings)
        (publish_actions @ [WriteNext 100 (\<lambda>i. 0), Receive 1 101 (WsText ''e'')]) s0)"
proof -
  let ?env = "sample_relay default_settings" and ?as = "publish_actions @ [WriteNext 100 (\<lambda>i. 0), Receive 1 101 (WsText ''e'')]"
  have "map_exec (\<lambda>s0. map_option rl_writing (bounded_exec tiny_channels ?env ?as s0) = Some True
      \<and> length (submitted_in tiny_channels ?env ?as s0) = 2 \<and> writer_turn_count ?as = 1) (relay_start ?env empty_db) = Done True"
    by code_simp
  then obtain s0 s where s: "relay_start ?env empty_db = Done s0" "bounded_exec tiny_channels ?env ?as s0 = Some s" "rl_writing s"
    and n: "length (submitted_in tiny_channels ?env ?as s0) = 2" "writer_turn_count ?as = 1"
    by (auto simp: map_exec_eq_Done)
  from submitted_events_are_taken_in_order [OF s refl, THEN conjunct1] s n show ?thesis by auto
qed

text \<open>C10: Nobody waits for good for room in the queue of events: in every reachable state of the relay with limits, what a client sends is taken at once or after the next turn of the writer, which no full queue can hold up and which leaves fewer events waiting.\<close>

theorem submitting_clients_are_served:
  assumes "bounded_reachable C env db s" and "0 < ch_events C" and "open_link s i = Some l"
  shows "(\<exists>s'. bounded_apply C env (Receive i now w) s = Some s')
    \<or> (\<forall>t clk. \<exists>s1 s2. bounded_apply C env (WriteNext t clk) s = Some s1 \<and> length (rl_events s1) < length (rl_events s)
        \<and> bounded_apply C env (Receive i now w) s1 = Some s2)"
  using receive_or_write [OF bounded_within [OF assms(1)] assms(2,3)] by blast

theorem submitting_clients_are_served_witness:
  "\<exists>s s1 s2. bounded_run tiny_channels (sample_relay default_settings) empty_db publish_actions = Some s
    \<and> bounded_apply tiny_channels (sample_relay default_settings) (Receive 1 101 (WsText ''e'')) s = None
    \<and> bounded_apply tiny_channels (sample_relay default_settings) (WriteNext 100 (\<lambda>i. 0)) s = Some s1
    \<and> bounded_apply tiny_channels (sample_relay default_settings) (Receive 1 101 (WsText ''e'')) s1 = Some s2"
proof -
  let ?env = "sample_relay default_settings"
  have "map_option (\<lambda>s. map_option (\<lambda>s1. True) (bounded_apply tiny_channels ?env (Receive 1 101 (WsText ''e'')) s) = None
      \<and> map_option (\<lambda>l. True) (open_link s 1) = Some True)
    (bounded_run tiny_channels ?env empty_db publish_actions) = Some True" by code_simp
  then obtain s l where s: "bounded_run tiny_channels ?env empty_db publish_actions = Some s"
    "bounded_apply tiny_channels ?env (Receive 1 101 (WsText ''e'')) s = None" "open_link s 1 = Some l" by auto
  have "0 < ch_events tiny_channels" by (simp add: tiny_channels_def)
  from submitting_clients_are_served [OF bounded_run_reachable [OF s(1)] this s(3), of 101 "WsText ''e''"] s
  obtain s1 s2 where "bounded_apply tiny_channels ?env (WriteNext 100 (\<lambda>i. 0)) s = Some s1"
    "bounded_apply tiny_channels ?env (Receive 1 101 (WsText ''e'')) s1 = Some s2" by fastforce
  with s show ?thesis by blast
qed

text \<open>C11: A defect: a notice is offered to the queue of its connection and dropped when the queue is full, so the author of an event whose connection is that far behind is never told what became of it, while the event is stored or rejected as usual.\<close>

theorem full_notice_queue:
  assumes "bounded_reachable C env db s" and "bounded_apply C env (WriteNext now clk) s = Some s'"
    and "rl_events s = (i, su) # rest" and "i < length (rl_links s)"
    and "length (ln_notices (rl_links s ! i)) = ch_notices C"
  shows "ln_notices (rl_links s' ! i) = ln_notices (rl_links s ! i)
    \<and> ln_sent (rl_links s' ! i) = ln_sent (rl_links s ! i)
    \<and> rl_db s' = rl_db (writer_step env now clk (i, su) (s\<lparr>rl_events := rest\<rparr>))"
  using full_notices [OF assms(4,5,2)] writer_turn [OF bounded_within [OF assms(1)] assms(2,3)] assms(3,4)
  by simp_all

theorem full_notice_queue_witness:
  "\<exists>s s'. bounded_run tiny_channels (sample_relay default_settings) empty_db
        (publish_actions @ [WriteNext 100 (\<lambda>i. 0), Receive 1 101 (WsText ''e'')]) = Some s
    \<and> bounded_apply tiny_channels (sample_relay default_settings) (WriteNext 102 (\<lambda>i. 0)) s = Some s'
    \<and> length (ln_notices (rl_links s ! 1)) = 1 \<and> ln_notices (rl_links s' ! 1) = ln_notices (rl_links s ! 1)"
proof -
  let ?env = "sample_relay default_settings"
  have "map_option (\<lambda>s. map fst (rl_events s) = [1] \<and> 1 < length (rl_links s) \<and> length (ln_notices (rl_links s ! 1)) = 1
      \<and> map_option (\<lambda>s'. True) (bounded_apply tiny_channels ?env (WriteNext 102 (\<lambda>i. 0)) s) = Some True)
    (bounded_run tiny_channels ?env empty_db (publish_actions @ [WriteNext 100 (\<lambda>i. 0), Receive 1 101 (WsText ''e'')])) = Some True"
    by code_simp
  then obtain s s' su where s: "bounded_run tiny_channels ?env empty_db
        (publish_actions @ [WriteNext 100 (\<lambda>i. 0), Receive 1 101 (WsText ''e'')]) = Some s"
    "rl_events s = [(1, su)]" "1 < length (rl_links s)" "length (ln_notices (rl_links s ! 1)) = 1"
    "bounded_apply tiny_channels ?env (WriteNext 102 (\<lambda>i. 0)) s = Some s'" by (auto simp: map_eq_Cons_conv)
  from s(4) have "length (ln_notices (rl_links s ! 1)) = ch_notices tiny_channels" by (simp add: tiny_channels_def)
  from full_notice_queue [OF bounded_run_reachable [OF s(1)] s(5,2,3) this] s show ?thesis by blast
qed

section \<open>The store of events\<close>

text \<open>C12: The SQLite store implements the specification of a store: with its tables read as a partial function from identifiers to events, a write is one step of spec_write, an event that has no entry there is never stored, the invariant stays, and deleting the expired rows is spec_expire. The events are those whose parameter stands in one tag, and one of the ten attempts must meet no failure.\<close>

theorem sqlite_refines_spec:
  assumes "db_inv db" and "plain_param e" and "\<exists>a. 1 \<le> a \<and> a \<le> 10 \<and> busy a = None"
    and "write_event X now busy e db = (db', res)"
  shows "(case spec_entry X e of
        Some (i, n) \<Rightarrow> (sql_view db', res) = (let (S, c) = spec_write X e i n (sql_view db) in (S, Inr c))
      | None \<Rightarrow> db' = db \<and> res \<noteq> Inr 1)
    \<and> db_inv db'
    \<and> (uint later < 2 ^ 63 \<longrightarrow> sql_view (fst (delete_expired later db')) = spec_expire later (sql_view db'))"
proof -
  have p: "persist_event X now e db = (db', res)" using assms(3,4) by (simp add: write_event_cases)
  have i: "db_inv db'" using persist_event_inv [OF assms(1), of X now e] p by simp
  then have x: "uint later < 2 ^ 63 \<longrightarrow> sql_view (fst (delete_expired later db')) = spec_expire later (sql_view db')"
    by (simp add: delete_expired_refines db_inv_def)
  show ?thesis
  proof (cases "spec_entry X e")
    case None
    with persist_no_entry [OF None, of now db] p i x show ?thesis by simp
  next
    case (Some y)
    with persist_refines [OF assms(1) _ assms(2), of X _ _ now] p i x show ?thesis
      by (cases y) (auto simp: Let_def case_prod_beta prod_eq_iff)
  qed
qed

theorem sqlite_refines_spec_witness:
  "\<exists>db i n S. db = stored metadata1 empty_db \<and> spec_entry ext0 metadata2 = Some (i, n)
    \<and> spec_write ext0 metadata2 i n (sql_view db) = (S, 1)
    \<and> sql_view (fst (write_event ext0 100 (\<lambda>a. None) metadata2 db)) = S
    \<and> S [CHR 0xA1] = None \<and> map_option sd_created (S [CHR 0xA2]) = Some 60"
proof -
  let ?db = "stored metadata1 empty_db" and ?w = "write_event ext0 100 (\<lambda>a. None) metadata2 (stored metadata1 empty_db)"
  have inv: "db_inv ?db" and plain: "plain_param metadata2" by (simp_all add: sample_ok) code_simp
  have r: "snd ?w = Inr 1" and v: "map (\<lambda>r. (ev_hash r, ev_created r)) (events (fst ?w)) = [([CHR 0xA2], 60)]"
    and e: "map_option fst (spec_entry ext0 metadata2) = Some [CHR 0xA2]" by code_simp+
  from e obtain i n where n: "spec_entry ext0 metadata2 = Some (i, n)" by auto
  have "\<exists>a. 1 \<le> a \<and> a \<le> 10 \<and> (\<lambda>a :: nat. None :: string option) a = None" by (intro exI [of _ 1]) simp
  from sqlite_refines_spec [OF inv plain this, of ext0 100 "fst ?w" "snd ?w" 0] n r
  have "spec_write ext0 metadata2 i n (sql_view ?db) = (sql_view (fst ?w), 1)"
    by (auto simp: Let_def case_prod_beta prod_eq_iff)
  moreover have "sql_view (fst ?w) [CHR 0xA1] = None" "map_option sd_created (sql_view (fst ?w) [CHR 0xA2]) = Some 60"
    using v by (auto simp: sql_view_def map_eq_Cons_conv)
  ultimately show ?thesis using n by blast
qed

text \<open>C13: The PostgreSQL store implements the same specification for events that avoid its differences (pg_fits): kinds of 31 bits, times that are dates, tag names that are text, deletions that name an event, no deletion of the event stored before it, and, for parameterized replaceable events, at most one tag with the parameter of the event (an event that repeats its d tag removes its own row, see the finding for postgres.rs:221). For these a write is one step of spec_write, keeps invariant and types, and cleaning up is spec_expire.\<close>

theorem postgres_refines_spec:
  assumes "hex_law X" and "pg_inv db" and "pg_typed db" and "pg_fits X ts_ok e (pg_view X db)"
  shows "\<exists>i n db' c. spec_entry X e = Some (i, n)
    \<and> pg_write_event X ts_ok now None e db = Done (db', Inr c)
    \<and> spec_write X e i n (pg_view X db) = (pg_view X db', c) \<and> pg_inv db' \<and> pg_typed db'
    \<and> (uint later < 2 ^ 63 \<and> ts_ok (uint later) \<longrightarrow>
      map_exec (\<lambda>(db2, _). pg_view X db2) (pg_delete_expired ts_ok later db') = Done (spec_expire later (pg_view X db')))"
proof -
  from assms(4) obtain i n where n: "spec_entry X e = Some (i, n)"
    by (auto simp: pg_fits_def pg_plain_def split: option.splits)
  obtain S c where s: "spec_write X e i n (pg_view X db) = (S, c)" by fastforce
  from pg_write_refines [OF assms n, of now] s obtain db'
    where w: "pg_write_event X ts_ok now None e db = Done (db', Inr c)" "pg_view X db' = S"
    by (cases "pg_write_event X ts_ok now None e db") auto
  have i: "pg_inv db'" by (rule pg_write_inv [OF assms(2) w(1)])
  then have "uint later < 2 ^ 63 \<and> ts_ok (uint later) \<longrightarrow>
      map_exec (\<lambda>(db2, _). pg_view X db2) (pg_delete_expired ts_ok later db') = Done (spec_expire later (pg_view X db'))"
    by (simp add: pg_delete_expired_refines pg_inv_def)
  with n w s i pg_write_typed [OF assms(1,3) w(1)] show ?thesis by blast
qed

theorem postgres_refines_spec_witness:
  "\<exists>db i n S. db = pg_stored metadata1 empty_pg \<and> spec_entry ext0 metadata2 = Some (i, n)
    \<and> spec_write ext0 metadata2 i n (pg_view ext0 db) = (S, 1) \<and> S = pg_view ext0 (pg_stored metadata2 db)
    \<and> S [CHR 0xA1] = None \<and> map_option sd_created (S [CHR 0xA2]) = Some 60"
proof -
  let ?db = "pg_stored metadata1 empty_pg" and ?w = "pg_stored metadata2 (pg_stored metadata1 empty_pg)"
  have inv: "pg_inv ?db" by (simp add: pg_inv_empty)
  have "pg_typed empty_pg" by (simp add: pg_typed_def empty_pg_def)
  moreover have "map_exec snd (pg_write_event ext0 (\<lambda>t. True) 100 None metadata1 empty_pg) = Done (Inr 1)" by code_simp
  ultimately have ty: "pg_typed ?db" using pg_write_typed [OF hex_law_ext0 _ pg_stored_result] by blast
  have pl: "pg_plain ext0 (\<lambda>t. True) metadata2" by code_simp
  have "map pe_kind (pg_events ?db) = [0]" by code_simp
  then have "\<forall>r \<in> set (pg_events ?db). pe_kind r \<noteq> 5" by (auto simp: map_eq_Cons_conv)
  then have ft: "pg_fits ext0 (\<lambda>t. True) metadata2 (pg_view ext0 ?db)"
    using inv pl by (auto simp: pg_fits_def some_stored_pg pg_inv_def deletes_def)
  have w: "map_exec snd (pg_write_event ext0 (\<lambda>t. True) 100 None metadata2 ?db) = Done (Inr 1)" by code_simp
  from postgres_refines_spec [OF hex_law_ext0 inv ty ft, of 100 0] pg_stored_result [OF w]
  obtain i n where n: "spec_entry ext0 metadata2 = Some (i, n)"
    "spec_write ext0 metadata2 i n (pg_view ext0 ?db) = (pg_view ext0 ?w, 1)" by auto
  have "map (\<lambda>r. (pe_id r, pe_created r)) (pg_events ?w) = [([CHR 0xA2], 60)]" by code_simp
  then have "pg_view ext0 ?w [CHR 0xA1] = None" "map_option sd_created (pg_view ext0 ?w [CHR 0xA2]) = Some 60"
    by (auto simp: pg_view_def map_eq_Cons_conv)
  with n show ?thesis by blast
qed

text \<open>C14: Both databases, started empty and given the same plain events at any times, accept the same events and end with the same contents, when no deletion comes before an event that it deletes.\<close>

theorem stores_agree:
  assumes "hex_law X" and "list_all (pg_plain X ts_ok) es" and "deletions_follow X [] es"
    and "list_all (\<lambda>e. \<exists>i. 1 \<le> i \<and> i \<le> 10 \<and> busy e i = None) es"
  shows "\<exists>db pg acc. exec_writes (\<lambda>e db. Done (write_event X (now e) (busy e) e db)) es empty_db = Done (db, acc)
    \<and> exec_writes (\<lambda>e. pg_write_event X ts_ok (now' e) None e) es empty_pg = Done (pg, acc)
    \<and> sql_view db = pg_view X pg"
  using assms by (rule empty_stores)

theorem stores_agree_witness:
  "\<exists>db pg acc. exec_writes (\<lambda>e db. Done (write_event ext0 100 (\<lambda>i. None) e db)) [long_note, metadata1, long_deletion, metadata2] empty_db
      = Done (db, acc)
    \<and> exec_writes (\<lambda>e. pg_write_event ext0 (\<lambda>t. True) 200 None e) [long_note, metadata1, long_deletion, metadata2] empty_pg = Done (pg, acc)
    \<and> sql_view db = pg_view ext0 pg \<and> acc = [long_note, metadata1, long_deletion, metadata2]"
proof -
  let ?es = "[long_note, metadata1, long_deletion, metadata2]"
  have c: "list_all (pg_plain ext0 (\<lambda>t. True)) ?es" "deletions_follow ext0 [] ?es" by code_simp+
  have b: "list_all (\<lambda>e. \<exists>i. 1 \<le> i \<and> i \<le> 10 \<and> (\<lambda>(e :: event) (i :: nat). None :: string option) e i = None) ?es"
    by (auto intro!: exI [of _ "1 :: nat"])
  from stores_agree [where now = "\<lambda>e. 100" and now' = "\<lambda>e. 200", OF hex_law_ext0 c b] obtain db pg acc
    where r: "exec_writes (\<lambda>e db. Done (write_event ext0 100 (\<lambda>i. None) e db)) ?es empty_db = Done (db, acc)"
      "exec_writes (\<lambda>e. pg_write_event ext0 (\<lambda>t. True) 200 None e) ?es empty_pg = Done (pg, acc)"
      "sql_view db = pg_view ext0 pg" by (elim exE conjE) (rule that)
  have "map_exec snd (exec_writes (\<lambda>e db. Done (write_event ext0 100 (\<lambda>i. None) e db)) ?es empty_db) = Done ?es"
    by code_simp
  then have "acc = ?es" unfolding r(1) by simp
  with r show ?thesis by blast
qed

text \<open>C15: When a replaceable event is stored, it becomes the only row of its author and kind, with its own text and visible, and every row that was there before is older.\<close>

theorem replaceable_latest_wins:
  assumes "db_inv db" and "is_replaceable e" and "persist_event X now e db = (db', Inr 1)"
    and "hex_decode X (e_pubkey e) = Some pk"
  shows "\<exists>r. author_kind_rows pk (uint (e_kind e)) db' = [r] \<and> hex_decode X (e_id e) = Some (ev_hash r)
    \<and> json_to_string X (event_to_json e) = Some (ev_content r) \<and> \<not> ev_hidden r
    \<and> (\<forall>s \<in> set (author_kind_rows pk (uint (e_kind e)) db). ev_created s < ev_created r)"
  using assms by (rule persist_replaceable)

theorem replaceable_latest_wins_witness:
  "\<exists>r. author_kind_rows [CHR 0xBB] 0 (stored metadata2 (stored metadata1 empty_db)) = [r]
    \<and> ev_hash r = [CHR 0xA2]"
proof -
  have r: "is_replaceable metadata2" "hex_decode ext0 (e_pubkey metadata2) = Some [CHR 0xBB]"
    "hex_decode ext0 (e_id metadata2) = Some [CHR 0xA2]" "uint (e_kind metadata2) = 0"
    by code_simp+
  have p: "snd (persist_event ext0 100 metadata2 (stored metadata1 empty_db)) = Inr 1" by code_simp
  show ?thesis
    using replaceable_latest_wins [OF _ r(1) stored_result [OF p] r(2)] r(3,4) by (auto simp: sample_ok)
qed

text \<open>C16: Over a whole run of the writer, an event that becomes visible in the store was broadcast to the connected clients: nothing is stored silently.\<close>

theorem visible_was_published:
  assumes "we_repo env = (\<lambda>t. sqlite_repo X (jit t) t (busy t))"
    and "db_writer env sus w = Done (w1, outs, err)" and "visible (w_db w1) h"
  shows "visible (w_db w) h \<or> (\<exists>e. Broadcast e \<in> set outs \<and> hex_decode X (e_id e) = Some h)"
  using assms by (rule sqlite_writer.db_writer_vis)

theorem visible_was_published_witness:
  "\<exists>w1 outs err. db_writer (sample_env default_settings) [(100, \<lambda>i. 0, submitted note1)] sample_writer
     = Done (w1, outs, err) \<and> visible (w_db w1) [CHR 0xA3]
     \<and> (\<exists>e. Broadcast e \<in> set outs \<and> hex_decode ext0 (e_id e) = Some [CHR 0xA3])"
proof -
  let ?run = "db_writer (sample_env default_settings) [(100, \<lambda>i. 0, submitted note1)] sample_writer"
  have "map_exec (\<lambda>(w1, outs, err). map (\<lambda>r. (ev_hash r, ev_hidden r)) (events (w_db w1))) ?run
      = Done [([CHR 0xA3], False)]" by code_simp
  then obtain w1 outs err where r: "?run = Done (w1, outs, err)"
    and ev: "map (\<lambda>r. (ev_hash r, ev_hidden r)) (events (w_db w1)) = [([CHR 0xA3], False)]"
    by (auto simp: map_exec_eq_Done)
  have v: "visible (w_db w1) [CHR 0xA3]" using ev by (auto simp: visible_def map_eq_Cons_conv)
  have "visible (w_db sample_writer) [CHR 0xA3] \<or>
      (\<exists>e. Broadcast e \<in> set outs \<and> hex_decode ext0 (e_id e) = Some [CHR 0xA3])"
    by (rule visible_was_published [OF _ r v, of ext0 "\<lambda>t. 0" "\<lambda>t. no_failures"]) (simp add: sample_env_def)
  then show ?thesis using r v by (auto simp: sample_writer_def empty_db_def visible_def)
qed

text \<open>C17: The writer broadcasts only the event it was given, only when it passed every check, and either it is ephemeral or the store accepted it; and then the author gets an acceptance.\<close>

theorem broadcast_is_justified:
  assumes "process_event env now clk su w = Done (w1, outs, err)" and "Broadcast x \<in> set outs"
  shows "x = su_event su \<and> admissible env now clk su w
    \<and> (is_ephemeral x \<or> (\<exists>n. snd (rp_write_event (we_repo env now) x (w_db w)) = Inr n \<and> n \<noteq> 0))
    \<and> Notify (notice_saved (e_id x)) \<in> set outs"
  using process_event_broadcast [OF assms] by blast

theorem broadcast_is_justified_witness:
  "\<exists>w1 outs err. process_event (sample_env default_settings) 100 (\<lambda>i. 0) (submitted note1) sample_writer
     = Done (w1, outs, err) \<and> Notify (notice_saved ''a3'') \<in> set outs"
proof -
  let ?run = "process_event (sample_env default_settings) 100 (\<lambda>i. 0) (submitted note1) sample_writer"
  have "map_exec (\<lambda>(w1, outs, err). outs) ?run = Done [Broadcast note1, Notify (notice_saved ''a3'')]" by code_simp
  then obtain w1 outs err where r: "?run = Done (w1, outs, err)" and o: "Broadcast note1 \<in> set outs"
    by (auto simp: map_exec_eq_Done)
  from broadcast_is_justified [OF r o] r show ?thesis by (auto simp: note1_def sample_def)
qed

text \<open>C18: An event that fails a check changes nothing in the store and is not broadcast, the writer goes on, and whatever its author is told has a known machine-readable prefix and the status of that prefix, which is never that of a saved event. (One of the prefixes is that of duplicates: a configured text, or one of the admission service, that starts with it makes the OK message an acceptance although the event was refused, see the finding for notice.rs:146.)\<close>

theorem rejection_changes_nothing:
  assumes "process_event env now clk su w = Done (w1, outs, err)" and "\<not> admissible env now clk su w"
  shows "w_db w1 = w_db w \<and> err = None \<and> (\<forall>x. Broadcast x \<notin> set outs)
    \<and> (\<forall>n. Notify n \<in> set outs \<longrightarrow> (\<exists>p m s. p \<in> set known_prefixes \<and> from_prefix p = Some s \<and> s \<noteq> Saved
         \<and> n = EventResult \<lparr>er_id = e_id (su_event su), er_msg = p @ '': '' @ m, er_status = s\<rparr>))"
proof -
  have rej: "rejection (e_id (su_event su)) outs" by (rule process_event_reject(3) [OF assms])
  have "\<exists>p m s. p \<in> set known_prefixes \<and> from_prefix p = Some s \<and> s \<noteq> Saved
      \<and> n = EventResult \<lparr>er_id = e_id (su_event su), er_msg = p @ '': '' @ m, er_status = s\<rparr>"
    if "Notify n \<in> set outs" for n
  proof -
    from rej that obtain m s where "s \<noteq> Saved" "n = prefixed (e_id (su_event su)) m s"
      by (auto simp: rejection_def)
    then show ?thesis by (metis prefixed_cases)
  qed
  with process_event_reject [OF assms] rejection_no_broadcast [OF rej] show ?thesis by blast
qed

theorem rejection_changes_nothing_witness:
  "\<exists>w1 outs err. process_event (sample_env (default_settings\<lparr>st_limits :=
       (st_limits default_settings)\<lparr>event_kind_blacklist := Some [1]\<rparr>\<rparr>)) 100 (\<lambda>i. 0) (submitted note1) sample_writer
     = Done (w1, outs, err) \<and> w_db w1 = empty_db \<and> (\<exists>m. outs = [Notify (EventResult m)] \<and> er_status m \<noteq> Saved)"
proof -
  let ?env = "sample_env (default_settings\<lparr>st_limits :=
       (st_limits default_settings)\<lparr>event_kind_blacklist := Some [1]\<rparr>\<rparr>)"
  let ?run = "process_event ?env 100 (\<lambda>i. 0) (submitted note1) sample_writer"
  have "map_exec (\<lambda>(w1, outs, err). outs) ?run
      = Done [Notify (notice_blocked ''a3'' ''event kind is blocked by relay'')]" by code_simp
  then obtain w1 outs err where r: "?run = Done (w1, outs, err)"
    and o: "outs = [Notify (notice_blocked ''a3'' ''event kind is blocked by relay'')]"
    by (auto simp: map_exec_eq_Done)
  have "kind_lists_stage (st_limits (we_settings ?env)) (su_event (submitted note1)) \<noteq> Proceed ()" by code_simp
  then have "\<not> admissible ?env 100 (\<lambda>i. 0) (submitted note1) sample_writer" by (simp add: admissible_def Let_def)
  from rejection_changes_nothing [OF r this] o r show ?thesis by (auto simp: sample_writer_def)
qed

text \<open>C19: An event that is not itself a deletion (kind 5, for which the code skips the check) and whose author has already published a deletion naming it is never accepted as new, whatever else is stored.\<close>

theorem deleted_stays_deleted:
  assumes "db_inv db" and "e_kind e \<noteq> 5" and "hex_decode X (e_pubkey e) = Some pk"
    and "d \<in> set (events db)" and "ev_author d = pk" and "t \<in> set (tags db)" and "tg_event t = ev_id d"
    and "tg_name t = ''e''" and "tg_kind t = 5" and "tg_value t = e_id e"
  shows "snd (persist_event X now e db) \<noteq> Inr 1"
proof (rule persist_deleted [OF assms(1-3)])
  show "deletion_recorded pk (e_id e) db" using assms(4-) unfolding deletion_recorded_iff by blast
qed

theorem deleted_stays_deleted_witness:
  "snd (persist_event ext0 100 note1 (stored (sample ''d1'' ''bb'' 70 5 [[''e'', ''a3'']]) empty_db)) \<noteq> Inr 1"
proof -
  let ?db = "stored (sample ''d1'' ''bb'' 70 5 [[''e'', ''a3'']]) empty_db"
  have "map (\<lambda>d. (ev_author d, ev_id d)) (events ?db) = [([CHR 0xBB], 1)]"
    "map (\<lambda>t. (tg_event t, tg_name t, tg_kind t, tg_value t)) (tags ?db) = [(1, ''e'', 5, ''a3'')]" by code_simp+
  then obtain d t where r: "d \<in> set (events ?db)" "ev_author d = [CHR 0xBB]" "t \<in> set (tags ?db)"
      "tg_event t = ev_id d" "tg_name t = ''e''" "tg_kind t = 5" "tg_value t = ''a3''"
    by (auto simp: map_eq_Cons_conv)
  have n: "e_kind note1 \<noteq> 5" "hex_decode ext0 (e_pubkey note1) = Some [CHR 0xBB]" "e_id note1 = ''a3''" by code_simp+
  show ?thesis
    by (rule deleted_stays_deleted [OF _ n(1,2) r(1-6)]) (simp_all add: sample_ok n(3) r(7))
qed

section \<open>Queries and subscriptions\<close>

text \<open>C20: With a limit, a filter returns the latest matches: as many as the limit allows and there are, latest first, and no row that was left out is later than one that was returned.\<close>

theorem query_latest:
  assumes "db_inv db" and "mset (scan (events db)) = mset (events db)" and "sql_u64 now \<noteq> None"
    and "f_limit f = Some n" and "sql_u64 n = Some m"
  shows "\<exists>rs rest. run_filter X now scan db f = Inr (map ev_content rs)
    \<and> mset (rs @ rest) = mset (filter (\<lambda>r. current_row now r \<and> row_matches X db f r) (events db))
    \<and> length rs = min (unat n) (length rs + length rest)
    \<and> sorted (map (\<lambda>r. - ev_created r) rs)
    \<and> (\<forall>x \<in> set rs. \<forall>y \<in> set rest. ev_created y \<le> ev_created x)"
proof -
  from select_limit [where scan = scan and X = X, OF assms] obtain rs rest
    where s: "select_rows scan db (select_of_filter X now f) = Inr rs"
      and h: "mset (rs @ rest) = mset (hits X now db f)" "length rs = min (unat n) (length (hits X now db f))"
      and o: "sorted (map (\<lambda>r. - ev_created r) rs)" "\<forall>x \<in> set rs. \<forall>y \<in> set rest. ev_created y \<le> ev_created x"
    by blast
  have "length (hits X now db f) = length rs + length rest" using mset_eq_length [OF h(1)] by simp
  with s h o show ?thesis unfolding run_filter_def hits_def by (intro exI [of _ rs] exI [of _ rest]) simp
qed

theorem query_latest_witness:
  "\<exists>(rs :: event_row list) (rest :: event_row list). run_filter ext0 100 rev (stored note1 (stored metadata1 empty_db)) (empty_filter\<lparr>f_limit := Some 1\<rparr>)
      = Inr (map ev_content rs) \<and> length rs = min 1 (length rs + length rest)"
proof -
  let ?db = "stored note1 (stored metadata1 empty_db)"
  have n: "sql_u64 100 \<noteq> None" "f_limit (empty_filter\<lparr>f_limit := Some 1\<rparr>) = Some 1" "sql_u64 1 = Some 1" by code_simp+
  have "db_inv ?db" by (intro sample_ok)
  from query_latest [where scan = rev and X = ext0, OF this mset_rev n] obtain rs rest :: "event_row list"
    where "run_filter ext0 100 rev ?db (empty_filter\<lparr>f_limit := Some 1\<rparr>) = Inr (map ev_content rs)"
      "length rs = min (unat (1 :: u64)) (length rs + length rest)" by blast
  then show ?thesis by (intro exI [of _ rs] exI [of _ rest]) simp
qed


text \<open>C22: For filters of full identifiers and an event without a delegation, the row that is stored for the event matches a filter in the database exactly when the event matches it on the live path, tags included.\<close>

theorem stored_and_live_agree:
  assumes "hex_law X" and "db_inv db" and "new_event_row X now e db = Inr (Some r)" and "e_tagidx e = None"
    and "full_id (e_id e)" "full_id (e_pubkey e)" "e_delegated_by e = None"
    and "full_ids (f_ids f)" "full_ids (f_authors f)"
  shows "row_matches X (insert_event r e db) f r \<longleftrightarrow> filter_interested f (build_index e)"
proof (rule live_matches_stored [OF assms(1)])
  show "row_of_event X (insert_event r e db) (build_index e) r"
    using insert_event_row [OF assms(2,3)] by (simp add: row_of_event_def)
qed (use assms is_indexed_build in simp_all)

theorem stored_and_live_agree_witness:
  "\<exists>r. new_event_row ext0 100 (sample (replicate 64 CHR ''a'') (replicate 64 CHR ''b'') 50 1 []) empty_db = Inr (Some r)
    \<and> (row_matches ext0 (insert_event r (sample (replicate 64 CHR ''a'') (replicate 64 CHR ''b'') 50 1 []) empty_db)
          (empty_filter\<lparr>f_ids := Some [replicate 64 CHR ''a'']\<rparr>) r \<longleftrightarrow>
        filter_interested (empty_filter\<lparr>f_ids := Some [replicate 64 CHR ''a'']\<rparr>)
          (build_index (sample (replicate 64 CHR ''a'') (replicate 64 CHR ''b'') 50 1 [])))"
proof -
  let ?e = "sample (replicate 64 CHR ''a'') (replicate 64 CHR ''b'') 50 1 []"
    and ?f = "empty_filter\<lparr>f_ids := Some [replicate 64 CHR ''a'']\<rparr>"
  have "(case new_event_row ext0 100 ?e empty_db of Inr (Some r) \<Rightarrow> True | _ \<Rightarrow> False)" by code_simp
  then obtain r where r: "new_event_row ext0 100 ?e empty_db = Inr (Some r)"
    by (auto split: sum.splits option.splits)
  have f: "full_id (e_id ?e)" "full_id (e_pubkey ?e)" "full_id (replicate 64 CHR ''a'')" by code_simp+
  have "row_matches ext0 (insert_event r ?e empty_db) ?f r \<longleftrightarrow> filter_interested ?f (build_index ?e)"
    by (rule stored_and_live_agree [OF hex_law_ext0 db_inv_empty r _ f(1,2)])
      (simp_all add: f(3) full_ids_def empty_filter_def sample_def)
  with r show ?thesis by blast
qed

text \<open>C23: Matching through the tag index that is built for an event is matching on its fields and tags themselves: prefixes of identifier and author, kinds, time range, and one value for every tag of the filter.\<close>

theorem matching_meets_spec:
  assumes "e_tagidx e = None"
  shows "filter_interested f (build_index e) \<longleftrightarrow>
     (\<forall>ids. f_ids f = Some ids \<longrightarrow> (\<exists>p \<in> set ids. \<exists>r. e_id e = p @ r))
     \<and> (\<forall>ks. f_kinds f = Some ks \<longrightarrow> e_kind e \<in> set ks)
     \<and> (\<forall>t. f_since f = Some t \<longrightarrow> t \<le> e_created_at e)
     \<and> (\<forall>t. f_until f = Some t \<longrightarrow> e_created_at e \<le> t)
     \<and> (\<forall>as. f_authors f = Some as \<longrightarrow> (\<exists>p \<in> set as. \<exists>r. e_pubkey e = p @ r \<or> e_delegated_by e = Some (p @ r)))
     \<and> (\<forall>m. f_tags f = Some m \<longrightarrow> (\<forall>(k, vs) \<in> set m. \<exists>v \<in> set vs. indexed_tag (e_tags e) k v))
     \<and> \<not> force_no_match f"
  using filter_interested_spec [OF is_indexed_build [OF assms], of f] by (simp add: filter_spec_def)

theorem matching_meets_spec_witness:
  "filter_interested (empty_filter\<lparr>f_tags := Some [(''t'', [''x'', ''y''])]\<rparr>)
     (build_index (sample ''a1'' ''bb'' 50 1 [[''t'', ''y'']]))"
proof -
  have "indexed_tag [[''t'', ''y'']] ''t'' ''y''" by (simp add: indexed_tag_def single_char_tagname_def)
  then show ?thesis
    by (subst matching_meets_spec) (simp_all add: sample_def empty_filter_def)
qed

text \<open>C24: The only texts a connection sends are the end of stored events and events that its client may see: the kind is allowed, the event is not expired, and the read rules of its kind admit the client. Where the settings protect private messages (nip42_dms, which is off by default), such a message goes only to its sender or its recipient once they have authenticated; by default it goes to everybody who asks.\<close>

theorem sent_is_allowed:
  assumes "client_turn X st info now inp cl = Done (cl', outs, go)" and "SendText t \<in> set outs"
  shows "(\<exists>sub. t = eose_text sub) \<or> (\<exists>sub s v e. t = event_text sub s
    \<and> json_from_str X s = Some v \<and> event_from_json v = Some e
    \<and> is_kind_allowed (e_kind e) (st_kind_filters st) \<and> \<not> is_expired now e
    \<and> (\<forall>k. map_of (kf_filters (st_kind_filters st)) (e_kind e) = Some k \<longrightarrow>
         (k_require_auth k \<longrightarrow> auth_pubkey (cl_conn cl) \<noteq> None)
         \<and> (\<forall>r. k_read k = Some r \<longrightarrow> check_write_read_config X r e (auth_pubkey (cl_conn cl)) (info_pubkey (st_info st)) True))
    \<and> (nip42_dms (st_authorization st) \<and> e_kind e \<in> {4, 44, 1059} \<longrightarrow>
         (\<exists>a p ps. auth_pubkey (cl_conn cl) = Some a \<and> tag_values_by_name e ''p'' = p # ps \<and> (p = a \<or> e_pubkey e = a))))"
  using client_turn_sends [OF assms]
  unfolding allowed_to_send_iff kind_read_allowed_iff dm_allowed_iff by blast

theorem sent_is_allowed_witness:
  "\<exists>t. client_turn valid_ext default_settings sample_info 100 (QueryRow ''q'' ''m'') sample_client
     = Done (sample_client, [SendText t], True) \<and>
     ((\<exists>sub. t = eose_text sub) \<or> (\<exists>sub s v e. t = event_text sub s
        \<and> json_from_str valid_ext s = Some v \<and> event_from_json v = Some e \<and> \<not> is_expired 100 e))"
proof -
  let ?t = "event_text ''q'' ''m''"
  have r: "client_turn valid_ext (default_settings\<lparr>st_authorization := st_authorization default_settings\<rparr>)
      sample_info 100 (QueryRow ''q'' ''m'') sample_client = Done (sample_client, [SendText ?t], True)"
    by code_simp
  then have r: "client_turn valid_ext default_settings sample_info 100 (QueryRow ''q'' ''m'') sample_client
      = Done (sample_client, [SendText ?t], True)" by simp
  from sent_is_allowed [OF r, of ?t] have "(\<exists>sub. ?t = eose_text sub) \<or> (\<exists>sub s v e. ?t = event_text sub s
        \<and> json_from_str valid_ext s = Some v \<and> event_from_json v = Some e \<and> \<not> is_expired 100 e)" by auto
  with r show ?thesis by blast
qed

text \<open>C25: A connection counts as authenticated for a key only after its client sent a valid authentication event of that key, within the accepted time, that answers a challenge the relay sent on this very connection.\<close>

theorem authenticated_client_signed_challenge:
  assumes "client_run X st info ins cl outs" and "auth_pubkey (cl_conn cl) = Some pk"
  shows "\<exists>now m ec e u. (now, FromClient (WsText m)) \<in> set ins
    \<and> convert_to_msg X m (max_event_bytes (st_limits st)) = Inr (EventMsg ec)
    \<and> wrap_event_cmd X ec = Done (Inr (WrappedAuth e)) \<and> e_pubkey e = pk
    \<and> SendJson (make_notice_message (AuthChallenge u)) \<in> set outs
    \<and> validate X e = Inr () \<and> e_kind e = 22242 \<and> auth_window now e
    \<and> fst (auth_tags (e_tags e) None None) = Some u"
  using client_run_auth [OF assms] unfolding auth_answer_def by blast

theorem authenticated_client_signed_challenge_witness:
  "\<exists>ins cl outs now m ec e u. client_run auth_ext auth_settings sample_info ins cl outs
     \<and> auth_pubkey (cl_conn cl) = Some ''bb''
     \<and> (now, FromClient (WsText m)) \<in> set ins
     \<and> wrap_event_cmd auth_ext ec = Done (Inr (WrappedAuth e)) \<and> e_pubkey e = ''bb''
     \<and> SendJson (make_notice_message (AuthChallenge u)) \<in> set outs"
proof -
  let ?start = "start_client ''u'' ''ch'' sample_info auth_settings"
  let ?turn = "client_turn auth_ext auth_settings sample_info 650 (FromClient (WsText ''m'')) (fst ?start)"
  have "map_exec (\<lambda>(cl, outs, go). (auth_pubkey (cl_conn cl), go)) ?turn = Done (Some ''bb'', True)" by code_simp
  then obtain cl outs where t: "?turn = Done (cl, outs, True)" and a: "auth_pubkey (cl_conn cl) = Some ''bb''"
    by (auto simp: map_exec_eq_Done)
  have r: "client_run auth_ext auth_settings sample_info ([] @ [(650, FromClient (WsText ''m''))]) cl (snd ?start @ outs)"
    by (rule client_run.turn [OF client_run.begin_run t]) simp
  from authenticated_client_signed_challenge [OF r a] r a show ?thesis by blast
qed

text \<open>C26: What becomes of a filter of a client message, whatever it asks for, when it is printed and read again: everything is as before except two things, the search for a tag with a longer name, of which the code keeps only that nothing may match (force_no_match), and a search for no tags. So the filter read again matches the same events, unless nothing may match.\<close>

theorem filter_roundtrip:
  assumes "filter_from_json j = Some f"
  shows "\<exists>g. filter_from_json (filter_to_json f) = Some g
    \<and> g = f\<lparr>force_no_match := False, f_tags := (if f_tags f = Some [] then None else f_tags f)\<rparr>
    \<and> (\<forall>e. filter_interested f e \<longleftrightarrow> \<not> force_no_match f \<and> filter_interested g e)"
proof -
  note p = filter_from_json_parsed [OF assms]
  have "filter_interested f e \<longleftrightarrow> \<not> force_no_match f \<and> filter_interested
      (f\<lparr>force_no_match := False, f_tags := (if f_tags f = Some [] then None else f_tags f)\<rparr>) e" for e
    using filter_reread_interested [of f e] by (cases "force_no_match f") (simp_all add: filter_interested_def)
  with filter_json_roundtrip [OF p] show ?thesis by blast
qed

theorem filter_roundtrip_witness:
  "\<exists>f g. filter_from_json (JObject [(''kinds'', JArray [json_u64 1]), (''#tt'', JArray [JString ''x''])]) = Some f
     \<and> filter_from_json (filter_to_json f) = Some g \<and> f_kinds g = Some [1]
     \<and> \<not> filter_interested f note1 \<and> filter_interested g note1"
proof -
  let ?j = "JObject [(''kinds'', JArray [json_u64 1]), (''#tt'', JArray [JString ''x''])]"
  have "map_option (\<lambda>f. f_kinds f = Some [1] \<and> force_no_match f \<and> \<not> filter_interested f note1
      \<and> filter_interested (f\<lparr>force_no_match := False, f_tags := (if f_tags f = Some [] then None else f_tags f)\<rparr>) note1)
    (filter_from_json ?j) = Some True" by code_simp
  then obtain f where f: "filter_from_json ?j = Some f" "f_kinds f = Some [1]" "\<not> filter_interested f note1"
      "filter_interested (f\<lparr>force_no_match := False, f_tags := (if f_tags f = Some [] then None else f_tags f)\<rparr>) note1" by auto
  from filter_roundtrip [OF f(1)] f show ?thesis by auto
qed

section \<open>Locks and background tasks\<close>

text \<open>C27: The operations of the SQLite repository that must write alone do: whatever calls the tasks make (the writer, the verifier and the payment code all write events) and however they are interleaved, at most one of migration, write of an event, change of a verification, checkpoint and clean-up is at its work at any time, since each takes the write lock before it; at most two calls work on connections of the write pool (the account functions take no lock); and a call that has finished holds nothing.\<close>

theorem locks_exclusive:
  assumes "reach L s"
  shows "(\<forall>i j. i < length s \<and> j < length s \<and> at_work (s ! i) \<and> at_work (s ! j)
        \<and> writes_alone (cl_op (s ! i)) \<and> writes_alone (cl_op (s ! j)) \<longrightarrow> i = j)
    \<and> length (filter (\<lambda>p. at_work p \<and> uses_write_pool (cl_op p)) s) \<le> 2
    \<and> (\<forall>p \<in> set s. cl_todo p = [] \<longrightarrow> cl_held p = [])"
  using one_writer [OF assms] two_on_write_pool [OF assms] finished_holds_nothing [OF reach_calls_ok [OF assms]]
  by blast

theorem locks_exclusive_witness:
  "\<exists>s. run_schedule small_limits
        [Start DbWriter WriteEvent, Go 0, Go 0, Go 0, Start VerifierTask WriteEvent, Start WebOrPayment AccountOp, Go 2, Go 2] [] = Some s
    \<and> map at_work s = [True, False, True] \<and> map cl_op s = [WriteEvent, WriteEvent, AccountOp]
    \<and> advance small_limits False 1 s = None
    \<and> length (filter (\<lambda>p. at_work p \<and> uses_write_pool (cl_op p)) s) \<le> 2"
proof -
  let ?cs = "[Start DbWriter WriteEvent, Go 0, Go 0, Go 0, Start VerifierTask WriteEvent, Start WebOrPayment AccountOp, Go 2, Go 2]"
  have "map_option (\<lambda>s. map at_work s = [True, False, True] \<and> map cl_op s = [WriteEvent, WriteEvent, AccountOp]
      \<and> advance small_limits False 1 s = None) (run_schedule small_limits ?cs []) = Some True" by code_simp
  then obtain s where s: "run_schedule small_limits ?cs [] = Some s"
    and m: "map at_work s = [True, False, True] \<and> map cl_op s = [WriteEvent, WriteEvent, AccountOp]
      \<and> advance small_limits False 1 s = None" by auto
  from locks_exclusive [OF run_schedule_reach [OF reach_init s], THEN conjunct2, THEN conjunct1]
  have "length (filter (\<lambda>p. at_work p \<and> uses_write_pool (cl_op p)) s) \<le> 2" .
  with s m show ?thesis by (intro exI [of _ s] conjI) (simp_all only:)
qed

text \<open>C28: With at least two blocking threads and three readers the calls to the SQLite repository never block each other for good, whichever tasks write events: every step leaves less to do, and a run can only end when all calls have finished.\<close>

theorem calls_finish:
  assumes "reach L s" and "2 \<le> blocking_threads L" and "3 \<le> reader_conns L"
  shows "(\<forall>s'. (\<lambda>s s'. \<exists>quit i. advance L quit i s = Some s')\<^sup>*\<^sup>* s s' \<and> (\<forall>quit i. advance L quit i s' = None) \<longrightarrow>
        (\<forall>p \<in> set s'. cl_todo p = []))
    \<and> (\<forall>quit i s'. advance L quit i s = Some s' \<longrightarrow> work_left s' < work_left s)
    \<and> (\<exists>s'. (\<lambda>s s'. \<exists>i. advance L False i s = Some s')\<^sup>*\<^sup>* s s' \<and> (\<forall>p \<in> set s'. cl_todo p = []))"
proof -
  have "reach L s'" if "(\<lambda>s s'. \<exists>quit i. advance L quit i s = Some s')\<^sup>*\<^sup>* s s'" for s'
    using that by (induction rule: rtranclp_induct) (auto intro: assms(1) reach_step)
  then have "\<forall>s'. (\<lambda>s s'. \<exists>quit i. advance L quit i s = Some s')\<^sup>*\<^sup>* s s' \<and> (\<forall>quit i. advance L quit i s' = None) \<longrightarrow>
        (\<forall>p \<in> set s'. cl_todo p = [])"
    using never_stuck [OF _ _ assms(2,3)] unfolding stuck_def by blast
  with advance_less_work [OF assms(1)] run_ends [OF assms] show ?thesis by blast
qed

theorem calls_finish_witness:
  "\<exists>s s'. run_schedule small_limits [Start DbWriter WriteEvent, Go 0, Start CleanupTask CleanupRound, Go 1] [] = Some s
    \<and> (\<lambda>s s'. \<exists>i. advance small_limits False i s = Some s')\<^sup>*\<^sup>* s s' \<and> (\<forall>p \<in> set s'. cl_todo p = []) \<and> length s = 2"
proof -
  let ?cs = "[Start DbWriter WriteEvent, Go 0, Start CleanupTask CleanupRound, Go 1]"
  have "map_option length (run_schedule small_limits ?cs []) = Some 2" by code_simp
  then obtain s where s: "run_schedule small_limits ?cs [] = Some s" "length s = 2" by auto
  have "2 \<le> blocking_threads small_limits" "3 \<le> reader_conns small_limits" by (simp_all add: small_limits_def)
  from calls_finish [OF run_schedule_reach [OF reach_init s(1)] this] s show ?thesis by blast
qed

text \<open>C29: A defect: a query gives its permit back before it sends the end mark, and waits for the client with a blocking thread held. So as many clients that do not read as there are threads hold all of them with no permit taken, and no other call that needs a thread goes on.\<close>

theorem eose_holds_threads:
  assumes "1 \<le> reader_conns L"
  shows "\<exists>s. reach L s \<and> holders BlockingThread s = blocking_threads L \<and> holders ReaderPermit s = 0
    \<and> (\<forall>p \<in> set s. cl_task p = ClientQuery \<and> cl_todo p = [Work, Release BlockingThread])
    \<and> (\<forall>p k quit. cl_todo p = Acquire BlockingThread # k \<longrightarrow>
        advance L quit (length s) (s @ [p]) = None)"
proof -
  let ?s = "replicate (blocking_threads L) sending_eose"
  have "advance L quit (length ?s) (?s @ [p]) = None" if "cl_todo p = Acquire BlockingThread # k" for p k quit
    using that by (simp add: advance_last advance_call_def capacity_def sending_eose_def)
  moreover have "\<forall>p \<in> set ?s. cl_task p = ClientQuery \<and> cl_todo p = [Work, Release BlockingThread]"
    by (simp add: sending_eose_def)
  moreover have "holders BlockingThread ?s = blocking_threads L" "holders ReaderPermit ?s = 0"
    by (simp_all add: sending_eose_def)
  ultimately show ?thesis using eose_reach [OF assms, of "blocking_threads L"] by blast
qed

theorem eose_holds_threads_witness:
  "\<exists>s. reach (limits_of default_settings) s \<and> holders BlockingThread s = 16 \<and> holders ReaderPermit s = 0"
  using eose_holds_threads [of "limits_of default_settings"] by (auto simp: default_limits)

section \<open>Accounts, payment and admission\<close>

text \<open>C30: Publishing costs what it should, while the database works: an event that is broadcast and must be paid for takes exactly the cost from its author's account, which had at least that much, and nothing else changes any balance. The charge comes after the broadcast. When its call of the database fails, the event stays published and uncharged, and the error ends the writer (see the finding for db.rs:921); no other event ends it.\<close>

theorem paid_events:
  assumes "process_event env now clk su w = Done (w1, outs, err)" and "e = su_event su"
    and "we_repo env = (\<lambda>t. sqlite_repo X (jit t) t (busy t))"
    and "\<forall>a \<in> set (accounts (w_db w)). ac_balance a < 2 ^ 63"
    and "sql_u64 (cost_per_event (st_pay_to_relay (we_settings env))) = Some c"
  shows "if pays (we_settings env) e \<and> Broadcast e \<in> set outs
    then \<exists>key n. keys_from_pk (we_ext env) (e_pubkey e) = Some key \<and> balance_of (w_db w) key = Some n
      \<and> c \<le> n \<and> (case fl_call (busy now) UpdateBalance of
          None \<Rightarrow> err = None \<and> balance_of (w_db w1) = (balance_of (w_db w))(key \<mapsto> n - c)
        | Some f \<Rightarrow> err = Some (failure_error f) \<and> balance_of (w_db w1) = balance_of (w_db w))
    else err = None \<and> balance_of (w_db w1) = balance_of (w_db w)"
  using assms by (rule process_event_balance)

theorem paid_events_witness:
  "\<exists>w1 outs err. process_event paid_env 100 (\<lambda>i. 0) (submitted note1) paid_writer = Done (w1, outs, err)
    \<and> Broadcast note1 \<in> set outs \<and> balance_of (w_db w1) ''bb'' = Some 7"
proof -
  let ?run = "process_event paid_env 100 (\<lambda>i. 0) (submitted note1) paid_writer"
  have "map_exec (\<lambda>(w1, outs, err). outs) ?run = Done [Broadcast note1, Notify (notice_saved ''a3'')]" by code_simp
  then obtain w1 outs err where r: "?run = Done (w1, outs, err)" and o: "Broadcast note1 \<in> set outs"
    by (auto simp: map_exec_eq_Done)
  have c: "sql_u64 (cost_per_event (st_pay_to_relay (we_settings paid_env))) = Some 3" by code_simp
  have a: "\<forall>a \<in> set (accounts (w_db paid_writer)). ac_balance a < 2 ^ 63"
    by (simp add: paid_writer_def)
  have p: "pays (we_settings paid_env) note1" by (simp add: pays_def paid_env_def sample_env_def default_settings_def)
  have e: "we_repo paid_env = (\<lambda>t. sqlite_repo ext0 0 t no_failures)" by (simp add: paid_env_def sample_env_def)
  have b: "balance_of (w_db paid_writer) ''bb'' = Some 10" "keys_from_pk (we_ext paid_env) (e_pubkey note1) = Some ''bb''"
    by code_simp+
  have s: "note1 = su_event (submitted note1)" by (simp add: submitted_def)
  from paid_events [OF r s e a c] p o b show ?thesis using r o by auto
qed

text \<open>C31: A defect of the payment callback: reporting the same paid invoice again credits nothing more, but each report charges the admission cost once more, so repeated callbacks take an account below zero. (The database calls of the reports succeed here.)\<close>

theorem repeated_callbacks_charge:
  assumes "pm_repo pm = sqlite_repo X jit now busy" and "pp_check_invoice (pm_processor pm) h = Done (Inr Paid)"
    and "fl_call busy UpdateInvoice = None" "fl_call busy AdmitAccount = None"
    and "keys_from_pk (pm_ext pm) p = Some p" and "invoice_of db h = Some ivr" and "iv_status ivr = ''Unpaid''"
    and "iv_pubkey ivr = p" and "balance_of db p = Some b"
    and "sql_u64 (admission_cost (st_pay_to_relay (pm_settings pm))) = Some n"
  shows "balance_of (fst (payment_loop (replicate (Suc k) (pm, rnd, Some (InvoicePaid h))) db)) p
    = Some (b + iv_amount ivr - int (Suc k) * n)"
proof -
  have key: "keys_from_pk (pm_ext pm) (iv_pubkey ivr) = Some (iv_pubkey ivr)" using assms(5,8) by simp
  obtain db' ivr' where e: "on_invoice_paid pm h db = (db', [], Value ())" "invoice_of db' h = Some ivr'"
      "iv_status ivr' = ''Paid''" "iv_pubkey ivr' = iv_pubkey ivr"
      "balance_of db' p = (if p = iv_pubkey ivr
        then map_option (\<lambda>b. b + (if iv_status ivr = ''Unpaid'' then iv_amount ivr else 0) - n) (balance_of db p)
        else balance_of db p)"
    using invoice_paid_effect [OF assms(1,3,4,2,6) key assms(10), of p] by metis
  have b: "balance_of db' p = Some (b + iv_amount ivr - n)" using e(5) assms(7-9) by simp
  have p: "iv_pubkey ivr' = p" using e(4) assms(8) by simp
  show ?thesis
    using paid_loop_again [OF assms(1,3,4,2,5,10) e(2,3) p b, of k rnd] e(1)
    by (simp add: payment_turn_def algebra_simps split: prod.splits)
qed

theorem repeated_callbacks_charge_witness:
  "balance_of (fst (payment_loop (replicate 3 (payment_of (sample_relay paid_settings) 100, 0, Some (InvoicePaid ''h''))) invoice_db)) ''bb''
    = Some (- 3)"
proof -
  let ?pm = "payment_of (sample_relay paid_settings) 100"
  have rp: "pm_repo ?pm = sqlite_repo relay_ext 0 100 no_failures"
    by (simp add: payment_of_def repo_at_def sample_relay_def)
  have chk: "pp_check_invoice (pm_processor ?pm) ''h'' = Done (Inr Paid)" and key: "keys_from_pk (pm_ext ?pm) ''bb'' = Some ''bb''"
    by (simp_all add: payment_of_def sample_relay_def relay_ext_def ext0_def)
  have i: "map_option iv_status (invoice_of invoice_db ''h'') = Some ''Unpaid''"
    "map_option iv_amount (invoice_of invoice_db ''h'') = Some 5" "map_option iv_pubkey (invoice_of invoice_db ''h'') = Some ''bb''"
    and b: "balance_of invoice_db ''bb'' = Some 7"
    and n: "sql_u64 (admission_cost (st_pay_to_relay (pm_settings ?pm))) = Some 5"
    by code_simp+
  then obtain ivr where v: "invoice_of invoice_db ''h'' = Some ivr" "iv_status ivr = ''Unpaid''" "iv_pubkey ivr = ''bb''"
    and a: "iv_amount ivr = 5" by auto
  from repeated_callbacks_charge [OF rp chk _ _ key v b n, of 2 0] a show ?thesis by (simp add: eval_nat_numeral)
qed

text \<open>C32: With the example admission server in place and reachable, every event that the writer broadcasts obeys the rules of that server: an event of a restricted kind has an author who is listed for exactly this kind (a kind whose digits are the end of another's is not confused with it), and the first tag with each required name exists and has one of its values.\<close>

theorem example_rules_enforced:
  assumes "process_event env now clk su w = Done (w1, outs, err)" and "Broadcast e \<in> set outs"
    and "event_admission_server (st_grpc (we_settings env)) \<noteq> None"
    and "we_grpc_call env = Some (rules_service (we_ext env) esc R)"
    and "set (allowed_pubkey_kinds R) = (\<lambda>(pk, k). pk @ '':'' @ u64_to_string k) ` allowed"
    and "hex_decode (we_ext env) (e_id e) \<noteq> None" and "hex_decode (we_ext env) (e_sig e) \<noteq> None"
    and "hex_decode (we_ext env) (e_pubkey e) = Some pk"
  shows "((\<exists>key. (key, e_kind e) \<in> allowed) \<longrightarrow> (hex_encode (we_ext env) pk, e_kind e) \<in> allowed)
    \<and> (\<forall>req name vals. map_of (required_tags R) (e_kind e) = Some req \<and> (name, vals) \<in> set req \<longrightarrow>
        (\<exists>t. find (\<lambda>t. t \<noteq> [] \<and> hd t = name) (e_tags e) = Some t
          \<and> (vals = [] \<or> set vals \<inter> set (drop 1 t) \<noteq> {})))"
proof -
  note b = process_event_broadcast [OF assms(1,2)]
  from admissible_asks [OF b(2) assms(3,4)] assms(6-8) b(1)
  have "rules_hold R (hex_encode (we_ext env) pk) (e_kind e) (e_tags e)" by (auto simp: rules_service_result)
  with restriction_is_of_kind [OF assms(5)] show ?thesis
    using rules_hold_author rules_hold_tag by (metis (no_types, lifting))
qed

theorem example_rules_enforced_witness:
  "\<exists>w1 outs err t. process_event ruled_env 100 (\<lambda>i. 0) (submitted tagged_note) sample_writer = Done (w1, outs, err)
    \<and> Broadcast tagged_note \<in> set outs \<and> (''bb'', 1) \<in> {(''bb'', 1 :: u64)}
    \<and> find (\<lambda>t. t \<noteq> [] \<and> hd t = ''t'') (e_tags tagged_note) = Some t \<and> {''x'', ''y''} \<inter> set (drop 1 t) \<noteq> {}"
proof -
  have "map_exec (\<lambda>(w1, outs, err). Broadcast tagged_note \<in> set outs)
      (process_event ruled_env 100 (\<lambda>i. 0) (submitted tagged_note) sample_writer) = Done True" by code_simp
  then obtain w1 outs err where
    p: "process_event ruled_env 100 (\<lambda>i. 0) (submitted tagged_note) sample_writer = Done (w1, outs, err)"
      "Broadcast tagged_note \<in> set outs" by (auto simp: map_exec_eq_Done)
  have h: "event_admission_server (st_grpc (we_settings ruled_env)) \<noteq> None" "we_ext ruled_env = ext0"
    "we_grpc_call ruled_env = Some (rules_service (we_ext ruled_env) id small_rules)"
    by (simp_all add: ruled_env_def sample_env_def)
  have "u64_to_string 1 = ''1''" by code_simp
  then have a: "set (allowed_pubkey_kinds small_rules) = (\<lambda>(pk, k). pk @ '':'' @ u64_to_string k) ` {(''bb'', 1)}"
    by (simp add: small_rules_def)
  have d: "hex_decode (we_ext ruled_env) (e_id tagged_note) \<noteq> None" "hex_decode (we_ext ruled_env) (e_sig tagged_note) \<noteq> None"
    unfolding h by code_simp+
  then obtain pk where "hex_decode (we_ext ruled_env) (e_pubkey tagged_note) = Some pk" by (auto simp: tagged_note_def sample_def)
  note r = example_rules_enforced [OF p h(1,3) a d this]
  have "map_of (required_tags small_rules) (e_kind tagged_note) = Some [(''t'', [''x'', ''y''])]"
    by (simp add: small_rules_def tagged_note_def sample_def)
  with r have "\<exists>t. find (\<lambda>t. t \<noteq> [] \<and> hd t = ''t'') (e_tags tagged_note) = Some t \<and> {''x'', ''y''} \<inter> set (drop 1 t) \<noteq> {}"
    by fastforce
  with p show ?thesis by blast
qed

section \<open>PostgreSQL and migrations\<close>

text \<open>C33: A query of the PostgreSQL store returns the visible, unexpired rows that match its filter, at most its limit and never more than 1000: the newest when the filter has a limit, and without one the oldest.\<close>

theorem postgres_query:
  assumes "pg_inv db" and "mset (scan (pg_events db)) = mset (pg_events db)"
    and "pg_dates_ok ts_ok f" and "list_all pg_cond_ok (pg_conds X f)"
  shows "\<exists>rs rest. pg_run_filter X ts_ok now scan db f = Done rs
    \<and> mset (rs @ rest) = mset (filter (\<lambda>r. \<not> pe_hidden r \<and> opt_all (\<lambda>x. uint now < x) (pe_expires r)
         \<and> pg_matches X db f r) (pg_events db))
    \<and> length rs = min (pg_bound f) (length (rs @ rest))
    \<and> sorted (map (pg_rank f) rs) \<and> (\<forall>x \<in> set rs. \<forall>y \<in> set rest. pg_rank f x \<le> pg_rank f y)"
proof -
  have "distinct (map pe_id (pg_events db))" using assms(1) by (simp add: pg_inv_def pg_keys_def)
  from pg_run_filter_result [where scan = scan and now = now, OF this assms(2-4)] obtain rs rest where
    r: "pg_run_filter X ts_ok now scan db f = Done rs" and m: "mset (rs @ rest) = mset (pg_hits X now db f)"
    and l: "length rs = min (pg_bound f) (length (pg_hits X now db f))"
    and o: "sorted (map (pg_rank f) rs)" "\<forall>x \<in> set rs. \<forall>y \<in> set rest. pg_rank f x \<le> pg_rank f y" by blast
  have "length (rs @ rest) = length (pg_hits X now db f)" by (rule mset_eq_length [OF m])
  with r m l o show ?thesis unfolding pg_hits_def pg_current_def by (metis (no_types, lifting) conj_assoc filter_cong)
qed

theorem postgres_query_witness:
  "\<exists>rs rest. pg_run_filter ext0 (\<lambda>t. True) 100 rev (pg_stored metadata1 (pg_stored note1 empty_pg)) any_filter = Done rs
    \<and> length rs = 1 \<and> length (rs @ rest) = 2
    \<and> (\<forall>x \<in> set rs. \<forall>y \<in> set rest. pg_rank any_filter x \<le> pg_rank any_filter y)"
proof -
  let ?db = "pg_stored metadata1 (pg_stored note1 empty_pg)"
  have n: "pg_dates_ok (\<lambda>t. True) any_filter" "list_all pg_cond_ok (pg_conds ext0 any_filter)" by code_simp+
  have "length (filter (\<lambda>r. \<not> pe_hidden r \<and> opt_all (\<lambda>x. uint (100 :: u64) < x) (pe_expires r)) (pg_events ?db)) = 2"
    and b: "pg_bound any_filter = 1"
    by code_simp+
  moreover have "pg_matches ext0 ?db any_filter r" for r by (simp add: pg_matches_def any_filter_def)
  ultimately have two: "length (filter (\<lambda>r. \<not> pe_hidden r \<and> opt_all (\<lambda>x. uint (100 :: u64) < x) (pe_expires r)
      \<and> pg_matches ext0 ?db any_filter r) (pg_events ?db)) = 2" by simp
  have "pg_inv ?db" by (simp add: pg_inv_empty)
  from postgres_query [where scan = rev and now = 100, OF this _ n] obtain rs rest where
    r: "pg_run_filter ext0 (\<lambda>t. True) 100 rev ?db any_filter = Done rs"
    and m: "mset (rs @ rest) = mset (filter (\<lambda>r. \<not> pe_hidden r \<and> opt_all (\<lambda>x. uint (100 :: u64) < x) (pe_expires r)
      \<and> pg_matches ext0 ?db any_filter r) (pg_events ?db))"
    and l: "length rs = min (pg_bound any_filter) (length (rs @ rest))"
    and o: "\<forall>x \<in> set rs. \<forall>y \<in> set rest. pg_rank any_filter x \<le> pg_rank any_filter y" by auto
  from mset_eq_length [OF m] two have "length (rs @ rest) = 2" by simp
  with l b have "length rs = 1 \<and> length (rs @ rest) = 2" by auto
  with r o show ?thesis by blast
qed

text \<open>C34: How a PostgreSQL query answers. It runs in the task of its connection, which takes no results out of the channel meanwhile, so the outcome depends on the results that earlier requests left in the channel and on its own rows, at most 1000 for each filter. Fewer than 20000 together: all rows and the end mark follow. More: the query is cut off without an end mark. Exactly 20000: the connection waits for itself for ever. A defect: a client reaches the last case with twenty filters, and the cut-off with more than twenty, or with fewer when rows of earlier requests are left; only with an empty channel and fewer than twenty filters is the answer always complete.\<close>

theorem postgres_answers_in_own_task:
  assumes "pg_run_filters X ts_ok now scan db (s_filters sub) = (evs, True)" and "length queue \<le> 20000"
  shows "pg_subscription_turn query_channel_capacity X ts_ok now scan db queue sub =
     (let rows = map (\<lambda>t. \<lparr>qr_sub_id = s_id sub, qr_event = t\<rparr>) evs; n = length queue + length evs in
      if n < 20000 then Answered (queue @ pg_query_subscription X ts_ok now scan None db sub)
      else if n = 20000 then WaitsForever (queue @ rows)
      else GivenUp (take 20000 (queue @ rows)))
    \<and> length evs \<le> 1000 * length (s_filters sub)"
  using pg_subscription_turn_eq [OF assms(1), of queue query_channel_capacity] assms(2)
    pg_run_filters_length [of X ts_ok now scan db "s_filters sub"] assms(1)
  by (simp_all add: query_channel_capacity_def pg_query_subscription_def Let_def)

theorem postgres_answers_in_own_task_witness:
  "\<exists>rows. pg_subscription_turn query_channel_capacity ext0 (\<lambda>t. True) 100 (\<lambda>es. es) (pg_notes 1000) []
      \<lparr>s_id = ''s'', s_filters = twenty_filters\<rparr> = WaitsForever rows \<and> length rows = 20000
    \<and> dedup filter_eq twenty_filters = twenty_filters \<and> pg_inv (pg_notes 1000)"
proof -
  let ?sub = "\<lparr>s_id = ''s'', s_filters = twenty_filters\<rparr>"
  have e: "length ([] :: query_result list) \<le> 20000" by simp
  have "pg_run_filters ext0 (\<lambda>t. True) 100 (\<lambda>es. es) (pg_notes 1000) (s_filters ?sub) = (replicate 20000 ''n'', True)"
    by (simp add: pg_run_wide_filters [OF twenty_filters_wide] twenty_filters_parsed)
  from postgres_answers_in_own_task [OF this e, THEN conjunct1]
  have t: "pg_subscription_turn query_channel_capacity ext0 (\<lambda>t. True) 100 (\<lambda>es. es) (pg_notes 1000) [] ?sub
      = WaitsForever (map (\<lambda>t. \<lparr>qr_sub_id = ''s'', qr_event = t\<rparr>) (replicate 20000 ''n''))"
    by (simp only: length_replicate Let_def if_False if_True less_irrefl subscription.select_convs simp_thms
        list.size(3) add_0 append_Nil)
  show ?thesis
    by (intro exI conjI, rule t, simp only: length_map length_replicate, rule twenty_filters_parsed(1), rule pg_notes_inv)
qed

text \<open>C35: A defect: the PostgreSQL store does not recognise a deletion that arrived before the event it names, so the event is stored and visible whatever deletions there are, as long as no tag holds the binary identifier as text.\<close>

theorem postgres_deleted_returns:
  assumes "pg_write_event X ts_ok now down e db = Done (db', Inr n)"
    and "\<not> is_replaceable e" and "distinct_param e = None" and "e_kind e \<noteq> 5"
    and "hex_decode X (e_id e) = Some i" and "i \<notin> pe_id ` set (pg_events db)"
    and "\<forall>t \<in> set (pg_tags db) \<union> set (pg_new_tags X i (e_tags e)). pt_value t \<noteq> Some i"
  shows "n = 1 \<and> (\<exists>r \<in> set (pg_events db'). pe_id r = i \<and> \<not> pe_hidden r)"
proof -
  have "\<not> (\<exists>s. json_to_string X (event_to_json e) = Some s \<and> pg_new_row X ts_ok now s e db = Inr None)"
    using assms(5,6) by (force simp: pg_new_row_def list_ex_iff split: option.splits if_splits)
  from pg_write_visible [OF assms(1) _ assms(5-7) this] assms(2-4) show ?thesis
    by (simp add: pg_ordinary_def pg_visible_def)
qed

theorem postgres_deleted_returns_witness:
  "\<exists>db. db = pg_stored long_deletion empty_pg
    \<and> (\<exists>r \<in> set (pg_events (pg_stored long_note db)). pe_id r = (replicate 32 (CHR 0xA3)) \<and> \<not> pe_hidden r)"
proof -
  let ?db = "pg_stored long_deletion empty_pg"
  have w: "map_exec snd (pg_write_event ext0 (\<lambda>t. True) 100 None long_note ?db) = Done (Inr 1)" by code_simp
  have c: "\<not> is_replaceable long_note" "distinct_param long_note = None" "e_kind long_note \<noteq> 5"
    "hex_decode ext0 (e_id long_note) = Some (replicate 32 (CHR 0xA3))"
    and l: "map pe_id (pg_events ?db) = [[CHR 0xD1]]" "map pt_value (pg_tags ?db) = [None]"
      "pg_new_tags ext0 (replicate 32 (CHR 0xA3)) (e_tags long_note) = []"
    by code_simp+
  have "(replicate 32 (CHR 0xA3)) \<notin> pe_id ` set (pg_events ?db)"
    using l(1) by (auto simp: map_eq_Cons_conv numeral_eq_Suc)
  moreover have "\<forall>t \<in> set (pg_tags ?db) \<union> set (pg_new_tags ext0 (replicate 32 (CHR 0xA3)) (e_tags long_note)). pt_value t \<noteq> Some (replicate 32 (CHR 0xA3))"
    using l(2,3) by (auto simp: map_eq_Cons_conv)
  ultimately show ?thesis using postgres_deleted_returns [OF pg_stored_result [OF w] c] by blast
qed

text \<open>C36: Every value that the PostgreSQL store writes fits its column: kinds are 32-bit numbers, times are dates, and the value of a tag stands in exactly one of the two columns, as bytes if it is hexadecimal.\<close>

theorem postgres_values_typed:
  assumes "hex_law X" and "pg_typed db" and "pg_write_event X ts_ok now down e db = Done (db', res)"
  shows "(\<forall>r \<in> set (pg_events db'). int4 (pe_kind r) \<and> pg_date (pe_created r)
      \<and> (\<forall>x. pe_expires r = Some x \<longrightarrow> pg_date x))
    \<and> (\<forall>t \<in> set (pg_tags db'). pg_text (pt_name t) \<and> single_char_tagname (pt_name t) \<noteq> None
        \<and> (pt_value t = None \<longleftrightarrow> pt_value_hex t \<noteq> None)
        \<and> (\<forall>v. pt_value t = Some v \<longrightarrow> \<not> hex_value v))
    \<and> pg_typed db'"
  using pg_write_typed [OF assms]
  by (auto simp: pg_typed_def list_all_iff pg_event_typed_def pg_tag_typed_def split: if_splits)

theorem postgres_values_typed_witness:
  "\<exists>t. pg_tags (pg_stored long_deletion empty_pg) = [t]
    \<and> pt_value_hex t = Some (replicate 32 (CHR 0xA3)) \<and> pt_value t = None
    \<and> int4 (pe_kind (hd (pg_events (pg_stored long_deletion empty_pg))))"
proof -
  let ?e = "long_deletion"
  have w: "map_exec snd (pg_write_event ext0 (\<lambda>t. True) 100 None ?e empty_pg) = Done (Inr 1)" by code_simp
  have t: "map (\<lambda>t. pt_value_hex t) (pg_tags (pg_stored ?e empty_pg)) = [Some (replicate 32 (CHR 0xA3))]"
    and n: "length (pg_events (pg_stored ?e empty_pg)) = 1" by code_simp+
  have "pg_typed empty_pg" by (simp add: pg_typed_def empty_pg_def)
  from postgres_values_typed [OF hex_law_ext0 this pg_stored_result [OF w]] t n show ?thesis
    by (cases "pg_events (pg_stored ?e empty_pg)") (auto simp: map_eq_Cons_conv)
qed

text \<open>C37: An upgrade of an SQLite database of version 1 to 15 that returns without an error ends at version 18 with the new columns of the tags, and the tags are exactly what storing the parsed events anew would have inserted. From versions up to 14 no hidden event is left; from versions up to 11, when the rows have distinct numbers and, unless it is version 1, no NULL in the column for hidden events, at most one event of each author and replaceable kind is left. (From versions 16 and 17 the tags are not rebuilt; they are not covered here.)\<close>

theorem upgrade_completes:
  assumes "upgrade_db X s = Done (s1, Inr n)" and "0 < od_version s" and "od_version s \<le> 15"
  shows "n = 18 \<and> od_version s1 = 18
    \<and> columns_of (od_schema s1) ''tag'' = Some [''id'', ''event_id'', ''name'', ''value'', ''created_at'', ''kind'']
    \<and> (\<exists>es. map (stored_event X) (sort_key oe_id (od_events s1)) = map Inr es
      \<and> map to_tag (od_tags s1) = concat (map2 (\<lambda>r e. new_tag_rows (to_row r) e) (sort_key oe_id (od_events s1)) es))
    \<and> (od_version s \<le> 14 \<longrightarrow> (\<forall>r \<in> set (od_events s1). oe_hidden r \<noteq> Some True))
    \<and> (od_version s \<le> 11 \<and> distinct (map oe_id (od_events s))
        \<and> (od_version s = 1 \<or> (\<forall>r \<in> set (od_events s). oe_hidden r \<noteq> None)) \<longrightarrow>
      (\<forall>r \<in> set (od_events s1). \<forall>t \<in> set (od_events s1). replaceable_kind (oe_kind r)
         \<and> oe_kind r = oe_kind t \<and> oe_author r = oe_author t \<longrightarrow> r = t))"
proof -
  note t = upgrade_tags [OF assms]
  have n: "n = 18 \<and> od_version s1 = 18" using t by simp
  have c: "columns_of (od_schema s1) ''tag'' = Some [''id'', ''event_id'', ''name'', ''value'', ''created_at'', ''kind'']"
    using upgrade_columns [OF assms] by (simp add: final_tag_columns_def)
  have e: "\<exists>es. map (stored_event X) (sort_key oe_id (od_events s1)) = map Inr es
      \<and> map to_tag (od_tags s1) = concat (map2 (\<lambda>r e. new_tag_rows (to_row r) e) (sort_key oe_id (od_events s1)) es)"
    using t by (simp add: old_tags_ok_def)
  have h: "od_version s \<le> 14 \<longrightarrow> (\<forall>r \<in> set (od_events s1). oe_hidden r \<noteq> Some True)"
    using upgrade_none_hidden [OF assms(1,2)] by (simp add: none_hidden_def)
  have u: "od_version s \<le> 11 \<and> distinct (map oe_id (od_events s))
        \<and> (od_version s = 1 \<or> (\<forall>r \<in> set (od_events s). oe_hidden r \<noteq> None)) \<longrightarrow>
      (\<forall>r \<in> set (od_events s1). \<forall>t \<in> set (od_events s1). replaceable_kind (oe_kind r)
         \<and> oe_kind r = oe_kind t \<and> oe_author r = oe_author t \<longrightarrow> r = t)"
  proof
    assume v: "od_version s \<le> 11 \<and> distinct (map oe_id (od_events s))
        \<and> (od_version s = 1 \<or> (\<forall>r \<in> set (od_events s). oe_hidden r \<noteq> None))"
    then have "one_visible s1" using upgrade_one_visible [OF assms(1,2)] by (auto simp: flags_ok_def)
    with v h show "\<forall>r \<in> set (od_events s1). \<forall>t \<in> set (od_events s1). replaceable_kind (oe_kind r)
         \<and> oe_kind r = oe_kind t \<and> oe_author r = oe_author t \<longrightarrow> r = t"
      unfolding one_visible_def by auto
  qed
  show ?thesis by (intro conjI c e h u) (simp_all add: n)
qed

theorem upgrade_completes_witness:
  "\<exists>s1. upgrade_db old_ext first_db = Done (s1, Inr 18) \<and> map oe_created (od_events s1) = [20]
    \<and> (\<exists>es. map to_tag (od_tags s1) = concat (map2 (\<lambda>r e. new_tag_rows (to_row r) e) (sort_key oe_id (od_events s1)) es))
    \<and> columns_of (od_schema s1) ''tag'' = Some [''id'', ''event_id'', ''name'', ''value'', ''created_at'', ''kind'']"
proof -
  have "map_exec (\<lambda>(s1, r). (map oe_created (od_events s1), r)) (upgrade_db old_ext first_db) = Done ([20], Inr 18)"
    by code_simp
  then obtain s1 where u: "upgrade_db old_ext first_db = Done (s1, Inr 18)" and c: "map oe_created (od_events s1) = [20]"
    by (auto simp: map_exec_eq_Done)
  have v: "0 < od_version first_db" "od_version first_db \<le> 15" by (simp_all add: first_db_def)
  from upgrade_completes [OF u v] u c show ?thesis by auto
qed

section \<open>Events and checks\<close>

text \<open>C38: An event counts as delegated only if it has a delegation tag whose signature by the delegator verifies for the event's author and the conditions as written, and every condition admits the event.\<close>

theorem delegation_is_signed:
  assumes "update_delegation X e = Done e'" and "e_delegated_by e' = Some d"
  shows "\<exists>t \<in> set (e_tags e). \<exists>cs sg msg pk. length t = 4 \<and> hd t = ''delegation'' \<and> t ! 1 = d
    \<and> sig_from_str X (t ! 3) = Some sg \<and> xonly_from_str X d = Some pk
    \<and> msg_from_slice X (sha256 X (''nostr:delegation:'' @ e_pubkey e @ '':'' @ t ! 2)) = Some msg
    \<and> verify_schnorr X sg msg pk
    \<and> query_from_str (t ! 2) = Inr cs \<and> (\<forall>c \<in> set cs. condition_allows c e)"
proof -
  from assms have "delegated_author X e = Done (Some d)" by (auto simp: update_delegation_def)
  then obtain t cs where t: "delegation_tag e = Some t" "d = t ! 1" "\<forall>c \<in> set cs. condition_allows c e"
    and v: "validate_delegation X d (e_pubkey e) (t ! 2) (t ! 3) = Done (Some cs)"
    by (rule delegated_author_Some)
  from validate_delegation_Some [OF v] delegation_tag_Some [OF t(1)] t show ?thesis
    unfolding delegation_token_def by blast
qed

theorem delegation_is_signed_witness:
  "\<exists>e'. update_delegation ext0 (sample ''a1'' ''bb'' 50 1 [[''delegation'', ''cc'', ''kind=1'', ''cc'']]) = Done e'
    \<and> e_delegated_by e' = Some ''cc'' \<and> (\<exists>pk. xonly_from_str ext0 ''cc'' = Some pk)"
proof -
  let ?e = "sample ''a1'' ''bb'' 50 1 [[''delegation'', ''cc'', ''kind=1'', ''cc'']]"
  have "map_exec e_delegated_by (update_delegation ext0 ?e) = Done (Some ''cc'')" by code_simp
  then obtain e' where e: "update_delegation ext0 ?e = Done e'" "e_delegated_by e' = Some ''cc''"
    by (auto simp: map_exec_eq_Done)
  from delegation_is_signed [OF e] e show ?thesis by blast
qed

text \<open>C39: However requests are timed, a sliding-window limiter accepts at most its maximum for one key within any interval as long as its window.\<close>

theorem rate_window_bound:
  assumes "sorted (map fst reqs)"
  shows "length (filter (\<lambda>r. snd r = k \<and> t \<le> fst r \<and> fst r < t + unat (window_secs rw) * 1000000000)
     (limiter_run reqs (limiter_new (window_secs rw) m) [])) \<le> unat m"
  using assms by (rule limiter_run_bound)

theorem rate_window_bound_witness:
  "length (filter (\<lambda>r. snd r = ''k'' \<and> 0 \<le> fst r \<and> fst r < unat (window_secs Hour) * 1000000000)
     (limiter_run [(0, ''k''), (1, ''k''), (2, ''k'')] (limiter_new (window_secs Hour) 2) [])) \<le> 2"
  using rate_window_bound [of "[(0, ''k''), (1, ''k''), (2, ''k'')]" "''k''" 0 Hour 2] by simp

text \<open>C40: The retry loop ends within ten attempts: the event is persisted exactly once if some attempt meets no failure of the database, and otherwise the tables are as before and the last failure is returned.\<close>

theorem write_retries:
  "write_event X now busy e db =
     (if \<exists>i. 1 \<le> i \<and> i \<le> 10 \<and> busy i = None then persist_event X now e db
      else (db, Inl (sqlite_failure (the (busy 10)))))"
  by (rule write_event_cases)

section \<open>Further theorems\<close>

text \<open>Whatever events the writer processes, the tables keep their keys and references, and there is at most one row for each author and replaceable kind.\<close>

theorem store_invariant:
  assumes "we_repo env = (\<lambda>t. sqlite_repo X (jit t) t (busy t))" and "db_inv (w_db w)"
    and "db_writer env sus w = Done (w1, outs, err)"
  shows "db_inv (w_db w1)"
  using assms by (rule sqlite_writer.db_writer_ok)

theorem store_invariant_witness:
  "\<exists>w1 outs err. db_writer (sample_env default_settings) [(100, \<lambda>i. 0, submitted metadata1)] sample_writer
     = Done (w1, outs, err) \<and> db_inv (w_db w1) \<and> length (events (w_db w1)) = 1"
proof -
  let ?run = "db_writer (sample_env default_settings) [(100, \<lambda>i. 0, submitted metadata1)] sample_writer"
  have "map_exec (\<lambda>(w1, outs, err). length (events (w_db w1))) ?run = Done 1" by code_simp
  then obtain w1 outs err where r: "?run = Done (w1, outs, err)" "length (events (w_db w1)) = 1"
    by (auto simp: map_exec_eq_Done)
  have "db_inv (w_db w1)"
    by (rule store_invariant [OF _ _ r(1), of ext0 "\<lambda>t. 0" "\<lambda>t. no_failures"])
      (simp_all add: sample_env_def sample_writer_def db_inv_empty)
  with r show ?thesis by blast
qed

text \<open>Writing an event, a deletion or a replacement included, leaves every stored event of every other author exactly as it was.\<close>

theorem other_authors_untouched:
  assumes "db_inv db" and "hex_decode X (e_pubkey e) = Some pk"
  shows "filter (\<lambda>s. ev_author s \<noteq> pk) (events (fst (write_event X now busy e db)))
    = filter (\<lambda>s. ev_author s \<noteq> pk) (events db)"
  using persist_event_other_authors [OF assms] by (simp add: write_event_cases)

theorem other_authors_untouched_witness:
  "\<exists>r. filter (\<lambda>s. ev_author s \<noteq> [CHR 0xCC]) (events (fst (write_event ext0 100 (\<lambda>i. None)
       (sample ''d1'' ''cc'' 70 5 [[''e'', ''a1'']]) (stored metadata1 empty_db)))) = [r] \<and> \<not> ev_hidden r"
proof -
  let ?e = "sample ''d1'' ''cc'' 70 5 [[''e'', ''a1'']]"
  have p: "hex_decode ext0 (e_pubkey ?e) = Some [CHR 0xCC]" by code_simp
  have "map (\<lambda>r. (ev_author r, ev_hidden r)) (events (stored metadata1 empty_db)) = [([CHR 0xBB], False)]" by code_simp
  then show ?thesis
    using other_authors_untouched [OF _ p, of "stored metadata1 empty_db" 100 "\<lambda>i. None"]
    by (auto simp: sample_ok map_eq_Cons_conv)
qed

text \<open>Storing a deletion event hides the events it names by full identifier that are its own author's and are no deletions themselves, and changes no other row.\<close>

theorem deletion_hides_own_events:
  assumes "e_kind e = 5" and "persist_event X now e db = (db', Inr 1)" and "hex_decode X (e_pubkey e) = Some pk"
  shows "\<exists>r. events db' = map
      (\<lambda>s. if ev_kind s \<noteq> 5 \<and> ev_author s = pk \<and> ev_hash s \<in> set (deletion_targets X e)
           then s\<lparr>ev_hidden := True\<rparr> else s) (events db) @ [r]
    \<and> hex_decode X (e_id e) = Some (ev_hash r) \<and> \<not> ev_hidden r"
  using assms by (rule persist_deletion)

theorem deletion_hides_own_events_witness:
  "map ev_hidden (events (stored (sample ''d1'' ''bb'' 70 5 [[''e'', replicate 64 CHR ''a'']])
     (stored (sample (replicate 64 CHR ''a'') ''bb'' 50 1 []) empty_db))) = [True, False]"
proof -
  let ?e = "sample ''d1'' ''bb'' 70 5 [[''e'', replicate 64 CHR ''a'']]"
    and ?db = "stored (sample (replicate 64 CHR ''a'') ''bb'' 50 1 []) empty_db"
  have k: "e_kind ?e = 5" "hex_decode ext0 (e_pubkey ?e) = Some [CHR 0xBB]" by code_simp+
  have p: "snd (persist_event ext0 100 ?e ?db) = Inr 1" by code_simp
  have t: "deletion_targets ext0 ?e = [replicate 32 CHR 0xAA]" by code_simp
  have d: "map (\<lambda>s. (ev_kind s, ev_author s, ev_hash s)) (events ?db) = [(1, [CHR 0xBB], replicate 32 CHR 0xAA)]"
    by code_simp
  then obtain s where s: "events ?db = [s]" and f: "ev_kind s = 1" "ev_author s = [CHR 0xBB]"
      "ev_hash s = replicate 32 CHR 0xAA"
    by (auto simp: map_eq_Cons_conv)
  from deletion_hides_own_events [OF k(1) stored_result [OF p] k(2)] show ?thesis
    unfolding s t by (auto simp: f)
qed

text \<open>When a parameterized replaceable event with one tag for its parameter is stored, it becomes the only row of its author and kind with that parameter.\<close>

theorem param_latest_wins:
  assumes "db_inv db" and "distinct_param e = Some d" and "d_tag_count e d = 1"
    and "persist_event X now e db = (db', Inr 1)" and "hex_decode X (e_pubkey e) = Some pk"
  shows "\<exists>r. filter (\<lambda>s. has_tag db' s ''d'' d) (author_kind_rows pk (uint (e_kind e)) db') = [r]
    \<and> hex_decode X (e_id e) = Some (ev_hash r) \<and> \<not> ev_hidden r
    \<and> json_to_string X (event_to_json e) = Some (ev_content r)"
  using assms by (rule persist_param_once)

theorem param_latest_wins_witness:
  "\<exists>r. filter (\<lambda>s. has_tag (stored (sample ''a2'' ''bb'' 60 30000 [[''d'', ''x'']])
        (stored (sample ''a1'' ''bb'' 50 30000 [[''d'', ''x'']]) empty_db)) s ''d'' ''x'')
      (author_kind_rows [CHR 0xBB] 30000 (stored (sample ''a2'' ''bb'' 60 30000 [[''d'', ''x'']])
        (stored (sample ''a1'' ''bb'' 50 30000 [[''d'', ''x'']]) empty_db))) = [r]
    \<and> ev_hash r = [CHR 0xA2]"
proof -
  let ?e = "sample ''a2'' ''bb'' 60 30000 [[''d'', ''x'']]"
    and ?db = "stored (sample ''a1'' ''bb'' 50 30000 [[''d'', ''x'']]) empty_db"
  have r: "distinct_param ?e = Some ''x''" "d_tag_count ?e ''x'' = 1" "hex_decode ext0 (e_pubkey ?e) = Some [CHR 0xBB]"
    "hex_decode ext0 (e_id ?e) = Some [CHR 0xA2]" "uint (e_kind ?e) = 30000"
    by code_simp+
  have p: "snd (persist_event ext0 100 ?e ?db) = Inr 1" by code_simp
  show ?thesis
    using param_latest_wins [OF _ r(1,2) stored_result [OF p] r(3)] r(4,5) by (auto simp: sample_ok)
qed

text \<open>A defect: a parameterized replaceable event that repeats the tag of its parameter is reported as stored, but the removal of older versions removes its own row.\<close>

theorem param_repeated_lost:
  assumes "db_inv db" and "distinct_param e = Some d" and "2 \<le> d_tag_count e d"
    and "persist_event X now e db = (db', Inr 1)" and "hex_decode X (e_id e) = Some i"
  shows "i \<notin> ev_hash ` set (events db')"
  using assms by (rule persist_param_repeated)

theorem param_repeated_lost_witness:
  "[CHR 0xA1] \<notin> ev_hash ` set (events (stored (sample ''a1'' ''bb'' 50 30000 [[''d'', ''x''], [''d'', ''x'']]) empty_db))
   \<and> snd (persist_event ext0 100 (sample ''a1'' ''bb'' 50 30000 [[''d'', ''x''], [''d'', ''x'']]) empty_db) = Inr 1"
proof -
  let ?e = "sample ''a1'' ''bb'' 50 30000 [[''d'', ''x''], [''d'', ''x'']]"
  have r: "distinct_param ?e = Some ''x''" "2 \<le> d_tag_count ?e ''x''" "hex_decode ext0 (e_id ?e) = Some [CHR 0xA1]"
    by code_simp+
  have p: "snd (persist_event ext0 100 ?e empty_db) = Inr 1" by code_simp
  show ?thesis
    using param_repeated_lost [OF _ r(1,2) stored_result [OF p] r(3)] p by (simp add: sample_ok)
qed

text \<open>Without a limit, a filter returns the texts of exactly the rows that match it and are neither hidden nor expired, each once, in the order of their times, however the database visits the rows.\<close>

theorem query_all:
  assumes "db_inv db" and "mset (scan (events db)) = mset (events db)" and "sql_u64 now \<noteq> None"
    and "f_limit f = None"
  shows "\<exists>rs. run_filter X now scan db f = Inr (map ev_content rs)
    \<and> mset rs = mset (filter (\<lambda>r. current_row now r \<and> row_matches X db f r) (events db))
    \<and> sorted (map ev_created rs)"
  using select_all [where scan = scan and X = X, OF assms] by (auto simp: run_filter_def hits_def)

theorem query_all_witness:
  "\<exists>rs :: event_row list. run_filter ext0 100 rev (stored metadata1 empty_db) empty_filter = Inr (map ev_content rs)
    \<and> length rs = 1"
proof -
  have n: "sql_u64 100 \<noteq> None" "f_limit empty_filter = None" by code_simp+
  have "length (filter (\<lambda>r. current_row 100 r \<and> row_matches ext0 (stored metadata1 empty_db) empty_filter r)
      (events (stored metadata1 empty_db))) = length (filter (\<lambda>r. current_row 100 r) (events (stored metadata1 empty_db)))"
    by (simp add: row_matches_def empty_filter_def)
  also have "\<dots> = 1" by code_simp
  finally have l: "length (filter (\<lambda>r. current_row 100 r \<and> row_matches ext0 (stored metadata1 empty_db) empty_filter r)
      (events (stored metadata1 empty_db))) = 1" .
  have "db_inv (stored metadata1 empty_db)" by (intro sample_ok)
  from query_all [where scan = rev and X = ext0, OF this mset_rev n] obtain rs
    where rs: "run_filter ext0 100 rev (stored metadata1 empty_db) empty_filter = Inr (map ev_content rs)"
      "mset rs = mset (filter (\<lambda>r. current_row 100 r \<and> row_matches ext0 (stored metadata1 empty_db) empty_filter r)
        (events (stored metadata1 empty_db)))" by blast
  from mset_eq_length [OF rs(2)] l have "length rs = 1" by (rule trans)
  with rs(1) show ?thesis by blast
qed

text \<open>A subscription message is an array of the command, a name and at least one filter, and the subscription matches an event exactly when one of the filters sent does, although repeated filters are dropped.\<close>

theorem repeated_filters_do_not_matter:
  assumes "subscription_from_json v = Some s"
  shows "\<exists>jreq jid fs. v = JArray (jreq # jid # fs) \<and> as_str jreq = Some ''REQ''
    \<and> as_str jid = Some (s_id s) \<and> fs \<noteq> []
    \<and> (\<forall>e. interested_in_event s e \<longleftrightarrow> (\<exists>j \<in> set fs. \<exists>f. filter_from_json j = Some f \<and> filter_interested f e))"
proof -
  from assms obtain jreq jid fs where v: "v = JArray (jreq # jid # fs)" "as_str jreq = Some ''REQ''"
      "as_str jid = Some (s_id s)"
    and f: "s_filters s = dedup filter_eq (map (the \<circ> filter_from_json) fs)"
      "\<forall>j \<in> set fs. \<exists>f. filter_from_json j = Some f" and ne: "fs \<noteq> []"
    by (rule subscription_from_json_filters) blast
  have "list_all tags_distinct (map (the \<circ> filter_from_json) fs)"
    using f(2) filter_parsed_distinct filter_from_json_parsed by (fastforce simp: list_all_iff)
  then have "interested_in_event s e \<longleftrightarrow> (\<exists>g \<in> set (map (the \<circ> filter_from_json) fs). filter_interested g e)" for e
    using dedup_interested by (simp add: interested_in_event_def f(1) any_interested_iff)
  moreover have "(\<exists>g \<in> set (map (the \<circ> filter_from_json) fs). filter_interested g e) \<longleftrightarrow>
      (\<exists>j \<in> set fs. \<exists>f. filter_from_json j = Some f \<and> filter_interested f e)" for e
    using f(2) by force
  ultimately have "\<forall>e. interested_in_event s e \<longleftrightarrow> (\<exists>j \<in> set fs. \<exists>f. filter_from_json j = Some f \<and> filter_interested f e)"
    by simp
  with v ne show ?thesis by blast
qed

theorem repeated_filters_do_not_matter_witness:
  "\<exists>s. subscription_from_json (JArray [JString ''REQ'', JString ''q'', JObject [], JObject []]) = Some s
    \<and> length (s_filters s) = 1 \<and> interested_in_event s note1"
proof -
  let ?v = "JArray [JString ''REQ'', JString ''q'', JObject [], JObject []]"
  have "map_option (\<lambda>s. length (s_filters s)) (subscription_from_json ?v) = Some 1" by code_simp
  then obtain s where s: "subscription_from_json ?v = Some s" "length (s_filters s) = 1" by auto
  have "filter_from_json (JObject []) = Some (empty_filter\<lparr>f_tags := None\<rparr>)" by (simp add: filter_from_json_def)
  moreover have "filter_interested (empty_filter\<lparr>f_tags := None\<rparr>) note1" by code_simp
  ultimately show ?thesis using repeated_filters_do_not_matter [OF s(1)] s by (auto split: json.splits)
qed

text \<open>A client connection hands an event to the writer only if it came in an EVENT message, its identifier is the hash of its canonical form and its signature verifies, it is not expired and not too far in the future; it carries the key the connection has authenticated.\<close>

theorem submitted_is_valid:
  assumes "client_turn X st info now inp cl = Done (cl', outs, go)" and "Submit su \<in> set outs"
  shows "\<exists>ec :: event_cmd. cmd ec = ''EVENT'' \<and> validate X (cmd_event ec) = Inr ()
    \<and> update_delegation X (build_index (cmd_event ec)) = Done (su_event su)
    \<and> \<not> is_expired now (su_event su)
    \<and> is_valid_timestamp now (su_event su) (st_reject_future_seconds st)
    \<and> su_auth_pubkey su = Option.bind (auth_pubkey (cl_conn cl)) (hex_decode X)"
proof -
  from assms obtain ec :: event_cmd where w: "wrap_event_cmd X ec = Done (Inr (WrappedEvent (su_event su)))"
    and s: "Submit su \<in> set (on_event X st info now (su_event su) cl)"
    by (rule client_turn_submit) blast
  from wrap_event_cmd_event [OF w] on_event_submit [OF s] show ?thesis by blast
qed

theorem submitted_is_valid_witness:
  "\<exists>cl' outs su. client_turn cmd_ext default_settings sample_info 100 (FromClient (WsText ''m'')) sample_client
     = Done (cl', outs, True) \<and> Submit su \<in> set outs \<and> \<not> is_expired 100 (su_event su)"
proof -
  let ?turn = "client_turn cmd_ext default_settings sample_info 100 (FromClient (WsText ''m'')) sample_client"
  have "map_exec (\<lambda>(cl', outs, go). (map (\<lambda>x. case x of Submit su \<Rightarrow> True | _ \<Rightarrow> False) outs, go)) ?turn
      = Done ([True], True)" by code_simp
  then obtain cl' outs su where r: "?turn = Done (cl', outs, True)" "Submit su \<in> set outs"
    by (auto simp: map_exec_eq_Done map_eq_Cons_conv split: client_output.splits)
  from submitted_is_valid [OF r] r show ?thesis by blast
qed

text \<open>Whatever a client sends, its connection holds at most 32 subscriptions with distinct names of at most 256 bytes, each under its own name.\<close>

theorem subscription_table:
  assumes "client_run X st info ins cl outs"
  shows "distinct (map fst (subscriptions (cl_conn cl)))
    \<and> (\<forall>(k, s) \<in> set (subscriptions (cl_conn cl)). s_id s = k \<and> length k \<le> 256)
    \<and> length (subscriptions (cl_conn cl)) \<le> 32"
proof -
  from client_run_trace [OF assms] obtain as where t: "conn_trace X (own_url st) as (cl_conn cl)" by blast
  from conn_trace_inv [OF t] conn_trace_max [OF t] show ?thesis by (simp add: conn_inv_def)
qed

theorem subscription_table_witness:
  "\<exists>ins cl outs. client_run ext0 default_settings sample_info ins cl outs
    \<and> length (subscriptions (cl_conn cl)) \<le> 32"
proof -
  let ?start = "start_client ''u'' ''ch'' sample_info default_settings"
  have "client_run ext0 default_settings sample_info [] (fst ?start) (snd ?start)"
    by (rule client_run.begin_run [of "''u''" "''ch''"]) simp
  with subscription_table [OF this] show ?thesis by blast
qed

text \<open>Subscribing fails exactly when the name is too long, or is new and the table is full, and then changes nothing; otherwise the name leads to the new subscription and every other name to what it led to before.\<close>

theorem subscribe_outcome:
  "subscribe s c =
     (if 256 < length (s_id s) then (c, Inl SubIdMaxLengthError)
      else if s_id s \<notin> fst ` set (subscriptions c) \<and> unat (max_subs c) \<le> length (subscriptions c)
      then (c, Inl SubMaxExceededError)
      else (fst (subscribe s c), Inr ()))
   \<and> (\<forall>k. snd (subscribe s c) = Inr () \<longrightarrow>
        map_of (subscriptions (fst (subscribe s c))) k = (if k = s_id s then Some s else map_of (subscriptions c) k))"
proof (intro conjI allI impI)
  show "subscribe s c =
     (if 256 < length (s_id s) then (c, Inl SubIdMaxLengthError)
      else if s_id s \<notin> fst ` set (subscriptions c) \<and> unat (max_subs c) \<le> length (subscriptions c)
      then (c, Inl SubMaxExceededError)
      else (fst (subscribe s c), Inr ()))"
    using subscribe_result [of s c] subscribe_error_state [of s c] by (auto simp: prod_eq_iff)
qed (simp add: subscribe_lookup)

theorem subscribe_outcome_witness:
  "map_of (subscriptions (fst (subscribe \<lparr>s_id = ''q'', s_filters = [empty_filter]\<rparr> (new_conn ''u'' ''i'')))) ''q''
     = Some \<lparr>s_id = ''q'', s_filters = [empty_filter]\<rparr>"
proof -
  have "snd (subscribe \<lparr>s_id = ''q'', s_filters = [empty_filter]\<rparr> (new_conn ''u'' ''i'')) = Inr ()" by code_simp
  with subscribe_outcome [of "\<lparr>s_id = ''q'', s_filters = [empty_filter]\<rparr>" "new_conn ''u'' ''i''"] show ?thesis by simp
qed

text \<open>An event is valid exactly when its identifier is the hash of the canonical array of its author, time, kind, tags and content, and its signature verifies for that hash and its author.\<close>

theorem valid_events:
  "validate X e = Inr () \<longleftrightarrow>
     (\<exists>c sg msg pk. json_to_string X (JArray [JNumber (PosInt 0), JString (e_pubkey e), JNumber (PosInt (e_created_at e)),
          JNumber (PosInt (e_kind e)), JArray (map (\<lambda>t. JArray (map JString t)) (e_tags e)), JString (e_content e)]) = Some c
        \<and> e_id e = digest_hex X (sha256 X c) \<and> sig_from_str X (e_sig e) = Some sg
        \<and> msg_from_slice X (sha256 X c) = Some msg \<and> xonly_from_str X (e_pubkey e) = Some pk
        \<and> verify_schnorr X sg msg pk)"
  unfolding validate_Inr to_canonical_def canonical_value_def tags_to_canonical_def by (rule refl)

text \<open>A defect: handling a valid event panics exactly when the signature text of its delegation tag is malformed; the code unwraps it instead of ignoring the tag.\<close>

theorem delegation_panics:
  "wrap_event_cmd X ec = Panic \<longleftrightarrow>
     cmd ec = ''EVENT'' \<and> validate X (cmd_event ec) = Inr ()
     \<and> (\<exists>t. delegation_tag (cmd_event ec) = Some t \<and> sig_from_str X (t ! 3) = None)"
proof -
  have "validate_delegation X a b q s = Panic \<longleftrightarrow> sig_from_str X s = None" for a b q s
    by (simp add: validate_delegation_def Let_def split: option.split)
  then show ?thesis
    by (auto simp: wrap_event_cmd_def update_delegation_def delegated_author_def delegation_tag_def
        split: sum.split option.splits)
qed

text \<open>The checks of a kind's configuration pass an event exactly when its write rules admit the author, it is authenticated where asked, within the size limit, has the required d, p and other tags, all values of a tag with a pattern match it, its tags are within their limits and its age and expiration within theirs.\<close>

theorem kind_checks:
  "static_message X now kf c e a s = None \<longleftrightarrow>
     (\<forall>w. k_write c = Some w \<longrightarrow> script_allows X w e a
        \<and> \<not> check_access_rule (wr_deny w) e a s \<and> check_access_rule (wr_allow w) e a s)
     \<and> (k_require_auth c \<longrightarrow> a \<noteq> None)
     \<and> (\<forall>m. k_max_size c = Some m \<longrightarrow>
          length (case json_to_string X (event_to_json e) of Some s \<Rightarrow> s | None \<Rightarrow> []) \<le> unat m)
     \<and> validate_d_tag e (k_d_tag c) \<and> validate_p_tag e (k_p_tag c)
     \<and> (\<forall>n \<in> set (k_required_tags c). \<exists>t \<in> set (e_tags e). 1 < length t \<and> hd t = n)
     \<and> (\<forall>(n, p) \<in> set (k_tag_patterns c). tag_values_by_name e n \<noteq> []
          \<and> (\<forall>v \<in> set (tag_values_by_name e n). is_match X p v))
     \<and> (\<forall>l. k_tag_limits c = Some l \<longrightarrow>
          (0 < max_tags l \<longrightarrow> length (e_tags e) \<le> unat (max_tags l))
          \<and> (\<forall>t \<in> set (e_tags e).
              (t \<noteq> [] \<and> 0 < max_tag_name_chars l \<longrightarrow> length (chars (hd t)) \<le> unat (max_tag_name_chars l))
              \<and> (\<forall>v \<in> set (tl t). 0 < max_tag_value_chars l \<longrightarrow> length (chars v) \<le> unat (max_tag_value_chars l))))
     \<and> (\<forall>d. x_duration (k_expiration c) = Some d \<longrightarrow> now \<le> e_created_at e + d)
     \<and> (\<forall>d. x_duration (k_max_expiration c) = Some d \<longrightarrow>
          first_tag_value ''expiration'' e = None \<or> (\<exists>x. expiration e = Some x \<and> x \<le> now + d))"
  by (simp only: static_message_None check_write_read_config_iff validate_required_tags_iff
      validate_tag_patterns_iff tag_limits_error_None tag_limit_error_None validate_expiration_window_iff
      simp_thms if_False)

theorem kind_checks_witness:
  "\<exists>m. static_message ext0 100 kind_filters_new (plain_kind\<lparr>k_required_tags := [''x'']\<rparr>) note1 None None = Some m"
proof -
  have "static_message ext0 100 kind_filters_new (plain_kind\<lparr>k_required_tags := [''x'']\<rparr>) note1 None None \<noteq> None"
    unfolding kind_checks by (simp add: note1_def sample_def)
  then show ?thesis by blast
qed

text \<open>Access to a kind: a script must exit with success, the deny rule must not name the client, and the allow rule must; for reading a privileged kind, an allow rule that names everyone does not count, but the authenticated author and the tagged keys may read.\<close>

theorem access_rules:
  "check_write_read_config X c e a s is_read \<longleftrightarrow>
     (\<forall>path. wr_script c = Some path \<longrightarrow> execute_script X path e a = Inr True)
     \<and> \<not> (wr_deny c = AllowAll \<or> (\<exists>ids. wr_deny c = Identifiers ids \<and> (\<exists>i \<in> set ids. identifier_names i e a s)))
     \<and> (let allowed = (wr_allow c = AllowAll \<or> (\<exists>ids. wr_allow c = Identifiers ids \<and> (\<exists>i \<in> set ids. identifier_names i e a s)))
        in if is_read \<and> wr_privileged c
           then wr_allow c \<noteq> AllowAll \<and> allowed
             \<or> (\<exists>pk. a = Some pk \<and> (e_pubkey e = pk \<or> pk \<in> set (tag_values_by_name e ''p'')))
           else allowed)"
  unfolding check_write_read_config_iff check_access_rule_iff check_privileged_read_iff script_allows_def Let_def
  by (rule refl)

theorem access_rules_witness:
  "\<not> check_write_read_config ext0 \<lparr>wr_script = None, wr_allow = AllowAll, wr_deny = DenyAll,
      wr_privileged = True, wr_error = None\<rparr> note1 None None True"
  unfolding access_rules by simp

text \<open>The rate rules of a kind admit an event exactly when every rule, keyed by nothing, the author or the address as its scope says, has seen fewer events than its maximum within its window before the time it is checked.\<close>

theorem rate_rules:
  assumes "\<forall>j < length rs. limiter_ok (l_window_secs (b_limiter (rs ! j))) (l_max_events (b_limiter (rs ! j)))
      (clk j) (b_limiter (rs ! j))"
  shows "snd (check_rules clk 0 pk ip rs) \<longleftrightarrow>
    (\<forall>j < length rs. length (filter (\<lambda>x. clk j - x < unat (l_window_secs (b_limiter (rs ! j))) * 1000000000)
        (bucket (b_limiter (rs ! j)) (rule_key (b_scope (rs ! j)) pk ip))) < unat (l_max_events (b_limiter (rs ! j))))"
proof -
  have "snd (limiter_check (clk j) k l) \<longleftrightarrow>
      length (filter (\<lambda>x. clk j - x < unat (l_window_secs l) * 1000000000) (bucket l k)) < unat (l_max_events l)"
    if "limiter_ok (l_window_secs l) (l_max_events l) (clk j) l" for j k l
    by (simp add: limiter_check_eq [OF that])
  with assms show ?thesis by (simp add: check_rules_iff)
qed

theorem rate_rules_witness:
  "\<not> snd (check_rules (\<lambda>i. 5) 0 ''bb'' ''ip'' [\<lparr>b_scope = ScopeGlobal, b_limiter = limiter_new 60 0\<rparr>])"
proof -
  let ?rs = "[\<lparr>b_scope = ScopeGlobal, b_limiter = limiter_new 60 0\<rparr>]"
  have ok: "\<forall>j < length ?rs. limiter_ok (l_window_secs (b_limiter (?rs ! j))) (l_max_events (b_limiter (?rs ! j)))
      5 (b_limiter (?rs ! j))"
    by (simp add: limiter_new_def limiter_ok_def bucket_def)
  from rate_rules [of ?rs "\<lambda>i. 5", OF ok, of "''bb''" "''ip''"] show ?thesis
    by (auto simp: limiter_new_def)
qed

text \<open>A defect: the writer panics at its start exactly when a kind has a rate of zero events per minute, which the configuration accepts, or the global rate times sixty wraps to zero.\<close>

theorem starting_panics:
  "writer_start env db = Panic \<longleftrightarrow>
     (\<exists>(k, c) \<in> set (kf_filters (st_kind_filters (we_settings env))). \<exists>rl. k_rate_limit c = Some rl \<and> events_per_minute rl = 0)
     \<or> (\<exists>rps. messages_per_sec (st_limits (we_settings env)) = Some rps \<and> rps \<noteq> 0 \<and> rps * 60 = 0)"
  by (rule writer_start_Panic)

text \<open>Paying an invoice credits its amount to its account and to no other, and reporting the payment, or any other status, once more credits nothing.\<close>

theorem invoice_credited_once:
  assumes "invoice_of db h = Some ivr" and "iv_status ivr = ''Unpaid''"
  shows "balance_of (fst (update_invoice now h Paid db)) q =
      (if q = iv_pubkey ivr then map_option (\<lambda>b. b + iv_amount ivr) (balance_of db q) else balance_of db q)
    \<and> balance_of (fst (update_invoice now' h status (fst (update_invoice now h Paid db)))) q
      = balance_of (fst (update_invoice now h Paid db)) q"
proof -
  from update_invoice_status [OF assms(1), of now Paid] obtain ivr'
    where "invoice_of (fst (update_invoice now h Paid db)) h = Some ivr'" and "iv_status ivr' = ''Paid''" by auto
  from update_invoice_balance [OF this(1), of now' status q] this(2) update_invoice_balance [OF assms(1), of now Paid q] assms(2)
  show ?thesis by simp
qed

theorem invoice_credited_once_witness:
  "balance_of (fst (update_invoice 9 ''h'' Paid (fst (update_invoice 8 ''h'' Paid invoice_db)))) ''bb'' = Some 12"
proof -
  have i: "map_option iv_status (invoice_of invoice_db ''h'') = Some ''Unpaid''"
    "map_option iv_amount (invoice_of invoice_db ''h'') = Some 5" "map_option iv_pubkey (invoice_of invoice_db ''h'') = Some ''bb''"
    and b: "balance_of invoice_db ''bb'' = Some 7"
    by code_simp+
  then obtain ivr where v: "invoice_of invoice_db ''h'' = Some ivr" "iv_status ivr = ''Unpaid''"
    and a: "iv_amount ivr = 5" "iv_pubkey ivr = ''bb''" by auto
  from invoice_credited_once [OF v, of 8 "''bb''" 9 Paid] a b show ?thesis by simp
qed

text \<open>A metadata event verifies a user only if its address is of an allowed domain and that domain's server, asked for the name, answered with success, in at most a megabyte, an object that lists the event's author under the name.\<close>

theorem verified_users_are_listed:
  assumes "get_web_verification_from_event X vu fetch e = Verified"
  shows "\<exists>nip url n b v names. get_nip05_addr X e = Some nip
    \<and> (case domain_whitelist vu of Some w \<Rightarrow> n_domain nip \<in> set w
       | None \<Rightarrow> (\<forall>bl. domain_blacklist vu = Some bl \<longrightarrow> n_domain nip \<notin> set bl))
    \<and> to_url X nip = Some url \<and> fetch url = Response 200 (Some n) (Some b) \<and> n \<le> 1048576
    \<and> json_from_str X b = Some v \<and> Option.bind (json_get v ''names'') as_object = Some names
    \<and> map_of names (n_local nip) = Some (JString (e_pubkey e))"
proof -
  from assms obtain nip where n: "get_nip05_addr X e = Some nip"
    and v: "get_web_verification X vu fetch nip (e_pubkey e) = Verified"
    by (auto simp: get_web_verification_from_event_def split: option.splits)
  note d = get_web_verification_Verified [OF v]
  have "\<exists>v names. json_from_str X b = Some v \<and> Option.bind (json_get v ''names'') as_object = Some names
      \<and> map_of names u = Some (JString a)" if "body_contains_user X u a b = Inr True" for u a b
  proof -
    from that obtain v m names j where "json_from_str X b = Some v" "as_object v = Some m"
      "map_of m ''names'' = Some j" "as_object j = Some names" "Option.bind (map_of names u) as_str = Some a"
      by (auto simp: body_contains_user_def bind_eq_Some_conv split: option.splits)
    moreover from this(2) have "v = JObject m" by (cases v) simp_all
    moreover from calculation(5) have "map_of names u = Some (JString a)"
      by (auto simp: bind_eq_Some_conv) (metis as_str.elims option.distinct(1) option.inject)
    ultimately show ?thesis by auto
  qed
  with n d show ?thesis unfolding is_domain_allowed_iff by fastforce
qed

theorem verified_users_are_listed_witness:
  "\<exists>nip url. get_nip05_addr nip_ext nip_event = Some nip \<and> to_url nip_ext nip = Some url
    \<and> get_web_verification_from_event nip_ext (st_verified_users default_settings)
        (\<lambda>u. Response 200 (Some 10) (Some ''b'')) nip_event = Verified"
proof -
  have v: "get_web_verification_from_event nip_ext (st_verified_users default_settings)
      (\<lambda>u. Response 200 (Some 10) (Some ''b'')) nip_event = Verified" by code_simp
  from verified_users_are_listed [OF v] v show ?thesis by blast
qed

text \<open>A rejection always starts with one known prefix, which decides its status, is kept when the text already had it, and is not added twice; only the prefix of duplicates, which an operator's text may carry, is sent as an acceptance.\<close>

theorem rejections_have_one_prefix:
  "\<exists>p d s. p \<in> set known_prefixes \<and> from_prefix p = Some s \<and> (to_bool s \<longleftrightarrow> p = ''duplicate'')
    \<and> from_reason i m = EventResult \<lparr>er_id = i, er_msg = p @ '': '' @ d, er_status = s\<rparr>
    \<and> from_reason i (p @ '': '' @ d) = from_reason i m
    \<and> (has_reason m \<longrightarrow> p @ '': '' @ d = m)"
proof -
  obtain p d s where p: "p \<in> set known_prefixes" "from_prefix p = Some s" "s \<noteq> Saved"
    and e: "ensure_reason m Blocked = p @ '': '' @ d"
    and f: "prefixed i m Blocked = EventResult \<lparr>er_id = i, er_msg = p @ '': '' @ d, er_status = s\<rparr>"
    by (rule prefixed_cases [of Blocked m i]) simp_all
  have h: "has_reason (p @ '': '' @ d)" using p(1) by (auto simp: has_reason_def)
  have "prefixed i (p @ '': '' @ d) Blocked = EventResult \<lparr>er_id = i, er_msg = p @ '': '' @ d, er_status = s\<rparr>"
    unfolding prefixed_def Let_def ensure_reason_keep [OF h] parse_reason_known [OF p(1)] by (simp add: p(2))
  then have "from_reason i (p @ '': '' @ d) = from_reason i m" by (simp only: from_reason_prefixed f)
  moreover have "to_bool s \<longleftrightarrow> p = ''duplicate''"
    using p by (auto simp: known_prefixes_def from_prefix_def)
  moreover have "has_reason m \<Longrightarrow> p @ '': '' @ d = m" using e ensure_reason_keep [of m Blocked] by simp
  ultimately show ?thesis using p f unfolding from_reason_prefixed by blast
qed

theorem rejections_have_one_prefix_witness:
  "\<exists>p d s. p \<in> set known_prefixes \<and> p @ '': '' @ d = ''pow: 8 bits''
    \<and> from_reason ''a1'' ''pow: 8 bits'' = EventResult \<lparr>er_id = ''a1'', er_msg = p @ '': '' @ d, er_status = s\<rparr>"
proof -
  have "has_reason ''pow: 8 bits''" by (auto simp: has_reason_def known_prefixes_def)
  with rejections_have_one_prefix [of "''a1''" "''pow: 8 bits''"] show ?thesis by blast
qed

text \<open>Settings that load from a file have a consistent connection pool, durations that parsed, and complete payment settings; anything else ends the program.\<close>

theorem loaded_settings_ok:
  assumes "new_from_default X rf build dflt f = Done (Inr st)"
  shows "min_conn (st_database st) \<le> max_conn (st_database st)
    \<and> verify_expiration_duration (st_verified_users st) \<noteq> None
    \<and> verify_update_frequency_duration (st_verified_users st) \<noteq> None
    \<and> pay_settings_ok (st_pay_to_relay st)"
  using new_from_default_ok [OF assms] by (simp add: settings_ok_def)

theorem loaded_settings_ok_witness:
  "\<exists>st. new_from_default (ext0\<lparr>parse_duration := (\<lambda>s. Some 9)\<rparr>) (\<lambda>p. Inl ''no file'') (\<lambda>d p. Inr d) default_settings None = Done (Inr st)
    \<and> verify_expiration_duration (st_verified_users st) \<noteq> None"
proof -
  have "map_exec (\<lambda>r. case r of Inr st \<Rightarrow> True | Inl e \<Rightarrow> False) (new_from_default (ext0\<lparr>parse_duration := (\<lambda>s. Some 9)\<rparr>)
    (\<lambda>p. Inl ''no file'') (\<lambda>d p. Inr d) default_settings None) = Done True" by code_simp
  then obtain r where "new_from_default (ext0\<lparr>parse_duration := (\<lambda>s. Some 9)\<rparr>)
      (\<lambda>p. Inl ''no file'') (\<lambda>d p. Inr d) default_settings None = Done r"
    and "case r of Inr st \<Rightarrow> True | Inl e \<Rightarrow> False" by (auto simp: map_exec_eq_Done)
  then obtain st where "new_from_default (ext0\<lparr>parse_duration := (\<lambda>s. Some 9)\<rparr>)
    (\<lambda>p. Inl ''no file'') (\<lambda>d p. Inr d) default_settings None = Done (Inr st)" by (cases r) auto
  from loaded_settings_ok [OF this] this show ?thesis by blast
qed

text \<open>The clean-up removes exactly the rows whose expiration has passed, so no row that a query could still return, and keeps the invariant of the tables.\<close>

theorem expired_rows_deleted:
  assumes "uint now < 2 ^ 63" and "db_inv db"
  shows "events (fst (delete_expired now db)) = filter (\<lambda>r. \<forall>x. ev_expires r = Some x \<longrightarrow> uint now < x) (events db)
    \<and> db_inv (fst (delete_expired now db))
    \<and> (\<forall>r \<in> set (events db). current_row now r \<longrightarrow> r \<in> set (events (fst (delete_expired now db))))"
  using delete_expired_events [OF assms(1)] delete_expired_inv [OF assms(2)]
  by (auto simp: current_row_def opt_all_def)

theorem expired_rows_deleted_witness:
  "events (fst (delete_expired 100 (stored (sample ''a1'' ''bb'' 50 1 [[''expiration'', ''99'']]) (stored note1 empty_db))))
    = filter (\<lambda>r. \<forall>x. ev_expires r = Some x \<longrightarrow> 100 < x) (events (stored (sample ''a1'' ''bb'' 50 1 [[''expiration'', ''99'']]) (stored note1 empty_db)))
    \<and> length (events (fst (delete_expired 100 (stored (sample ''a1'' ''bb'' 50 1 [[''expiration'', ''99'']]) (stored note1 empty_db))))) = 1"
proof -
  let ?db = "stored (sample ''a1'' ''bb'' 50 1 [[''expiration'', ''99'']]) (stored note1 empty_db)"
  have "length (events (fst (delete_expired 100 ?db))) = 1" by code_simp
  then show ?thesis using expired_rows_deleted [of 100 ?db] by (simp add: sample_ok)
qed

text \<open>The PostgreSQL tables keep their keys and references and at most one row for each author and replaceable kind, a replaceable event that is stored is the only and latest row of its kind, and cleaning up keeps all this.\<close>

theorem postgres_invariant:
  assumes "pg_inv db" and "pg_write_event X ts_ok now down e db = Done (db', res)"
  shows "pg_inv db'
    \<and> (is_replaceable e \<and> res = Inr 1 \<and> hex_decode X (e_pubkey e) = Some pk \<longrightarrow>
      (\<exists>r. filter (\<lambda>x. pe_pub_key x = pk \<and> pe_kind x = sint (e_kind e)) (pg_events db') = [r]
        \<and> hex_decode X (e_id e) = Some (pe_id r) \<and> \<not> pe_hidden r \<and> pe_created r = sint (e_created_at e)
        \<and> (\<forall>x \<in> set (pg_events db). pe_pub_key x = pk \<and> pe_kind x = sint (e_kind e) \<longrightarrow> pe_created x < pe_created r)))
    \<and> (pg_delete_expired ts_ok now db' = Done (db2, res2) \<longrightarrow> pg_inv db2)"
proof -
  have i: "pg_inv db'" by (rule pg_write_inv [OF assms])
  then have "pg_delete_expired ts_ok now db' = Done (db2, res2) \<longrightarrow> pg_inv db2" using pg_delete_expired_inv by blast
  moreover have "is_replaceable e \<and> res = Inr 1 \<and> hex_decode X (e_pubkey e) = Some pk \<longrightarrow>
      (\<exists>r. filter (\<lambda>x. pe_pub_key x = pk \<and> pe_kind x = sint (e_kind e)) (pg_events db') = [r]
        \<and> hex_decode X (e_id e) = Some (pe_id r) \<and> \<not> pe_hidden r \<and> pe_created r = sint (e_created_at e)
        \<and> (\<forall>x \<in> set (pg_events db). pe_pub_key x = pk \<and> pe_kind x = sint (e_kind e) \<longrightarrow> pe_created x < pe_created r))"
    using assms(2) by (auto intro!: pg_write_replaceable)
  ultimately show ?thesis using i by blast
qed

theorem postgres_invariant_witness:
  "\<exists>r. filter (\<lambda>x. pe_pub_key x = [CHR 0xBB] \<and> pe_kind x = 0) (pg_events (pg_stored metadata2 (pg_stored metadata1 empty_pg))) = [r]
    \<and> pe_id r = [CHR 0xA2] \<and> pg_inv (pg_stored metadata2 (pg_stored metadata1 empty_pg))"
proof -
  let ?db = "pg_stored metadata1 empty_pg"
  have i: "pg_inv ?db" by (simp add: pg_inv_empty)
  have w: "map_exec snd (pg_write_event ext0 (\<lambda>t. True) 100 None metadata2 ?db) = Done (Inr 1)" by code_simp
  have c: "is_replaceable metadata2" "hex_decode ext0 (e_pubkey metadata2) = Some [CHR 0xBB]"
    "hex_decode ext0 (e_id metadata2) = Some [CHR 0xA2]" "sint (e_kind metadata2) = 0"
    by code_simp+
  from postgres_invariant [where pk = "[CHR 0xBB]" and ?db2.0 = empty_pg and ?res2.0 = "Inr 0", OF i pg_stored_result [OF w]] c show ?thesis by auto
qed

text \<open>A relay whose information document says that writes are not restricted accepts every author: neither payment, a list of keys nor address verification stops an event, and it advertises that no payment is required.\<close>

theorem advertised_limits_hold:
  assumes "advertises (relay_info_to_json (relay_info_of v (we_settings env))) ''restricted_writes'' = Some False"
  shows "account_stage env now e db = Done (Proceed None)
    \<and> nip05_stage (st_verified_users (we_settings env)) now e val = Proceed ()
    \<and> advertises (relay_info_to_json (relay_info_of v (we_settings env))) ''payment_required'' = Some False"
proof -
  have l: "li_restricted_writes (limitation_of (we_settings env)) = Some False"
    using assms by (simp add: advertised_limits)
  then have "advertises (relay_info_to_json (relay_info_of v (we_settings env))) ''payment_required'' = Some False"
    by (simp add: advertised_limits limitation_of_def)
  with unrestricted_authors [OF l] show ?thesis by blast
qed

theorem advertised_limits_hold_witness:
  "account_stage (sample_env default_settings) 100 note1 empty_db = Done (Proceed None)
    \<and> advertises (relay_info_to_json (relay_info_of None default_settings)) ''payment_required'' = Some False"
proof -
  have s: "we_settings (sample_env default_settings) = default_settings" by (simp add: sample_env_def)
  have "advertises (relay_info_to_json (relay_info_of None (we_settings (sample_env default_settings)))) ''restricted_writes'' = Some False"
    unfolding s by code_simp
  from advertised_limits_hold [OF this] s show ?thesis by simp
qed

text \<open>A wrap-around: the PostgreSQL store keeps a balance below zero but reads it as an unsigned number, so an account that is charged more than it has shows more than half the range of the word.\<close>

theorem postgres_balance_wraps:
  assumes "pg_admit_account pk cost db = (db', Inr ())" and "pg_balance_of db pk = Some b"
    and "b < sint cost" and "- (2 ^ 63) \<le> b - sint cost"
  shows "pg_balance_of db' pk = Some (b - sint cost)
    \<and> (\<exists>n. pg_account_balance pk db' = Inr (True, n) \<and> 2 ^ 63 \<le> n)"
  using pg_admit_shows [OF assms(1,2)] word_of_negative [of "b - sint cost"] assms(3,4) by simp

theorem postgres_balance_wraps_witness:
  "\<exists>n. pg_account_balance ''bb'' (fst (pg_admit_account ''bb'' 5 poor_pg)) = Inr (True, n) \<and> 2 ^ 63 \<le> n"
proof -
  have "snd (pg_admit_account ''bb'' 5 poor_pg) = Inr ()" and b: "pg_balance_of poor_pg ''bb'' = Some 2" by code_simp+
  then have "pg_admit_account ''bb'' 5 poor_pg = (fst (pg_admit_account ''bb'' 5 poor_pg), Inr ())" by (simp add: prod_eq_iff)
  from postgres_balance_wraps [OF this b] show ?thesis by simp
qed

text \<open>The bulk loader stores an ordinary event, one that neither replaces, deletes nor expires and that no stored deletion names, exactly as the relay does.\<close>

theorem loader_matches_relay:
  assumes "db_inv db" and "\<not> is_replaceable e" and "distinct_param e = None" and "e_kind e \<noteq> 5" and "expiration e = None"
    and "\<forall>pk. hex_decode X (e_pubkey e) = Some pk \<longrightarrow> \<not> deletion_recorded pk (e_id e) db"
  shows "load_event X now e db = persist_event X now e db"
  using assms by (intro load_ordinary) (simp_all add: ordinary_def db_inv_def)

theorem loader_matches_relay_witness:
  "load_event ext0 100 note1 (stored metadata1 empty_db) = persist_event ext0 100 note1 (stored metadata1 empty_db)
    \<and> length (events (fst (load_event ext0 100 note1 (stored metadata1 empty_db)))) = 2"
proof -
  have c: "\<not> is_replaceable note1" "distinct_param note1 = None" "e_kind note1 \<noteq> 5" "expiration note1 = None"
    and n: "length (events (fst (load_event ext0 100 note1 (stored metadata1 empty_db)))) = 2"
    and d: "\<not> deletion_recorded [CHR 0xBB] (e_id note1) (stored metadata1 empty_db)"
      "hex_decode ext0 (e_pubkey note1) = Some [CHR 0xBB]"
    by code_simp+
  have "db_inv (stored metadata1 empty_db)" by (simp add: sample_ok)
  from loader_matches_relay [OF this c, of ext0 100] d n show ?thesis by simp
qed

text \<open>The PostgreSQL migrations are recorded, all five of them, and running them again on the database they leave changes nothing.\<close>

theorem migrations_run_once:
  assumes "run_migrations X by_id s = Done (s1, Inr v)"
  shows "run_migrations X by_id s1 = Done (s1, Inr v)
    \<and> (\<exists>ns. pgs_migrations s1 = Some ns \<and> {1, 2, 3, 4, 5} \<subseteq> set ns)"
  using migrations_again [OF assms] migrations_recorded(1) [OF assms] by (simp add: recorded_def)

theorem migrations_run_once_witness:
  "\<exists>s1. run_migrations ext0 rev \<lparr>pgs_db = empty_pg, pgs_schema = empty_schema, pgs_migrations = None\<rparr> = Done (s1, Inr 5)
    \<and> run_migrations ext0 rev s1 = Done (s1, Inr 5)"
proof -
  have "map_exec snd (run_migrations ext0 rev \<lparr>pgs_db = empty_pg, pgs_schema = empty_schema, pgs_migrations = None\<rparr>)
      = Done (Inr 5)" by code_simp
  then obtain s1 where r: "run_migrations ext0 rev \<lparr>pgs_db = empty_pg, pgs_schema = empty_schema, pgs_migrations = None\<rparr>
      = Done (s1, Inr 5)" by (auto simp: map_exec_eq_Done)
  from migrations_run_once [OF r] r show ?thesis by blast
qed

text \<open>A defect: the only requests that panic are those to the path of the payment callback whose body cannot be read or is not a callback, which anyone can send.\<close>

theorem web_request_panics:
  "handle_web_request env inbox rq db = Panic \<longleftrightarrow>
     rq_path rq = ''/lnbits'' \<and> map_of (rq_headers rq) ''upgrade'' = None
     \<and> Option.bind (rq_body rq) (\<lambda>b. Option.bind (json_from_str (wb_ext env) b) callback_hash) = None"
  by (rule web_Panic)

text \<open>A defect: a query ends early, as if a checkpoint was running, when it looks at the checkpoint lock at the moment another query does; two queries and no checkpoint are enough.\<close>

theorem query_cut_short:
  assumes "2 \<le> blocking_threads L" and "2 \<le> reader_conns L"
  shows "\<exists>s. run_schedule L two_queries [] = Some s \<and> reach L s
    \<and> (\<forall>p \<in> set s. cl_task p = ClientQuery \<and> cl_op p = QuerySubscription 1)
    \<and> map cl_outcome s = [Completed, CheckpointAbort]"
proof -
  from query_aborts_query [OF assms] obtain s where s: "run_schedule L two_queries [] = Some s"
      "map cl_op s = [QuerySubscription 1, QuerySubscription 1]" "map cl_outcome s = [Completed, CheckpointAbort]"
    by (elim exE conjE) (rule that)
  have r: "reach L s" by (rule run_schedule_reach [OF reach_init s(1)])
  have "cl_op p = QuerySubscription 1" if "p \<in> set s" for p using s(2) that by (auto simp: map_eq_Cons_conv)
  moreover from this have "cl_task p = ClientQuery" if "p \<in> set s" for p
    using call_ok_calls [OF reach_calls_ok [OF r that]] that by (cases "cl_task p") auto
  ultimately show ?thesis using s(1,3) r by (intro exI [of _ s] conjI ballI) simp_all
qed

theorem query_cut_short_witness:
  "\<exists>s. run_schedule (limits_of default_settings) two_queries [] = Some s
    \<and> map cl_outcome s = [Completed, CheckpointAbort]"
  using query_cut_short [of "limits_of default_settings"] by (auto simp: default_limits)

text \<open>The pages for accounts and invoices take the public key from the address, but have exactly the markup, quotes and slashes that they have with an empty key, provided that a recognised key has letters and digits only.\<close>

theorem no_markup_from_key:
  assumes "key_law (wb_ext env)" and "c \<in> set markup"
    and "handle_web_request env inbox rq db = Done (ms, Respond r)"
  shows "(rs_body r = AccountPage pk s \<longrightarrow>
      count_list (page_body print metrics qr (rs_body r)) c = count_list (account_html [] s) c)
    \<and> (rs_body r = InvoicePage n b pk \<longrightarrow>
      count_list (page_body print metrics qr (rs_body r)) c = count_list (invoice_html (qr_text qr b) n b []) c)"
  using page_markup [OF assms] by blast

theorem no_markup_from_key_witness:
  "\<exists>ms r s. handle_web_request (key_web paid_settings) [] account_request invoice_db = Done (ms, Respond r)
    \<and> rs_body r = AccountPage ''bb'' s
    \<and> count_list (page_body (\<lambda>j. None) [] Some (rs_body r)) (CHR ''<'') = count_list (account_html [] s) (CHR ''<'')"
proof -
  let ?env = "key_web paid_settings"
  have k: "key_law (wb_ext ?env)" by (simp add: key_law_def key_web_def)
  have c: "CHR ''<'' \<in> set markup" by (simp add: markup_def)
  have "(case handle_web_request ?env [] account_request invoice_db of
      Done (ms, Respond r) \<Rightarrow> (case rs_body r of AccountPage p s \<Rightarrow> p = ''bb'' | _ \<Rightarrow> False) | _ \<Rightarrow> False)" by code_simp
  then obtain ms r s where r: "handle_web_request ?env [] account_request invoice_db = Done (ms, Respond r)"
      "rs_body r = AccountPage ''bb'' s"
    by (auto split: exec.splits prod.splits web_outcome.splits page.splits)
  from no_markup_from_key [OF k c r(1), of "''bb''" s] r show ?thesis by blast
qed

text \<open>How the program starts once its settings are read: without the data directory it ends, but with the exit code of success; a server that starts has threads, and its PostgreSQL database has all migrations. A defect: an SQLite database that is newer than the program panics the upgrade, and the relay serves it all the same.\<close>

theorem startup_outcomes:
  assumes "main_settings X H build_config args = Done (Inr (st, lg))"
  shows "(\<not> h_is_dir H (data_directory (st_database st)) \<longrightarrow>
      main_run X by_id H build_config pay_ok args = Inl 0)
    \<and> (\<forall>sv. main_run X by_id H build_config pay_ok args = Inr sv \<longrightarrow>
      sv_verifier sv = vu_is_active (st_verified_users st) \<and> sv_payment sv = pay_enabled (st_pay_to_relay st)
      \<and> (sv_payment sv \<longrightarrow> pay_ok) \<and> 0 < blocking_threads (limits_of st)
      \<and> (\<forall>s v. sv_repo sv = PostgresRepository s v \<longrightarrow> recorded {1, 2, 3, 4, 5} s \<and> current_version s = Done v)
      \<and> (\<forall>s. db_engine (st_database st) = ''sqlite'' \<and> h_sqlite H (data_directory (st_database st)) = Some s
          \<and> db_version < od_version s \<longrightarrow> sv_repo sv = SqliteRepository Panic))"
proof -
  have "\<not> h_is_dir H (data_directory (st_database st)) \<longrightarrow> main_run X by_id H build_config pay_ok args = Inl 0"
    by (simp add: main_run_def assms start_server_def)
  moreover have "sv_verifier sv = vu_is_active (st_verified_users st) \<and> sv_payment sv = pay_enabled (st_pay_to_relay st)
      \<and> (sv_payment sv \<longrightarrow> pay_ok) \<and> 0 < blocking_threads (limits_of st)
      \<and> (\<forall>s v. sv_repo sv = PostgresRepository s v \<longrightarrow> recorded {1, 2, 3, 4, 5} s \<and> current_version s = Done v)
      \<and> (\<forall>s. db_engine (st_database st) = ''sqlite'' \<and> h_sqlite H (data_directory (st_database st)) = Some s
          \<and> db_version < od_version s \<longrightarrow> sv_repo sv = SqliteRepository Panic)"
    if m: "main_run X by_id H build_config pay_ok args = Inr sv" for sv
  proof -
    from main_run_serving [OF m] assms have "start_server X by_id H pay_ok st = Serving sv" by auto
    note f = start_server_serving [OF this]
    have "0 < blocking_threads (limits_of st)" using f(2) by (simp add: limits_of_def unat_gt_0)
    moreover have "recorded {1, 2, 3, 4, 5} s \<and> current_version s = Done v" if "sv_repo sv = PostgresRepository s v" for s v
      using build_repo_migrated [of X by_id H st s v] f(3) that by simp
    moreover have "sv_repo sv = SqliteRepository Panic"
      if "db_engine (st_database st) = ''sqlite''" "h_sqlite H (data_directory (st_database st)) = Some s"
        "db_version < od_version s" for s
      using sqlite_too_new [OF that, of X by_id] f(3) by simp
    ultimately show ?thesis using f(4-6) by blast
  qed
  ultimately show ?thesis by blast
qed

theorem startup_outcomes_witness:
  "main_run ext0 id (sample_host True) (\<lambda>st s. Inl []) True no_args = Inr \<lparr>sv_repo = SqliteRepository Panic,
      sv_verifier = False, sv_payment = False, sv_favicon = None\<rparr>
    \<and> main_run ext0 id (sample_host False) (\<lambda>st s. Inl []) True no_args = Inl 0"
proof -
  have s: "main_settings ext0 (sample_host b) (\<lambda>st s. Inl []) no_args = Done (Inr (default_settings, log_target default_settings))"
    for b
    unfolding main_settings_def settings_new_def new_from_default_def no_args_def sample_host_def by simp
  have "(case main_run ext0 id (sample_host True) (\<lambda>st s. Inl []) True no_args of Inl _ \<Rightarrow> False
      | Inr sv \<Rightarrow> sv_favicon sv = None)" by code_simp
  then obtain sv where m: "main_run ext0 id (sample_host True) (\<lambda>st s. Inl []) True no_args = Inr sv" "sv_favicon sv = None"
    by (auto split: sum.splits)
  have d: "db_engine (st_database default_settings) = ''sqlite''" "\<not> vu_is_active (st_verified_users default_settings)"
      "\<not> pay_enabled (st_pay_to_relay default_settings)"
    by code_simp+
  have h: "h_sqlite (sample_host True) x = Some (first_db\<lparr>od_version := 19\<rparr>)" "db_version < od_version (first_db\<lparr>od_version := 19\<rparr>)"
    "\<not> h_is_dir (sample_host False) x" for x
    by (simp_all add: sample_host_def first_db_def db_version_def)
  from startup_outcomes [OF s, of True id True] m d h
  have "sv = \<lparr>sv_repo = SqliteRepository Panic, sv_verifier = False, sv_payment = False, sv_favicon = None\<rparr>"
    by (cases sv) auto
  with m startup_outcomes [OF s, of False id True] h(3) show ?thesis by simp
qed

text \<open>With a single blocking thread the bound of the liveness theorem is missed: a write and two calls for accounts can wait for each other.\<close>

theorem one_thread_stalls:
  assumes "blocking_threads L = 1"
  shows "\<exists>s. reach L s \<and> stuck L s
    \<and> map cl_todo s = [drop 2 write_event_prog, drop 1 account_prog, drop 1 account_prog]"
  using one_thread_stuck [OF assms] by (elim exE conjE) (intro exI conjI; (assumption | erule run_schedule_reach [OF reach_init]))

text \<open>The verifier goes on through all errors and ends only when the channel of metadata events is closed.\<close>

theorem verifier_stops_with_channel:
  "snd (snd (verifier_run X (\<lambda>now. sqlite_repo X (j now) now (busy now)) vu fetch ins s)) \<longleftrightarrow> MetadataClosed \<notin> snd ` set ins"
  by (rule verifier_runs_on)

end
